(* ===== verification/Okv_Prelude.thy ===== *)
theory Okv_Prelude
  imports
    Main
    "HOL-Library.Word"
    "HOL-Library.List_Lexorder"
    "HOL-Library.Product_Lexorder"
    "HOL-Library.Char_ord"
    "HOL-Library.Sublist"
begin

text \<open>
  Shared vocabulary of the objectKV development: the machine integers of the Rust sources,
  \<open>Result\<close> with its \<open>?\<close> operator, saturating and checked arithmetic, \<open>BTreeMap\<close> as a
  strictly key-sorted association list (with the locale \<open>ordered_map\<close> as its contract),
  big-endian integer encodings, the locales \<open>prefix_free\<close> and \<open>prefix_codec\<close> for the wire
  formats, and the locale \<open>invariant_system\<close> for the deterministic state machines.
\<close>

named_theorems btree_simps \<open>lookup and membership laws of the BTreeMap model\<close>
named_theorems word_arith_simps \<open>saturating and checked arithmetic\<close>

section \<open>Types and results\<close>

type_synonym u8 = "8 word"
type_synonym u16 = "16 word"
type_synonym u32 = "32 word"
type_synonym u64 = "64 word"
type_synonym bytes = "u8 list"

text \<open>Rust's \<open>Result\<close>, with the value first as in the source.\<close>

datatype ('a, 'e) result = Ok 'a | Err 'e

text \<open>The \<open>?\<close> operator: continue with the value, or return the error.\<close>

fun try_bind :: "('a, 'e) result \<Rightarrow> ('a \<Rightarrow> ('b, 'e) result) \<Rightarrow> ('b, 'e) result" where
  "try_bind (Ok x) f = f x"
| "try_bind (Err e) f = Err e"

lemma try_bind_Ok_iff: "try_bind r f = Ok y \<longleftrightarrow> (\<exists>x. r = Ok x \<and> f x = Ok y)"
  by (cases r) auto

lemma try_bind_cong [fundef_cong]:
  "r = r' \<Longrightarrow> (\<And>x. r' = Ok x \<Longrightarrow> f x = f' x) \<Longrightarrow> try_bind r f = try_bind r' f'"
  by (cases r') auto

text \<open>Byte strings such as \<open>b"okv-commit-v2"\<close>.\<close>

definition ascii :: "string \<Rightarrow> bytes" where
  "ascii s = map (\<lambda>c. word_of_nat (of_char c)) s"

section \<open>Saturating and checked arithmetic\<close>

definition saturating_add :: "'a::len word \<Rightarrow> 'a word \<Rightarrow> 'a word" where
  "saturating_add a b = (if unat a + unat b < 2 ^ LENGTH('a) then a + b else -1)"

definition saturating_sub :: "'a::len word \<Rightarrow> 'a word \<Rightarrow> 'a word" where
  "saturating_sub a b = (if b \<le> a then a - b else 0)"

lemma unat_minus_1: "unat (- 1 :: 'a::len word) = 2 ^ LENGTH('a) - 1"
  by (simp add: unsigned_minus_1_eq_mask mask_eq_exp_minus_1)

lemma unat_bound: "unat (a :: 'a::len word) < 2 ^ LENGTH('a)"
  by (rule unsigned_less)

lemma unat_le_max [simp]: "unat (a :: 'a::len word) \<le> 2 ^ LENGTH('a) - Suc 0"
  using unat_bound[of a] by linarith

lemma unat_saturating_add [word_arith_simps]:
  "unat (saturating_add a b) = min (unat a + unat b) (2 ^ LENGTH('a) - 1)"
  for a b :: "'a::len word"
proof (cases "unat a + unat b < 2 ^ LENGTH('a)")
  case True
  then show ?thesis
    by (simp add: saturating_add_def unat_word_ariths)
next
  case False
  then show ?thesis
    by (simp add: saturating_add_def unat_minus_1)
qed

lemma saturating_add_ge [simp]: "a \<le> saturating_add a b"
  by (simp add: word_le_nat_alt unat_saturating_add)

lemma saturating_succ_gt: "a \<noteq> - 1 \<Longrightarrow> a < saturating_add a 1" for a :: "'a::len word"
proof -
  assume "a \<noteq> - 1"
  then have "unat a \<noteq> 2 ^ LENGTH('a) - Suc 0"
    by (simp add: word_unat_eq_iff unat_minus_1)
  with unat_le_max[of a] have "unat a < 2 ^ LENGTH('a) - Suc 0"
    by linarith
  then show ?thesis
    by (simp add: word_less_nat_alt unat_saturating_add)
qed

lemma saturating_sub_le [simp]: "saturating_sub a b \<le> a"
  by (auto simp: saturating_sub_def intro: word_sub_le)

lemma unat_saturating_sub [word_arith_simps]: "unat (saturating_sub a b) = unat a - unat b"
  by (auto simp: saturating_sub_def unat_sub word_le_nat_alt not_le)

text \<open>\<open>u64::try_from(value).unwrap_or(u64::MAX)\<close> of a \<open>usize\<close>.\<close>

definition to_u64 :: "nat \<Rightarrow> u64" where
  "to_u64 n = (if n < 2 ^ 64 then word_of_nat n else - 1)"

section \<open>BTreeMap\<close>

text \<open>
  A \<open>BTreeMap\<close> is the list of its entries in key order. \<open>bt_get\<close>, \<open>bt_insert\<close> and
  \<open>bt_remove\<close> are \<open>get\<close>, \<open>insert\<close> and \<open>remove\<close>; iteration, \<open>values()\<close>, \<open>range\<close> and
  \<open>next_back\<close> read the list.
\<close>

type_synonym ('k, 'v) btree = "('k \<times> 'v) list"

definition bt_wf :: "('k::linorder, 'v) btree \<Rightarrow> bool" where
  "bt_wf m \<longleftrightarrow> sorted_wrt (<) (map fst m)"

definition bt_get :: "('k, 'v) btree \<Rightarrow> 'k \<Rightarrow> 'v option" where
  "bt_get m k = map_of m k"

fun bt_insert :: "'k::linorder \<Rightarrow> 'v \<Rightarrow> ('k, 'v) btree \<Rightarrow> ('k, 'v) btree" where
  "bt_insert k v [] = [(k, v)]"
| "bt_insert k v ((a, b) # m) =
     (if k < a then (k, v) # (a, b) # m
      else if k = a then (k, v) # m
      else (a, b) # bt_insert k v m)"

definition bt_remove :: "'k \<Rightarrow> ('k, 'v) btree \<Rightarrow> ('k, 'v) btree" where
  "bt_remove k m = filter (\<lambda>(a, _). a \<noteq> k) m"

definition bt_contains :: "('k, 'v) btree \<Rightarrow> 'k \<Rightarrow> bool" where
  "bt_contains m k \<longleftrightarrow> bt_get m k \<noteq> None"

definition bt_values :: "('k, 'v) btree \<Rightarrow> 'v list" where
  "bt_values m = map snd m"

text \<open>\<open>entry(k).or_default().push(x)\<close> on a map of vectors, and \<open>range(s..e)\<close>.\<close>

definition bt_push :: "'k::linorder \<Rightarrow> 'v \<Rightarrow> ('k, 'v list) btree \<Rightarrow> ('k, 'v list) btree" where
  "bt_push k x m = bt_insert k ((case bt_get m k of None \<Rightarrow> [] | Some h \<Rightarrow> h) @ [x]) m"

definition bt_range :: "'k::linorder \<Rightarrow> 'k \<Rightarrow> ('k, 'v) btree \<Rightarrow> ('k, 'v) btree" where
  "bt_range s e m = filter (\<lambda>(k, v). s \<le> k \<and> k < e) m"

lemma bt_wf_Nil [simp]: "bt_wf []"
  by (simp add: bt_wf_def)

lemma bt_wf_Cons: "bt_wf ((k, v) # m) \<longleftrightarrow> (\<forall>a \<in> fst ` set m. k < a) \<and> bt_wf m"
  by (auto simp: bt_wf_def)

lemma bt_wf_distinct: "bt_wf m \<Longrightarrow> distinct (map fst m)"
  by (simp add: bt_wf_def strict_sorted_iff)

lemma bt_get_Nil [simp]: "bt_get [] k = None"
  by (simp add: bt_get_def)

lemma bt_get_Cons: "bt_get ((a, b) # m) k = (if k = a then Some b else bt_get m k)"
  by (simp add: bt_get_def)

lemma bt_get_insert [simp, btree_simps]:
  "bt_get (bt_insert k v m) k' = (if k' = k then Some v else bt_get m k')"
  by (induction k v m rule: bt_insert.induct) (auto simp: bt_get_Cons)

lemma bt_get_remove [simp, btree_simps]:
  "bt_get (bt_remove k m) k' = (if k' = k then None else bt_get m k')"
  by (induction m) (auto simp: bt_get_Cons bt_remove_def)

lemma bt_contains_insert [simp, btree_simps]: "bt_contains (bt_insert k v m) j \<longleftrightarrow> j = k \<or> bt_contains m j"
  by (simp add: bt_contains_def)

lemma bt_contains_remove [simp, btree_simps]: "bt_contains (bt_remove k m) j \<longleftrightarrow> j \<noteq> k \<and> bt_contains m j"
  by (simp add: bt_contains_def)

lemma fst_set_bt_insert: "fst ` set (bt_insert k v m) = insert k (fst ` set m)"
  by (induction k v m rule: bt_insert.induct) auto

lemma bt_wf_insert [simp, btree_simps]: "bt_wf m \<Longrightarrow> bt_wf (bt_insert k v m)"
proof (induction k v m rule: bt_insert.induct)
  case (1 k v)
  show ?case by (simp add: bt_wf_def)
next
  case (2 k v a b m)
  then have m: "bt_wf m" and a: "\<forall>x \<in> fst ` set m. a < x"
    by (simp_all add: bt_wf_Cons)
  show ?case
  proof (cases "k < a")
    case True
    with 2 a show ?thesis
      by (auto simp: bt_wf_Cons)
  next
    case False
    with 2 m a show ?thesis
      by (auto simp: bt_wf_Cons fst_set_bt_insert)
  qed
qed

lemma bt_wf_remove [simp, btree_simps]: "bt_wf m \<Longrightarrow> bt_wf (bt_remove k m)"
  by (induction m) (auto simp: bt_wf_Cons bt_remove_def)

lemma bt_wf_filter [simp, btree_simps]: "bt_wf m \<Longrightarrow> bt_wf (filter P m)"
  by (induction m) (auto simp: bt_wf_Cons)

lemma bt_entry_iff [btree_simps]: "bt_wf m \<Longrightarrow> (k, v) \<in> set m \<longleftrightarrow> bt_get m k = Some v"
  by (simp add: bt_get_def bt_wf_distinct)

lemma bt_get_entry: "bt_get m k = Some v \<Longrightarrow> (k, v) \<in> set m"
  by (simp add: bt_get_def map_of_SomeD)

lemma bt_ext:
  assumes "bt_wf m" and "bt_wf n" and "\<And>k. bt_get m k = bt_get n k"
  shows "m = n"
proof -
  have "set m = set n"
    using assms bt_entry_iff[of m] bt_entry_iff[of n] by auto
  moreover have "sorted (map fst m)" "sorted (map fst n)"
    "distinct (map fst m)" "distinct (map fst n)"
    using assms(1,2) by (simp_all add: bt_wf_def strict_sorted_iff)
  ultimately show ?thesis
    by (intro map_sorted_distinct_set_unique[of fst]) (auto simp: distinct_map)
qed

lemma bt_insert_last: "\<forall>a \<in> fst ` set m. a < k \<Longrightarrow> bt_insert k v m = m @ [(k, v)]"
  by (induction m) auto

lemma bt_any_values: "bt_wf m \<Longrightarrow> list_ex P (bt_values m) \<longleftrightarrow> (\<exists>k v. bt_get m k = Some v \<and> P v)"
  by (force simp: list_ex_iff bt_values_def bt_entry_iff[symmetric])

lemma bt_all_values: "bt_wf m \<Longrightarrow> list_all P (bt_values m) \<longleftrightarrow> (\<forall>k v. bt_get m k = Some v \<longrightarrow> P v)"
  by (force simp: list_all_iff bt_values_def bt_entry_iff[symmetric])

lemma bt_value_iff: "bt_wf m \<Longrightarrow> v \<in> set (bt_values m) \<longleftrightarrow> (\<exists>k. bt_get m k = Some v)"
  by (force simp: bt_values_def bt_entry_iff[symmetric])

lemma bt_get_filter:
  "bt_wf m \<Longrightarrow> bt_get (filter (\<lambda>(k, v). P k v) m) k =
     (case bt_get m k of None \<Rightarrow> None | Some v \<Rightarrow> if P k v then Some v else None)"
proof (induction m)
  case Nil
  then show ?case by simp
next
  case (Cons e m)
  obtain a b where e: "e = (a, b)" by (cases e)
  have none: "bt_get m a = None"
    using Cons.prems bt_get_entry[of m a] by (cases "bt_get m a") (fastforce simp: e bt_wf_Cons)+
  show ?case
    using Cons none by (auto simp: e bt_wf_Cons bt_get_Cons)
qed

text \<open>The contract of an ordered map, as the clients of \<open>BTreeMap\<close> rely on it.\<close>

locale ordered_map =
  fixes wf :: "'m \<Rightarrow> bool"
    and emp :: "'m"
    and get :: "'m \<Rightarrow> 'k::linorder \<Rightarrow> 'v option"
    and put :: "'k \<Rightarrow> 'v \<Rightarrow> 'm \<Rightarrow> 'm"
    and del :: "'k \<Rightarrow> 'm \<Rightarrow> 'm"
    and entries :: "'m \<Rightarrow> ('k \<times> 'v) list"
  assumes wf_emp: "wf emp"
    and wf_put: "wf m \<Longrightarrow> wf (put k v m)"
    and wf_del: "wf m \<Longrightarrow> wf (del k m)"
    and get_emp: "get emp k = None"
    and get_put: "get (put k v m) k' = (if k' = k then Some v else get m k')"
    and get_del: "get (del k m) k' = (if k' = k then None else get m k')"
    and entries_iff: "wf m \<Longrightarrow> (k, v) \<in> set (entries m) \<longleftrightarrow> get m k = Some v"
    and entries_sorted: "wf m \<Longrightarrow> sorted_wrt (<) (map fst (entries m))"
    and entries_inj: "entries m = entries n \<Longrightarrow> m = n"
begin

lemma map_ext: "wf m \<Longrightarrow> wf n \<Longrightarrow> (\<And>k. get m k = get n k) \<Longrightarrow> m = n"
  using bt_ext[of "entries m" "entries n"] entries_iff[of m] entries_iff[of n]
    entries_sorted[of m] entries_sorted[of n]
  by (auto intro!: entries_inj bt_ext simp: bt_wf_def bt_get_def strict_sorted_iff)
     (metis (full_types) map_of_eq_Some_iff not_Some_eq)

lemma put_put: "wf m \<Longrightarrow> put k v (put k w m) = put k v m"
  by (intro map_ext wf_put) (auto simp: get_put)

lemma del_put: "wf m \<Longrightarrow> del k (put k v m) = del k m"
  by (intro map_ext wf_put wf_del) (auto simp: get_put get_del)

lemma put_commute: "wf m \<Longrightarrow> j \<noteq> k \<Longrightarrow> put j v (put k w m) = put k w (put j v m)"
  by (intro map_ext wf_put) (auto simp: get_put)

lemma wf_del_all: "wf m \<Longrightarrow> wf (fold del ks m)"
  by (induction ks arbitrary: m) (auto intro: wf_del)

lemma get_del_all: "get (fold del ks m) k = (if k \<in> set ks then None else get m k)"
  by (induction ks arbitrary: m) (auto simp: get_del)

lemma wf_put_all: "wf m \<Longrightarrow> wf (fold (\<lambda>(k, v). put k v) kvs m)"
  by (induction kvs arbitrary: m) (auto intro: wf_put)

lemma get_put_all:
  "get (fold (\<lambda>(k, v). put k v) kvs m) k = (case map_of (rev kvs) k of None \<Rightarrow> get m k | Some v \<Rightarrow> Some v)"
  by (induction kvs rule: rev_induct) (auto simp: get_put)

end

interpretation bt: ordered_map bt_wf "[]" bt_get bt_insert bt_remove "\<lambda>m. m"
  by unfold_locales (auto simp: bt_entry_iff bt_wf_def[symmetric])

section \<open>Lists\<close>

lemma find_append: "find P (xs @ ys) = (case find P xs of None \<Rightarrow> find P ys | Some x \<Rightarrow> Some x)"
  by (induction xs) auto

lemma find_in_set: "find P xs = Some x \<Longrightarrow> x \<in> set xs"
  by (induction xs) (auto split: if_splits)

lemma find_cong_set: "(\<And>x. x \<in> set xs \<Longrightarrow> P x = Q x) \<Longrightarrow> find P xs = find Q xs"
  by (induction xs) auto

lemma strict_sorted_remdups_adj: "sorted xs \<Longrightarrow> sorted_wrt (<) (remdups_adj xs)"
  by (induction xs rule: remdups_adj.induct) (auto simp: less_le)

text \<open>Sorting by an injective key and removing adjacent duplicates is a normal form of the set.\<close>

lemma sort_dedup_strict:
  assumes "inj f"
  shows "sorted_wrt (<) (map f (remdups_adj (sort_key f xs)))"
proof -
  have "map f (remdups_adj (sort_key f xs)) = remdups_adj (map f (sort_key f xs))"
    using assms by (simp add: remdups_adj_map_injective)
  then show ?thesis
    by (simp add: strict_sorted_remdups_adj)
qed

lemma sort_dedup_cong:
  assumes "inj f" and "set xs = set ys"
  shows "remdups_adj (sort_key f xs) = remdups_adj (sort_key f ys)"
proof -
  have "map f (remdups_adj (sort_key f zs)) = sorted_list_of_set (f ` set zs)" for zs
    using sort_dedup_strict[OF assms(1), of zs]
    by (intro sorted_distinct_set_unique) (simp_all add: strict_sorted_iff)
  then have "map f (remdups_adj (sort_key f xs)) = map f (remdups_adj (sort_key f ys))"
    using assms(2) by simp
  then show ?thesis
    using assms(1) by (simp add: inj_map_eq_map)
qed

section \<open>Big-endian integers\<close>

fun be_encode :: "nat \<Rightarrow> nat \<Rightarrow> bytes" where
  "be_encode 0 v = []"
| "be_encode (Suc n) v = word_of_nat (v div 256 ^ n) # be_encode n (v mod 256 ^ n)"

fun be_decode :: "bytes \<Rightarrow> nat" where
  "be_decode [] = 0"
| "be_decode (b # bs) = unat b * 256 ^ length bs + be_decode bs"

lemma length_be_encode [simp]: "length (be_encode n v) = n"
  by (induction n arbitrary: v) auto

lemma be_encode_numeral [simp]:
  "be_encode (numeral k) v =
     word_of_nat (v div 256 ^ pred_numeral k) # be_encode (pred_numeral k) (v mod 256 ^ pred_numeral k)"
  by (simp add: numeral_eq_Suc)

lemma unat_byte_of_nat: "unat (word_of_nat v :: u8) = v mod 256"
  by (simp add: unsigned_of_nat take_bit_eq_mod)

lemma be_decode_bound: "be_decode bs < 256 ^ length bs"
proof (induction bs)
  case Nil
  then show ?case by simp
next
  case (Cons b bs)
  have "unat b \<le> 255"
    using unat_le_max[of b] by simp
  then have "unat b * 256 ^ length bs \<le> 255 * 256 ^ length bs"
    by (rule mult_le_mono1)
  with Cons have "unat b * 256 ^ length bs + be_decode bs < 255 * 256 ^ length bs + 256 ^ length bs"
    by (rule add_le_less_mono[rotated])
  then show ?case by simp
qed

lemma be_decode_encode: "be_decode (be_encode n v) = v mod 256 ^ n"
proof (induction n arbitrary: v)
  case 0
  then show ?case by simp
next
  case (Suc n)
  have "be_decode (be_encode (Suc n) v) = v div 256 ^ n mod 256 * 256 ^ n + v mod 256 ^ n"
    by (simp add: Suc.IH unat_byte_of_nat)
  also have "\<dots> = v mod (256 ^ n * 256)"
    by (simp add: mod_mult2_eq)
  finally show ?case
    by (simp add: mult.commute)
qed

lemma be_encode_decode: "length bs = n \<Longrightarrow> be_encode n (be_decode bs) = bs"
proof (induction bs arbitrary: n)
  case Nil
  then show ?case by simp
next
  case (Cons b bs)
  then obtain m where n: "n = Suc m" and m: "length bs = m" by auto
  have "be_decode bs < 256 ^ m"
    using be_decode_bound[of bs] m by simp
  then show ?case
    using Cons.IH[OF m] m by (simp add: n)
qed

lemma less_div_mod_iff:
  fixes v w B :: nat
  shows "v < w \<longleftrightarrow> v div B < w div B \<or> v div B = w div B \<and> v mod B < w mod B"
proof -
  have v: "v = v div B * B + v mod B" and w: "w = w div B * B + w mod B"
    by simp_all
  consider "v div B < w div B" | "v div B = w div B" | "w div B < v div B"
    by linarith
  then show ?thesis
  proof cases
    case 1
    then show ?thesis by (meson div_le_mono leD leI)
  next
    case 2
    then show ?thesis using v w by (metis add_less_cancel_left less_irrefl_nat)
  next
    case 3
    then have "w < v" by (meson div_le_mono leD leI)
    with 3 show ?thesis by simp
  qed
qed

lemma be_encode_less:
  "v < 256 ^ n \<Longrightarrow> w < 256 ^ n \<Longrightarrow> be_encode n v < be_encode n w \<longleftrightarrow> v < w"
proof (induction n arbitrary: v w)
  case 0
  then show ?case by simp
next
  case (Suc n)
  let ?B = "256 ^ n :: nat"
  have hi: "v div ?B < 256" "w div ?B < 256"
    using Suc.prems by (simp_all add: less_mult_imp_div_less)
  have word: "(word_of_nat (v div ?B) :: u8) < word_of_nat (w div ?B) \<longleftrightarrow> v div ?B < w div ?B"
    "(word_of_nat (v div ?B) :: u8) = word_of_nat (w div ?B) \<longleftrightarrow> v div ?B = w div ?B"
    using hi by (simp_all add: word_less_nat_alt word_unat_eq_iff unat_byte_of_nat)
  have rec: "be_encode n (v mod ?B) < be_encode n (w mod ?B) \<longleftrightarrow> v mod ?B < w mod ?B"
    by (rule Suc.IH) simp_all
  have "v < w \<longleftrightarrow> v div ?B < w div ?B \<or> v div ?B = w div ?B \<and> v mod ?B < w mod ?B"
    by (rule less_div_mod_iff)
  then show ?case
    by (simp add: word rec)
qed

lemma be_encode_inject: "v < 256 ^ n \<Longrightarrow> w < 256 ^ n \<Longrightarrow> be_encode n v = be_encode n w \<longleftrightarrow> v = w"
  by (metis be_decode_encode mod_less)

definition u16_be :: "u16 \<Rightarrow> bytes" where "u16_be x = be_encode 2 (unat x)"
definition u32_be :: "u32 \<Rightarrow> bytes" where "u32_be x = be_encode 4 (unat x)"
definition u64_be :: "u64 \<Rightarrow> bytes" where "u64_be x = be_encode 8 (unat x)"
definition u16_of_be :: "bytes \<Rightarrow> u16" where "u16_of_be bs = word_of_nat (be_decode bs)"
definition u32_of_be :: "bytes \<Rightarrow> u32" where "u32_of_be bs = word_of_nat (be_decode bs)"
definition u64_of_be :: "bytes \<Rightarrow> u64" where "u64_of_be bs = word_of_nat (be_decode bs)"

lemma length_u_be [simp]: "length (u16_be a) = 2" "length (u32_be b) = 4" "length (u64_be c) = 8"
  by (simp_all only: u16_be_def u32_be_def u64_be_def length_be_encode)

lemma u_of_be_be [simp]: "u16_of_be (u16_be a) = a" "u32_of_be (u32_be b) = b" "u64_of_be (u64_be c) = c"
  using unat_bound[of a] unat_bound[of b] unat_bound[of c]
  by (simp_all add: u16_be_def u32_be_def u64_be_def u16_of_be_def u32_of_be_def u64_of_be_def
      be_decode_encode del: be_encode_numeral)

lemma u_be_of_be [simp]:
  "length bs = 2 \<Longrightarrow> u16_be (u16_of_be bs) = bs"
  "length bs = 4 \<Longrightarrow> u32_be (u32_of_be bs) = bs"
  "length bs = 8 \<Longrightarrow> u64_be (u64_of_be bs) = bs"
  using be_decode_bound[of bs]
  by (simp_all add: u16_be_def u32_be_def u64_be_def u16_of_be_def u32_of_be_def u64_of_be_def
      unsigned_of_nat take_bit_eq_mod be_encode_decode del: be_encode_numeral)

lemma u64_be_less [simp]: "u64_be a < u64_be b \<longleftrightarrow> a < b"
  using unat_bound[of a] unat_bound[of b]
  by (simp add: u64_be_def be_encode_less word_less_nat_alt del: be_encode_numeral)

lemma u64_be_inject [simp]: "u64_be a = u64_be b \<longleftrightarrow> a = b"
  by (metis u_of_be_be(3))

lemma append_less_append:
  "length (xs :: 'a::linorder list) = length ys \<Longrightarrow>
     xs @ us < ys @ vs \<longleftrightarrow> xs < ys \<or> xs = ys \<and> us < vs"
  by (induction xs ys rule: list_induct2) auto

section \<open>Wire formats\<close>

text \<open>
  An encoding is prefix free when the encoded value and the rest of the stream are
  determined by the stream: the property a fingerprint preimage needs.
\<close>

locale prefix_free =
  fixes valid :: "'a \<Rightarrow> bool"
    and enc :: "'a \<Rightarrow> bytes"
  assumes enc_split: "valid x \<Longrightarrow> valid y \<Longrightarrow> enc x @ r = enc y @ s \<Longrightarrow> x = y \<and> r = s"
begin

lemma enc_inject: "valid x \<Longrightarrow> valid y \<Longrightarrow> enc x = enc y \<Longrightarrow> x = y"
  using enc_split[of x y "[]" "[]"] by simp

lemma enc_list_split:
  "list_all valid xs \<Longrightarrow> list_all valid ys \<Longrightarrow> length xs = length ys \<Longrightarrow>
     concat (map enc xs) @ r = concat (map enc ys) @ s \<Longrightarrow> xs = ys \<and> r = s"
proof (induction xs arbitrary: ys)
  case Nil
  then show ?case by simp
next
  case (Cons x xs)
  then obtain y zs where ys: "ys = y # zs" by (cases ys) auto
  with Cons.prems have "enc x @ (concat (map enc xs) @ r) = enc y @ (concat (map enc zs) @ s)"
    by simp
  with Cons.prems ys have "x = y \<and> concat (map enc xs) @ r = concat (map enc zs) @ s"
    by (intro enc_split) auto
  with Cons ys show ?case by auto
qed

end

text \<open>
  A reader consumes an encoded value from the front of the unread bytes and returns the
  value with what is left. Both round trips hold: reading undoes writing, and whatever a
  successful read consumed is the encoding of what it returned.
\<close>

locale prefix_codec =
  fixes valid :: "'a \<Rightarrow> bool"
    and enc :: "'a \<Rightarrow> bytes"
    and dec :: "bytes \<Rightarrow> ('a \<times> bytes, 'e) result"
  assumes dec_enc: "valid x \<Longrightarrow> dec (enc x @ r) = Ok (x, r)"
    and dec_sound: "dec bs = Ok (x, r) \<Longrightarrow> valid x \<and> bs = enc x @ r"

sublocale prefix_codec \<subseteq> prefix_free valid enc
proof
  fix x y r s
  assume "valid x" "valid y" "enc x @ r = enc y @ s"
  then have "Ok (x, r) = (Ok (y, s) :: ('a \<times> bytes, 'e) result)"
    by (metis dec_enc)
  then show "x = y \<and> r = s" by simp
qed

text \<open>\<open>(0..count).map(|_| read()).collect()\<close>: read a counted sequence, first error wins.\<close>

fun dec_many :: "(bytes \<Rightarrow> ('a \<times> bytes, 'e) result) \<Rightarrow> nat \<Rightarrow> bytes \<Rightarrow> ('a list \<times> bytes, 'e) result" where
  "dec_many d 0 bs = Ok ([], bs)"
| "dec_many d (Suc n) bs =
     try_bind (d bs) (\<lambda>(x, r). try_bind (dec_many d n r) (\<lambda>(xs, r'). Ok (x # xs, r')))"

context prefix_codec
begin

lemma dec_many_enc:
  "list_all valid xs \<Longrightarrow> length xs = n \<Longrightarrow> dec_many dec n (concat (map enc xs) @ r) = Ok (xs, r)"
  by (induction xs arbitrary: n) (auto simp: dec_enc)

lemma dec_many_sound:
  "dec_many dec n bs = Ok (xs, r) \<Longrightarrow> list_all valid xs \<and> length xs = n \<and> bs = concat (map enc xs) @ r"
proof (induction n arbitrary: bs xs)
  case 0
  then show ?case by simp
next
  case (Suc n)
  then obtain x r1 ys where "dec bs = Ok (x, r1)" "dec_many dec n r1 = Ok (ys, r)" "xs = x # ys"
    by (auto simp: try_bind_Ok_iff)
  with Suc.IH[of r1 ys] dec_sound[of bs x r1] show ?case by auto
qed

end

section \<open>Replacing a file by a rename\<close>

text \<open>
  A file is replaced by writing and synchronising a temporary file, renaming it and synchronising the directory. The
  file system fails before the rename, fails after it, or succeeds; \<open>None\<close> is an absent file.
\<close>

datatype publish_outcome = NotPublished | PublishedUnsynced | PublishedSynced

fun replace_file :: "publish_outcome \<Rightarrow> bytes \<Rightarrow> bytes option \<Rightarrow> (unit, unit) result \<times> bytes option" where
  "replace_file NotPublished content old = (Err (), old)"
| "replace_file PublishedUnsynced content old = (Err (), Some content)"
| "replace_file PublishedSynced content old = (Ok (), Some content)"

lemma replace_file_content: "snd (replace_file disk content old) \<in> {old, Some content}"
  by (cases disk) simp_all

lemma replace_file_ok: "fst (replace_file disk content old) = Ok u \<Longrightarrow> snd (replace_file disk content old) = Some content"
  by (cases disk) simp_all

section \<open>Deterministic state machines\<close>

text \<open>
  A state machine with a total step function and an invariant every step keeps. Its runs
  are folds over the commands; what one step shows is lifted to every run here.
\<close>

locale invariant_system =
  fixes step :: "'e \<Rightarrow> 's \<Rightarrow> 's"
    and ok :: "'s \<Rightarrow> bool"
  assumes step_ok: "ok s \<Longrightarrow> ok (step e s)"
begin

lemma run_ok: "ok s \<Longrightarrow> ok (fold step es s)"
  by (induction es arbitrary: s) (auto intro: step_ok)

lemma run_induct:
  assumes "ok s" and "P s" and "\<And>e s. ok s \<Longrightarrow> P s \<Longrightarrow> P (step e s)"
  shows "P (fold step es s)"
  using assms(1,2) by (induction es arbitrary: s) (auto intro: step_ok assms(3))

lemma run_mono:
  fixes f :: "'s \<Rightarrow> 'o::order"
  assumes "\<And>e s. ok s \<Longrightarrow> f s \<le> f (step e s)" and "ok s"
  shows "f s \<le> f (fold step es s)"
  by (rule run_induct[where P = "\<lambda>t. f s \<le> f t"]) (auto intro: order_trans assms)

end
end
