(* ===== verification/Mvcc_Model.thy ===== *)
theory Mvcc_Model
  imports Okv_Prelude
begin

text \<open>
  The specification model of objectKV (\<open>okv-model/src/lib.rs\<close>): commit versions, mutations
  and their canonical form, replay fingerprints, the multi-version store \<open>Model\<close> with its
  reads and scans, and the read-your-writes view of a transaction. SHA-256 is the parameter
  \<open>sha\<close>.
\<close>

section \<open>Versions\<close>

datatype version = Version (generation: u64) (sequence: u64)

text \<open>The derived \<open>Ord\<close>: by generation, then by sequence.\<close>

instantiation version :: linorder
begin

definition less_eq_version :: "version \<Rightarrow> version \<Rightarrow> bool" where
  "v \<le> w \<longleftrightarrow> generation v < generation w \<or> generation v = generation w \<and> sequence v \<le> sequence w"

definition less_version :: "version \<Rightarrow> version \<Rightarrow> bool" where
  "v < w \<longleftrightarrow> generation v < generation w \<or> generation v = generation w \<and> sequence v < sequence w"

instance
  by standard (auto simp: less_eq_version_def less_version_def version.expand)

end

definition ZERO :: version where
  "ZERO = Version 0 0"

definition version_new :: "u64 \<Rightarrow> version" where
  "version_new s = Version 0 s"

definition from_parts :: "u64 \<Rightarrow> u64 \<Rightarrow> version" where
  "from_parts g s = Version g s"

definition version_to_be_bytes :: "version \<Rightarrow> bytes" where
  "version_to_be_bytes v = u64_be (generation v) @ u64_be (sequence v)"

definition version_from_be_bytes :: "bytes \<Rightarrow> version" where
  "version_from_be_bytes bs = from_parts (u64_of_be (take 8 bs)) (u64_of_be (drop 8 bs))"

lemma ZERO_least [simp]: "ZERO \<le> v"
  by (auto simp: less_eq_version_def ZERO_def word_neq_0_conv)

lemma length_version_to_be_bytes [simp]: "length (version_to_be_bytes v) = 16"
  by (simp add: version_to_be_bytes_def)

lemma version_to_be_bytes_less [simp]: "version_to_be_bytes v < version_to_be_bytes w \<longleftrightarrow> v < w"
  by (simp add: version_to_be_bytes_def append_less_append less_version_def)

lemma version_from_to_be_bytes [simp]: "version_from_be_bytes (version_to_be_bytes v) = v"
  by (simp add: version_to_be_bytes_def version_from_be_bytes_def from_parts_def)

lemma version_to_from_be_bytes [simp]:
  "length bs = 16 \<Longrightarrow> version_to_be_bytes (version_from_be_bytes bs) = bs"
  by (simp add: version_to_be_bytes_def version_from_be_bytes_def from_parts_def)

section \<open>Commit batches and their canonical form\<close>

record commit_identity =
  client_id :: bytes
  request_id :: u64

definition commit_identity_new :: "bytes \<Rightarrow> u64 \<Rightarrow> commit_identity" where
  "commit_identity_new c r = \<lparr>client_id = c, request_id = r\<rparr>"

definition identity_for_test :: "u64 \<Rightarrow> commit_identity" where
  "identity_for_test r = commit_identity_new (replicate 16 0) r"

record key_range =
  range_start :: bytes
  range_end :: bytes

datatype mutation = Set bytes bytes | Clear bytes | ClearRange key_range

datatype model_error =
    AmbiguousPointMutations bytes
  | ConflictingReplay version
  | InvalidRange bytes bytes
  | NonMonotonicVersion version version
  | VersionNotApplied version version
  | VersionTooOld version version
  | ZeroVersion

datatype apply_outcome = Applied | AlreadyApplied

record commit_batch =
  batch_version :: version
  batch_identity :: commit_identity
  batch_mutations :: "mutation list"

definition key_range_new :: "bytes \<Rightarrow> bytes \<Rightarrow> (key_range, model_error) result" where
  "key_range_new s e =
     (if s \<ge> e then Err (InvalidRange s e) else Ok \<lparr>range_start = s, range_end = e\<rparr>)"

definition range_contains :: "key_range \<Rightarrow> bytes \<Rightarrow> bool" where
  "range_contains r k \<longleftrightarrow> range_start r \<le> k \<and> k < range_end r"

fun mutation_key :: "mutation \<Rightarrow> u8 \<times> bytes \<times> bytes" where
  "mutation_key (ClearRange r) = (0, range_start r, range_end r)"
| "mutation_key (Clear k) = (1, k, [])"
| "mutation_key (Set k v) = (2, k, v)"

text \<open>The point key of a mutation, if it is a point mutation.\<close>

fun point_key :: "mutation \<Rightarrow> bytes option" where
  "point_key (Set k v) = Some k"
| "point_key (Clear k) = Some k"
| "point_key (ClearRange r) = None"

fun check_point_keys :: "bytes set \<Rightarrow> mutation list \<Rightarrow> (unit, model_error) result" where
  "check_point_keys seen [] = Ok ()"
| "check_point_keys seen (m # ms) =
     (case point_key m of
        None \<Rightarrow> check_point_keys seen ms
      | Some k \<Rightarrow>
          if k \<in> seen then Err (AmbiguousPointMutations k)
          else check_point_keys (insert k seen) ms)"

definition canonical_mutations :: "mutation list \<Rightarrow> (mutation list, model_error) result" where
  "canonical_mutations ms =
     (let canonical = remdups_adj (sort_key mutation_key ms)
      in try_bind (check_point_keys {} canonical) (\<lambda>_. Ok canonical))"

definition hash_bytes :: "bytes \<Rightarrow> bytes" where
  "hash_bytes bs = u64_be (word_of_nat (length bs)) @ bs"

fun mutation_digest_input :: "mutation \<Rightarrow> bytes" where
  "mutation_digest_input (Set k v) = [1] @ hash_bytes k @ hash_bytes v"
| "mutation_digest_input (Clear k) = [2] @ hash_bytes k"
| "mutation_digest_input (ClearRange r) = [3] @ hash_bytes (range_start r) @ hash_bytes (range_end r)"

text \<open>The bytes fed to the digest, in the order of the \<open>update\<close> calls.\<close>

definition fingerprint_input :: "version \<Rightarrow> commit_identity \<Rightarrow> mutation list \<Rightarrow> bytes" where
  "fingerprint_input ver ident canonical =
     ascii ''okv-commit-v2'' @ version_to_be_bytes ver @ client_id ident
       @ u64_be (request_id ident) @ u64_be (word_of_nat (length canonical))
       @ concat (map mutation_digest_input canonical)"

definition fingerprint :: "(bytes \<Rightarrow> bytes) \<Rightarrow> commit_batch \<Rightarrow> (bytes, model_error) result" where
  "fingerprint sha b =
     try_bind (canonical_mutations (batch_mutations b))
       (\<lambda>canonical. Ok (sha (fingerprint_input (batch_version b) (batch_identity b) canonical)))"

section \<open>The model\<close>

type_synonym key_history = "(version \<times> bytes option) list"
type_synonym row = "bytes \<times> bytes"

record commit_record =
  rec_identity :: commit_identity
  rec_fingerprint :: bytes

record model =
  m_commits :: "(version, commit_record) btree"
  m_keys :: "(bytes, key_history) btree"
  m_range_clears :: "(version \<times> key_range) list"
  m_latest :: version
  m_oldest_readable :: version

definition model_default :: model where
  "model_default = \<lparr>m_commits = [], m_keys = [], m_range_clears = [],
     m_latest = ZERO, m_oldest_readable = ZERO\<rparr>"

definition check_read_version :: "model \<Rightarrow> version \<Rightarrow> (unit, model_error) result" where
  "check_read_version m requested =
     (if requested > m_latest m then Err (VersionNotApplied (m_latest m) requested)
      else if requested < m_oldest_readable m then Err (VersionTooOld (m_oldest_readable m) requested)
      else Ok ())"

definition retain_from :: "version \<Rightarrow> model \<Rightarrow> (unit, model_error) result \<times> model" where
  "retain_from v m =
     (case check_read_version m v of
        Err e \<Rightarrow> (Err e, m)
      | Ok _ \<Rightarrow>
          if v < m_oldest_readable m then (Err (VersionTooOld (m_oldest_readable m) v), m)
          else (Ok (), m\<lparr>m_oldest_readable := v\<rparr>))"

text \<open>The body of the loop of \<open>apply\<close> over the canonical mutations.\<close>

fun apply_mutation :: "version \<Rightarrow> mutation \<Rightarrow> model \<Rightarrow> model" where
  "apply_mutation ver (Set k v) m = m\<lparr>m_keys := bt_push k (ver, Some v) (m_keys m)\<rparr>"
| "apply_mutation ver (Clear k) m = m\<lparr>m_keys := bt_push k (ver, None) (m_keys m)\<rparr>"
| "apply_mutation ver (ClearRange r) m = m\<lparr>m_range_clears := m_range_clears m @ [(ver, r)]\<rparr>"

definition model_apply ::
  "(bytes \<Rightarrow> bytes) \<Rightarrow> commit_batch \<Rightarrow> model \<Rightarrow> (apply_outcome, model_error) result \<times> model" where
  "model_apply sha b m =
     (if batch_version b = ZERO then (Err ZeroVersion, m)
      else case fingerprint sha b of
        Err e \<Rightarrow> (Err e, m)
      | Ok fp \<Rightarrow>
         (case bt_get (m_commits m) (batch_version b) of
            Some existing \<Rightarrow>
              (if rec_identity existing = batch_identity b \<and> rec_fingerprint existing = fp
               then (Ok AlreadyApplied, m)
               else (Err (ConflictingReplay (batch_version b)), m))
          | None \<Rightarrow>
              if batch_version b \<le> m_latest m
              then (Err (NonMonotonicVersion (m_latest m) (batch_version b)), m)
              else case canonical_mutations (batch_mutations b) of
                Err e \<Rightarrow> (Err e, m)
              | Ok canonical \<Rightarrow>
                  let m' = fold (apply_mutation (batch_version b)) canonical m
                  in (Ok Applied,
                      m'\<lparr>m_commits := bt_insert (batch_version b)
                            \<lparr>rec_identity = batch_identity b, rec_fingerprint = fp\<rparr> (m_commits m'),
                         m_latest := batch_version b\<rparr>)))"

text \<open>The newest point entry and the newest covering range clear at or before a version.\<close>

definition newest_point :: "model \<Rightarrow> bytes \<Rightarrow> version \<Rightarrow> (version \<times> bytes option) option" where
  "newest_point m k rv =
     Option.bind (bt_get (m_keys m) k) (\<lambda>h. find (\<lambda>(v, _). v \<le> rv) (rev h))"

definition newest_clear :: "model \<Rightarrow> bytes \<Rightarrow> version \<Rightarrow> version option" where
  "newest_clear m k rv =
     map_option fst (find (\<lambda>(v, r). v \<le> rv \<and> range_contains r k) (rev (m_range_clears m)))"

definition visible :: "model \<Rightarrow> bytes \<Rightarrow> version \<Rightarrow> bytes option" where
  "visible m k rv =
     (case newest_point m k rv of
        None \<Rightarrow> None
      | Some (pv, x) \<Rightarrow>
         (case newest_clear m k rv of
            Some cv \<Rightarrow> if pv < cv then None else x
          | None \<Rightarrow> x))"

definition model_get :: "model \<Rightarrow> bytes \<Rightarrow> version \<Rightarrow> (bytes option, model_error) result" where
  "model_get m k rv = try_bind (check_read_version m rv) (\<lambda>_. Ok (visible m k rv))"

fun scan_keys :: "model \<Rightarrow> version \<Rightarrow> bytes list \<Rightarrow> (row list, model_error) result" where
  "scan_keys m rv [] = Ok []"
| "scan_keys m rv (k # ks) =
     try_bind (model_get m k rv) (\<lambda>x. try_bind (scan_keys m rv ks) (\<lambda>rows.
       Ok (case x of None \<Rightarrow> rows | Some v \<Rightarrow> (k, v) # rows)))"

text \<open>
  \<open>BTreeMap::range\<close> panics when the start of the range lies after its end. The fields of
  \<open>KeyRange\<close> are public, so a range that skipped \<open>KeyRange::new\<close> can reach it: the panic is
  \<open>None\<close>.
\<close>

definition model_scan :: "model \<Rightarrow> key_range \<Rightarrow> version \<Rightarrow> (row list, model_error) result option" where
  "model_scan m r rv =
     (case check_read_version m rv of
        Err e \<Rightarrow> Some (Err e)
      | Ok _ \<Rightarrow>
          if range_start r > range_end r then None
          else Some (scan_keys m rv (map fst (bt_range (range_start r) (range_end r) (m_keys m)))))"

section \<open>The read-your-writes view\<close>

record transaction_view =
  tv_model :: model
  tv_read_version :: version
  tv_mutations :: "mutation list"

definition transaction :: "model \<Rightarrow> version \<Rightarrow> (transaction_view, model_error) result" where
  "transaction m rv =
     try_bind (check_read_version m rv)
       (\<lambda>_. Ok \<lparr>tv_model = m, tv_read_version = rv, tv_mutations = []\<rparr>)"

definition mutate :: "mutation \<Rightarrow> transaction_view \<Rightarrow> transaction_view" where
  "mutate mu t = t\<lparr>tv_mutations := tv_mutations t @ [mu]\<rparr>"

fun overlay_value :: "bytes \<Rightarrow> mutation \<Rightarrow> bytes option \<Rightarrow> bytes option" where
  "overlay_value k (Set target new) x = (if target = k then Some new else x)"
| "overlay_value k (Clear target) x = (if target = k then None else x)"
| "overlay_value k (ClearRange r) x = (if range_contains r k then None else x)"

definition view_get :: "transaction_view \<Rightarrow> bytes \<Rightarrow> (bytes option, model_error) result" where
  "view_get t k =
     try_bind (model_get (tv_model t) k (tv_read_version t))
       (\<lambda>x. Ok (fold (overlay_value k) (tv_mutations t) x))"

text \<open>A \<open>BTreeSet\<close> of keys is a map to unit.\<close>

definition insert_set_key :: "key_range \<Rightarrow> mutation \<Rightarrow> (bytes, unit) btree \<Rightarrow> (bytes, unit) btree" where
  "insert_set_key r mu ks =
     (case mu of Set k _ \<Rightarrow> if range_contains r k then bt_insert k () ks else ks | _ \<Rightarrow> ks)"

fun view_rows :: "transaction_view \<Rightarrow> bytes list \<Rightarrow> (row list, model_error) result" where
  "view_rows t [] = Ok []"
| "view_rows t (k # ks) =
     try_bind (view_get t k) (\<lambda>x. try_bind (view_rows t ks) (\<lambda>rows.
       Ok (case x of None \<Rightarrow> rows | Some v \<Rightarrow> (k, v) # rows)))"

definition view_scan :: "transaction_view \<Rightarrow> key_range \<Rightarrow> (row list, model_error) result option" where
  "view_scan t r =
     (case model_scan (tv_model t) r (tv_read_version t) of
        None \<Rightarrow> None
      | Some (Err e) \<Rightarrow> Some (Err e)
      | Some (Ok rows) \<Rightarrow>
          let snapshot_keys = fold (\<lambda>(k, _). bt_insert k ()) rows [];
              ks = fold (insert_set_key r) (tv_mutations t) snapshot_keys
          in Some (view_rows t (map fst ks)))"


section \<open>Canonical form\<close>

abbreviation canon :: "mutation list \<Rightarrow> mutation list" where
  "canon ms \<equiv> remdups_adj (sort_key mutation_key ms)"

abbreviation point_keys :: "mutation list \<Rightarrow> bytes list" where
  "point_keys ms \<equiv> List.map_filter point_key ms"

text \<open>No two distinct point mutations of a batch target one key.\<close>

definition unambiguous :: "mutation list \<Rightarrow> bool" where
  "unambiguous ms \<longleftrightarrow>
     (\<forall>a \<in> set ms. \<forall>b \<in> set ms. point_key a = point_key b \<and> point_key a \<noteq> None \<longrightarrow> a = b)"

lemma inj_mutation_key: "inj mutation_key"
proof (rule injI)
  fix a b
  assume "mutation_key a = mutation_key b"
  then show "a = b"
    by (cases a; cases b) auto
qed

lemma distinct_canon: "distinct (canon ms)"
  using sort_dedup_strict[OF inj_mutation_key, of ms]
  by (metis distinct_map strict_sorted_iff)

lemma check_point_keys_Ok_iff:
  "check_point_keys seen ms = Ok () \<longleftrightarrow> distinct (point_keys ms) \<and> set (point_keys ms) \<inter> seen = {}"
  by (induction ms arbitrary: seen) (auto simp: List.map_filter_simps split: option.splits)

abbreviation targets :: "bytes \<Rightarrow> mutation list \<Rightarrow> mutation list" where
  "targets k ms \<equiv> filter (\<lambda>m. point_key m = Some k) ms"

lemma check_point_keys_Err:
  "check_point_keys seen ms = Err e \<Longrightarrow>
     \<exists>k. e = AmbiguousPointMutations k \<and> (k \<in> seen \<and> targets k ms \<noteq> [] \<or> 1 < length (targets k ms))"
proof (induction ms arbitrary: seen)
  case Nil
  then show ?case by simp
next
  case (Cons m ms)
  show ?case
  proof (cases "point_key m")
    case None
    with Cons.prems have "check_point_keys seen ms = Err e" by simp
    from Cons.IH[OF this] None show ?thesis by simp
  next
    case (Some j)
    show ?thesis
    proof (cases "j \<in> seen")
      case True
      with Cons.prems Some show ?thesis by (intro exI[of _ j]) simp
    next
      case False
      with Cons.prems Some have "check_point_keys (insert j seen) ms = Err e" by simp
      from Cons.IH[OF this] obtain k where "e = AmbiguousPointMutations k"
        "k \<in> insert j seen \<and> targets k ms \<noteq> [] \<or> 1 < length (targets k ms)"
        by (elim exE conjE)
      with Some show ?thesis by (intro exI[of _ k]) (cases "k = j"; simp)
    qed
  qed
qed

lemma distinct_point_keys_iff:
  assumes "distinct ms"
  shows "distinct (point_keys ms) \<longleftrightarrow> unambiguous ms"
proof -
  have "distinct (point_keys ms) \<longleftrightarrow> inj_on (the \<circ> point_key) {a \<in> set ms. point_key a \<noteq> None}"
    using assms by (simp add: List.map_filter_def distinct_map)
  also have "\<dots> \<longleftrightarrow> (\<forall>a \<in> set ms. \<forall>b \<in> set ms. point_key a \<noteq> None \<longrightarrow> point_key b \<noteq> None \<longrightarrow>
      the (point_key a) = the (point_key b) \<longrightarrow> a = b)"
    unfolding inj_on_def by auto
  also have "\<dots> \<longleftrightarrow> unambiguous ms"
    unfolding unambiguous_def by (metis option.expand)
  finally show ?thesis .
qed

lemma unambiguous_canon [simp]: "unambiguous (canon ms) = unambiguous ms"
  by (auto simp: unambiguous_def)

lemma canonical_mutations_Ok_iff:
  "canonical_mutations ms = Ok c \<longleftrightarrow> c = canon ms \<and> unambiguous ms"
  using check_point_keys_Ok_iff[of "{}" "canon ms"] distinct_point_keys_iff[OF distinct_canon, of ms]
  by (cases "check_point_keys {} (canon ms)") (auto simp: canonical_mutations_def Let_def)

lemma canonical_mutations_cong:
  "set ms = set ns \<Longrightarrow> canonical_mutations ms = canonical_mutations ns"
  using sort_dedup_cong[OF inj_mutation_key, of ms ns] by (simp add: canonical_mutations_def)

lemma canonical_mutations_Err:
  assumes "canonical_mutations ms = Err e"
  shows "\<exists>k a b. e = AmbiguousPointMutations k \<and> a \<in> set ms \<and> b \<in> set ms \<and> a \<noteq> b \<and>
           point_key a = Some k \<and> point_key b = Some k"
proof -
  have "check_point_keys {} (canon ms) = Err e"
    using assms by (cases "check_point_keys {} (canon ms)") (auto simp: canonical_mutations_def Let_def)
  then obtain k where e: "e = AmbiguousPointMutations k" and k: "1 < length (targets k (canon ms))"
    using check_point_keys_Err by blast
  from k obtain a b rest where ab: "targets k (canon ms) = a # b # rest"
    by (cases "targets k (canon ms)" rule: remdups_adj.cases) auto
  then have "a \<in> set (targets k (canon ms))" "b \<in> set (targets k (canon ms))"
    by simp_all
  moreover have "a \<noteq> b"
    using distinct_filter[OF distinct_canon, of "\<lambda>m. point_key m = Some k" ms] ab by simp
  ultimately show ?thesis
    using e by auto
qed

section \<open>Effect of one batch\<close>

text \<open>
  The history of a key (empty when absent), the values a batch writes to a key, and the
  ranges it clears.
\<close>

definition history_of :: "model \<Rightarrow> bytes \<Rightarrow> key_history" where
  "history_of m k = (case bt_get (m_keys m) k of None \<Rightarrow> [] | Some h \<Rightarrow> h)"

fun point_value :: "mutation \<Rightarrow> bytes option" where
  "point_value (Set k v) = Some v"
| "point_value _ = None"

abbreviation writes :: "bytes \<Rightarrow> mutation list \<Rightarrow> bytes option list" where
  "writes k ms \<equiv> map point_value (targets k ms)"

fun cleared_range :: "mutation \<Rightarrow> key_range option" where
  "cleared_range (ClearRange r) = Some r"
| "cleared_range _ = None"

abbreviation cleared :: "mutation list \<Rightarrow> key_range list" where
  "cleared ms \<equiv> List.map_filter cleared_range ms"

text \<open>
  The abstract effect of a batch on one key: its point mutation decides; without one, a
  covering range clear removes the value.
\<close>

definition batch_value :: "mutation list \<Rightarrow> bytes \<Rightarrow> bytes option \<Rightarrow> bytes option" where
  "batch_value ms k x =
     (case writes k ms of
        [] \<Rightarrow> if \<exists>r \<in> set (cleared ms). range_contains r k then None else x
      | w # _ \<Rightarrow> w)"

lemma history_of_push:
  "bt_get (bt_push j x ks) k = (if k = j then Some ((case bt_get ks j of None \<Rightarrow> [] | Some h \<Rightarrow> h) @ [x])
     else bt_get ks k)"
  by (simp add: bt_push_def)

lemma history_of_apply_mutation:
  "history_of (apply_mutation ver mu m) k =
     history_of m k @ (if point_key mu = Some k then [(ver, point_value mu)] else [])"
  by (cases mu) (simp_all add: history_of_def history_of_push split: option.split)

lemma fold_apply_mutation:
  "history_of (fold (apply_mutation ver) ms m) k = history_of m k @ map (Pair ver) (writes k ms)"
  "m_range_clears (fold (apply_mutation ver) ms m) = m_range_clears m @ map (Pair ver) (cleared ms)"
  "m_commits (fold (apply_mutation ver) ms m) = m_commits m"
  "m_latest (fold (apply_mutation ver) ms m) = m_latest m"
  "m_oldest_readable (fold (apply_mutation ver) ms m) = m_oldest_readable m"
proof (induction ms arbitrary: m)
  case Nil
  { case 1 show ?case by simp next case 2 show ?case by (simp add: List.map_filter_simps) next
    case 3 show ?case by simp next case 4 show ?case by simp next case 5 show ?case by simp }
next
  case (Cons mu ms)
  { case 1 show ?case by (simp add: Cons.IH history_of_apply_mutation) next
    case 2 show ?case by (cases mu) (simp_all add: Cons.IH List.map_filter_simps) next
    case 3 show ?case by (cases mu) (simp_all add: Cons.IH) next
    case 4 show ?case by (cases mu) (simp_all add: Cons.IH) next
    case 5 show ?case by (cases mu) (simp_all add: Cons.IH) }
qed

lemma bt_wf_fold_apply_mutation:
  "bt_wf (m_keys m) \<Longrightarrow> bt_wf (m_keys (fold (apply_mutation ver) ms m))"
proof (induction ms arbitrary: m)
  case Nil
  then show ?case by simp
next
  case (Cons mu ms)
  then have "bt_wf (m_keys (apply_mutation ver mu m))"
    by (cases mu) (simp_all add: bt_push_def)
  then show ?case by (simp add: Cons.IH)
qed

section \<open>Invariant\<close>

abbreviation committed :: "model \<Rightarrow> version \<Rightarrow> bool" where
  "committed m v \<equiv> bt_contains (m_commits m) v"

text \<open>
  The maps are ordered; key histories increase strictly and range clears weakly; every
  version they mention is committed; committed versions lie above zero and at most at
  \<open>latest\<close>; the retention boundary does not pass \<open>latest\<close>.
\<close>

definition model_inv :: "model \<Rightarrow> bool" where
  "model_inv m \<longleftrightarrow>
     bt_wf (m_commits m) \<and> bt_wf (m_keys m) \<and>
     (\<forall>k. sorted_wrt (<) (map fst (history_of m k)) \<and> (\<forall>v \<in> fst ` set (history_of m k). committed m v)) \<and>
     sorted (map fst (m_range_clears m)) \<and>
     (\<forall>v \<in> fst ` set (m_range_clears m). committed m v) \<and>
     (\<forall>v. committed m v \<longrightarrow> ZERO < v \<and> v \<le> m_latest m) \<and>
     m_oldest_readable m \<le> m_latest m"

lemma model_inv_default: "model_inv model_default"
  by (simp add: model_inv_def model_default_def history_of_def bt_contains_def)

lemma history_le_latest: "model_inv m \<Longrightarrow> (v, x) \<in> set (history_of m k) \<Longrightarrow> v \<le> m_latest m"
  by (force simp: model_inv_def)

lemma clears_le_latest: "model_inv m \<Longrightarrow> (v, r) \<in> set (m_range_clears m) \<Longrightarrow> v \<le> m_latest m"
  by (force simp: model_inv_def)

text \<open>What an applied batch does to the state, and that every other outcome keeps it.\<close>

definition model_commit :: "version \<Rightarrow> commit_record \<Rightarrow> mutation list \<Rightarrow> model \<Rightarrow> model" where
  "model_commit ver rec c m =
     (fold (apply_mutation ver) c m)\<lparr>m_commits := bt_insert ver rec (m_commits m), m_latest := ver\<rparr>"

lemma model_apply_cases [consumes 1, case_names applied kept]:
  assumes "model_apply sha b m = (res, m')"
  obtains fp where "res = Ok Applied" and "batch_version b \<noteq> ZERO"
      and "unambiguous (batch_mutations b)" and "fingerprint sha b = Ok fp"
      and "bt_get (m_commits m) (batch_version b) = None" and "m_latest m < batch_version b"
      and "m' = model_commit (batch_version b)
             \<lparr>rec_identity = batch_identity b, rec_fingerprint = fp\<rparr> (canon (batch_mutations b)) m"
    | "res \<noteq> Ok Applied" and "m' = m"
proof (cases "fingerprint sha b")
  case (Err e)
  with assms show ?thesis
    by (intro that(2)) (auto simp: model_apply_def split: if_splits)
next
  case (Ok fp)
  then have un: "unambiguous (batch_mutations b)"
    and canon: "canonical_mutations (batch_mutations b) = Ok (canon (batch_mutations b))"
    by (auto simp: fingerprint_def try_bind_Ok_iff canonical_mutations_Ok_iff)
  show ?thesis
  proof (cases "bt_get (m_commits m) (batch_version b) = None \<and> batch_version b \<noteq> ZERO \<and>
      m_latest m < batch_version b")
    case True
    then have "\<not> batch_version b \<le> m_latest m" by (simp add: not_le)
    with True assms Ok canon show ?thesis
      by (intro that(1)[OF _ _ un Ok]) (auto simp: model_apply_def Let_def model_commit_def fold_apply_mutation)
  next
    case False
    with assms Ok show ?thesis
      by (intro that(2)) (cases "bt_get (m_commits m) (batch_version b)"; auto simp: model_apply_def not_less split: if_splits)+
  qed
qed

lemma model_commit_fields:
  "history_of (model_commit ver rec c m) k = history_of m k @ map (Pair ver) (writes k c)"
  "m_range_clears (model_commit ver rec c m) = m_range_clears m @ map (Pair ver) (cleared c)"
  "m_commits (model_commit ver rec c m) = bt_insert ver rec (m_commits m)"
  "m_latest (model_commit ver rec c m) = ver"
  "m_oldest_readable (model_commit ver rec c m) = m_oldest_readable m"
  using fold_apply_mutation(1)[of ver c m k]
  by (simp_all add: model_commit_def fold_apply_mutation history_of_def)

lemma unambiguous_writes:
  assumes "unambiguous c" and "distinct c"
  shows "writes k c = [] \<or> (\<exists>w. writes k c = [w])"
proof -
  have "a = b" if "a \<in> set (targets k c)" "b \<in> set (targets k c)" for a b
    using that assms(1) by (auto simp: unambiguous_def)
  then have "length (targets k c) \<le> 1"
    using assms(2) by (metis card_le_Suc0_iff_eq distinct_card distinct_filter finite_set One_nat_def)
  then show ?thesis
    by (cases "targets k c") auto
qed

lemma model_inv_commit:
  assumes inv: "model_inv m" and ver: "m_latest m < ver" and c: "unambiguous c" "distinct c"
  shows "model_inv (model_commit ver rec c m)"
proof -
  have below: "v < ver" if "committed m v" for v
    using inv ver that by (auto simp: model_inv_def)
  have pos: "ZERO < ver"
    using ver ZERO_least[of "m_latest m"] by (rule order.strict_trans1[rotated])
  have hist: "sorted_wrt (<) (map fst (history_of m k @ map (Pair ver) (writes k c)))" for k
    using unambiguous_writes[OF c, of k] inv ver
    by (auto simp: model_inv_def sorted_wrt_append dest!: history_le_latest[OF inv])
  have clears: "sorted (map fst (m_range_clears m @ map (Pair ver) (cleared c)))"
    using inv ver
    by (auto simp: model_inv_def sorted_append comp_def map_replicate_const dest!: clears_le_latest[OF inv])
  have keys: "bt_wf (m_keys (model_commit ver rec c m))"
    using inv by (simp add: model_inv_def model_commit_def bt_wf_fold_apply_mutation)
  show ?thesis
    using inv hist clears keys pos ver
    unfolding model_inv_def model_commit_fields by (auto simp: ball_Un dest: below)
qed

lemma model_inv_apply: "model_inv m \<Longrightarrow> model_inv (snd (model_apply sha b m))"
proof -
  assume inv: "model_inv m"
  obtain res m' where ap: "model_apply sha b m = (res, m')" by (cases "model_apply sha b m")
  then have "model_inv m'"
    using inv by (cases rule: model_apply_cases) (auto intro: model_inv_commit simp: distinct_canon)
  with ap show ?thesis by simp
qed

lemma retain_from_fields:
  "snd (retain_from v m) = m\<lparr>m_oldest_readable := m_oldest_readable (snd (retain_from v m))\<rparr>"
  by (simp add: retain_from_def split: result.split)

lemma model_inv_retain: "model_inv m \<Longrightarrow> model_inv (snd (retain_from v m))"
  by (auto simp: model_inv_def retain_from_def check_read_version_def history_of_def)

section \<open>Visibility\<close>

lemma newest_point_history: "newest_point m k rv = find (\<lambda>(v, _). v \<le> rv) (rev (history_of m k))"
  by (simp add: newest_point_def history_of_def split: option.split)

lemma visible_retain [simp]: "visible (m\<lparr>m_oldest_readable := v\<rparr>) k rv = visible m k rv"
proof -
  have "newest_point (m\<lparr>m_oldest_readable := v\<rparr>) k rv = newest_point m k rv"
    "newest_clear (m\<lparr>m_oldest_readable := v\<rparr>) k rv = newest_clear m k rv"
    by (simp_all add: newest_point_def newest_clear_def)
  then show ?thesis
    by (simp only: visible_def)
qed

lemma find_le_cong:
  assumes "\<forall>v \<in> fst ` set xs. v \<le> l \<and> l \<le> (rv :: 'a::order)"
  shows "find (\<lambda>(v, r). v \<le> rv \<and> P r) xs = find (\<lambda>(v, r). v \<le> l \<and> P r) xs"
  using assms by (intro find_cong_set) (force intro: order_trans)

text \<open>Reads above \<open>latest\<close> see the same values as reads at it.\<close>

lemma visible_above_latest:
  assumes inv: "model_inv m" and rv: "m_latest m \<le> rv"
  shows "visible m k rv = visible m k (m_latest m)"
proof -
  have "\<forall>v \<in> fst ` set (rev (history_of m k)). v \<le> m_latest m \<and> m_latest m \<le> rv"
    "\<forall>v \<in> fst ` set (rev (m_range_clears m)). v \<le> m_latest m \<and> m_latest m \<le> rv"
    using inv rv by (auto simp: model_inv_def)
  from find_le_cong[OF this(1), of "\<lambda>_. True"] find_le_cong[OF this(2), of "\<lambda>r. range_contains r k"]
  have "newest_point m k rv = newest_point m k (m_latest m)"
    "newest_clear m k rv = newest_clear m k (m_latest m)"
    by (simp_all add: newest_point_history newest_clear_def case_prod_unfold)
  then show ?thesis
    by (simp only: visible_def)
qed

text \<open>A commit leaves every older snapshot as it was.\<close>

lemma visible_commit_old:
  assumes "rv < ver"
  shows "visible (model_commit ver rec c m) k rv = visible m k rv"
proof -
  have "find (\<lambda>(v, _). v \<le> rv) (rev xs) = None" if "\<forall>p \<in> set xs. fst p = ver" for xs :: key_history
    using assms that by (auto simp: find_None_iff)
  moreover have "find (\<lambda>(v, r). v \<le> rv \<and> range_contains r k) (rev xs) = None"
    if "\<forall>p \<in> set xs. fst p = ver" for xs
    using assms that by (auto simp: find_None_iff)
  ultimately have "newest_point (model_commit ver rec c m) k rv = newest_point m k rv"
    "newest_clear (model_commit ver rec c m) k rv = newest_clear m k rv"
    by (simp_all add: newest_point_history newest_clear_def model_commit_fields find_append)
  then show ?thesis
    by (simp only: visible_def)
qed

text \<open>At and above the commit, a read sees the batch applied to the latest snapshot.\<close>

lemma visible_commit_new:
  assumes inv: "model_inv m" and ver: "m_latest m < ver" and c: "unambiguous c" "distinct c"
    and rv: "ver \<le> rv"
  shows "visible (model_commit ver rec c m) k rv = batch_value c k (visible m k (m_latest m))"
proof -
  let ?m = "model_commit ver rec c m"
  have np: "newest_point ?m k rv =
      (case writes k c of [] \<Rightarrow> newest_point m k rv | w # _ \<Rightarrow> Some (ver, w))"
    using unambiguous_writes[OF c, of k] rv
    by (auto simp: newest_point_history model_commit_fields find_append)
  have clear: "find (\<lambda>(v, r). v \<le> rv \<and> range_contains r k) (rev (map (Pair ver) rs)) =
      map_option (Pair ver) (find (\<lambda>r. range_contains r k) (rev rs))" for rs
    using rv by (induction rs rule: rev_induct) auto
  have nc: "newest_clear ?m k rv =
      (if \<exists>r \<in> set (cleared c). range_contains r k then Some ver else newest_clear m k rv)"
    by (auto simp: newest_clear_def model_commit_fields find_append clear find_None_iff split: option.split)
       (metis find_Some_iff nth_mem set_rev)
  have point_old: "pv < ver" if "newest_point m k rv = Some (pv, x)" for pv x
    using find_in_set[OF that[unfolded newest_point_history]] ver
    by (auto dest!: history_le_latest[OF inv])
  have clear_old: "cv < ver" if "newest_clear m k rv = Some cv" for cv
    using that ver unfolding newest_clear_def
    by (auto dest!: find_in_set clears_le_latest[OF inv])
  have "visible ?m k rv = batch_value c k (visible m k rv)"
    using unambiguous_writes[OF c, of k]
    by (auto simp: visible_def np nc batch_value_def dest: point_old clear_old split: option.split)
  moreover have "m_latest m \<le> rv"
    using ver rv by simp
  ultimately show ?thesis
    using visible_above_latest[OF inv, of rv k] by simp
qed

section \<open>Fingerprints\<close>

text \<open>Lengths fit the \<open>u64\<close> length prefixes, as every Rust vector does.\<close>

abbreviation fits :: "bytes \<Rightarrow> bool" where
  "fits bs \<equiv> length bs < 2 ^ 64"

fun mutation_fits :: "mutation \<Rightarrow> bool" where
  "mutation_fits (Set k v) \<longleftrightarrow> fits k \<and> fits v"
| "mutation_fits (Clear k) \<longleftrightarrow> fits k"
| "mutation_fits (ClearRange r) \<longleftrightarrow> fits (range_start r) \<and> fits (range_end r)"

definition batch_fits :: "commit_batch \<Rightarrow> bool" where
  "batch_fits b \<longleftrightarrow> length (client_id (batch_identity b)) = 16 \<and>
     length (batch_mutations b) < 2 ^ 64 \<and> list_all mutation_fits (batch_mutations b)"

definition batch_input :: "commit_batch \<Rightarrow> bytes" where
  "batch_input b = fingerprint_input (batch_version b) (batch_identity b) (canon (batch_mutations b))"

lemma word64_of_length_inject:
  "m < 2 ^ 64 \<Longrightarrow> n < 2 ^ 64 \<Longrightarrow> (word_of_nat m :: u64) = word_of_nat n \<longleftrightarrow> m = n"
  by (simp add: word_unat_eq_iff unsigned_of_nat take_bit_eq_mod)

interpretation hashed: prefix_free fits hash_bytes
proof
  fix x y r s :: bytes
  assume "fits x" "fits y" "hash_bytes x @ r = hash_bytes y @ s"
  then have "u64_be (word_of_nat (length x)) = u64_be (word_of_nat (length y)) \<and> x @ r = y @ s"
    by (simp add: hash_bytes_def append_eq_append_conv)
  with \<open>fits x\<close> \<open>fits y\<close> show "x = y \<and> r = s"
    by (auto simp: word64_of_length_inject)
qed

interpretation digested: prefix_free mutation_fits mutation_digest_input
proof
  fix a b r s
  assume "mutation_fits a" "mutation_fits b" "mutation_digest_input a @ r = mutation_digest_input b @ s"
  then show "a = b \<and> r = s"
    by (cases a; cases b) (auto dest!: hashed.enc_split[rotated 2])
qed

lemma fingerprint_input_inject:
  assumes "length (client_id i) = 16" "length (client_id j) = 16"
    and "length c < 2 ^ 64" "length d < 2 ^ 64"
    and "list_all mutation_fits c" "list_all mutation_fits d"
    and "fingerprint_input v i c = fingerprint_input w j d"
  shows "v = w \<and> i = j \<and> c = d"
proof -
  from assms(1,2,7) have eqs: "version_to_be_bytes v = version_to_be_bytes w" "client_id i = client_id j"
    "request_id i = request_id j" "u64_be (word_of_nat (length c)) = u64_be (word_of_nat (length d))"
    "concat (map mutation_digest_input c) = concat (map mutation_digest_input d)"
    by (auto simp: fingerprint_input_def append_eq_append_conv)
  then have "length c = length d"
    using assms(3,4) by (simp add: word64_of_length_inject)
  then have "c = d"
    using digested.enc_list_split[OF assms(5,6), of "[]" "[]"] eqs(5) by simp
  moreover have "v = w"
    by (metis eqs(1) version_from_to_be_bytes)
  ultimately show ?thesis
    using eqs(2,3) by simp
qed

lemma fingerprint_Ok_iff:
  "fingerprint sha b = Ok fp \<longleftrightarrow> unambiguous (batch_mutations b) \<and> fp = sha (batch_input b)"
  by (auto simp: fingerprint_def try_bind_Ok_iff canonical_mutations_Ok_iff batch_input_def)

lemma canon_eq_iff: "canon ms = canon ns \<longleftrightarrow> set ms = set ns"
  using sort_dedup_cong[OF inj_mutation_key, of ms ns]
  by (metis remdups_adj_set set_sort)

lemma batch_input_inject:
  assumes "batch_fits a" and "batch_fits b"
  shows "batch_input a = batch_input b \<longleftrightarrow>
     batch_version a = batch_version b \<and> batch_identity a = batch_identity b \<and>
     set (batch_mutations a) = set (batch_mutations b)"
proof -
  have sized: "length (canon ms) < 2 ^ 64" "list_all mutation_fits (canon ms)"
    if "length ms < 2 ^ 64" "list_all mutation_fits ms" for ms
    using that remdups_adj_length[of "sort_key mutation_key ms"] by (auto simp: list_all_iff)
  have "batch_input a = batch_input b \<longleftrightarrow> batch_version a = batch_version b \<and>
      batch_identity a = batch_identity b \<and> canon (batch_mutations a) = canon (batch_mutations b)"
    using assms fingerprint_input_inject[of "batch_identity a" "batch_identity b"
        "canon (batch_mutations a)" "canon (batch_mutations b)"] sized
    by (auto simp: batch_input_def batch_fits_def)
  then show ?thesis
    by (simp only: canon_eq_iff)
qed

section \<open>Scans and transactions\<close>

lemma check_read_version_Ok_iff:
  "check_read_version m rv = Ok () \<longleftrightarrow> m_oldest_readable m \<le> rv \<and> rv \<le> m_latest m"
  by (auto simp: check_read_version_def)

lemma model_get_Ok_iff:
  "model_get m k rv = Ok x \<longleftrightarrow> m_oldest_readable m \<le> rv \<and> rv \<le> m_latest m \<and> x = visible m k rv"
  by (auto simp: model_get_def try_bind_Ok_iff check_read_version_Ok_iff)

text \<open>The rows a snapshot holds for a list of keys.\<close>

abbreviation rows_of :: "(bytes \<Rightarrow> bytes option) \<Rightarrow> bytes list \<Rightarrow> row list" where
  "rows_of f ks \<equiv> List.map_filter (\<lambda>k. map_option (Pair k) (f k)) ks"

lemma scan_keys_eq:
  "check_read_version m rv = Ok () \<Longrightarrow> scan_keys m rv ks = Ok (rows_of (\<lambda>k. visible m k rv) ks)"
  by (induction ks) (auto simp: model_get_def List.map_filter_simps split: option.split)

lemma rows_of_entries:
  assumes "sorted_wrt (<) ks"
  shows "bt_wf (rows_of f ks)" and "bt_get (rows_of f ks) k = (if k \<in> set ks then f k else None)"
proof -
  have "fst ` set (rows_of f ks) \<subseteq> set ks" for ks
    by (auto simp: List.map_filter_def)
  then show "bt_wf (rows_of f ks)"
    using assms by (induction ks) (force simp: List.map_filter_simps bt_wf_Cons split: option.split)+
  show "bt_get (rows_of f ks) k = (if k \<in> set ks then f k else None)"
    using assms by (induction ks) (auto simp: List.map_filter_simps bt_get_Cons split: option.split)
qed

text \<open>Every visible key is stored, so a scan misses nothing.\<close>

lemma visible_stored: "visible m k rv = Some v \<Longrightarrow> k \<in> fst ` set (m_keys m)"
  by (auto simp: visible_def newest_point_def image_iff bind_eq_Some_conv split: option.splits
      dest!: bt_get_entry) force+

lemma model_scan_eq:
  assumes "model_inv m" and "check_read_version m rv = Ok ()" and "range_start r \<le> range_end r"
  obtains rows where "model_scan m r rv = Some (Ok rows)" and "bt_wf rows"
    and "\<And>k. bt_get rows k = (if range_contains r k then visible m k rv else None)"
proof
  let ?ks = "map fst (bt_range (range_start r) (range_end r) (m_keys m))"
  have sorted: "sorted_wrt (<) ?ks"
    using assms(1) bt_wf_filter[of "m_keys m"] by (simp add: model_inv_def bt_range_def bt_wf_def)
  show "model_scan m r rv = Some (Ok (rows_of (\<lambda>k. visible m k rv) ?ks))"
    using assms(2,3) by (simp add: model_scan_def scan_keys_eq)
  show "bt_wf (rows_of (\<lambda>k. visible m k rv) ?ks)"
    by (rule rows_of_entries(1)[OF sorted])
  have "k \<in> set ?ks \<longleftrightarrow> range_contains r k \<and> k \<in> fst ` set (m_keys m)" for k
    by (force simp: bt_range_def range_contains_def)
  then show "bt_get (rows_of (\<lambda>k. visible m k rv) ?ks) k =
      (if range_contains r k then visible m k rv else None)" for k
    using visible_stored[of m k rv] rows_of_entries(2)[OF sorted, of "\<lambda>k. visible m k rv" k]
    by (cases "visible m k rv") auto
qed

definition view_value :: "transaction_view \<Rightarrow> bytes \<Rightarrow> bytes option" where
  "view_value t k = fold (overlay_value k) (tv_mutations t) (visible (tv_model t) k (tv_read_version t))"

lemma view_get_eq:
  "check_read_version (tv_model t) (tv_read_version t) = Ok () \<Longrightarrow> view_get t k = Ok (view_value t k)"
  by (simp add: view_get_def model_get_def view_value_def)

lemma view_rows_eq:
  "check_read_version (tv_model t) (tv_read_version t) = Ok () \<Longrightarrow>
     view_rows t ks = Ok (rows_of (view_value t) ks)"
  by (induction ks) (auto simp: view_get_eq List.map_filter_simps split: option.split)

text \<open>A key the view shows was visible in the snapshot or is set by a pending mutation.\<close>

lemma overlay_source:
  "fold (overlay_value k) ms x \<noteq> None \<Longrightarrow> x \<noteq> None \<or> (\<exists>v. Set k v \<in> set ms)"
proof (induction ms arbitrary: x)
  case Nil
  then show ?case by simp
next
  case (Cons m ms)
  from Cons.IH[of "overlay_value k m x"] Cons.prems show ?case
    by (cases m) (auto split: if_splits)
qed

lemma insert_set_keys:
  assumes "bt_wf ks"
  shows "bt_wf (fold (insert_set_key r) ms ks)"
    and "k \<in> fst ` set (fold (insert_set_key r) ms ks) \<longleftrightarrow>
      k \<in> fst ` set ks \<or> range_contains r k \<and> (\<exists>v. Set k v \<in> set ms)"
  using assms
proof (induction ms arbitrary: ks)
  case Nil
  { case 1 then show ?case by simp next case 2 then show ?case by simp }
next
  case (Cons m ms)
  have wf: "bt_wf (insert_set_key r m ks)" if "bt_wf ks" for ks
    using that by (simp add: insert_set_key_def split: mutation.split)
  have keys: "fst ` set (insert_set_key r m ks) =
      fst ` set ks \<union> {k. range_contains r k \<and> (\<exists>v. m = Set k v)}" for ks
    by (auto simp: insert_set_key_def fst_set_bt_insert split: mutation.split)
  { case 1 from Cons.IH(1)[OF wf[OF this]] show ?case by simp next
    case 2 from Cons.IH(2)[OF wf[OF this]] keys show ?case by auto }
qed

lemma view_scan_eq:
  assumes inv: "model_inv (tv_model t)"
    and ok: "check_read_version (tv_model t) (tv_read_version t) = Ok ()"
    and r: "range_start r \<le> range_end r"
  obtains rows where "view_scan t r = Some (Ok rows)" and "bt_wf rows"
    and "\<And>k. bt_get rows k = (if range_contains r k then view_value t k else None)"
proof -
  from model_scan_eq[OF inv ok r] obtain base where base: "model_scan (tv_model t) r (tv_read_version t) = Some (Ok base)"
    and wf: "bt_wf base"
    and get: "\<And>k. bt_get base k = (if range_contains r k then visible (tv_model t) k (tv_read_version t) else None)"
    by blast
  define snap where "snap = fold (\<lambda>(k, _). bt_insert k ()) base []"
  define ks where "ks = map fst (fold (insert_set_key r) (tv_mutations t) snap)"
  have fst_fold: "fst ` set (fold (\<lambda>(k, _). bt_insert k ()) rows acc) = fst ` set acc \<union> fst ` set rows"
    for rows :: "row list" and acc
    by (induction rows arbitrary: acc) (simp_all add: fst_set_bt_insert case_prod_unfold)
  have wf_fold: "bt_wf acc \<Longrightarrow> bt_wf (fold (\<lambda>(k, _). bt_insert k ()) rows acc)"
    for rows :: "row list" and acc
    by (induction rows arbitrary: acc) auto
  have sorted: "sorted_wrt (<) ks"
    using insert_set_keys(1)[of snap r] wf_fold[of "[]" base] by (simp add: ks_def snap_def bt_wf_def)
  have mem: "k \<in> set ks \<longleftrightarrow> k \<in> fst ` set base \<or> range_contains r k \<and> (\<exists>v. Set k v \<in> set (tv_mutations t))" for k
    using insert_set_keys(2)[of snap k r "tv_mutations t"] wf_fold[of "[]" base] fst_fold[of base "[]"]
    by (simp add: ks_def snap_def)
  have base_mem: "k \<in> fst ` set base \<longleftrightarrow> bt_get base k \<noteq> None" for k
    using bt_entry_iff[OF wf] by force
  have "(if k \<in> set ks then view_value t k else None) = (if range_contains r k then view_value t k else None)" for k
    using overlay_source[of k "tv_mutations t" "visible (tv_model t) k (tv_read_version t)"]
    unfolding mem base_mem get view_value_def
    by (cases "fold (overlay_value k) (tv_mutations t) (visible (tv_model t) k (tv_read_version t))") auto
  with that[of "rows_of (view_value t) ks"] base view_rows_eq[OF ok, of ks] rows_of_entries[OF sorted, of "view_value t"]
  show ?thesis
    by (simp add: view_scan_def snap_def[symmetric] ks_def[symmetric] Let_def)
qed

section \<open>Commit and view\<close>

text \<open>No pending range clear covers the key of an earlier pending point mutation.\<close>

fun clears_precede_points :: "mutation list \<Rightarrow> bool" where
  "clears_precede_points [] \<longleftrightarrow> True"
| "clears_precede_points (m # ms) \<longleftrightarrow>
     (case point_key m of None \<Rightarrow> True | Some k \<Rightarrow> list_all (\<lambda>r. \<not> range_contains r k) (cleared ms)) \<and>
     clears_precede_points ms"

lemma unambiguousD:
  "unambiguous ms \<Longrightarrow> a \<in> set ms \<Longrightarrow> b \<in> set ms \<Longrightarrow> point_key a = Some k \<Longrightarrow> point_key b = Some k \<Longrightarrow> a = b"
  unfolding unambiguous_def by (metis option.distinct(1))

lemma unambiguous_ConsD: "unambiguous (m # ms) \<Longrightarrow> unambiguous ms"
  unfolding unambiguous_def by (meson list.set_intros(2))

lemma unambiguous_target: "unambiguous (m # ms) \<Longrightarrow> point_key m = Some k \<Longrightarrow> a \<in> set (targets k ms) \<Longrightarrow> a = m"
  by (rule unambiguousD[of "m # ms"]) auto

lemma batch_value_point:
  assumes "unambiguous (m # ms)" and "point_key m = Some k"
    and "list_all (\<lambda>r. \<not> range_contains r k) (cleared ms)"
  shows "batch_value ms k (point_value m) = point_value m"
proof (cases "targets k ms")
  case Nil
  with assms(3) show ?thesis by (auto simp: batch_value_def list_all_iff)
next
  case (Cons a as)
  then have "a = m"
    using unambiguous_target[OF assms(1,2), of a] by simp
  with Cons show ?thesis by (simp add: batch_value_def)
qed

lemma overlay_point: "point_key m = Some k \<Longrightarrow> overlay_value k m x = point_value m"
  by (cases m) auto

lemma overlay_other:
  "point_key m \<noteq> Some k \<Longrightarrow> batch_value ms k (overlay_value k m x) = batch_value (m # ms) k x"
  by (cases m) (auto simp: batch_value_def List.map_filter_simps split: list.split)

lemma overlay_batch_value:
  "unambiguous ms \<Longrightarrow> clears_precede_points ms \<Longrightarrow> fold (overlay_value k) ms x = batch_value ms k x"
proof (induction ms arbitrary: x)
  case Nil
  then show ?case by (simp add: batch_value_def List.map_filter_simps)
next
  case (Cons m ms)
  then have IH: "fold (overlay_value k) ms (overlay_value k m x) = batch_value ms k (overlay_value k m x)"
    by (auto dest: unambiguous_ConsD)
  show ?case
  proof (cases "point_key m = Some k")
    case True
    have "batch_value ms k (overlay_value k m x) = point_value m"
      using batch_value_point[OF Cons.prems(1) True] Cons.prems(2) True by (simp add: overlay_point)
    with IH True show ?thesis by (simp add: batch_value_def)
  next
    case False
    with IH show ?thesis by (simp add: overlay_other)
  qed
qed

lemma batch_value_canon:
  assumes "unambiguous ms"
  shows "batch_value (canon ms) k x = batch_value ms k x"
proof (cases "targets k ms")
  case Nil
  moreover have "targets k (canon ms) = []"
    using Nil by (metis filter_empty_conv remdups_adj_set set_sort)
  moreover have "set (cleared (canon ms)) = set (cleared ms)"
    by (auto simp: List.map_filter_def)
  ultimately show ?thesis
    by (simp add: batch_value_def)
next
  case (Cons a as)
  then have a: "a \<in> set (targets k ms)" by simp
  then obtain b bs where b: "targets k (canon ms) = b # bs"
    by (cases "targets k (canon ms)") (auto simp: filter_empty_conv)
  then have "b \<in> set (targets k (canon ms))" by simp
  with a have "a = b"
    using unambiguousD[OF assms, of a b k] by auto
  with Cons b show ?thesis
    by (simp add: batch_value_def)
qed

section \<open>Event histories\<close>

text \<open>The state-changing operations of the model as events, and the run over a list of them.\<close>

datatype model_event = ApplyBatch commit_batch | RetainFrom version

fun model_step :: "(bytes \<Rightarrow> bytes) \<Rightarrow> model_event \<Rightarrow> model \<Rightarrow> model" where
  "model_step sha (ApplyBatch b) m = snd (model_apply sha b m)"
| "model_step sha (RetainFrom v) m = snd (retain_from v m)"

interpretation mvcc: invariant_system "model_step sha" model_inv for sha
proof
  fix m e
  assume "model_inv m"
  then show "model_inv (model_step sha e m)"
    by (cases e) (simp_all add: model_inv_apply model_inv_retain)
qed

lemma model_step_bounds:
  "m_latest m \<le> m_latest (model_step sha e m)"
  "m_oldest_readable m \<le> m_oldest_readable (model_step sha e m)"
proof -
  have "m_latest m \<le> m_latest m' \<and> m_oldest_readable m = m_oldest_readable m'"
    if "model_apply sha b m = (res, m')" for b res m'
    using that by (cases rule: model_apply_cases) (auto simp: model_commit_fields)
  then have "m_latest m \<le> m_latest (snd (model_apply sha b m)) \<and>
      m_oldest_readable m = m_oldest_readable (snd (model_apply sha b m))" for b
    by (metis prod.collapse)
  then show "m_latest m \<le> m_latest (model_step sha e m)"
    "m_oldest_readable m \<le> m_oldest_readable (model_step sha e m)"
    by (cases e; auto simp: retain_from_def not_less split: result.split)+
qed

lemma visible_model_step:
  assumes "rv \<le> m_latest m"
  shows "visible (model_step sha e m) k rv = visible m k rv"
proof (cases e)
  case (ApplyBatch b)
  obtain res m' where ap: "model_apply sha b m = (res, m')" by (cases "model_apply sha b m")
  then have "visible m' k rv = visible m k rv"
    using assms by (cases rule: model_apply_cases) (auto intro: visible_commit_old)
  with ap ApplyBatch show ?thesis by simp
next
  case (RetainFrom v)
  then show ?thesis by (simp add: retain_from_def split: result.split)
qed

lemma commits_model_step:
  assumes "bt_get (m_commits m) v = Some r"
  shows "bt_get (m_commits (model_step sha e m)) v = Some r"
proof (cases e)
  case (ApplyBatch b)
  obtain res m' where ap: "model_apply sha b m = (res, m')" by (cases "model_apply sha b m")
  then have "bt_get (m_commits m') v = Some r"
    using assms by (cases rule: model_apply_cases) (auto simp: model_commit_fields)
  with ap ApplyBatch show ?thesis by simp
next
  case (RetainFrom w)
  with assms show ?thesis by (simp add: retain_from_def split: result.split)
qed

section \<open>Properties\<close>

definition demo_set :: "u64 \<Rightarrow> mutation list \<Rightarrow> commit_batch" where
  "demo_set s ms = \<lparr>batch_version = version_new s, batch_identity = identity_for_test s, batch_mutations = ms\<rparr>"

abbreviation demo_key :: bytes where "demo_key \<equiv> [107]"
abbreviation demo_range :: key_range where "demo_range \<equiv> \<lparr>range_start = [97], range_end = [122]\<rparr>"

definition demo_model :: model where
  "demo_model = snd (model_apply (\<lambda>bs. bs) (demo_set 1 [Set demo_key [1]]) model_default)"

lemma demo_model_inv: "model_inv demo_model"
  unfolding demo_model_def by (intro model_inv_apply model_inv_default)

lemmas demo_eval = demo_model_def model_apply_def demo_set_def fingerprint_def canonical_mutations_def
  version_new_def ZERO_def model_default_def less_eq_version_def less_version_def identity_for_test_def
  bt_push_def model_get_def check_read_version_def visible_def newest_point_def newest_clear_def range_contains_def
  bt_get_def word_le_nat_alt word_less_nat_alt

lemma demo_model_latest: "m_latest demo_model = version_new 1" "m_oldest_readable demo_model = ZERO"
  by (simp_all add: demo_eval)

text \<open>The 16-byte encoding of versions is a bijection that preserves their order: decoding
  undoes encoding, every 16-byte string is the encoding of what it decodes to, and byte order
  is version order (generation first).\<close>

theorem version_codec:
  "version_from_be_bytes (version_to_be_bytes v) = v \<and>
   (length bs = 16 \<longrightarrow> version_to_be_bytes (version_from_be_bytes bs) = bs) \<and>
   (version_to_be_bytes v < version_to_be_bytes w \<longleftrightarrow> v < w)"
  by simp

theorem version_codec_witness:
  "version_to_be_bytes (version_from_be_bytes (replicate 16 7)) = replicate 16 7"
  using version_codec[of ZERO "replicate 16 7" ZERO] by simp

text \<open>Canonicalisation depends on the set of mutations only (order and exact duplicates do
  not matter); it succeeds exactly when no two distinct point mutations share a key, and its
  result has the same mutations in strictly increasing canonical order.\<close>

theorem canonical_mutations_spec:
  "(set ms = set ns \<longrightarrow> canonical_mutations ms = canonical_mutations ns) \<and>
   ((\<exists>c. canonical_mutations ms = Ok c) \<longleftrightarrow> unambiguous ms) \<and>
   (\<forall>c. canonical_mutations ms = Ok c \<longrightarrow> set c = set ms \<and> sorted_wrt (<) (map mutation_key c)) \<and>
   (\<forall>e. canonical_mutations ms = Err e \<longrightarrow>
      (\<exists>k a b. e = AmbiguousPointMutations k \<and> a \<in> set ms \<and> b \<in> set ms \<and> a \<noteq> b \<and>
         point_key a = Some k \<and> point_key b = Some k))"
  by (intro conjI allI impI canonical_mutations_cong canonical_mutations_Err)
     (simp_all add: canonical_mutations_Ok_iff sort_dedup_strict[OF inj_mutation_key])

theorem canonical_mutations_spec_witness:
  "canonical_mutations [Set [1] [2], Clear [3], Set [1] [2]] = canonical_mutations [Clear [3], Set [1] [2]]"
proof -
  have "set [Set [1] [2], Clear [3], Set [1] [2]] = set [Clear [3], Set [1] [2]]" by auto
  then show ?thesis
    using canonical_mutations_spec[of "[Set [1] [2], Clear [3], Set [1] [2]]" "[Clear [3], Set [1] [2]]"]
    by blast
qed

text \<open>C15. Snapshots are stable: after any sequence of commits, replays and retention steps, a
  read at a version that was already applied returns the value it returned before, unless
  retention has moved past that version, and then it is refused as too old.\<close>

theorem snapshots_are_stable:
  assumes "model_inv m" and "rv \<le> m_latest m" and "m_oldest_readable m \<le> rv"
    and m': "m' = fold (model_step sha) es m"
  shows "model_get m' k rv =
    (if rv < m_oldest_readable m' then Err (VersionTooOld (m_oldest_readable m') rv) else model_get m k rv)"
proof -
  have "rv \<le> m_latest m' \<and> visible m' k rv = visible m k rv"
    unfolding m'
    by (rule mvcc.run_induct[where P = "\<lambda>s. rv \<le> m_latest s \<and> visible s k rv = visible m k rv"])
       (use assms(1,2) in \<open>simp_all add: visible_model_step order_trans[OF _ model_step_bounds(1)]\<close>)
  with assms(2,3) show ?thesis
    by (auto simp: model_get_def check_read_version_def)
qed

theorem snapshots_are_stable_witness:
  "let m' = fold (model_step (\<lambda>bs. bs)) [ApplyBatch (demo_set 2 [Clear demo_key]), RetainFrom (version_new 2)] demo_model
   in model_get m' demo_key (version_new 1) =
      (if version_new 1 < m_oldest_readable m' then Err (VersionTooOld (m_oldest_readable m') (version_new 1))
       else model_get demo_model demo_key (version_new 1))"
  unfolding Let_def by (rule snapshots_are_stable[OF demo_model_inv _ _ refl]) (simp_all add: demo_model_latest)

text \<open>Committing: an applied batch becomes the latest version, was newer than every earlier
  one and unambiguous, and every read at its version sees the batch applied to the previous
  latest snapshot, point mutations taking precedence over covering range clears.\<close>

theorem applied_batch_reads:
  assumes "model_inv m" and "model_apply sha b m = (Ok Applied, m')"
  shows "m_latest m < batch_version b \<and> m_latest m' = batch_version b \<and> unambiguous (batch_mutations b) \<and>
    model_get m' k (batch_version b) = Ok (batch_value (batch_mutations b) k (visible m k (m_latest m)))"
  using assms(2)
proof (cases rule: model_apply_cases)
  case (applied fp)
  have vis: "visible m' k (batch_version b) =
      batch_value (canon (batch_mutations b)) k (visible m k (m_latest m))"
    unfolding applied(7) using applied assms(1) by (intro visible_commit_new) (simp_all add: distinct_canon)
  have "m_oldest_readable m' \<le> batch_version b"
    using assms(1) applied(6,7) by (auto simp: model_inv_def model_commit_fields)
  with vis applied show ?thesis
    by (simp add: model_get_Ok_iff model_commit_fields batch_value_canon)
qed simp

lemma demo_applied:
  "model_apply (\<lambda>bs. bs) (demo_set 2 [Clear demo_key, ClearRange demo_range]) demo_model =
     (Ok Applied, snd (model_apply (\<lambda>bs. bs) (demo_set 2 [Clear demo_key, ClearRange demo_range]) demo_model))"
  by (simp add: demo_eval)

theorem applied_batch_reads_witness:
  "model_get (snd (model_apply (\<lambda>bs. bs) (demo_set 2 [Clear demo_key, ClearRange demo_range]) demo_model))
     demo_key (version_new 2) = Ok None"
  using applied_batch_reads[OF demo_model_inv demo_applied, of demo_key]
  by (simp add: demo_set_def batch_value_def List.map_filter_simps)

text \<open>Replay evidence: a batch offered again at a committed version leaves the model alone and
  is recognised as already applied exactly when identity and set of mutations are those of the
  batch committed there; anything else is a conflicting replay. Digest collisions are excluded
  on a set of digest inputs containing both.\<close>

theorem replay_is_recognised:
  assumes "inj_on sha S" and "batch_input a \<in> S" "batch_input b \<in> S" and "batch_fits a" "batch_fits b"
    and "model_apply sha a m = (Ok Applied, m')" and "unambiguous (batch_mutations b)"
    and "batch_version b = batch_version a"
  shows "model_apply sha b (fold (model_step sha) es m') =
    (if batch_identity b = batch_identity a \<and> set (batch_mutations b) = set (batch_mutations a)
     then Ok AlreadyApplied else Err (ConflictingReplay (batch_version a)),
     fold (model_step sha) es m')"
proof -
  have kept: "bt_get (m_commits (fold (model_step sha) es m)) v = Some r" if "bt_get (m_commits m) v = Some r" for v r m
    using that
  proof (induction es arbitrary: m)
    case (Cons e es)
    have "bt_get (m_commits (model_step sha e m)) v = Some r"
      using Cons.prems by (rule commits_model_step)
    then show ?case using Cons.IH by simp
  qed simp
  have rec: "bt_get (m_commits m') (batch_version a) =
      Some \<lparr>rec_identity = batch_identity a, rec_fingerprint = sha (batch_input a)\<rparr> \<and> batch_version a \<noteq> ZERO"
    using assms(6)
    by (cases rule: model_apply_cases) (auto simp: model_commit_fields fingerprint_Ok_iff)
  have fp: "fingerprint sha b = Ok (sha (batch_input b))"
    using assms(7) by (simp add: fingerprint_Ok_iff)
  have "sha (batch_input a) = sha (batch_input b) \<longleftrightarrow>
      batch_identity a = batch_identity b \<and> set (batch_mutations a) = set (batch_mutations b)"
    using assms by (simp add: inj_on_eq_iff batch_input_inject)
  with rec kept[of m' "batch_version a"] fp assms(8) show ?thesis
    by (auto simp: model_apply_def)
qed

theorem replay_is_recognised_witness:
  "fst (model_apply (\<lambda>bs. bs) (demo_set 1 [Set demo_key [1], Set demo_key [1]]) demo_model) = Ok AlreadyApplied \<and>
   fst (model_apply (\<lambda>bs. bs) (demo_set 1 [Set demo_key [2]]) demo_model) = Err (ConflictingReplay (version_new 1))"
proof -
  have "model_apply (\<lambda>bs. bs) (demo_set 1 [Set demo_key [1]]) model_default = (Ok Applied, demo_model)"
    unfolding demo_model_def
    by (simp add: demo_eval)
  moreover have "batch_fits (demo_set 1 [Set demo_key [1]])"
    "batch_fits (demo_set 1 [Set demo_key [1], Set demo_key [1]])" "batch_fits (demo_set 1 [Set demo_key [2]])"
    by (simp_all add: batch_fits_def demo_set_def identity_for_test_def commit_identity_new_def)
  ultimately show ?thesis
    using replay_is_recognised[of "\<lambda>bs. bs" UNIV "demo_set 1 [Set demo_key [1]]" _ model_default demo_model "[]"]
    by (simp add: demo_set_def unambiguous_def)
qed

text \<open>A scan of a transaction's view lists, in strictly increasing key order, exactly the keys
  of the range at which a read of the same view returns a value, with that value.\<close>

theorem view_scan_lists_view_reads:
  assumes "model_inv (tv_model t)" and "check_read_version (tv_model t) (tv_read_version t) = Ok ()"
    and "range_start r \<le> range_end r"
  shows "\<exists>rows. view_scan t r = Some (Ok rows) \<and> sorted_wrt (<) (map fst rows) \<and>
    (\<forall>k v. (k, v) \<in> set rows \<longleftrightarrow> range_contains r k \<and> view_get t k = Ok (Some v))"
proof -
  from view_scan_eq[OF assms] obtain rows where rows: "view_scan t r = Some (Ok rows)" "bt_wf rows"
    "\<And>k. bt_get rows k = (if range_contains r k then view_value t k else None)"
    by blast
  have "(k, v) \<in> set rows \<longleftrightarrow> range_contains r k \<and> view_get t k = Ok (Some v)" for k v
    using bt_entry_iff[OF rows(2), of k v] rows(3)[of k] view_get_eq[OF assms(2), of k] by auto
  with rows show ?thesis by (auto simp: bt_wf_def)
qed

definition demo_view :: "mutation list \<Rightarrow> transaction_view" where
  "demo_view ms = \<lparr>tv_model = demo_model, tv_read_version = version_new 1, tv_mutations = ms\<rparr>"

lemma demo_view_ok:
  "model_inv (tv_model (demo_view ms))"
  "check_read_version (tv_model (demo_view ms)) (tv_read_version (demo_view ms)) = Ok ()"
  by (simp_all add: demo_view_def demo_model_inv check_read_version_Ok_iff demo_model_latest)

theorem view_scan_lists_view_reads_witness:
  "\<exists>rows. view_scan (demo_view [Set [108] [2]]) demo_range = Some (Ok rows) \<and> sorted_wrt (<) (map fst rows) \<and>
    (\<forall>k v. (k, v) \<in> set rows \<longleftrightarrow> range_contains demo_range k \<and> view_get (demo_view [Set [108] [2]]) k = Ok (Some v))"
  by (rule view_scan_lists_view_reads[OF demo_view_ok]) simp

text \<open>Reading your own writes: a view opened at the latest version, whose pending range
  clears never cover the key of an earlier pending point mutation, reads at every key exactly
  what a read at the commit version returns once its mutations are applied.\<close>

theorem view_reads_what_commits:
  assumes "model_inv m" and "transaction m (m_latest m) = Ok t"
    and "model_apply sha \<lparr>batch_version = v, batch_identity = i, batch_mutations = ms\<rparr> m = (Ok Applied, m')"
    and "clears_precede_points ms"
  shows "view_get (fold mutate ms t) k = model_get m' k v"
proof -
  let ?b = "\<lparr>batch_version = v, batch_identity = i, batch_mutations = ms\<rparr>"
  have t: "check_read_version m (m_latest m) = Ok ()" "t = \<lparr>tv_model = m, tv_read_version = m_latest m, tv_mutations = []\<rparr>"
    using assms(2) by (auto simp: transaction_def try_bind_Ok_iff)
  have "fold mutate ms t = t\<lparr>tv_mutations := tv_mutations t @ ms\<rparr>" for ms t
    by (induction ms arbitrary: t) (simp_all add: mutate_def)
  then have view: "view_get (fold mutate ms t) k = Ok (fold (overlay_value k) ms (visible m k (m_latest m)))"
    using t by (simp add: view_get_def model_get_def)
  show ?thesis
    using assms(3)
  proof (cases rule: model_apply_cases)
    case (applied fp)
    have "visible m' k v = batch_value (canon ms) k (visible m k (m_latest m))"
      unfolding applied(7) using applied assms(1) by (simp add: visible_commit_new distinct_canon)
    moreover have "m_oldest_readable m' \<le> v"
      using assms(1) applied(6,7) by (auto simp: model_inv_def model_commit_fields)
    ultimately have "model_get m' k v = Ok (batch_value ms k (visible m k (m_latest m)))"
      using applied by (simp add: model_get_Ok_iff model_commit_fields batch_value_canon)
    with view applied assms(4) show ?thesis by (simp add: overlay_batch_value)
  qed simp
qed

theorem view_reads_what_commits_witness:
  "view_get (fold mutate [Clear demo_key, Set [108] [2]] (demo_view [])) [108] =
   model_get (snd (model_apply (\<lambda>bs. bs) (demo_set 2 [Clear demo_key, Set [108] [2]]) demo_model)) [108] (version_new 2)"
proof -
  have "transaction demo_model (m_latest demo_model) = Ok (demo_view [])"
    by (simp add: transaction_def demo_view_def check_read_version_def demo_model_latest less_version_def version_new_def ZERO_def)
  moreover have "model_apply (\<lambda>bs. bs) (demo_set 2 [Clear demo_key, Set [108] [2]]) demo_model =
      (Ok Applied, snd (model_apply (\<lambda>bs. bs) (demo_set 2 [Clear demo_key, Set [108] [2]]) demo_model))"
    by (simp add: demo_eval)
  ultimately show ?thesis
    using view_reads_what_commits[OF demo_model_inv, of "demo_view []" "\<lambda>bs. bs" "version_new 2" "identity_for_test 2"
        "[Clear demo_key, Set [108] [2]]" _ "[108]"]
    by (simp add: demo_set_def List.map_filter_simps)
qed

text \<open>Without that order the two readings differ: a view that sets a key and then clears a
  range covering it reads nothing there, while the commit of the same mutations stores the
  value, because a commit lets point mutations win over range clears.\<close>

theorem view_and_commit_differ:
  "view_get (fold mutate [Set demo_key [2], ClearRange demo_range] (demo_view [])) demo_key = Ok None \<and>
   model_get (snd (model_apply (\<lambda>bs. bs) (demo_set 2 [Set demo_key [2], ClearRange demo_range]) demo_model))
     demo_key (version_new 2) = Ok (Some [2])"
proof
  show "view_get (fold mutate [Set demo_key [2], ClearRange demo_range] (demo_view [])) demo_key = Ok None"
    using demo_view_ok(2)[of "[]"] by (simp add: view_get_def model_get_def mutate_def demo_view_def range_contains_def)
  show "model_get (snd (model_apply (\<lambda>bs. bs) (demo_set 2 [Set demo_key [2], ClearRange demo_range]) demo_model))
     demo_key (version_new 2) = Ok (Some [2])"
    by (simp add: demo_eval)
qed
end
