(* ===== verification/Mvcc_Oracle.thy ===== *)
theory Mvcc_Oracle
  imports Mvcc_Model
begin

text \<open>
  The full-snapshot oracle of the differential history suite
  (\<open>okv-model/src/history.rs\<close>, \<open>NaiveOracle\<close>) and the proof that the multi-version model
  agrees with it: a simulation kept by every commit, replay and retention step, from which
  equal reads and scans follow.
\<close>

section \<open>The oracle\<close>

datatype oracle_mutation = OClearRange bytes bytes | OClear bytes | OSet bytes bytes

text \<open>The derived \<open>Ord\<close>: by constructor, then by fields.\<close>

fun oracle_key :: "oracle_mutation \<Rightarrow> nat \<times> bytes \<times> bytes" where
  "oracle_key (OClearRange s e) = (0, s, e)"
| "oracle_key (OClear k) = (1, k, [])"
| "oracle_key (OSet k v) = (2, k, v)"

lemma oracle_key_inject: "oracle_key a = oracle_key b \<longleftrightarrow> a = b"
  by (cases a; cases b) auto

instantiation oracle_mutation :: linorder
begin

definition less_eq_oracle_mutation :: "oracle_mutation \<Rightarrow> oracle_mutation \<Rightarrow> bool" where
  "a \<le> b \<longleftrightarrow> oracle_key a \<le> oracle_key b"

definition less_oracle_mutation :: "oracle_mutation \<Rightarrow> oracle_mutation \<Rightarrow> bool" where
  "a < b \<longleftrightarrow> oracle_key a < oracle_key b"

instance
  by standard
    (auto simp: less_eq_oracle_mutation_def less_oracle_mutation_def less_le_not_le
      oracle_key_inject[symmetric])

end

record naive_oracle =
  o_snapshots :: "(version, (bytes, bytes) btree) btree"
  o_commits :: "(version, commit_identity \<times> oracle_mutation list) btree"
  o_latest :: version
  o_oldest_readable :: version

definition oracle_default :: naive_oracle where
  "oracle_default = \<lparr>o_snapshots = [], o_commits = [], o_latest = ZERO, o_oldest_readable = ZERO\<rparr>"

fun oracle_mutation_of :: "mutation \<Rightarrow> oracle_mutation" where
  "oracle_mutation_of (Set k v) = OSet k v"
| "oracle_mutation_of (Clear k) = OClear k"
| "oracle_mutation_of (ClearRange r) = OClearRange (range_start r) (range_end r)"

definition oracle_signature :: "mutation list \<Rightarrow> oracle_mutation list" where
  "oracle_signature ms = remdups_adj (sort (map oracle_mutation_of ms))"

text \<open>\<open>snapshots.range(..=version).next_back()\<close>\<close>

definition snapshot_at :: "naive_oracle \<Rightarrow> version \<Rightarrow> (bytes, bytes) btree option" where
  "snapshot_at orc v =
     (let es = filter (\<lambda>(k, _). k \<le> v) (o_snapshots orc)
      in if es = [] then None else Some (snd (last es)))"

definition oracle_check_read_version :: "naive_oracle \<Rightarrow> version \<Rightarrow> (unit, model_error) result" where
  "oracle_check_read_version orc requested =
     (if requested > o_latest orc then Err (VersionNotApplied (o_latest orc) requested)
      else if requested < o_oldest_readable orc then Err (VersionTooOld (o_oldest_readable orc) requested)
      else Ok ())"

fun oracle_clear :: "mutation \<Rightarrow> (bytes, bytes) btree \<Rightarrow> (bytes, bytes) btree" where
  "oracle_clear (ClearRange r) s = filter (\<lambda>(k, v). \<not> range_contains r k) s"
| "oracle_clear _ s = s"

fun oracle_point :: "mutation \<Rightarrow> (bytes, bytes) btree \<Rightarrow> (bytes, bytes) btree" where
  "oracle_point (Set k v) s = bt_insert k v s"
| "oracle_point (Clear k) s = bt_remove k s"
| "oracle_point (ClearRange r) s = s"

definition oracle_apply ::
  "commit_batch \<Rightarrow> naive_oracle \<Rightarrow> (apply_outcome, model_error) result \<times> naive_oracle" where
  "oracle_apply b orc =
     (let signature = oracle_signature (batch_mutations b) in
      case bt_get (o_commits orc) (batch_version b) of
        Some (identity, existing) \<Rightarrow>
          (if identity = batch_identity b \<and> existing = signature
           then (Ok AlreadyApplied, orc)
           else (Err (ConflictingReplay (batch_version b)), orc))
      | None \<Rightarrow>
          if batch_version b = ZERO then (Err ZeroVersion, orc)
          else if batch_version b \<le> o_latest orc
          then (Err (NonMonotonicVersion (o_latest orc) (batch_version b)), orc)
          else
            let base = (case snapshot_at orc (o_latest orc) of None \<Rightarrow> [] | Some s \<Rightarrow> s);
                swept = fold oracle_clear (batch_mutations b) base;
                snapshot = fold oracle_point (batch_mutations b) swept
            in (Ok Applied,
                orc\<lparr>o_commits := bt_insert (batch_version b) (batch_identity b, signature) (o_commits orc),
                  o_snapshots := bt_insert (batch_version b) snapshot (o_snapshots orc),
                  o_latest := batch_version b\<rparr>))"

definition oracle_retain_from :: "version \<Rightarrow> naive_oracle \<Rightarrow> (unit, model_error) result \<times> naive_oracle" where
  "oracle_retain_from v orc =
     (case oracle_check_read_version orc v of
        Err e \<Rightarrow> (Err e, orc)
      | Ok _ \<Rightarrow> (Ok (), orc\<lparr>o_oldest_readable := v\<rparr>))"

definition oracle_get :: "naive_oracle \<Rightarrow> bytes \<Rightarrow> version \<Rightarrow> (bytes option, model_error) result" where
  "oracle_get orc k v =
     try_bind (oracle_check_read_version orc v)
       (\<lambda>_. Ok (Option.bind (snapshot_at orc v) (\<lambda>s. bt_get s k)))"

definition oracle_scan :: "naive_oracle \<Rightarrow> key_range \<Rightarrow> version \<Rightarrow> (row list, model_error) result option" where
  "oracle_scan orc r v =
     (case oracle_check_read_version orc v of
        Err e \<Rightarrow> Some (Err e)
      | Ok _ \<Rightarrow>
         (case snapshot_at orc v of
            None \<Rightarrow> Some (Ok [])
          | Some s \<Rightarrow>
              if range_start r > range_end r then None
              else Some (Ok (bt_range (range_start r) (range_end r) s))))"

section \<open>Signatures and snapshots\<close>

lemma inj_oracle_mutation_of: "inj oracle_mutation_of"
proof (rule injI)
  fix a b
  assume "oracle_mutation_of a = oracle_mutation_of b"
  then show "a = b"
    by (cases a; cases b) auto
qed

lemma oracle_signature_eq_iff: "oracle_signature ms = oracle_signature ns \<longleftrightarrow> set ms = set ns"
proof
  assume "oracle_signature ms = oracle_signature ns"
  then have "oracle_mutation_of ` set ms = oracle_mutation_of ` set ns"
    unfolding oracle_signature_def by (metis remdups_adj_set set_map set_sort)
  then show "set ms = set ns"
    by (simp add: inj_image_eq_iff[OF inj_oracle_mutation_of])
next
  assume "set ms = set ns"
  then show "oracle_signature ms = oracle_signature ns"
    unfolding oracle_signature_def by (intro sort_dedup_cong) simp_all
qed

lemma snapshot_at_insert:
  assumes "bt_wf (o_snapshots orc)" and "\<forall>v \<in> fst ` set (o_snapshots orc). v < ver"
  shows "snapshot_at (orc\<lparr>o_commits := cs, o_snapshots := bt_insert ver s (o_snapshots orc), o_latest := l\<rparr>) v =
    (if ver \<le> v then Some s else snapshot_at orc v)"
proof -
  have "bt_insert ver s sn = sn @ [(ver, s)]" if "\<forall>v \<in> fst ` set sn. v < ver" for sn
    using that by (induction sn) (auto simp: not_less_iff_gr_or_eq)
  then have "bt_insert ver s (o_snapshots orc) = o_snapshots orc @ [(ver, s)]"
    using assms(2) by blast
  then show ?thesis
    by (simp add: snapshot_at_def)
qed

lemma oracle_clears:
  assumes "bt_wf s"
  shows "bt_wf (fold oracle_clear ms s)"
    and "bt_get (fold oracle_clear ms s) k =
      (if \<exists>r \<in> set (cleared ms). range_contains r k then None else bt_get s k)"
proof -
  have wf: "bt_wf (oracle_clear m s)" if "bt_wf s" for m s
    using that by (cases m) simp_all
  show "bt_wf (fold oracle_clear ms s)"
    using assms wf by (induction ms arbitrary: s) auto
  show "bt_get (fold oracle_clear ms s) k =
      (if \<exists>r \<in> set (cleared ms). range_contains r k then None else bt_get s k)"
    using assms
  proof (induction ms arbitrary: s)
    case Nil
    then show ?case by (simp add: List.map_filter_simps)
  next
    case (Cons m ms)
    have "bt_get (oracle_clear m s) k =
        (case cleared_range m of Some r \<Rightarrow> if range_contains r k then None else bt_get s k | None \<Rightarrow> bt_get s k)"
      using Cons.prems by (cases m) (auto simp: bt_get_filter split: option.split)
    with Cons.IH[OF wf[OF Cons.prems, of m]] show ?case
      by (auto simp: List.map_filter_simps split: option.splits)
  qed
qed

lemma oracle_points:
  "bt_wf s \<Longrightarrow> bt_wf (fold oracle_point ms s)"
  "bt_get (fold oracle_point ms s) k =
     (case targets k ms of [] \<Rightarrow> bt_get s k | _ \<Rightarrow> point_value (last (targets k ms)))"
proof -
  have wf: "bt_wf (oracle_point m s)" if "bt_wf s" for m s
    using that by (cases m) simp_all
  show "bt_wf s \<Longrightarrow> bt_wf (fold oracle_point ms s)"
    using wf by (induction ms arbitrary: s) auto
  have "bt_get (oracle_point m s) k = (if point_key m = Some k then point_value m else bt_get s k)" for m s
    by (cases m) auto
  then show "bt_get (fold oracle_point ms s) k =
     (case targets k ms of [] \<Rightarrow> bt_get s k | _ \<Rightarrow> point_value (last (targets k ms)))"
    by (induction ms rule: rev_induct) (auto split: list.split)
qed

text \<open>The oracle's two passes over a batch have the model's effect.\<close>

lemma oracle_batch_value:
  assumes "bt_wf s" and "unambiguous ms"
  shows "bt_get (fold oracle_point ms (fold oracle_clear ms s)) k = batch_value (canon ms) k (bt_get s k)"
proof -
  have "bt_get (fold oracle_point ms (fold oracle_clear ms s)) k = batch_value ms k (bt_get s k)"
  proof (cases "targets k ms")
    case Nil
    then show ?thesis
      using assms(1) by (simp add: oracle_points(2) oracle_clears(2) batch_value_def)
  next
    case (Cons a as)
    have "last (targets k ms) \<in> set (targets k ms)" "a \<in> set (targets k ms)"
      using Cons by (metis last_in_set list.distinct(1), simp)
    then have "last (targets k ms) = a"
      using assms(2) by (auto simp: unambiguous_def)
    with Cons show ?thesis
      by (simp add: oracle_points(2) batch_value_def)
  qed
  with assms(2) show ?thesis by (simp add: batch_value_canon)
qed

section \<open>Simulation\<close>

abbreviation oracle_value :: "naive_oracle \<Rightarrow> bytes \<Rightarrow> version \<Rightarrow> bytes option" where
  "oracle_value orc k v \<equiv> Option.bind (snapshot_at orc v) (\<lambda>s. bt_get s k)"

definition oracle_wf :: "naive_oracle \<Rightarrow> bool" where
  "oracle_wf orc \<longleftrightarrow> bt_wf (o_snapshots orc) \<and> (\<forall>s \<in> snd ` set (o_snapshots orc). bt_wf s) \<and>
     (\<forall>v \<in> fst ` set (o_snapshots orc). v \<le> o_latest orc)"

text \<open>
  The retained replay evidence of one version: both sides recorded the same batch, the
  model as a fingerprint and the oracle as a signature. \<open>S\<close> is a set of digest inputs on
  which \<open>sha\<close> has no collision.
\<close>

definition same_commit :: "(bytes \<Rightarrow> bytes) \<Rightarrow> bytes set \<Rightarrow> version \<Rightarrow> commit_record \<Rightarrow>
    commit_identity \<times> oracle_mutation list \<Rightarrow> bool" where
  "same_commit sha S v rec o_rec \<longleftrightarrow>
     (\<exists>b. batch_fits b \<and> batch_input b \<in> S \<and> batch_version b = v \<and>
        rec = \<lparr>rec_identity = batch_identity b, rec_fingerprint = sha (batch_input b)\<rparr> \<and>
        o_rec = (batch_identity b, oracle_signature (batch_mutations b)))"

definition sim :: "(bytes \<Rightarrow> bytes) \<Rightarrow> bytes set \<Rightarrow> model \<Rightarrow> naive_oracle \<Rightarrow> bool" where
  "sim sha S m orc \<longleftrightarrow>
     model_inv m \<and> oracle_wf orc \<and>
     m_latest m = o_latest orc \<and> m_oldest_readable m = o_oldest_readable orc \<and>
     (\<forall>v. rel_option (same_commit sha S v) (bt_get (m_commits m) v) (bt_get (o_commits orc) v)) \<and>
     (\<forall>k v. visible m k v = oracle_value orc k v)"

lemma sim_default: "sim sha S model_default oracle_default"
  by (simp add: sim_def model_inv_default oracle_wf_def)
     (simp add: model_default_def oracle_default_def visible_def newest_point_def snapshot_at_def)

lemma snapshot_at_wf: "oracle_wf orc \<Longrightarrow> snapshot_at orc v = Some s \<Longrightarrow> bt_wf s"
  using last_in_set[of "filter (\<lambda>(k, _). k \<le> v) (o_snapshots orc)"]
  by (fastforce simp: oracle_wf_def snapshot_at_def Let_def split: if_splits)

lemma sim_check_read_version:
  "sim sha S m orc \<Longrightarrow> oracle_check_read_version orc v = check_read_version m v"
  by (simp add: sim_def oracle_check_read_version_def check_read_version_def)

lemma sim_replay:
  assumes "inj_on sha S" and "same_commit sha S (batch_version b) rec (i, sg)"
    and "batch_fits b" and "batch_input b \<in> S"
  shows "rec_identity rec = batch_identity b \<and> rec_fingerprint rec = sha (batch_input b) \<longleftrightarrow>
    i = batch_identity b \<and> sg = oracle_signature (batch_mutations b)"
  using assms by (auto simp: same_commit_def inj_on_eq_iff batch_input_inject oracle_signature_eq_iff)

lemma sim_commit:
  assumes sim: "sim sha S m orc" and b: "batch_fits b" "batch_input b \<in> S" "unambiguous (batch_mutations b)"
    and new: "m_latest m < batch_version b"
  defines "base \<equiv> case snapshot_at orc (o_latest orc) of None \<Rightarrow> [] | Some s \<Rightarrow> s"
  defines "snap \<equiv> fold oracle_point (batch_mutations b) (fold oracle_clear (batch_mutations b) base)"
  shows "sim sha S
    (model_commit (batch_version b)
       \<lparr>rec_identity = batch_identity b, rec_fingerprint = sha (batch_input b)\<rparr> (canon (batch_mutations b)) m)
    (orc\<lparr>o_commits := bt_insert (batch_version b) (batch_identity b, oracle_signature (batch_mutations b)) (o_commits orc),
      o_snapshots := bt_insert (batch_version b) snap (o_snapshots orc), o_latest := batch_version b\<rparr>)"
    (is "sim sha S ?m ?orc")
proof -
  have inv: "model_inv m" and owf: "oracle_wf orc" and latest: "m_latest m = o_latest orc"
    using sim by (simp_all add: sim_def)
  have base_wf: "bt_wf base"
    unfolding base_def by (auto split: option.split dest: snapshot_at_wf[OF owf])
  have snap_wf: "bt_wf snap"
    unfolding snap_def by (intro oracle_points(1) oracle_clears(1) base_wf)
  have snap_get: "bt_get snap k = batch_value (canon (batch_mutations b)) k (oracle_value orc k (o_latest orc))" for k
    unfolding snap_def oracle_batch_value[OF base_wf b(3)] by (simp add: base_def split: option.split)
  have below: "\<forall>v \<in> fst ` set (o_snapshots orc). v < batch_version b"
    using owf new latest by (auto simp: oracle_wf_def)
  have at: "snapshot_at ?orc v = (if batch_version b \<le> v then Some snap else snapshot_at orc v)" for v
    by (rule snapshot_at_insert) (use owf below in \<open>auto simp: oracle_wf_def\<close>)
  have owf': "oracle_wf ?orc"
  proof -
    have "snd ` set (bt_insert ver s sn) \<subseteq> insert s (snd ` set sn)" for ver s and sn :: "(version, (bytes, bytes) btree) btree"
      by (induction ver s sn rule: bt_insert.induct) auto
    then show ?thesis
      using owf snap_wf below by (fastforce simp: oracle_wf_def fst_set_bt_insert)
  qed
  have vis: "visible ?m k v = oracle_value ?orc k v" for k v
  proof (cases "batch_version b \<le> v")
    case True
    then have "visible ?m k v = batch_value (canon (batch_mutations b)) k (visible m k (m_latest m))"
      using inv new b(3) by (intro visible_commit_new) (simp_all add: distinct_canon)
    with True at snap_get sim show ?thesis
      by (simp add: sim_def)
  next
    case False
    then have "v < batch_version b" by simp
    with False at sim show ?thesis
      by (simp add: visible_commit_old sim_def)
  qed
  have inv': "model_inv ?m"
    using inv new b(3) by (intro model_inv_commit) (simp_all add: distinct_canon)
  have same: "same_commit sha S (batch_version b)
      \<lparr>rec_identity = batch_identity b, rec_fingerprint = sha (batch_input b)\<rparr>
      (batch_identity b, oracle_signature (batch_mutations b))"
    unfolding same_commit_def using b by blast
  show ?thesis
    unfolding sim_def using inv' owf' vis same sim by (simp add: model_commit_fields sim_def)
qed

text \<open>Every batch without ambiguous point mutations gets the same answer from both sides.\<close>

lemma sim_apply:
  assumes sim: "sim sha S m orc" and sha: "inj_on sha S"
    and b: "batch_fits b" "batch_input b \<in> S" "unambiguous (batch_mutations b)"
  shows "fst (model_apply sha b m) = fst (oracle_apply b orc) \<and>
    sim sha S (snd (model_apply sha b m)) (snd (oracle_apply b orc))"
proof -
  have fp: "fingerprint sha b = Ok (sha (batch_input b))"
    using b(3) by (simp add: fingerprint_Ok_iff)
  have canon: "canonical_mutations (batch_mutations b) = Ok (canon (batch_mutations b))"
    using b(3) by (simp add: canonical_mutations_Ok_iff)
  have latest: "m_latest m = o_latest orc"
    using sim by (simp add: sim_def)
  have rel: "rel_option (same_commit sha S (batch_version b))
      (bt_get (m_commits m) (batch_version b)) (bt_get (o_commits orc) (batch_version b))"
    using sim by (simp add: sim_def)
  show ?thesis
  proof (cases "bt_get (m_commits m) (batch_version b)")
    case None
    with rel have none: "bt_get (o_commits orc) (batch_version b) = None" by simp
    show ?thesis
    proof (cases "m_latest m < batch_version b")
      case True
      then have "\<not> batch_version b \<le> o_latest orc" "batch_version b \<noteq> ZERO"
        using latest ZERO_least[of "m_latest m"] by (auto simp del: ZERO_least)
      with sim_commit[OF sim b True] None none latest fp canon show ?thesis
        by (simp add: model_apply_def oracle_apply_def Let_def model_commit_def fold_apply_mutation)
    next
      case False
      with None none latest fp sim show ?thesis
        by (simp add: model_apply_def oracle_apply_def not_less)
    qed
  next
    case (Some rec)
    with rel obtain i sg where osome: "bt_get (o_commits orc) (batch_version b) = Some (i, sg)"
      and same: "same_commit sha S (batch_version b) rec (i, sg)"
      by (auto simp: option_rel_Some1)
    have "batch_version b \<noteq> ZERO"
      using sim Some by (force simp: sim_def model_inv_def bt_contains_def)
    then show ?thesis
      using Some osome sim_replay[OF sha same b(1,2)] sim fp
      by (simp add: model_apply_def oracle_apply_def Let_def)
  qed
qed

lemma sim_retain:
  "sim sha S m orc \<Longrightarrow> fst (retain_from v m) = fst (oracle_retain_from v orc) \<and>
     sim sha S (snd (retain_from v m)) (snd (oracle_retain_from v orc))"
proof -
  assume sim: "sim sha S m orc"
  have at: "snapshot_at (orc\<lparr>o_oldest_readable := v\<rparr>) w = snapshot_at orc w" for w
    by (simp add: snapshot_at_def)
  show ?thesis
    using sim model_inv_retain[of m v] sim_check_read_version[OF sim, of v]
    by (cases "check_read_version m v")
       (auto simp: sim_def retain_from_def oracle_retain_from_def at oracle_wf_def check_read_version_def
         split: if_splits)
qed

lemma sim_get: "sim sha S m orc \<Longrightarrow> model_get m k v = oracle_get orc k v"
  by (simp add: model_get_def oracle_get_def sim_check_read_version) (simp add: sim_def)

lemma sim_scan:
  assumes sim: "sim sha S m orc" and r: "range_start r \<le> range_end r"
  shows "model_scan m r v = oracle_scan orc r v"
proof (cases "check_read_version m v")
  case (Err e)
  then show ?thesis
    using sim_check_read_version[OF sim, of v] by (simp add: model_scan_def oracle_scan_def)
next
  case (Ok u)
  then have ok: "check_read_version m v = Ok ()" by simp
  have inv: "model_inv m" using sim by (simp add: sim_def)
  from model_scan_eq[OF inv ok r] obtain rows where rows: "model_scan m r v = Some (Ok rows)" "bt_wf rows"
    "\<And>k. bt_get rows k = (if range_contains r k then visible m k v else None)"
    by blast
  have vis: "visible m k v = oracle_value orc k v" for k
    using sim by (simp add: sim_def)
  show ?thesis
  proof (cases "snapshot_at orc v")
    case None
    then have "rows = []"
      using rows(2,3) vis by (intro bt_ext) auto
    with None rows ok sim_check_read_version[OF sim, of v] show ?thesis
      by (simp add: oracle_scan_def)
  next
    case (Some s)
    have wf: "bt_wf s" using sim Some by (auto simp: sim_def intro: snapshot_at_wf)
    have "rows = bt_range (range_start r) (range_end r) s"
      using rows(2,3) vis Some wf
      by (intro bt_ext) (auto simp: bt_range_def bt_get_filter range_contains_def split: option.split)
    with Some rows ok r sim_check_read_version[OF sim, of v] show ?thesis
      by (simp add: oracle_scan_def)
  qed
qed

section \<open>Agreement over histories\<close>

datatype answer = Committed "(apply_outcome, model_error) result" | Retained "(unit, model_error) result"

fun model_event_answer :: "(bytes \<Rightarrow> bytes) \<Rightarrow> model_event \<Rightarrow> model \<Rightarrow> answer \<times> model" where
  "model_event_answer sha (ApplyBatch b) m = map_prod Committed id (model_apply sha b m)"
| "model_event_answer sha (RetainFrom v) m = map_prod Retained id (retain_from v m)"

fun oracle_event_answer :: "model_event \<Rightarrow> naive_oracle \<Rightarrow> answer \<times> naive_oracle" where
  "oracle_event_answer (ApplyBatch b) orc = map_prod Committed id (oracle_apply b orc)"
| "oracle_event_answer (RetainFrom v) orc = map_prod Retained id (oracle_retain_from v orc)"

text \<open>A run collects the answers in order.\<close>

fun run_answers :: "('e \<Rightarrow> 's \<Rightarrow> answer \<times> 's) \<Rightarrow> 'e list \<Rightarrow> 's \<Rightarrow> answer list \<times> 's" where
  "run_answers step [] s = ([], s)"
| "run_answers step (e # es) s =
     (let (a, s') = step e s; (as, s'') = run_answers step es s' in (a # as, s''))"

fun admissible :: "bytes set \<Rightarrow> model_event \<Rightarrow> bool" where
  "admissible S (ApplyBatch b) \<longleftrightarrow> batch_fits b \<and> batch_input b \<in> S \<and> unambiguous (batch_mutations b)"
| "admissible S (RetainFrom v) \<longleftrightarrow> True"

lemma sim_event:
  assumes "sim sha S m orc" and "inj_on sha S" and "admissible S e"
  shows "fst (model_event_answer sha e m) = fst (oracle_event_answer e orc) \<and>
    sim sha S (snd (model_event_answer sha e m)) (snd (oracle_event_answer e orc))"
  using assms sim_apply[OF assms(1,2)] sim_retain[OF assms(1)] by (cases e) simp_all

lemma sim_run:
  assumes "inj_on sha S"
  shows "sim sha S m orc \<Longrightarrow> list_all (admissible S) es \<Longrightarrow>
    fst (run_answers (model_event_answer sha) es m) = fst (run_answers oracle_event_answer es orc) \<and>
    sim sha S (snd (run_answers (model_event_answer sha) es m)) (snd (run_answers oracle_event_answer es orc))"
proof (induction es arbitrary: m orc)
  case (Cons e es)
  from Cons.prems have "fst (model_event_answer sha e m) = fst (oracle_event_answer e orc)"
    and sim: "sim sha S (snd (model_event_answer sha e m)) (snd (oracle_event_answer e orc))"
    using sim_event[OF _ assms] by simp_all
  with Cons.IH[OF sim] Cons.prems show ?case
    by (simp add: case_prod_unfold Let_def)
qed simp

text \<open>C12. Differential agreement: over every history of unambiguous commits, replays, stale
  versions and retention steps, the multi-version model and the oracle that stores a full copy
  of the database per version give the same answers, and afterwards the same result for every
  point read and every scan of a well-formed range at every version.\<close>

theorem model_agrees_with_oracle:
  assumes "inj_on sha S" and "list_all (admissible S) es"
    and "run_m = run_answers (model_event_answer sha) es model_default"
    and "run_o = run_answers oracle_event_answer es oracle_default"
  shows "fst run_m = fst run_o \<and>
    (\<forall>k v. model_get (snd run_m) k v = oracle_get (snd run_o) k v) \<and>
    (\<forall>r v. range_start r \<le> range_end r \<longrightarrow> model_scan (snd run_m) r v = oracle_scan (snd run_o) r v)"
proof -
  have "fst run_m = fst run_o" and sim: "sim sha S (snd run_m) (snd run_o)"
    using sim_run[OF assms(1) sim_default assms(2)] unfolding assms(3,4) by (rule conjunct1, rule conjunct2)
  then show ?thesis
    using sim_get[OF sim] sim_scan[OF sim] by simp
qed

theorem model_agrees_with_oracle_witness:
  "let es = [ApplyBatch (demo_set 1 [Set demo_key [1]]), ApplyBatch (demo_set 1 [Set demo_key [2]]),
             ApplyBatch (demo_set 2 [ClearRange demo_range]), RetainFrom (version_new 2)];
       run_m = run_answers (model_event_answer (\<lambda>bs. bs)) es model_default;
       run_o = run_answers oracle_event_answer es oracle_default
   in fst run_m = fst run_o \<and> model_scan (snd run_m) demo_range (version_new 2) = oracle_scan (snd run_o) demo_range (version_new 2)"
proof -
  let ?es = "[ApplyBatch (demo_set 1 [Set demo_key [1]]), ApplyBatch (demo_set 1 [Set demo_key [2]]),
             ApplyBatch (demo_set 2 [ClearRange demo_range]), RetainFrom (version_new 2)]"
  have "list_all (admissible UNIV) ?es"
    by (simp add: batch_fits_def demo_set_def identity_for_test_def commit_identity_new_def unambiguous_def)
  then show ?thesis
    unfolding Let_def using model_agrees_with_oracle[OF inj_on_id2 _ refl refl, of UNIV ?es]
    by (simp del: run_answers.simps)
qed
end
