(* ===== verification/Publication.thy ===== *)
theory Publication
  imports Okv_Prelude
begin

text \<open>
  The publication authority of objectKV (\<open>okv-publication/src/lib.rs\<close>): roots, prepared
  intents, pins, deletion reservations, snapshot leases, the retention floors and the
  physical collection jobs, with one definition per action of \<open>PublicationAuthorityState\<close>.
  A \<open>BTreeMap\<close> is a \<open>btree\<close>, a \<open>BTreeSet\<close> of names a set of strings; the negative-control
  switches of \<open>PublicationAuthorityFaults\<close> are kept as in the source.
\<close>

section \<open>Data\<close>

definition PUBLICATION_FORMAT_VERSION :: u32 where
  "PUBLICATION_FORMAT_VERSION = 1"

record authority_position =
  ap_term :: u64
  ap_index :: u64

definition position_is_valid :: "authority_position \<Rightarrow> bool" where
  "position_is_valid p \<longleftrightarrow> ap_index p \<noteq> 0"

record authority_context =
  ac_generation :: u64
  ac_position :: authority_position

definition context_is_valid :: "authority_context \<Rightarrow> bool" where
  "context_is_valid c \<longleftrightarrow> ac_generation c \<noteq> 0 \<and> position_is_valid (ac_position c)"

record revision_token =
  rt_e_tag :: "string option"
  rt_version :: "string option"

definition valid_sha256 :: "string \<Rightarrow> bool" where
  "valid_sha256 s \<longleftrightarrow>
     length s = 64 \<and> list_all (\<lambda>c. CHR ''0'' \<le> c \<and> c \<le> CHR ''9'' \<or> CHR ''a'' \<le> c \<and> c \<le> CHR ''f'') s"

record object_identity =
  oi_revision :: revision_token
  oi_length :: u64
  oi_sha256 :: string

definition identity_is_valid :: "object_identity \<Rightarrow> bool" where
  "identity_is_valid i \<longleftrightarrow> valid_sha256 (oi_sha256 i)"

datatype object_kind = Data | Manifest

record object_reference =
  or_kind :: object_kind
  or_key :: string
  or_length :: u64
  or_sha256 :: string

definition reference_is_valid :: "object_reference \<Rightarrow> bool" where
  "reference_is_valid r \<longleftrightarrow> or_key r \<noteq> [] \<and> valid_sha256 (or_sha256 r)"

record publication_intent =
  pi_object_keys :: "string set"
  pi_manifest :: object_reference
  pi_destination_root :: string
  pi_expected_prior_root :: "object_reference option"

definition intent_is_valid :: "publication_intent \<Rightarrow> bool" where
  "intent_is_valid i \<longleftrightarrow>
     or_kind (pi_manifest i) = Manifest \<and> reference_is_valid (pi_manifest i) \<and>
     pi_destination_root i \<noteq> [] \<and>
     (case pi_expected_prior_root i of None \<Rightarrow> True | Some r \<Rightarrow> reference_is_valid r) \<and>
     or_key (pi_manifest i) \<in> pi_object_keys i \<and> (\<forall>k \<in> pi_object_keys i. k \<noteq> [])"

record prepared_publication =
  pp_owner_generation :: u64
  pp_intent :: publication_intent

record snapshot_closure =
  sc_manifest :: object_reference
  sc_object_keys :: "string set"

definition closure_is_valid :: "snapshot_closure \<Rightarrow> bool" where
  "closure_is_valid c \<longleftrightarrow>
     or_kind (sc_manifest c) = Manifest \<and> reference_is_valid (sc_manifest c) \<and>
     or_key (sc_manifest c) \<in> sc_object_keys c \<and> (\<forall>k \<in> sc_object_keys c. k \<noteq> [])"

definition closure_names :: "snapshot_closure \<Rightarrow> string \<Rightarrow> bool" where
  "closure_names c k \<longleftrightarrow> k \<in> sc_object_keys c"

record snapshot_lease_token =
  sl_lease_id :: string
  sl_tenant_id :: string
  sl_snapshot_version :: u64
  sl_lease_epoch :: u64
  sl_owner :: string
  sl_purpose :: string
  sl_deadline_tick :: u64
  sl_closure :: snapshot_closure
  sl_owner_generation :: u64
  sl_authority_position :: authority_position

datatype snapshot_lease_validation_error =
  AuthorityFormatInvalid | SnapshotLeaseMissing | TokenMismatch | LeaseExpired

record collection_job_token =
  cj_job_id :: string
  cj_owner_generation :: u64
  cj_authority_position :: authority_position
  cj_frozen_floor :: u64
  cj_input_manifest :: object_reference
  cj_destination_root :: string
  cj_range_map_epoch :: u64
  cj_expected_collected_through :: u64
  cj_output_namespace :: string

record collection_receipt =
  cr_token :: collection_job_token
  cr_output_manifest :: object_reference
  cr_object_keys :: "string set"

definition receipt_is_valid :: "collection_receipt \<Rightarrow> bool" where
  "receipt_is_valid r \<longleftrightarrow>
     or_kind (cr_output_manifest r) = Manifest \<and> reference_is_valid (cr_output_manifest r) \<and>
     or_key (cr_output_manifest r) \<in> cr_object_keys r \<and>
     (\<forall>k \<in> cr_object_keys r. prefix (cj_output_namespace (cr_token r)) k)"

record delete_permit =
  dp_key :: string
  dp_identity :: object_identity
  dp_plan_id :: string
  dp_owner_generation :: u64
  dp_authority_position :: authority_position

definition delete_permit_new ::
  "string \<Rightarrow> object_identity \<Rightarrow> string \<Rightarrow> authority_context \<Rightarrow> delete_permit" where
  "delete_permit_new k i plan ctx = \<lparr>dp_key = k, dp_identity = i, dp_plan_id = plan,
     dp_owner_generation = ac_generation ctx, dp_authority_position = ac_position ctx\<rparr>"

record publication_state =
  ps_format_version :: u32
  ps_revision :: authority_position
  ps_root_intent_epoch :: u64
  ps_intents :: "(string, prepared_publication) btree"
  ps_roots :: "(string, object_reference) btree"
  ps_pins :: "(string, object_reference) btree"
  ps_deletion_reservations :: "(string, delete_permit) btree"
  ps_observed_commit_frontier :: u64
  ps_retention_window :: "u64 option"
  ps_retention_policy_epoch :: u64
  ps_policy_floor :: u64
  ps_minimum_readable_version :: u64
  ps_physically_collected_through :: u64
  ps_lease_clock_tick :: u64
  ps_lease_epoch :: u64
  ps_leases :: "(string, snapshot_lease_token) btree"
  ps_range_map_epoch :: u64
  ps_collection_root :: "string option"
  ps_collection_jobs :: "(string, collection_job_token) btree"

definition publication_default :: publication_state where
  "publication_default = \<lparr>
     ps_format_version = PUBLICATION_FORMAT_VERSION, ps_revision = \<lparr>ap_term = 0, ap_index = 0\<rparr>,
     ps_root_intent_epoch = 0, ps_intents = [], ps_roots = [], ps_pins = [],
     ps_deletion_reservations = [], ps_observed_commit_frontier = 0, ps_retention_window = None,
     ps_retention_policy_epoch = 0, ps_policy_floor = 0, ps_minimum_readable_version = 0,
     ps_physically_collected_through = 0, ps_lease_clock_tick = 0, ps_lease_epoch = 0,
     ps_leases = [], ps_range_map_epoch = 0, ps_collection_root = None, ps_collection_jobs = []\<rparr>"

datatype publication_action =
    ObserveCommittedFrontier u64
  | SetRetentionWindow u64 u64
  | ObserveRangeMapEpoch u64
  | ConfigureCollectionRoot "string option" string
  | AcquireLease string string u64 string string u64 snapshot_closure
  | RenewLease string u64 u64
  | ReleaseLease string u64
  | AdvanceLeaseClock u64 u64
  | PrepareCollection string u64 object_reference string u64 u64 string
  | PublishCollection collection_receipt
  | AbandonCollection collection_job_token
  | Prepare string publication_intent
  | Publish string string "object_reference option" object_reference
  | Pin string "object_reference option" object_reference
  | Unpin string object_reference
  | ReserveDelete string u64 string object_identity
  | RetireDelete delete_permit

datatype publication_command_status =
    Accepted | GenerationFenced | InvalidRequest | PublicationExists | PublicationIntentMissing
  | PublicationIntentMismatch | CrossGenerationIntent | RootCompareFailed | PinCompareFailed
  | RootIntentEpochChanged | ObjectDeletionReserved | ObjectNamedByIntent | DeleteReservationExists
  | DeleteReservationMissing | CrossGenerationDeletePermit | DeletePlanMismatch
  | CommittedFrontierRetreated | RetentionPolicyEpochMismatch | RetentionPolicyUnconfigured
  | SnapshotBelowFloor | SnapshotAheadOfFrontier | LeaseExists | LeaseMissing | LeaseEpochMismatch
  | LeaseDeadlineInvalid | LeaseClockMismatch | LeaseClockRetreated | RangeMapEpochRetreated
  | RangeMapEpochMismatch | CollectionJobExists | CollectionJobMissing | CollectionJobMismatch
  | CollectionConflict | CollectionFloorInvalid | CollectionFrontierMismatch
  | CollectionReceiptMismatch | CollectionRootCompareFailed

datatype publication_outcome =
    PublicationApplied
  | DeleteReserved delete_permit
  | LeaseAcquired snapshot_lease_token
  | LeaseRenewed snapshot_lease_token
  | LeasesExpired "string list"
  | CollectionPrepared collection_job_token
  | CollectionPublished collection_receipt

record publication_transition =
  pt_status :: publication_command_status
  pt_outcome :: "publication_outcome option"

definition accepted :: "publication_outcome \<Rightarrow> publication_transition" where
  "accepted out = \<lparr>pt_status = Accepted, pt_outcome = Some out\<rparr>"

definition rejected :: "publication_command_status \<Rightarrow> publication_transition" where
  "rejected st = \<lparr>pt_status = st, pt_outcome = None\<rparr>"

record publication_faults =
  publish_without_intent :: bool
  ignore_root_epoch :: bool
  ignore_delete_reservation :: bool
  ignore_root_compare :: bool
  allow_cross_generation_intent :: bool
  retire_by_plan_key_only :: bool
  accept_backdated_lease :: bool
  omit_lease_root_epoch :: bool
  ignore_collection_range_epoch :: bool
  advance_collection_without_publication :: bool
  ignore_collection_input_root :: bool

definition no_faults :: publication_faults where
  "no_faults = \<lparr>publish_without_intent = False, ignore_root_epoch = False,
     ignore_delete_reservation = False, ignore_root_compare = False,
     allow_cross_generation_intent = False, retire_by_plan_key_only = False,
     accept_backdated_lease = False, omit_lease_root_epoch = False,
     ignore_collection_range_epoch = False, advance_collection_without_publication = False,
     ignore_collection_input_root = False\<rparr>"

type_synonym pub_result = "publication_transition \<times> publication_state"

section \<open>Operations\<close>

definition validate_active_snapshot_lease ::
  "publication_state \<Rightarrow> snapshot_lease_token \<Rightarrow> (unit, snapshot_lease_validation_error) result" where
  "validate_active_snapshot_lease s token =
     (if ps_format_version s \<noteq> PUBLICATION_FORMAT_VERSION then Err AuthorityFormatInvalid
      else case bt_get (ps_leases s) (sl_lease_id token) of
        None \<Rightarrow> Err SnapshotLeaseMissing
      | Some active \<Rightarrow>
          if active \<noteq> token then Err TokenMismatch
          else if sl_deadline_tick token \<le> ps_lease_clock_tick s then Err LeaseExpired
          else Ok ())"

definition bump_root_intent_epoch :: "publication_state \<Rightarrow> publication_state" where
  "bump_root_intent_epoch s = s\<lparr>ps_root_intent_epoch := saturating_add (ps_root_intent_epoch s) 1\<rparr>"

definition bump_lease_epoch :: "publication_state \<Rightarrow> publication_state" where
  "bump_lease_epoch s = s\<lparr>ps_lease_epoch := saturating_add (ps_lease_epoch s) 1\<rparr>"

text \<open>\<open>Iterator::min\<close> over the lease versions.\<close>

definition iter_min :: "u64 list \<Rightarrow> u64 option" where
  "iter_min xs = (case xs of [] \<Rightarrow> None | y # ys \<Rightarrow> Some (fold min ys y))"

definition recompute_read_floor :: "publication_state \<Rightarrow> publication_state" where
  "recompute_read_floor s =
     (case ps_retention_window s of
        None \<Rightarrow> s
      | Some window \<Rightarrow>
          let policy = max (ps_policy_floor s) (saturating_sub (ps_observed_commit_frontier s) window);
              candidate = (case iter_min (map sl_snapshot_version (bt_values (ps_leases s))) of
                  None \<Rightarrow> policy
                | Some oldest \<Rightarrow> min policy oldest)
          in s\<lparr>ps_policy_floor := policy,
               ps_minimum_readable_version := max (ps_minimum_readable_version s) candidate\<rparr>)"

definition observe_committed_frontier :: "u64 \<Rightarrow> publication_state \<Rightarrow> pub_result" where
  "observe_committed_frontier frontier s =
     (if frontier = 0 then (rejected InvalidRequest, s)
      else if frontier < ps_observed_commit_frontier s then (rejected CommittedFrontierRetreated, s)
      else (accepted PublicationApplied, recompute_read_floor (s\<lparr>ps_observed_commit_frontier := frontier\<rparr>)))"

definition set_retention_window :: "u64 \<Rightarrow> u64 \<Rightarrow> publication_state \<Rightarrow> pub_result" where
  "set_retention_window expected window s =
     (if expected \<noteq> ps_retention_policy_epoch s then (rejected RetentionPolicyEpochMismatch, s)
      else (accepted PublicationApplied,
        recompute_read_floor (s\<lparr>ps_retention_window := Some window,
          ps_retention_policy_epoch := saturating_add (ps_retention_policy_epoch s) 1\<rparr>)))"

definition observe_range_map_epoch :: "u64 \<Rightarrow> publication_state \<Rightarrow> pub_result" where
  "observe_range_map_epoch epoch s =
     (if epoch = 0 then (rejected InvalidRequest, s)
      else if epoch < ps_range_map_epoch s then (rejected RangeMapEpochRetreated, s)
      else (accepted PublicationApplied, s\<lparr>ps_range_map_epoch := epoch\<rparr>))"

definition configure_collection_root :: "string option \<Rightarrow> string \<Rightarrow> publication_state \<Rightarrow> pub_result" where
  "configure_collection_root expected destination s =
     (if destination = [] \<or> \<not> bt_contains (ps_roots s) destination then (rejected InvalidRequest, s)
      else if ps_collection_root s \<noteq> expected then (rejected CollectionRootCompareFailed, s)
      else if ps_collection_jobs s \<noteq> [] then (rejected CollectionConflict, s)
      else (accepted PublicationApplied,
        bump_root_intent_epoch (s\<lparr>ps_collection_root := Some destination\<rparr>)))"

definition acquire_lease ::
  "string \<Rightarrow> string \<Rightarrow> u64 \<Rightarrow> string \<Rightarrow> string \<Rightarrow> u64 \<Rightarrow> snapshot_closure \<Rightarrow>
   authority_context \<Rightarrow> publication_faults \<Rightarrow> publication_state \<Rightarrow> pub_result" where
  "acquire_lease lease_id tenant_id snapshot_version owner purpose deadline closure ctx faults s =
     (if lease_id = [] \<or> tenant_id = [] \<or> snapshot_version = 0 \<or> owner = [] \<or> purpose = [] \<or>
         \<not> closure_is_valid closure
      then (rejected InvalidRequest, s)
      else if ps_retention_window s = None then (rejected RetentionPolicyUnconfigured, s)
      else if bt_contains (ps_leases s) lease_id then (rejected LeaseExists, s)
      else if snapshot_version < ps_minimum_readable_version s \<and> \<not> accept_backdated_lease faults
      then (rejected SnapshotBelowFloor, s)
      else if snapshot_version > ps_observed_commit_frontier s then (rejected SnapshotAheadOfFrontier, s)
      else if deadline \<le> ps_lease_clock_tick s then (rejected LeaseDeadlineInvalid, s)
      else
        let s1 = bump_lease_epoch s;
            token = \<lparr>sl_lease_id = lease_id, sl_tenant_id = tenant_id,
              sl_snapshot_version = snapshot_version, sl_lease_epoch = ps_lease_epoch s1,
              sl_owner = owner, sl_purpose = purpose, sl_deadline_tick = deadline,
              sl_closure = closure, sl_owner_generation = ac_generation ctx,
              sl_authority_position = ac_position ctx\<rparr>;
            s2 = s1\<lparr>ps_leases := bt_insert lease_id token (ps_leases s1)\<rparr>;
            s3 = (if omit_lease_root_epoch faults then s2 else bump_root_intent_epoch s2)
        in (accepted (LeaseAcquired token), recompute_read_floor s3))"

definition renew_lease ::
  "string \<Rightarrow> u64 \<Rightarrow> u64 \<Rightarrow> authority_context \<Rightarrow> publication_faults \<Rightarrow> publication_state \<Rightarrow> pub_result" where
  "renew_lease lease_id expected_epoch new_deadline ctx faults s =
     (case bt_get (ps_leases s) lease_id of
        None \<Rightarrow> (rejected LeaseMissing, s)
      | Some existing \<Rightarrow>
          if sl_lease_epoch existing \<noteq> expected_epoch then (rejected LeaseEpochMismatch, s)
          else if new_deadline \<le> ps_lease_clock_tick s \<or> new_deadline \<le> sl_deadline_tick existing
          then (rejected LeaseDeadlineInvalid, s)
          else
            let s1 = bump_lease_epoch s;
                token = existing\<lparr>sl_lease_epoch := ps_lease_epoch s1, sl_deadline_tick := new_deadline,
                  sl_owner_generation := ac_generation ctx, sl_authority_position := ac_position ctx\<rparr>;
                s2 = s1\<lparr>ps_leases := bt_insert lease_id token (ps_leases s1)\<rparr>;
                s3 = (if omit_lease_root_epoch faults then s2 else bump_root_intent_epoch s2)
            in (accepted (LeaseRenewed token), s3))"

definition release_lease :: "string \<Rightarrow> u64 \<Rightarrow> publication_faults \<Rightarrow> publication_state \<Rightarrow> pub_result" where
  "release_lease lease_id expected_epoch faults s =
     (case bt_get (ps_leases s) lease_id of
        None \<Rightarrow> (rejected LeaseMissing, s)
      | Some existing \<Rightarrow>
          if sl_lease_epoch existing \<noteq> expected_epoch then (rejected LeaseEpochMismatch, s)
          else
            let s1 = bump_lease_epoch (s\<lparr>ps_leases := bt_remove lease_id (ps_leases s)\<rparr>);
                s2 = (if omit_lease_root_epoch faults then s1 else bump_root_intent_epoch s1)
            in (accepted PublicationApplied, recompute_read_floor s2))"

definition advance_lease_clock :: "u64 \<Rightarrow> u64 \<Rightarrow> publication_faults \<Rightarrow> publication_state \<Rightarrow> pub_result" where
  "advance_lease_clock expected next_tick faults s =
     (if expected \<noteq> ps_lease_clock_tick s then (rejected LeaseClockMismatch, s)
      else if next_tick \<le> expected then (rejected LeaseClockRetreated, s)
      else
        let expired = map fst (filter (\<lambda>(_, lease). sl_deadline_tick lease \<le> next_tick) (ps_leases s));
            s1 = s\<lparr>ps_lease_clock_tick := next_tick, ps_leases := fold bt_remove expired (ps_leases s)\<rparr>;
            s2 = (if expired = [] then s1
                  else let s' = bump_lease_epoch s1
                       in if omit_lease_root_epoch faults then s' else bump_root_intent_epoch s')
        in (accepted (LeasesExpired expired), recompute_read_floor s2))"

definition prepare_collection ::
  "string \<Rightarrow> u64 \<Rightarrow> object_reference \<Rightarrow> string \<Rightarrow> u64 \<Rightarrow> u64 \<Rightarrow> string \<Rightarrow>
   authority_context \<Rightarrow> publication_faults \<Rightarrow> publication_state \<Rightarrow> pub_result" where
  "prepare_collection job_id frozen_floor input_manifest destination range_epoch expected_collected namespace
     ctx faults s =
     (if job_id = [] \<or> frozen_floor = 0 \<or> or_kind input_manifest \<noteq> Manifest \<or>
         \<not> reference_is_valid input_manifest \<or> destination = [] \<or> range_epoch = 0 \<or>
         namespace = [] \<or> \<not> suffix ''/'' namespace
      then (rejected InvalidRequest, s)
      else if bt_contains (ps_collection_jobs s) job_id then (rejected CollectionJobExists, s)
      else if list_ex (\<lambda>job. cj_destination_root job = destination \<or>
          cj_output_namespace job = namespace \<or> prefix namespace (cj_output_namespace job) \<or>
          prefix (cj_output_namespace job) namespace) (bt_values (ps_collection_jobs s))
      then (rejected CollectionConflict, s)
      else if range_epoch \<noteq> ps_range_map_epoch s \<and> \<not> ignore_collection_range_epoch faults
      then (rejected RangeMapEpochMismatch, s)
      else if ps_collection_root s \<noteq> Some destination then (rejected CollectionRootCompareFailed, s)
      else if expected_collected \<noteq> ps_physically_collected_through s
      then (rejected CollectionFrontierMismatch, s)
      else if frozen_floor \<le> ps_physically_collected_through s \<or> frozen_floor > ps_minimum_readable_version s
      then (rejected CollectionFloorInvalid, s)
      else if bt_get (ps_roots s) destination \<noteq> Some input_manifest \<and> \<not> ignore_collection_input_root faults
      then (rejected RootCompareFailed, s)
      else
        let token = \<lparr>cj_job_id = job_id, cj_owner_generation = ac_generation ctx,
              cj_authority_position = ac_position ctx, cj_frozen_floor = frozen_floor,
              cj_input_manifest = input_manifest, cj_destination_root = destination,
              cj_range_map_epoch = range_epoch, cj_expected_collected_through = expected_collected,
              cj_output_namespace = namespace\<rparr>;
            s1 = s\<lparr>ps_collection_jobs := bt_insert job_id token (ps_collection_jobs s)\<rparr>;
            s2 = (if advance_collection_without_publication faults
                  then s1\<lparr>ps_physically_collected_through := frozen_floor\<rparr> else s1)
        in (accepted (CollectionPrepared token), bump_root_intent_epoch s2))"

definition publish_collection :: "collection_receipt \<Rightarrow> u64 \<Rightarrow> publication_faults \<Rightarrow> publication_state \<Rightarrow> pub_result" where
  "publish_collection receipt gen faults s =
     (if \<not> receipt_is_valid receipt \<or> cr_output_manifest receipt = cj_input_manifest (cr_token receipt)
      then (rejected InvalidRequest, s)
      else case bt_get (ps_collection_jobs s) (cj_job_id (cr_token receipt)) of
        None \<Rightarrow> (rejected CollectionJobMissing, s)
      | Some prepared \<Rightarrow>
          if prepared \<noteq> cr_token receipt then (rejected CollectionReceiptMismatch, s)
          else if cj_owner_generation prepared \<noteq> gen then (rejected CrossGenerationIntent, s)
          else if cj_range_map_epoch prepared \<noteq> ps_range_map_epoch s \<and> \<not> ignore_collection_range_epoch faults
          then (rejected RangeMapEpochMismatch, s)
          else if ps_collection_root s \<noteq> Some (cj_destination_root prepared)
          then (rejected CollectionRootCompareFailed, s)
          else if cj_expected_collected_through prepared \<noteq> ps_physically_collected_through s
          then (rejected CollectionFrontierMismatch, s)
          else if bt_get (ps_roots s) (cj_destination_root prepared) \<noteq> Some (cj_input_manifest prepared) \<and>
                  \<not> ignore_collection_input_root faults
          then (rejected RootCompareFailed, s)
          else if \<exists>k \<in> cr_object_keys receipt. bt_contains (ps_deletion_reservations s) k
          then (rejected ObjectDeletionReserved, s)
          else (accepted (CollectionPublished receipt),
            bump_root_intent_epoch (s\<lparr>
              ps_roots := bt_insert (cj_destination_root prepared) (cr_output_manifest receipt) (ps_roots s),
              ps_physically_collected_through := cj_frozen_floor prepared,
              ps_collection_jobs := bt_remove (cj_job_id prepared) (ps_collection_jobs s)\<rparr>)))"

definition abandon_collection :: "collection_job_token \<Rightarrow> u64 \<Rightarrow> publication_state \<Rightarrow> pub_result" where
  "abandon_collection token gen s =
     (case bt_get (ps_collection_jobs s) (cj_job_id token) of
        None \<Rightarrow> (rejected CollectionJobMissing, s)
      | Some prepared \<Rightarrow>
          if prepared \<noteq> token then (rejected CollectionJobMismatch, s)
          else if cj_owner_generation token \<noteq> gen then (rejected CrossGenerationIntent, s)
          else (accepted PublicationApplied,
            bump_root_intent_epoch (s\<lparr>ps_collection_jobs := bt_remove (cj_job_id token) (ps_collection_jobs s)\<rparr>)))"

definition prepare :: "string \<Rightarrow> publication_intent \<Rightarrow> u64 \<Rightarrow> publication_faults \<Rightarrow> publication_state \<Rightarrow> pub_result" where
  "prepare publication_id intent gen faults s =
     (if publication_id = [] \<or> \<not> intent_is_valid intent then (rejected InvalidRequest, s)
      else if bt_contains (ps_intents s) publication_id then (rejected PublicationExists, s)
      else if \<not> ignore_delete_reservation faults \<and>
              (\<exists>k \<in> pi_object_keys intent. bt_contains (ps_deletion_reservations s) k)
      then (rejected ObjectDeletionReserved, s)
      else (accepted PublicationApplied,
        bump_root_intent_epoch (s\<lparr>ps_intents := bt_insert publication_id
          \<lparr>pp_owner_generation = gen, pp_intent = intent\<rparr> (ps_intents s)\<rparr>)))"

text \<open>The \<open>match\<close> of \<open>publish\<close> on the prepared intent: the status of an early return.\<close>

definition publish_intent_check ::
  "string \<Rightarrow> string \<Rightarrow> object_reference option \<Rightarrow> object_reference \<Rightarrow> u64 \<Rightarrow> publication_faults \<Rightarrow>
   publication_state \<Rightarrow> publication_command_status option" where
  "publish_intent_check publication_id destination expected_prior manifest gen faults s =
     (case bt_get (ps_intents s) publication_id of
        Some prepared \<Rightarrow>
          if pi_manifest (pp_intent prepared) = manifest \<and>
             pi_destination_root (pp_intent prepared) = destination \<and>
             pi_expected_prior_root (pp_intent prepared) = expected_prior \<and>
             or_key manifest \<in> pi_object_keys (pp_intent prepared)
          then if pp_owner_generation prepared \<noteq> gen \<and> \<not> allow_cross_generation_intent faults
               then Some CrossGenerationIntent else None
          else Some PublicationIntentMismatch
      | None \<Rightarrow> if publish_without_intent faults then None else Some PublicationIntentMissing)"

definition publish ::
  "string \<Rightarrow> string \<Rightarrow> object_reference option \<Rightarrow> object_reference \<Rightarrow> u64 \<Rightarrow> publication_faults \<Rightarrow>
   publication_state \<Rightarrow> pub_result" where
  "publish publication_id destination expected_prior manifest gen faults s =
     (if publication_id = [] \<or> destination = [] \<or> or_kind manifest \<noteq> Manifest \<or> \<not> reference_is_valid manifest
      then (rejected InvalidRequest, s)
      else case publish_intent_check publication_id destination expected_prior manifest gen faults s of
        Some st \<Rightarrow> (rejected st, s)
      | None \<Rightarrow>
          if \<not> ignore_root_compare faults \<and> bt_get (ps_roots s) destination \<noteq> expected_prior
          then (rejected RootCompareFailed, s)
          else (accepted PublicationApplied,
            bump_root_intent_epoch (s\<lparr>ps_roots := bt_insert destination manifest (ps_roots s),
              ps_intents := bt_remove publication_id (ps_intents s)\<rparr>)))"

definition pin :: "string \<Rightarrow> object_reference option \<Rightarrow> object_reference \<Rightarrow> publication_state \<Rightarrow> pub_result" where
  "pin pin_id expected manifest s =
     (if pin_id = [] \<or> or_kind manifest \<noteq> Manifest \<or> \<not> reference_is_valid manifest
      then (rejected InvalidRequest, s)
      else if bt_get (ps_pins s) pin_id \<noteq> expected then (rejected PinCompareFailed, s)
      else (accepted PublicationApplied,
        bump_root_intent_epoch (s\<lparr>ps_pins := bt_insert pin_id manifest (ps_pins s)\<rparr>)))"

definition unpin :: "string \<Rightarrow> object_reference \<Rightarrow> publication_state \<Rightarrow> pub_result" where
  "unpin pin_id expected s =
     (if pin_id = [] \<or> \<not> reference_is_valid expected then (rejected InvalidRequest, s)
      else if bt_get (ps_pins s) pin_id \<noteq> Some expected then (rejected PinCompareFailed, s)
      else (accepted PublicationApplied,
        bump_root_intent_epoch (s\<lparr>ps_pins := bt_remove pin_id (ps_pins s)\<rparr>)))"

definition reserve_delete ::
  "string \<Rightarrow> u64 \<Rightarrow> string \<Rightarrow> object_identity \<Rightarrow> authority_context \<Rightarrow> publication_faults \<Rightarrow>
   publication_state \<Rightarrow> pub_result" where
  "reserve_delete plan_id mark_epoch key identity ctx faults s =
     (if plan_id = [] \<or> key = [] \<or> \<not> identity_is_valid identity then (rejected InvalidRequest, s)
      else if \<not> ignore_root_epoch faults \<and> mark_epoch \<noteq> ps_root_intent_epoch s
      then (rejected RootIntentEpochChanged, s)
      else if list_ex (\<lambda>prepared. key \<in> pi_object_keys (pp_intent prepared)) (bt_values (ps_intents s))
      then (rejected ObjectNamedByIntent, s)
      else if list_ex (\<lambda>lease. closure_names (sl_closure lease) key) (bt_values (ps_leases s)) \<or>
              list_ex (\<lambda>job. or_key (cj_input_manifest job) = key \<or> prefix (cj_output_namespace job) key)
                (bt_values (ps_collection_jobs s))
      then (rejected ObjectNamedByIntent, s)
      else if bt_contains (ps_deletion_reservations s) key then (rejected DeleteReservationExists, s)
      else
        let permit = delete_permit_new key identity plan_id ctx
        in (accepted (DeleteReserved permit),
            s\<lparr>ps_deletion_reservations := bt_insert key permit (ps_deletion_reservations s)\<rparr>))"

definition retire_delete :: "delete_permit \<Rightarrow> u64 \<Rightarrow> publication_faults \<Rightarrow> publication_state \<Rightarrow> pub_result" where
  "retire_delete permit gen faults s =
     (case bt_get (ps_deletion_reservations s) (dp_key permit) of
        None \<Rightarrow> (rejected DeleteReservationMissing, s)
      | Some reservation \<Rightarrow>
          if dp_owner_generation permit \<noteq> gen then (rejected CrossGenerationDeletePermit, s)
          else
            let exact = (reservation = permit);
                weak_match = (retire_by_plan_key_only faults \<and>
                  dp_plan_id reservation = dp_plan_id permit \<and> dp_key reservation = dp_key permit)
            in if \<not> exact \<and> \<not> weak_match then (rejected DeletePlanMismatch, s)
               else (accepted PublicationApplied,
                 s\<lparr>ps_deletion_reservations := bt_remove (dp_key permit) (ps_deletion_reservations s)\<rparr>))"

text \<open>The \<open>match\<close> of \<open>apply\<close>, and \<open>apply\<close> itself.\<close>

fun publication_dispatch ::
  "publication_action \<Rightarrow> authority_context \<Rightarrow> publication_faults \<Rightarrow> publication_state \<Rightarrow> pub_result" where
  "publication_dispatch (ObserveCommittedFrontier frontier) ctx faults s = observe_committed_frontier frontier s"
| "publication_dispatch (SetRetentionWindow expected window) ctx faults s = set_retention_window expected window s"
| "publication_dispatch (ObserveRangeMapEpoch epoch) ctx faults s = observe_range_map_epoch epoch s"
| "publication_dispatch (ConfigureCollectionRoot expected destination) ctx faults s =
     configure_collection_root expected destination s"
| "publication_dispatch (AcquireLease lease_id tenant_id snapshot_version owner purpose deadline closure) ctx faults s =
     acquire_lease lease_id tenant_id snapshot_version owner purpose deadline closure ctx faults s"
| "publication_dispatch (RenewLease lease_id expected deadline) ctx faults s =
     renew_lease lease_id expected deadline ctx faults s"
| "publication_dispatch (ReleaseLease lease_id expected) ctx faults s = release_lease lease_id expected faults s"
| "publication_dispatch (AdvanceLeaseClock expected next_tick) ctx faults s =
     advance_lease_clock expected next_tick faults s"
| "publication_dispatch (PrepareCollection job_id floor input destination range_epoch collected namespace) ctx faults s =
     prepare_collection job_id floor input destination range_epoch collected namespace ctx faults s"
| "publication_dispatch (PublishCollection receipt) ctx faults s =
     publish_collection receipt (ac_generation ctx) faults s"
| "publication_dispatch (AbandonCollection token) ctx faults s = abandon_collection token (ac_generation ctx) s"
| "publication_dispatch (Prepare publication_id intent) ctx faults s =
     prepare publication_id intent (ac_generation ctx) faults s"
| "publication_dispatch (Publish publication_id destination prior manifest) ctx faults s =
     publish publication_id destination prior manifest (ac_generation ctx) faults s"
| "publication_dispatch (Pin pin_id expected manifest) ctx faults s = pin pin_id expected manifest s"
| "publication_dispatch (Unpin pin_id expected) ctx faults s = unpin pin_id expected s"
| "publication_dispatch (ReserveDelete plan_id mark_epoch key identity) ctx faults s =
     reserve_delete plan_id mark_epoch key identity ctx faults s"
| "publication_dispatch (RetireDelete permit) ctx faults s = retire_delete permit (ac_generation ctx) faults s"

definition publication_apply ::
  "publication_action \<Rightarrow> authority_context \<Rightarrow> publication_faults \<Rightarrow> publication_state \<Rightarrow> pub_result" where
  "publication_apply action ctx faults s =
     (if ps_format_version s \<noteq> PUBLICATION_FORMAT_VERSION \<or> \<not> context_is_valid ctx
      then (rejected InvalidRequest, s)
      else
        let (transition, s') = publication_dispatch action ctx faults s
        in (transition,
            if pt_status transition = Accepted then s'\<lparr>ps_revision := ac_position ctx\<rparr> else s'))"
end
