(* ===== verification/Publication_Safety.thy ===== *)
theory Publication_Safety
  imports Publication
begin

text \<open>
  Correctness of the publication authority without injected faults: the accepted transitions
  as a step relation, the authority invariant (collection frontier, readable floor, policy
  floor and commit frontier are ordered and protect every active lease and collection job),
  monotonicity of the floors and epochs, the root-intent epoch as a fence for deletion marks,
  compare-and-publish, and the life cycle of lease tokens.
\<close>

section \<open>Accepted transitions\<close>

lemma status_accepted [simp]: "pt_status (accepted out) = Accepted" "pt_outcome (accepted out) = Some out"
  by (simp_all add: accepted_def)

lemma status_rejected [simp]: "pt_status (rejected st) = st" "pt_outcome (rejected st) = None"
  by (simp_all add: rejected_def)

lemma accepted_rejected [simp]: "accepted out \<noteq> rejected st" "rejected st \<noteq> accepted out"
  "accepted out = accepted out' \<longleftrightarrow> out = out'"
  by (simp_all add: accepted_def rejected_def)

definition lease_token ::
  "string \<Rightarrow> string \<Rightarrow> u64 \<Rightarrow> string \<Rightarrow> string \<Rightarrow> u64 \<Rightarrow> snapshot_closure \<Rightarrow> authority_context \<Rightarrow> u64 \<Rightarrow> snapshot_lease_token" where
  "lease_token lease_id tenant_id snapshot owner purpose deadline closure ctx epoch =
     \<lparr>sl_lease_id = lease_id, sl_tenant_id = tenant_id, sl_snapshot_version = snapshot, sl_lease_epoch = epoch,
      sl_owner = owner, sl_purpose = purpose, sl_deadline_tick = deadline, sl_closure = closure,
      sl_owner_generation = ac_generation ctx, sl_authority_position = ac_position ctx\<rparr>"

definition job_token ::
  "string \<Rightarrow> u64 \<Rightarrow> object_reference \<Rightarrow> string \<Rightarrow> u64 \<Rightarrow> u64 \<Rightarrow> string \<Rightarrow> authority_context \<Rightarrow> collection_job_token" where
  "job_token job_id floor input destination range_epoch collected namespace ctx =
     \<lparr>cj_job_id = job_id, cj_owner_generation = ac_generation ctx, cj_authority_position = ac_position ctx,
      cj_frozen_floor = floor, cj_input_manifest = input, cj_destination_root = destination,
      cj_range_map_epoch = range_epoch, cj_expected_collected_through = collected, cj_output_namespace = namespace\<rparr>"

text \<open>The leases that survive a clock tick.\<close>

abbreviation live_leases :: "u64 \<Rightarrow> (string, snapshot_lease_token) btree \<Rightarrow> (string, snapshot_lease_token) btree" where
  "live_leases tick ls \<equiv> filter (\<lambda>(_, lease). tick < sl_deadline_tick lease) ls"

abbreviation expired_ids :: "u64 \<Rightarrow> (string, snapshot_lease_token) btree \<Rightarrow> string list" where
  "expired_ids tick ls \<equiv> map fst (filter (\<lambda>(_, lease). sl_deadline_tick lease \<le> tick) ls)"

inductive pub_step ::
  "authority_context \<Rightarrow> publication_state \<Rightarrow> publication_action \<Rightarrow> publication_outcome \<Rightarrow> publication_state \<Rightarrow> bool"
  for ctx :: authority_context and s :: publication_state where
  frontier: "\<lbrakk>n \<noteq> 0; ps_observed_commit_frontier s \<le> n\<rbrakk> \<Longrightarrow>
    pub_step ctx s (ObserveCommittedFrontier n) PublicationApplied
      (recompute_read_floor (s\<lparr>ps_observed_commit_frontier := n\<rparr>))"
| window: "expected = ps_retention_policy_epoch s \<Longrightarrow>
    pub_step ctx s (SetRetentionWindow expected w) PublicationApplied
      (recompute_read_floor (s\<lparr>ps_retention_window := Some w,
        ps_retention_policy_epoch := saturating_add (ps_retention_policy_epoch s) 1\<rparr>))"
| range_epoch: "\<lbrakk>n \<noteq> 0; ps_range_map_epoch s \<le> n\<rbrakk> \<Longrightarrow>
    pub_step ctx s (ObserveRangeMapEpoch n) PublicationApplied (s\<lparr>ps_range_map_epoch := n\<rparr>)"
| configure: "\<lbrakk>destination \<noteq> []; bt_contains (ps_roots s) destination; ps_collection_root s = expected;
     ps_collection_jobs s = []\<rbrakk> \<Longrightarrow>
    pub_step ctx s (ConfigureCollectionRoot expected destination) PublicationApplied
      (bump_root_intent_epoch (s\<lparr>ps_collection_root := Some destination\<rparr>))"
| acquire: "\<lbrakk>lease_id \<noteq> []; tenant_id \<noteq> []; snapshot \<noteq> 0; owner \<noteq> []; purpose \<noteq> []; closure_is_valid closure;
     ps_retention_window s \<noteq> None; \<not> bt_contains (ps_leases s) lease_id;
     ps_minimum_readable_version s \<le> snapshot; snapshot \<le> ps_observed_commit_frontier s;
     ps_lease_clock_tick s < deadline;
     token = lease_token lease_id tenant_id snapshot owner purpose deadline closure ctx
       (saturating_add (ps_lease_epoch s) 1)\<rbrakk> \<Longrightarrow>
    pub_step ctx s (AcquireLease lease_id tenant_id snapshot owner purpose deadline closure) (LeaseAcquired token)
      (recompute_read_floor (bump_root_intent_epoch ((bump_lease_epoch s)
        \<lparr>ps_leases := bt_insert lease_id token (ps_leases s)\<rparr>)))"
| renew: "\<lbrakk>bt_get (ps_leases s) lease_id = Some existing; sl_lease_epoch existing = expected;
     ps_lease_clock_tick s < deadline; sl_deadline_tick existing < deadline;
     token = existing\<lparr>sl_lease_epoch := saturating_add (ps_lease_epoch s) 1, sl_deadline_tick := deadline,
       sl_owner_generation := ac_generation ctx, sl_authority_position := ac_position ctx\<rparr>\<rbrakk> \<Longrightarrow>
    pub_step ctx s (RenewLease lease_id expected deadline) (LeaseRenewed token)
      (bump_root_intent_epoch ((bump_lease_epoch s)\<lparr>ps_leases := bt_insert lease_id token (ps_leases s)\<rparr>))"
| release: "\<lbrakk>bt_get (ps_leases s) lease_id = Some existing; sl_lease_epoch existing = expected\<rbrakk> \<Longrightarrow>
    pub_step ctx s (ReleaseLease lease_id expected) PublicationApplied
      (recompute_read_floor (bump_root_intent_epoch (bump_lease_epoch
        (s\<lparr>ps_leases := bt_remove lease_id (ps_leases s)\<rparr>))))"
| tick: "\<lbrakk>expected = ps_lease_clock_tick s; expected < n; expired = expired_ids n (ps_leases s);
     s1 = s\<lparr>ps_lease_clock_tick := n, ps_leases := fold bt_remove expired (ps_leases s)\<rparr>\<rbrakk> \<Longrightarrow>
    pub_step ctx s (AdvanceLeaseClock expected n) (LeasesExpired expired)
      (recompute_read_floor (if expired = [] then s1 else bump_root_intent_epoch (bump_lease_epoch s1)))"
| prepare_job: "\<lbrakk>job_id \<noteq> []; floor \<noteq> 0; or_kind input = Manifest; reference_is_valid input; destination \<noteq> [];
     range_epoch \<noteq> 0; namespace \<noteq> []; suffix ''/'' namespace; \<not> bt_contains (ps_collection_jobs s) job_id;
     \<forall>job \<in> set (bt_values (ps_collection_jobs s)). cj_destination_root job \<noteq> destination \<and>
       \<not> prefix namespace (cj_output_namespace job) \<and> \<not> prefix (cj_output_namespace job) namespace;
     range_epoch = ps_range_map_epoch s; ps_collection_root s = Some destination;
     collected = ps_physically_collected_through s; ps_physically_collected_through s < floor;
     floor \<le> ps_minimum_readable_version s; bt_get (ps_roots s) destination = Some input;
     token = job_token job_id floor input destination range_epoch collected namespace ctx\<rbrakk> \<Longrightarrow>
    pub_step ctx s (PrepareCollection job_id floor input destination range_epoch collected namespace)
      (CollectionPrepared token)
      (bump_root_intent_epoch (s\<lparr>ps_collection_jobs := bt_insert job_id token (ps_collection_jobs s)\<rparr>))"
| publish_job: "\<lbrakk>receipt_is_valid receipt; token = cr_token receipt; cr_output_manifest receipt \<noteq> cj_input_manifest token;
     bt_get (ps_collection_jobs s) (cj_job_id token) = Some token; cj_owner_generation token = ac_generation ctx;
     cj_range_map_epoch token = ps_range_map_epoch s; ps_collection_root s = Some (cj_destination_root token);
     cj_expected_collected_through token = ps_physically_collected_through s;
     bt_get (ps_roots s) (cj_destination_root token) = Some (cj_input_manifest token);
     \<forall>k \<in> cr_object_keys receipt. \<not> bt_contains (ps_deletion_reservations s) k\<rbrakk> \<Longrightarrow>
    pub_step ctx s (PublishCollection receipt) (CollectionPublished receipt)
      (bump_root_intent_epoch (s\<lparr>
        ps_roots := bt_insert (cj_destination_root token) (cr_output_manifest receipt) (ps_roots s),
        ps_physically_collected_through := cj_frozen_floor token,
        ps_collection_jobs := bt_remove (cj_job_id token) (ps_collection_jobs s)\<rparr>))"
| abandon_job: "\<lbrakk>bt_get (ps_collection_jobs s) (cj_job_id token) = Some token; cj_owner_generation token = ac_generation ctx\<rbrakk> \<Longrightarrow>
    pub_step ctx s (AbandonCollection token) PublicationApplied
      (bump_root_intent_epoch (s\<lparr>ps_collection_jobs := bt_remove (cj_job_id token) (ps_collection_jobs s)\<rparr>))"
| prepare_intent: "\<lbrakk>publication_id \<noteq> []; intent_is_valid intent; \<not> bt_contains (ps_intents s) publication_id;
     \<forall>k \<in> pi_object_keys intent. \<not> bt_contains (ps_deletion_reservations s) k\<rbrakk> \<Longrightarrow>
    pub_step ctx s (Prepare publication_id intent) PublicationApplied
      (bump_root_intent_epoch (s\<lparr>ps_intents := bt_insert publication_id
        \<lparr>pp_owner_generation = ac_generation ctx, pp_intent = intent\<rparr> (ps_intents s)\<rparr>))"
| publish_intent: "\<lbrakk>publication_id \<noteq> []; destination \<noteq> []; or_kind manifest = Manifest; reference_is_valid manifest;
     bt_get (ps_intents s) publication_id = Some prepared; pi_manifest (pp_intent prepared) = manifest;
     pi_destination_root (pp_intent prepared) = destination; pi_expected_prior_root (pp_intent prepared) = prior;
     or_key manifest \<in> pi_object_keys (pp_intent prepared); pp_owner_generation prepared = ac_generation ctx;
     bt_get (ps_roots s) destination = prior\<rbrakk> \<Longrightarrow>
    pub_step ctx s (Publish publication_id destination prior manifest) PublicationApplied
      (bump_root_intent_epoch (s\<lparr>ps_roots := bt_insert destination manifest (ps_roots s),
        ps_intents := bt_remove publication_id (ps_intents s)\<rparr>))"
| pin: "\<lbrakk>pin_id \<noteq> []; or_kind manifest = Manifest; reference_is_valid manifest; bt_get (ps_pins s) pin_id = expected\<rbrakk> \<Longrightarrow>
    pub_step ctx s (Pin pin_id expected manifest) PublicationApplied
      (bump_root_intent_epoch (s\<lparr>ps_pins := bt_insert pin_id manifest (ps_pins s)\<rparr>))"
| unpin: "\<lbrakk>pin_id \<noteq> []; reference_is_valid manifest; bt_get (ps_pins s) pin_id = Some manifest\<rbrakk> \<Longrightarrow>
    pub_step ctx s (Unpin pin_id manifest) PublicationApplied
      (bump_root_intent_epoch (s\<lparr>ps_pins := bt_remove pin_id (ps_pins s)\<rparr>))"
| reserve: "\<lbrakk>plan_id \<noteq> []; key \<noteq> []; identity_is_valid identity; mark = ps_root_intent_epoch s;
     \<forall>p \<in> set (bt_values (ps_intents s)). key \<notin> pi_object_keys (pp_intent p);
     \<forall>l \<in> set (bt_values (ps_leases s)). \<not> closure_names (sl_closure l) key;
     \<forall>j \<in> set (bt_values (ps_collection_jobs s)). or_key (cj_input_manifest j) \<noteq> key \<and> \<not> prefix (cj_output_namespace j) key;
     \<not> bt_contains (ps_deletion_reservations s) key; permit = delete_permit_new key identity plan_id ctx\<rbrakk> \<Longrightarrow>
    pub_step ctx s (ReserveDelete plan_id mark key identity) (DeleteReserved permit)
      (s\<lparr>ps_deletion_reservations := bt_insert key permit (ps_deletion_reservations s)\<rparr>)"
| retire: "\<lbrakk>bt_get (ps_deletion_reservations s) (dp_key permit) = Some permit; dp_owner_generation permit = ac_generation ctx\<rbrakk> \<Longrightarrow>
    pub_step ctx s (RetireDelete permit) PublicationApplied
      (s\<lparr>ps_deletion_reservations := bt_remove (dp_key permit) (ps_deletion_reservations s)\<rparr>)"

inductive_simps pub_step_simps:
  "pub_step ctx s (ObserveCommittedFrontier n) out s'"
  "pub_step ctx s (SetRetentionWindow e w) out s'"
  "pub_step ctx s (ObserveRangeMapEpoch n) out s'"
  "pub_step ctx s (ConfigureCollectionRoot e d) out s'"
  "pub_step ctx s (AcquireLease l t v w p d c) out s'"
  "pub_step ctx s (RenewLease l e d) out s'"
  "pub_step ctx s (ReleaseLease l e) out s'"
  "pub_step ctx s (AdvanceLeaseClock e n) out s'"
  "pub_step ctx s (PrepareCollection j f i d r c n) out s'"
  "pub_step ctx s (PublishCollection rc) out s'"
  "pub_step ctx s (AbandonCollection tk) out s'"
  "pub_step ctx s (Prepare i t) out s'"
  "pub_step ctx s (Publish i d e m) out s'"
  "pub_step ctx s (Pin i e m) out s'"
  "pub_step ctx s (Unpin i e) out s'"
  "pub_step ctx s (ReserveDelete p e k i) out s'"
  "pub_step ctx s (RetireDelete p) out s'"

text \<open>The dispatcher accepts exactly the steps of the relation and keeps the state otherwise.\<close>

definition dispatch_ok :: "authority_context \<Rightarrow> publication_state \<Rightarrow> publication_action \<Rightarrow> pub_result \<Rightarrow> bool" where
  "dispatch_ok ctx s a r \<longleftrightarrow>
     (\<exists>out. fst r = accepted out \<and> pub_step ctx s a out (snd r)) \<or>
     (\<exists>st. st \<noteq> Accepted \<and> fst r = rejected st \<and> snd r = s) \<and> (\<forall>out s'. \<not> pub_step ctx s a out s')"

text \<open>A rejecting guard, and the accepting end of a handler.\<close>

lemma dispatch_guard:
  assumes "st \<noteq> Accepted" and "\<And>out s'. c \<Longrightarrow> \<not> pub_step ctx s a out s'" and "\<not> c \<Longrightarrow> dispatch_ok ctx s a r"
  shows "dispatch_ok ctx s a (if c then (rejected st, s) else r)"
  using assms by (auto simp: dispatch_ok_def)

lemma dispatch_reject:
  "st \<noteq> Accepted \<Longrightarrow> (\<And>out s'. \<not> pub_step ctx s a out s') \<Longrightarrow> dispatch_ok ctx s a (rejected st, s)"
  by (auto simp: dispatch_ok_def)

lemma dispatch_accept: "pub_step ctx s a out s' \<Longrightarrow> dispatch_ok ctx s a (accepted out, s')"
  by (auto simp: dispatch_ok_def)

lemma dispatch_option:
  assumes "x = None \<Longrightarrow> dispatch_ok ctx s a r" and "\<And>y. x = Some y \<Longrightarrow> dispatch_ok ctx s a (f y)"
  shows "dispatch_ok ctx s a (case x of None \<Rightarrow> r | Some y \<Rightarrow> f y)"
  using assms by (cases x) auto

lemmas dispatch_rules = dispatch_guard dispatch_option dispatch_reject dispatch_accept

lemma no_faults_simps [simp]:
  "\<not> publish_without_intent no_faults" "\<not> ignore_root_epoch no_faults" "\<not> ignore_delete_reservation no_faults"
  "\<not> ignore_root_compare no_faults" "\<not> allow_cross_generation_intent no_faults" "\<not> retire_by_plan_key_only no_faults"
  "\<not> accept_backdated_lease no_faults" "\<not> omit_lease_root_epoch no_faults"
  "\<not> ignore_collection_range_epoch no_faults" "\<not> advance_collection_without_publication no_faults"
  "\<not> ignore_collection_input_root no_faults"
  by (simp_all add: no_faults_def)

lemma dispatch_ok_observe_committed_frontier: "dispatch_ok ctx s (ObserveCommittedFrontier n) (observe_committed_frontier n s)"
  unfolding observe_committed_frontier_def
  by (intro dispatch_rules; auto simp: pub_step_simps)

lemma dispatch_ok_set_retention_window: "dispatch_ok ctx s (SetRetentionWindow e w) (set_retention_window e w s)"
  unfolding set_retention_window_def
  by (intro dispatch_rules; auto simp: pub_step_simps)

lemma dispatch_ok_observe_range_map_epoch: "dispatch_ok ctx s (ObserveRangeMapEpoch n) (observe_range_map_epoch n s)"
  unfolding observe_range_map_epoch_def
  by (intro dispatch_rules; auto simp: pub_step_simps)

lemma dispatch_ok_configure_collection_root: "dispatch_ok ctx s (ConfigureCollectionRoot ex d) (configure_collection_root ex d s)"
  unfolding configure_collection_root_def
  by (intro dispatch_rules; auto simp: pub_step_simps)

lemma dispatch_ok_acquire_lease: "dispatch_ok ctx s (AcquireLease l t v w p d c) (acquire_lease l t v w p d c ctx no_faults s)"
  unfolding acquire_lease_def Let_def
  by (intro dispatch_rules; auto simp: pub_step_simps lease_token_def bump_lease_epoch_def)

lemma dispatch_ok_renew_lease: "dispatch_ok ctx s (RenewLease l e d) (renew_lease l e d ctx no_faults s)"
  unfolding renew_lease_def Let_def
  by (intro dispatch_rules; auto simp: pub_step_simps bump_lease_epoch_def)

lemma dispatch_ok_release_lease: "dispatch_ok ctx s (ReleaseLease l e) (release_lease l e no_faults s)"
  unfolding release_lease_def Let_def
  by (intro dispatch_rules; auto simp: pub_step_simps)

lemma dispatch_ok_advance_lease_clock: "dispatch_ok ctx s (AdvanceLeaseClock e n) (advance_lease_clock e n no_faults s)"
  unfolding advance_lease_clock_def Let_def
  by (intro dispatch_rules; auto simp: pub_step_simps)

lemma dispatch_ok_prepare_collection: "dispatch_ok ctx s (PrepareCollection j f i d r c n) (prepare_collection j f i d r c n ctx no_faults s)"
  unfolding prepare_collection_def Let_def
  by (intro dispatch_rules; auto simp: pub_step_simps job_token_def list_ex_iff)

lemma dispatch_ok_publish_collection: "dispatch_ok ctx s (PublishCollection rc) (publish_collection rc (ac_generation ctx) no_faults s)"
  unfolding publish_collection_def
  by (intro dispatch_rules; auto simp: pub_step_simps)

lemma dispatch_ok_abandon_collection: "dispatch_ok ctx s (AbandonCollection tk) (abandon_collection tk (ac_generation ctx) s)"
  unfolding abandon_collection_def
  by (intro dispatch_rules; auto simp: pub_step_simps)

lemma dispatch_ok_prepare: "dispatch_ok ctx s (Prepare i t) (prepare i t (ac_generation ctx) no_faults s)"
  unfolding prepare_def
  by (intro dispatch_rules; auto simp: pub_step_simps)

lemma dispatch_ok_publish: "dispatch_ok ctx s (Publish i d e m) (publish i d e m (ac_generation ctx) no_faults s)"
  unfolding publish_def
  by (intro dispatch_rules; auto simp: pub_step_simps publish_intent_check_def split: option.splits if_splits)

lemma dispatch_ok_pin: "dispatch_ok ctx s (Pin i e m) (Publication.pin i e m s)"
  unfolding pin_def
  by (intro dispatch_rules; auto simp: pub_step_simps)

lemma dispatch_ok_unpin: "dispatch_ok ctx s (Unpin i m) (Publication.unpin i m s)"
  unfolding unpin_def
  by (intro dispatch_rules; auto simp: pub_step_simps)

lemma dispatch_ok_reserve_delete: "dispatch_ok ctx s (ReserveDelete p n k ident) (reserve_delete p n k ident ctx no_faults s)"
  unfolding reserve_delete_def Let_def
  by (intro dispatch_rules; auto simp: pub_step_simps list_ex_iff)

lemma dispatch_ok_retire_delete: "dispatch_ok ctx s (RetireDelete dp) (retire_delete dp (ac_generation ctx) no_faults s)"
  unfolding retire_delete_def Let_def
  by (intro dispatch_rules; auto simp: pub_step_simps)

lemma dispatch_step: "dispatch_ok ctx s a (publication_dispatch a ctx no_faults s)"
  by (cases a) (simp_all add: dispatch_ok_observe_committed_frontier dispatch_ok_set_retention_window dispatch_ok_observe_range_map_epoch dispatch_ok_configure_collection_root dispatch_ok_acquire_lease dispatch_ok_renew_lease dispatch_ok_release_lease dispatch_ok_advance_lease_clock dispatch_ok_prepare_collection dispatch_ok_publish_collection dispatch_ok_abandon_collection dispatch_ok_prepare dispatch_ok_publish dispatch_ok_pin dispatch_ok_unpin dispatch_ok_reserve_delete dispatch_ok_retire_delete)

text \<open>One whole command: rejected and without effect, or an accepted step with a new revision.\<close>

lemma publication_apply_cases [consumes 1, case_names step kept]:
  assumes "publication_apply a ctx no_faults s = (t, s')"
  obtains out s0 where "t = accepted out" and "pub_step ctx s a out s0" and "s' = s0\<lparr>ps_revision := ac_position ctx\<rparr>"
      and "context_is_valid ctx"
    | st where "st \<noteq> Accepted" and "t = rejected st" and "s' = s"
proof (cases "ps_format_version s \<noteq> PUBLICATION_FORMAT_VERSION \<or> \<not> context_is_valid ctx")
  case True
  with assms show ?thesis by (intro that(2)[of InvalidRequest]) (auto simp: publication_apply_def)
next
  case False
  obtain t0 s0 where d: "publication_dispatch a ctx no_faults s = (t0, s0)"
    by (cases "publication_dispatch a ctx no_faults s")
  have "dispatch_ok ctx s a (t0, s0)"
    using dispatch_step[of ctx s a] d by simp
  then show ?thesis
    using that False assms d unfolding dispatch_ok_def by (auto simp: publication_apply_def)
qed

section \<open>The authority invariant\<close>

definition lease_ok :: "publication_state \<Rightarrow> string \<Rightarrow> snapshot_lease_token \<Rightarrow> bool" where
  "lease_ok s lease_id l \<longleftrightarrow>
     sl_lease_id l = lease_id \<and> ps_minimum_readable_version s \<le> sl_snapshot_version l \<and>
     sl_snapshot_version l \<le> ps_observed_commit_frontier s \<and> ps_lease_clock_tick s < sl_deadline_tick l \<and>
     sl_lease_epoch l \<le> ps_lease_epoch s \<and> closure_is_valid (sl_closure l)"

definition job_ok :: "publication_state \<Rightarrow> string \<Rightarrow> collection_job_token \<Rightarrow> bool" where
  "job_ok s job_id j \<longleftrightarrow>
     cj_job_id j = job_id \<and> ps_collection_root s = Some (cj_destination_root j) \<and>
     cj_expected_collected_through j = ps_physically_collected_through s \<and>
     ps_physically_collected_through s < cj_frozen_floor j \<and> cj_frozen_floor j \<le> ps_minimum_readable_version s"

definition maps_ok :: "publication_state \<Rightarrow> bool" where
  "maps_ok s \<longleftrightarrow> ps_format_version s = PUBLICATION_FORMAT_VERSION \<and>
     bt_wf (ps_intents s) \<and> bt_wf (ps_roots s) \<and> bt_wf (ps_pins s) \<and>
     bt_wf (ps_deletion_reservations s) \<and> bt_wf (ps_leases s) \<and> bt_wf (ps_collection_jobs s)"

text \<open>The order of the frontiers and floors: collected, readable, policy, committed.\<close>

definition floors_ok :: "publication_state \<Rightarrow> bool" where
  "floors_ok s \<longleftrightarrow>
     ps_physically_collected_through s \<le> ps_minimum_readable_version s \<and>
     ps_minimum_readable_version s \<le> ps_policy_floor s \<and> ps_policy_floor s \<le> ps_observed_commit_frontier s \<and>
     (ps_retention_window s = None \<longrightarrow> ps_leases s = [] \<and> ps_policy_floor s = 0)"

definition leases_ok :: "publication_state \<Rightarrow> bool" where
  "leases_ok s \<longleftrightarrow> (\<forall>i l. bt_get (ps_leases s) i = Some l \<longrightarrow> lease_ok s i l)"

definition jobs_ok :: "publication_state \<Rightarrow> bool" where
  "jobs_ok s \<longleftrightarrow> (\<forall>i j. bt_get (ps_collection_jobs s) i = Some j \<longrightarrow> job_ok s i j) \<and>
     length (ps_collection_jobs s) \<le> 1"

text \<open>A reserved object is in no prepared intent; a reservation is filed under its object.\<close>

definition reservations_ok :: "publication_state \<Rightarrow> bool" where
  "reservations_ok s \<longleftrightarrow>
     (\<forall>i p k. bt_get (ps_intents s) i = Some p \<longrightarrow> k \<in> pi_object_keys (pp_intent p) \<longrightarrow>
        \<not> bt_contains (ps_deletion_reservations s) k) \<and>
     (\<forall>i p. bt_get (ps_intents s) i = Some p \<longrightarrow> intent_is_valid (pp_intent p)) \<and>
     (\<forall>k p. bt_get (ps_deletion_reservations s) k = Some p \<longrightarrow> dp_key p = k)"

definition pub_inv :: "publication_state \<Rightarrow> bool" where
  "pub_inv s \<longleftrightarrow> maps_ok s \<and> floors_ok s \<and> leases_ok s \<and> jobs_ok s \<and> reservations_ok s"

lemma recompute_fields [simp]:
  "ps_format_version (recompute_read_floor s) = ps_format_version s"
  "ps_root_intent_epoch (recompute_read_floor s) = ps_root_intent_epoch s"
  "ps_intents (recompute_read_floor s) = ps_intents s"
  "ps_roots (recompute_read_floor s) = ps_roots s"
  "ps_pins (recompute_read_floor s) = ps_pins s"
  "ps_deletion_reservations (recompute_read_floor s) = ps_deletion_reservations s"
  "ps_observed_commit_frontier (recompute_read_floor s) = ps_observed_commit_frontier s"
  "ps_retention_window (recompute_read_floor s) = ps_retention_window s"
  "ps_retention_policy_epoch (recompute_read_floor s) = ps_retention_policy_epoch s"
  "ps_physically_collected_through (recompute_read_floor s) = ps_physically_collected_through s"
  "ps_lease_clock_tick (recompute_read_floor s) = ps_lease_clock_tick s"
  "ps_lease_epoch (recompute_read_floor s) = ps_lease_epoch s"
  "ps_leases (recompute_read_floor s) = ps_leases s"
  "ps_range_map_epoch (recompute_read_floor s) = ps_range_map_epoch s"
  "ps_collection_root (recompute_read_floor s) = ps_collection_root s"
  "ps_collection_jobs (recompute_read_floor s) = ps_collection_jobs s"
  by (simp_all add: recompute_read_floor_def Let_def split: option.split)

lemma iter_min_le: "x \<in> set xs \<Longrightarrow> \<exists>m. iter_min xs = Some m \<and> m \<le> x"
proof (cases xs)
  case (Cons y ys)
  have "fold min ys a \<le> a \<and> (\<forall>z \<in> set ys. fold min ys a \<le> z)" for a
    by (induction ys arbitrary: a) (auto intro: order_trans, (metis min.boundedE)+)
  moreover assume "x \<in> set xs"
  ultimately show ?thesis using Cons by (auto simp: iter_min_def)
qed simp

lemma recompute_mono:
  "ps_minimum_readable_version s \<le> ps_minimum_readable_version (recompute_read_floor s)"
  "ps_policy_floor s \<le> ps_policy_floor (recompute_read_floor s)"
  by (simp_all add: recompute_read_floor_def Let_def split: option.split)

lemma recompute_bounds:
  assumes "floors_ok s"
  shows "ps_minimum_readable_version (recompute_read_floor s) \<le> ps_policy_floor (recompute_read_floor s)"
    and "ps_policy_floor (recompute_read_floor s) \<le> ps_observed_commit_frontier s"
    and "ps_retention_window s = None \<Longrightarrow> ps_policy_floor (recompute_read_floor s) = 0"
  using assms saturating_sub_le[of "ps_observed_commit_frontier s"]
  by (auto simp: recompute_read_floor_def Let_def floors_ok_def le_max_iff_disj min_le_iff_disj split: option.split)

lemma recompute_below_leases:
  assumes "leases_ok s" and "bt_wf (ps_leases s)" and "bt_get (ps_leases s) i = Some l"
  shows "ps_minimum_readable_version (recompute_read_floor s) \<le> sl_snapshot_version l"
proof -
  have "l \<in> set (bt_values (ps_leases s))"
    using assms(2,3) bt_value_iff by metis
  then obtain m where "iter_min (map sl_snapshot_version (bt_values (ps_leases s))) = Some m" "m \<le> sl_snapshot_version l"
    using iter_min_le[of "sl_snapshot_version l" "map sl_snapshot_version (bt_values (ps_leases s))"] by auto
  moreover have "ps_minimum_readable_version s \<le> sl_snapshot_version l"
    using assms(1,3) by (auto simp: leases_ok_def lease_ok_def)
  ultimately show ?thesis
    by (auto simp: recompute_read_floor_def Let_def min_le_iff_disj split: option.split)
qed

lemma recompute_parts:
  "maps_ok (recompute_read_floor s) = maps_ok s"
  "reservations_ok (recompute_read_floor s) = reservations_ok s"
  "floors_ok s \<Longrightarrow> floors_ok (recompute_read_floor s)"
  "leases_ok s \<Longrightarrow> bt_wf (ps_leases s) \<Longrightarrow> leases_ok (recompute_read_floor s)"
  "jobs_ok s \<Longrightarrow> jobs_ok (recompute_read_floor s)"
proof -
  show "maps_ok (recompute_read_floor s) = maps_ok s" "reservations_ok (recompute_read_floor s) = reservations_ok s"
    by (simp_all add: maps_ok_def reservations_ok_def)
  show "floors_ok (recompute_read_floor s)" if "floors_ok s"
    using that recompute_bounds[OF that] recompute_mono(1)[of s] by (auto simp: floors_ok_def intro: order_trans)
  show "leases_ok (recompute_read_floor s)" if "leases_ok s" "bt_wf (ps_leases s)"
    using that(1) recompute_below_leases[OF that] by (auto simp: leases_ok_def lease_ok_def)
  show "jobs_ok (recompute_read_floor s)" if "jobs_ok s"
    using that recompute_mono(1)[of s] by (auto simp: jobs_ok_def job_ok_def intro: order_trans)
qed

lemma expired_iff:
  assumes "bt_wf ls"
  shows "i \<in> set (expired_ids n ls) \<longleftrightarrow> (\<exists>l. bt_get ls i = Some l \<and> sl_deadline_tick l \<le> n)"
  using bt_entry_iff[OF assms] by force

lemma get_unexpired:
  assumes "bt_wf ls"
  shows "bt_get (fold bt_remove (expired_ids n ls) ls) i = Some l \<longleftrightarrow> bt_get ls i = Some l \<and> n < sl_deadline_tick l"
  unfolding bt.get_del_all expired_iff[OF assms] by (auto simp: not_le)

lemma le_bump: "a \<le> b \<Longrightarrow> a \<le> saturating_add b 1" for a b :: u64
  by (rule order_trans[OF _ saturating_add_ge])

lemmas bump_defs = bump_root_intent_epoch_def bump_lease_epoch_def

lemma recomputeI:
  "s' = recompute_read_floor s1 \<Longrightarrow> maps_ok s1 \<Longrightarrow> maps_ok s'"
  "s' = recompute_read_floor s1 \<Longrightarrow> reservations_ok s1 \<Longrightarrow> reservations_ok s'"
  "s' = recompute_read_floor s1 \<Longrightarrow> floors_ok s1 \<Longrightarrow> floors_ok s'"
  "s' = recompute_read_floor s1 \<Longrightarrow> leases_ok s1 \<and> bt_wf (ps_leases s1) \<Longrightarrow> leases_ok s'"
  "s' = recompute_read_floor s1 \<Longrightarrow> jobs_ok s1 \<Longrightarrow> jobs_ok s'"
  by (simp_all add: recompute_parts)

lemma maps_ok_step:
  assumes step: "pub_step ctx s a out s'" and inv: "maps_ok s"
  shows "maps_ok s'"
  using step by (cases; (erule recomputeI)?; insert inv; simp add: maps_ok_def bump_defs bt.wf_del_all)

lemma leases_okD: "leases_ok s \<Longrightarrow> bt_get (ps_leases s) i = Some l \<Longrightarrow> lease_ok s i l"
  unfolding leases_ok_def by blast

lemma jobs_okD: "jobs_ok s \<Longrightarrow> bt_get (ps_collection_jobs s) i = Some j \<Longrightarrow> job_ok s i j"
  unfolding jobs_ok_def by blast

lemma floors_ok_step:
  assumes step: "pub_step ctx s a out s'" and inv: "floors_ok s" "jobs_ok s"
  shows "floors_ok s'"
  using step inv(1)
proof cases
  case (publish_job receipt token)
  from jobs_okD[OF inv(2) publish_job(7)] inv(1) show ?thesis
    unfolding publish_job(3) by (simp add: floors_ok_def job_ok_def bump_defs)
qed ((erule recomputeI)?, (auto simp: floors_ok_def bump_defs)[1])+

lemma leases_ok_bump:
  "leases_ok s \<and> bt_wf (ps_leases s) \<Longrightarrow>
     leases_ok (bump_root_intent_epoch (bump_lease_epoch s)) \<and> bt_wf (ps_leases (bump_root_intent_epoch (bump_lease_epoch s)))"
  by (auto simp: leases_ok_def lease_ok_def bump_defs le_bump)

lemma leases_ok_step:
  assumes step: "pub_step ctx s a out s'" and inv: "leases_ok s" "bt_wf (ps_leases s)"
  shows "leases_ok s'"
  using step inv
proof cases
  case (frontier n)
  then show ?thesis
    using inv by (intro recomputeI[OF frontier(3)])
      (auto simp: leases_ok_def lease_ok_def dest!: order_trans[of _ "ps_observed_commit_frontier s" n])
next
  case (tick e n expired s1)
  have "leases_ok s1 \<and> bt_wf (ps_leases s1)"
    using inv unfolding tick(6,7) leases_ok_def lease_ok_def
    by (auto simp: get_unexpired bt.wf_del_all)
  then show ?thesis
    by (intro recomputeI[OF tick(3)]) (simp add: leases_ok_bump)
qed ((erule recomputeI)?, (auto simp: leases_ok_def lease_ok_def bump_defs lease_token_def le_bump split: if_splits)[1])+

lemma single_job:
  "jobs_ok s \<Longrightarrow> bt_get (ps_collection_jobs s) i = Some j \<Longrightarrow> ps_collection_jobs s = [(i, j)]"
  by (cases "ps_collection_jobs s") (auto simp: jobs_ok_def bt_get_def split: if_splits)

lemma bt_remove_single: "bt_remove k [(k, v)] = []"
  by (simp add: bt_remove_def)

lemma jobs_ok_step:
  assumes step: "pub_step ctx s a out s'" and inv: "jobs_ok s"
  shows "jobs_ok s'"
  using step inv
proof cases
  case (configure destination expected)
  then show ?thesis by (simp add: jobs_ok_def bump_defs)
next
  case (prepare_job job_id floor input destination range_epoch namespace collected token)
  have "ps_collection_jobs s = []"
  proof (cases "ps_collection_jobs s")
    case (Cons x xs)
    then have "bt_get (ps_collection_jobs s) (fst x) = Some (snd x)" "snd x \<in> set (bt_values (ps_collection_jobs s))"
      by (simp_all add: bt_get_def bt_values_def)
    with jobs_okD[OF inv] prepare_job(13,15) show ?thesis by (auto simp: job_ok_def)
  qed simp
  with prepare_job(3,15-) show ?thesis by (simp add: jobs_ok_def job_ok_def bump_defs job_token_def bt_get_def)
next
  case (publish_job receipt token)
  from single_job[OF inv publish_job(7)] show ?thesis
    unfolding publish_job(3) by (simp add: jobs_ok_def bump_defs bt_remove_single)
next
  case (abandon_job token)
  from single_job[OF inv abandon_job(4)] show ?thesis
    unfolding abandon_job(3) by (simp add: jobs_ok_def bump_defs bt_remove_single)
qed ((erule recomputeI)?, (simp add: jobs_ok_def job_ok_def bump_defs; fail))+

lemma reservations_ok_step:
  assumes step: "pub_step ctx s a out s'" and inv: "reservations_ok s" "bt_wf (ps_intents s)"
  shows "reservations_ok s'"
  using step inv(1)
proof cases
  case (prepare_intent publication_id intent)
  then show ?thesis
    using inv(1) by (auto simp: reservations_ok_def bump_defs)
next
  case (publish_intent publication_id destination manifest prepared prior)
  show ?thesis
    unfolding publish_intent(3) using inv(1) by (simp add: reservations_ok_def bump_defs)
next
  case (reserve plan_id key identity mark permit)
  show ?thesis
    unfolding reserve(3) reserve(12) using inv reserve(8)
    by (auto simp: reservations_ok_def delete_permit_new_def bt_value_iff)
next
  case (retire permit)
  show ?thesis
    unfolding retire(3) using inv(1) by (auto simp: reservations_ok_def bt_contains_remove)
qed ((erule recomputeI)?, (simp add: reservations_ok_def bump_defs; fail))+

lemma pub_inv_step: "pub_step ctx s a out s' \<Longrightarrow> pub_inv s \<Longrightarrow> pub_inv s'"
  using maps_ok_step[of ctx s a out s'] floors_ok_step[of ctx s a out s'] leases_ok_step[of ctx s a out s']
    jobs_ok_step[of ctx s a out s'] reservations_ok_step[of ctx s a out s']
  by (simp add: pub_inv_def maps_ok_def)

section \<open>Runs\<close>

fun pub_run_step :: "publication_action \<times> authority_context \<Rightarrow> publication_state \<Rightarrow> publication_state" where
  "pub_run_step (a, ctx) s = snd (publication_apply a ctx no_faults s)"

abbreviation authority_run :: "(publication_action \<times> authority_context) list \<Rightarrow> publication_state \<Rightarrow> publication_state" where
  "authority_run es s \<equiv> fold pub_run_step es s"

lemma pub_inv_revision [simp]: "pub_inv (s\<lparr>ps_revision := p\<rparr>) = pub_inv s"
  by (simp add: pub_inv_def maps_ok_def floors_ok_def leases_ok_def lease_ok_def jobs_ok_def job_ok_def reservations_ok_def)

lemma pub_run_step_cases [case_names kept step]:
  obtains "pub_run_step e s = s"
  | out s0 where "pub_step (snd e) s (fst e) out s0" and "pub_run_step e s = s0\<lparr>ps_revision := ac_position (snd e)\<rparr>"
proof -
  obtain a ctx where e: "e = (a, ctx)" by (cases e)
  obtain t s' where ap: "publication_apply a ctx no_faults s = (t, s')"
    by (cases "publication_apply a ctx no_faults s")
  then show ?thesis
    by (cases rule: publication_apply_cases) (use that e ap in auto)
qed

interpretation authority: invariant_system pub_run_step pub_inv
proof
  fix s e
  assume "pub_inv s"
  then show "pub_inv (pub_run_step e s)"
    by (cases rule: pub_run_step_cases[of e s]) (auto dest: pub_inv_step)
qed

lemma pub_inv_default: "pub_inv publication_default"
  by (simp add: pub_inv_def maps_ok_def floors_ok_def leases_ok_def jobs_ok_def reservations_ok_def publication_default_def)

lemma pub_inv_run: "pub_inv (authority_run es publication_default)"
  by (rule authority.run_ok[OF pub_inv_default])

text \<open>The history of the first collection gate: a frontier, a retention window, a published
  root, a lease, and one collection job up to its publication.\<close>

definition demo_ctx :: "u64 \<Rightarrow> authority_context" where
  "demo_ctx g = \<lparr>ac_generation = g, ac_position = \<lparr>ap_term = 1, ap_index = 1\<rparr>\<rparr>"

definition demo_manifest :: "string \<Rightarrow> object_reference" where
  "demo_manifest k = \<lparr>or_kind = Manifest, or_key = k, or_length = 1, or_sha256 = replicate 64 CHR ''a''\<rparr>"

definition demo_closure :: snapshot_closure where
  "demo_closure = \<lparr>sc_manifest = demo_manifest ''m0'', sc_object_keys = {''m0'', ''d0''}\<rparr>"

definition demo_intent :: publication_intent where
  "demo_intent = \<lparr>pi_object_keys = {''m0'', ''d0''}, pi_manifest = demo_manifest ''m0'', pi_destination_root = ''root'',
     pi_expected_prior_root = None\<rparr>"

definition demo_job :: collection_job_token where
  "demo_job = job_token ''J'' 192 (demo_manifest ''m0'') ''root'' 1 0 ''out/'' (demo_ctx 1)"

definition demo_receipt :: collection_receipt where
  "demo_receipt = \<lparr>cr_token = demo_job, cr_output_manifest = demo_manifest ''out/m1'', cr_object_keys = {''out/m1''}\<rparr>"

definition demo_setup :: "publication_action list" where
  "demo_setup = [ObserveCommittedFrontier 256, SetRetentionWindow 0 64, ObserveRangeMapEpoch 1,
     Prepare ''p'' demo_intent, Publish ''p'' ''root'' None (demo_manifest ''m0''),
     ConfigureCollectionRoot None ''root'', AcquireLease ''A'' ''t'' 200 ''o'' ''q'' 10 demo_closure]"

definition demo_collect :: "publication_action list" where
  "demo_collect = [PrepareCollection ''J'' 192 (demo_manifest ''m0'') ''root'' 1 0 ''out/'', PublishCollection demo_receipt]"

abbreviation demo_state :: "publication_action list \<Rightarrow> publication_state" where
  "demo_state as \<equiv> authority_run (map (\<lambda>a. (a, demo_ctx 1)) as) publication_default"

lemma demo_valid [simp]:
  "reference_is_valid (demo_manifest k) \<longleftrightarrow> k \<noteq> []" "or_kind (demo_manifest k) = Manifest" "or_key (demo_manifest k) = k"
  "demo_manifest j = demo_manifest k \<longleftrightarrow> j = k"
  "intent_is_valid demo_intent" "closure_is_valid demo_closure" "receipt_is_valid demo_receipt"
  "context_is_valid (demo_ctx g) \<longleftrightarrow> g \<noteq> 0" "ac_generation (demo_ctx g) = g"
proof -
  have sha: "valid_sha256 (replicate 64 CHR ''a'')"
    by (simp add: valid_sha256_def list_all_iff less_eq_char_def)
  show ref: "reference_is_valid (demo_manifest k) \<longleftrightarrow> k \<noteq> []" for k
    using sha by (simp add: reference_is_valid_def demo_manifest_def)
  show kind: "or_kind (demo_manifest k) = Manifest" "or_key (demo_manifest k) = k" for k
    by (simp_all add: demo_manifest_def)
  show "demo_manifest j = demo_manifest k \<longleftrightarrow> j = k"
    by (simp add: demo_manifest_def)
  show "intent_is_valid demo_intent" "closure_is_valid demo_closure" "receipt_is_valid demo_receipt"
    by (simp_all add: intent_is_valid_def demo_intent_def closure_is_valid_def demo_closure_def
        receipt_is_valid_def demo_receipt_def demo_job_def job_token_def ref kind)
  show "context_is_valid (demo_ctx g) \<longleftrightarrow> g \<noteq> 0" "ac_generation (demo_ctx g) = g"
    by (simp_all add: context_is_valid_def demo_ctx_def position_is_valid_def)
qed

lemma demo_fields [simp]:
  "pi_object_keys demo_intent = {''m0'', ''d0''}" "pi_manifest demo_intent = demo_manifest ''m0''"
  "pi_destination_root demo_intent = ''root''" "pi_expected_prior_root demo_intent = None"
  "sc_object_keys demo_closure = {''m0'', ''d0''}"
  "cr_token demo_receipt = demo_job" "cr_output_manifest demo_receipt = demo_manifest ''out/m1''"
  "cr_object_keys demo_receipt = {''out/m1''}"
  "cj_job_id demo_job = ''J''" "cj_owner_generation demo_job = 1" "cj_frozen_floor demo_job = 192"
  "cj_input_manifest demo_job = demo_manifest ''m0''" "cj_destination_root demo_job = ''root''"
  "cj_range_map_epoch demo_job = 1" "cj_expected_collected_through demo_job = 0" "cj_output_namespace demo_job = ''out/''"
  by (simp_all add: demo_intent_def demo_closure_def demo_receipt_def demo_job_def job_token_def)

lemmas pub_eval = publication_apply_def
  observe_committed_frontier_def set_retention_window_def observe_range_map_epoch_def configure_collection_root_def
  acquire_lease_def renew_lease_def release_lease_def advance_lease_clock_def prepare_collection_def
  publish_collection_def abandon_collection_def prepare_def publish_def publish_intent_check_def reserve_delete_def
  retire_delete_def bump_defs recompute_read_floor_def iter_min_def bt_values_def bt_get_def bt_contains_def
  bt_remove_def closure_names_def saturating_add_def saturating_sub_def
  publication_default_def max_def Let_def min_def word_le_nat_alt word_less_nat_alt

lemma demo_leased:
  "ps_leases (demo_state demo_setup) = [(''A'', lease_token ''A'' ''t'' 200 ''o'' ''q'' 10 demo_closure (demo_ctx 1) 1)]"
  "ps_minimum_readable_version (demo_state demo_setup) = 192"
  "ps_lease_clock_tick (demo_state demo_setup) = 0"
  "ps_root_intent_epoch (demo_state demo_setup) = 4"
  "ps_roots (demo_state demo_setup) = [(''root'', demo_manifest ''m0'')]"
  "ps_intents (demo_state demo_setup) = []"
  by (simp_all add: pub_eval demo_setup_def lease_token_def)

lemma demo_job_token [simp]:
  "\<lparr>cj_job_id = ''J'', cj_owner_generation = 1, cj_authority_position = ac_position (demo_ctx 1),
     cj_frozen_floor = 192, cj_input_manifest = demo_manifest ''m0'', cj_destination_root = ''root'',
     cj_range_map_epoch = 1, cj_expected_collected_through = 0, cj_output_namespace = ''out/''\<rparr> = demo_job"
  by (simp add: demo_job_def job_token_def)

lemma demo_collected:
  "ps_physically_collected_through (demo_state (demo_setup @ demo_collect)) = 192"
  by (simp add: pub_eval demo_setup_def demo_collect_def suffix_to_prefix)

section \<open>Monotonicity and the epoch fence\<close>

text \<open>The parts of the state that name objects.\<close>

definition object_graph :: "publication_state \<Rightarrow>
    (string, prepared_publication) btree \<times> (string, object_reference) btree \<times> (string, object_reference) btree \<times>
    (string, snapshot_lease_token) btree \<times> string option \<times> (string, collection_job_token) btree" where
  "object_graph s = (ps_intents s, ps_roots s, ps_pins s, ps_leases s, ps_collection_root s, ps_collection_jobs s)"

lemma bump_fields [simp]:
  "ps_root_intent_epoch (bump_root_intent_epoch s) = saturating_add (ps_root_intent_epoch s) 1"
  "ps_root_intent_epoch (bump_lease_epoch s) = ps_root_intent_epoch s"
  "ps_lease_epoch (bump_lease_epoch s) = saturating_add (ps_lease_epoch s) 1"
  "ps_lease_epoch (bump_root_intent_epoch s) = ps_lease_epoch s"
  by (simp_all add: bump_defs)

lemma epochs_step:
  assumes "pub_step ctx s a out s'"
  shows "ps_root_intent_epoch s \<le> ps_root_intent_epoch s' \<and> ps_lease_epoch s \<le> ps_lease_epoch s' \<and>
    ps_retention_policy_epoch s \<le> ps_retention_policy_epoch s' \<and> ps_range_map_epoch s \<le> ps_range_map_epoch s' \<and>
    ps_lease_clock_tick s \<le> ps_lease_clock_tick s' \<and> ps_observed_commit_frontier s \<le> ps_observed_commit_frontier s'"
  using assms by cases (simp_all add: bump_defs)

lemma floors_step:
  assumes "pub_step ctx s a out s'" and "jobs_ok s"
  shows "ps_minimum_readable_version s \<le> ps_minimum_readable_version s' \<and> ps_policy_floor s \<le> ps_policy_floor s' \<and>
    ps_physically_collected_through s \<le> ps_physically_collected_through s'"
  using assms(1)
proof cases
  case (publish_job receipt token)
  with jobs_okD[OF assms(2) publish_job(7)] show ?thesis by (auto simp: bump_defs job_ok_def)
qed (auto simp: bump_defs intro: order_trans[OF _ recompute_mono(1)] order_trans[OF _ recompute_mono(2)])

lemma fence_step:
  assumes "pub_step ctx s a out s'" and "ps_root_intent_epoch s \<noteq> - 1"
  shows "object_graph s' = object_graph s \<or> ps_root_intent_epoch s < ps_root_intent_epoch s'"
  using assms(1) by cases (simp_all add: object_graph_def saturating_succ_gt[OF assms(2)])

lemma object_graph_revision [simp]: "object_graph (s\<lparr>ps_revision := p\<rparr>) = object_graph s"
  by (simp add: object_graph_def)

lemma run_epochs:
  "pub_inv s \<Longrightarrow> ps_root_intent_epoch s \<le> ps_root_intent_epoch (authority_run es s)"
  "pub_inv s \<Longrightarrow> ps_lease_epoch s \<le> ps_lease_epoch (authority_run es s)"
proof -
  have "ps_root_intent_epoch s \<le> ps_root_intent_epoch (pub_run_step e s) \<and>
      ps_lease_epoch s \<le> ps_lease_epoch (pub_run_step e s)" for e s
    by (cases rule: pub_run_step_cases[of e s]) (auto dest: epochs_step)
  then show "pub_inv s \<Longrightarrow> ps_root_intent_epoch s \<le> ps_root_intent_epoch (authority_run es s)"
    "pub_inv s \<Longrightarrow> ps_lease_epoch s \<le> ps_lease_epoch (authority_run es s)"
    by (auto intro: authority.run_mono)
qed

text \<open>While the epoch stands still below its maximum, no part that names objects changes.\<close>

lemma epoch_fence:
  "pub_inv s \<Longrightarrow> ps_root_intent_epoch (authority_run es s) = ps_root_intent_epoch s \<Longrightarrow>
     ps_root_intent_epoch s \<noteq> - 1 \<Longrightarrow> object_graph (authority_run es s) = object_graph s"
proof (induction es arbitrary: s)
  case (Cons e es)
  let ?t = "pub_run_step e s"
  have inv: "pub_inv ?t" by (rule authority.step_ok[OF Cons.prems(1)])
  have le: "ps_root_intent_epoch s \<le> ps_root_intent_epoch ?t" "ps_root_intent_epoch ?t \<le> ps_root_intent_epoch s"
    using run_epochs(1)[OF Cons.prems(1), of "[e]"] run_epochs(1)[OF inv, of es] Cons.prems(2) by simp_all
  then have eq: "ps_root_intent_epoch ?t = ps_root_intent_epoch s" by simp
  have "object_graph ?t = object_graph s"
    using eq Cons.prems(3) by (cases rule: pub_run_step_cases[of e s]) (auto dest: fence_step)
  with Cons.IH[OF inv] Cons.prems(2,3) eq show ?case by simp
qed simp

section \<open>Properties\<close>

text \<open>C30. In every state the authority reaches, collected \<open>\<le>\<close> readable \<open>\<le>\<close> policy \<open>\<le>\<close> committed
  frontier; every active lease is filed under its id, unexpired, and pins a snapshot between the
  readable floor and the frontier; there is at most one collection job, on the configured root,
  frozen above what is collected and not above the readable floor.\<close>

theorem authority_floors:
  assumes "s = authority_run es publication_default"
  shows "ps_physically_collected_through s \<le> ps_minimum_readable_version s \<and>
    ps_minimum_readable_version s \<le> ps_policy_floor s \<and> ps_policy_floor s \<le> ps_observed_commit_frontier s \<and>
    (\<forall>i l. bt_get (ps_leases s) i = Some l \<longrightarrow>
       sl_lease_id l = i \<and> ps_minimum_readable_version s \<le> sl_snapshot_version l \<and>
       sl_snapshot_version l \<le> ps_observed_commit_frontier s \<and> ps_lease_clock_tick s < sl_deadline_tick l) \<and>
    (\<forall>i j. bt_get (ps_collection_jobs s) i = Some j \<longrightarrow>
       ps_collection_root s = Some (cj_destination_root j) \<and>
       cj_expected_collected_through j = ps_physically_collected_through s \<and>
       ps_physically_collected_through s < cj_frozen_floor j \<and> cj_frozen_floor j \<le> ps_minimum_readable_version s) \<and>
    length (ps_collection_jobs s) \<le> 1"
proof -
  have inv: "floors_ok s" "leases_ok s" "jobs_ok s"
    using pub_inv_run[of es] assms by (simp_all add: pub_inv_def)
  from leases_okD[OF inv(2)] jobs_okD[OF inv(3)] inv(1,3) show ?thesis
    by (auto simp: floors_ok_def lease_ok_def job_ok_def jobs_ok_def)
qed

theorem authority_floors_witness:
  "ps_leases (demo_state demo_setup) \<noteq> [] \<and>
   ps_minimum_readable_version (demo_state demo_setup) \<le> ps_policy_floor (demo_state demo_setup) \<and>
   ps_minimum_readable_version (demo_state demo_setup) \<le> 200"
  using authority_floors[OF refl, of "map (\<lambda>a. (a, demo_ctx 1)) demo_setup"]
  by (auto simp: demo_leased lease_token_def bt_get_def)
end
