(* ===== verification/Publication_Properties.thy ===== *)
theory Publication_Properties
  imports Publication_Safety
begin

text \<open>
  The contract of the publication authority: compare-and-publish roots, deletion marks fenced
  by the root-intent epoch, reserved objects kept out of publications, the collection
  frontier, and the life cycle of lease tokens and of jobs across generations.
\<close>

section \<open>Commands\<close>

lemma with_fst: "fst r = a \<Longrightarrow> r = (a, snd r)"
  by (cases r) simp

lemma pub_step_deterministic:
  "pub_step ctx s a out s1 \<Longrightarrow> pub_step ctx s a out' s2 \<Longrightarrow> out = out' \<and> s1 = s2"
  by (cases a) (auto simp: pub_step_simps)



section \<open>Roots\<close>

lemma apply_accepted:
  assumes "publication_apply a ctx no_faults s = (accepted out, s')"
  obtains s0 where "pub_step ctx s a out s0" and "s' = s0\<lparr>ps_revision := ac_position ctx\<rparr>"
  using assms by (cases rule: publication_apply_cases) auto

text \<open>C17. Roots change by compare and swap only: when a command changes what a root name points
  to, it is either a publication of an intent that the same generation prepared with exactly the
  old value as expected prior root, and the intent is retired with it; or the publication of a
  collection job of the same generation whose input manifest is the old value, and the job is
  retired with it.\<close>

theorem roots_change_by_compare_and_swap:
  assumes "publication_apply a ctx no_faults s = (t, s')" and "bt_get (ps_roots s') r \<noteq> bt_get (ps_roots s) r"
  shows "(\<exists>i m p. a = Publish i r (bt_get (ps_roots s) r) m \<and> bt_get (ps_intents s) i = Some p \<and>
       pp_owner_generation p = ac_generation ctx \<and> pi_manifest (pp_intent p) = m \<and>
       pi_destination_root (pp_intent p) = r \<and> pi_expected_prior_root (pp_intent p) = bt_get (ps_roots s) r \<and>
       bt_get (ps_roots s') r = Some m \<and> bt_get (ps_intents s') i = None) \<or>
    (\<exists>rc. a = PublishCollection rc \<and> cj_destination_root (cr_token rc) = r \<and>
       bt_get (ps_collection_jobs s) (cj_job_id (cr_token rc)) = Some (cr_token rc) \<and>
       cj_owner_generation (cr_token rc) = ac_generation ctx \<and>
       bt_get (ps_roots s) r = Some (cj_input_manifest (cr_token rc)) \<and>
       bt_get (ps_roots s') r = Some (cr_output_manifest rc) \<and>
       bt_get (ps_collection_jobs s') (cj_job_id (cr_token rc)) = None)"
  using assms(1)
proof (cases rule: publication_apply_cases)
  case (step out s0)
  from step(2) show ?thesis
    by cases (use assms(2) step(3) in \<open>auto simp: bump_defs split: if_splits\<close>)
next
  case (kept st)
  with assms(2) show ?thesis by simp
qed

theorem roots_change_by_compare_and_swap_witness:
  "\<exists>i m p. Publish ''p'' ''root'' None (demo_manifest ''m0'') = Publish i ''root'' None m \<and>
     bt_get (ps_intents (demo_state (take 4 demo_setup))) i = Some p \<and> pp_owner_generation p = 1"
proof -
  let ?s = "demo_state (take 4 demo_setup)" and ?a = "Publish ''p'' ''root'' None (demo_manifest ''m0'')"
  have "bt_get (ps_roots (snd (publication_apply ?a (demo_ctx 1) no_faults ?s))) ''root'' \<noteq> bt_get (ps_roots ?s) ''root''"
    and "bt_get (ps_roots ?s) ''root'' = None"
    by (simp_all add: pub_eval demo_setup_def)
  then show ?thesis
    using roots_change_by_compare_and_swap[of ?a "demo_ctx 1" ?s _ _ "''root''", OF prod.collapse[symmetric]]
    by auto
qed

section \<open>Deletion\<close>

text \<open>C13. Deletion marks are fenced: a reservation accepted with the root-intent epoch of an
  earlier state as its mark epoch finds the intents, roots, pins, leases and collection jobs of
  that state unchanged, so what the mark found unreachable still is; and the object is named by
  no intent, lease closure, job input or job output namespace. (The epoch saturates; the fence
  holds below its maximum.)\<close>

theorem deletion_mark_is_current:
  assumes "pub_inv s" and "s' = authority_run es s" and "ps_root_intent_epoch s \<noteq> - 1"
    and "publication_apply (ReserveDelete plan (ps_root_intent_epoch s) key ident) ctx no_faults s' = (accepted out, s'')"
  shows "object_graph s' = object_graph s \<and> out = DeleteReserved (delete_permit_new key ident plan ctx) \<and>
    (\<forall>i p. bt_get (ps_intents s') i = Some p \<longrightarrow> key \<notin> pi_object_keys (pp_intent p)) \<and>
    (\<forall>i l. bt_get (ps_leases s') i = Some l \<longrightarrow> key \<notin> sc_object_keys (sl_closure l)) \<and>
    (\<forall>i j. bt_get (ps_collection_jobs s') i = Some j \<longrightarrow>
       or_key (cj_input_manifest j) \<noteq> key \<and> \<not> prefix (cj_output_namespace j) key)"
proof -
  have inv: "maps_ok s'"
    using authority.run_ok[OF assms(1), of es] assms(2) by (simp add: pub_inv_def)
  from assms(4) obtain s0 where step: "pub_step ctx s' (ReserveDelete plan (ps_root_intent_epoch s) key ident) out s0"
    by (rule apply_accepted)
  then have "ps_root_intent_epoch s' = ps_root_intent_epoch s" by (simp add: pub_step_simps)
  with epoch_fence[OF assms(1), of es] assms(2,3) have "object_graph s' = object_graph s" by simp
  with step inv show ?thesis
    by (auto simp: pub_step_simps maps_ok_def bt_value_iff closure_names_def)
qed

definition demo_identity :: object_identity where
  "demo_identity = \<lparr>oi_revision = \<lparr>rt_e_tag = None, rt_version = None\<rparr>, oi_length = 1, oi_sha256 = replicate 64 CHR ''a''\<rparr>"

lemma demo_identity_valid [simp]: "identity_is_valid demo_identity"
  by (simp add: identity_is_valid_def demo_identity_def valid_sha256_def list_all_iff less_eq_char_def)

theorem deletion_mark_is_current_witness:
  "object_graph (authority_run [(ObserveCommittedFrontier 300, demo_ctx 1)] (demo_state demo_setup)) = object_graph (demo_state demo_setup)"
proof -
  let ?s = "demo_state demo_setup" and ?es = "[(ObserveCommittedFrontier 300, demo_ctx 1)]"
  let ?r = "publication_apply (ReserveDelete ''plan'' (ps_root_intent_epoch ?s) ''x'' demo_identity) (demo_ctx 1) no_faults
      (authority_run ?es ?s)"
  have "fst ?r = accepted (DeleteReserved (delete_permit_new ''x'' demo_identity ''plan'' (demo_ctx 1)))"
    by (simp add: pub_eval demo_setup_def)
  then have r: "?r = (accepted (DeleteReserved (delete_permit_new ''x'' demo_identity ''plan'' (demo_ctx 1))), snd ?r)"
    by (rule with_fst)
  have "ps_root_intent_epoch ?s \<noteq> - 1" by (simp add: demo_leased)
  from deletion_mark_is_current[OF pub_inv_run refl this r] show ?thesis by (rule conjunct1)
qed

text \<open>An object under a deletion reservation is never published: no accepted command
  prepares, publishes or installs as collection output a set of objects that contains it.\<close>

theorem reserved_objects_are_not_published:
  assumes "pub_inv s" and "publication_apply a ctx no_faults s = (accepted out, s')"
    and "bt_contains (ps_deletion_reservations s) k"
  shows "(\<forall>i t. a = Prepare i t \<longrightarrow> k \<notin> pi_object_keys t) \<and>
    (\<forall>i d e m p. a = Publish i d e m \<longrightarrow> bt_get (ps_intents s) i = Some p \<longrightarrow> k \<notin> pi_object_keys (pp_intent p)) \<and>
    (\<forall>rc. a = PublishCollection rc \<longrightarrow> k \<notin> cr_object_keys rc)"
proof -
  have res: "k \<notin> pi_object_keys (pp_intent p)" if "bt_get (ps_intents s) i = Some p" for i p
    using assms(1,3) that unfolding pub_inv_def reservations_ok_def by blast
  from assms(2) obtain s0 where "pub_step ctx s a out s0" by (rule apply_accepted)
  then show ?thesis
    by cases (use assms(3) res in auto)
qed

abbreviation demo_reserve :: "string \<Rightarrow> publication_action" where
  "demo_reserve k \<equiv> ReserveDelete ''plan'' 4 k demo_identity"

theorem reserved_objects_are_not_published_witness:
  "bt_contains (ps_deletion_reservations (demo_state (demo_setup @ [demo_reserve ''x'']))) ''x'' \<and>
   ''x'' \<notin> pi_object_keys demo_intent"
proof -
  let ?s = "demo_state (demo_setup @ [demo_reserve ''x''])"
  have res: "bt_contains (ps_deletion_reservations ?s) ''x''"
    by (simp add: pub_eval demo_setup_def)
  have "fst (publication_apply (Prepare ''q'' demo_intent) (demo_ctx 1) no_faults ?s) = accepted PublicationApplied"
    by (simp add: pub_eval demo_setup_def)
  from reserved_objects_are_not_published[OF pub_inv_run with_fst[OF this] res]
  have "Prepare ''q'' demo_intent = Prepare i t \<longrightarrow> ''x'' \<notin> pi_object_keys t" for i t
    by (elim conjE allE)
  with res show ?thesis by (intro conjI) (assumption, simp only: HOL.simp_thms)
qed

definition demo_race :: "publication_action list" where
  "demo_race = take 6 demo_setup @ [ReserveDelete ''plan'' 3 ''d0'' demo_identity, demo_setup ! 6]"

definition demo_token :: snapshot_lease_token where
  "demo_token = lease_token ''A'' ''t'' 200 ''o'' ''q'' 10 demo_closure (demo_ctx 1) 1"

lemma demo_race_state:
  "bt_contains (ps_deletion_reservations (demo_state demo_race)) ''d0''"
  "ps_leases (demo_state demo_race) = [(''A'', demo_token)]"
  "ps_lease_clock_tick (demo_state demo_race) = 0"
  "ps_format_version (demo_state demo_race) = PUBLICATION_FORMAT_VERSION"
  by (simp_all add: pub_eval demo_setup_def demo_race_def demo_token_def lease_token_def)

text \<open>The check on reservations is missing for leases: after an object was reserved for
  deletion the authority still admits a lease whose closure names it, so the sweeper may delete an
  object that an active, validating lease pins.\<close>

theorem lease_on_reserved_object:
  "bt_contains (ps_deletion_reservations (demo_state demo_race)) ''d0'' \<and>
   validate_active_snapshot_lease (demo_state demo_race) demo_token = Ok () \<and> closure_names (sl_closure demo_token) ''d0''"
  by (simp add: demo_race_state validate_active_snapshot_lease_def demo_token_def lease_token_def bt_get_def closure_names_def)

section \<open>Collection\<close>

text \<open>C26. Publishing a collection job advances the collection frontier strictly, to the job's
  frozen floor, which is still at most the readable floor and at most every leased snapshot; the
  job is retired, so no job is outstanding.\<close>

theorem collection_respects_readers:
  assumes "pub_inv s" and "publication_apply (PublishCollection rc) ctx no_faults s = (accepted out, s')"
  shows "ps_physically_collected_through s < ps_physically_collected_through s' \<and>
    ps_physically_collected_through s' = cj_frozen_floor (cr_token rc) \<and>
    ps_physically_collected_through s' \<le> ps_minimum_readable_version s' \<and> ps_collection_jobs s' = [] \<and>
    (\<forall>i l. bt_get (ps_leases s') i = Some l \<longrightarrow> ps_physically_collected_through s' \<le> sl_snapshot_version l)"
proof -
  have inv: "jobs_ok s" "leases_ok s" using assms(1) by (simp_all add: pub_inv_def)
  from assms(2) obtain s0 where step: "pub_step ctx s (PublishCollection rc) out s0"
    and s': "s' = s0\<lparr>ps_revision := ac_position ctx\<rparr>" by (rule apply_accepted)
  then have job: "bt_get (ps_collection_jobs s) (cj_job_id (cr_token rc)) = Some (cr_token rc)"
    by (simp add: pub_step_simps)
  have lease: "ps_minimum_readable_version s \<le> sl_snapshot_version l" if "bt_get (ps_leases s) i = Some l" for i l
    using leases_okD[OF inv(2) that] by (simp add: lease_ok_def)
  from step jobs_okD[OF inv(1) job] single_job[OF inv(1) job] lease show ?thesis
    unfolding s' by (auto simp: pub_step_simps bump_defs job_ok_def bt_remove_single intro: order_trans)
qed

theorem collection_respects_readers_witness:
  "ps_physically_collected_through (snd (publication_apply (PublishCollection demo_receipt) (demo_ctx 1) no_faults
     (demo_state (demo_setup @ [hd demo_collect])))) = 192"
proof -
  let ?s = "demo_state (demo_setup @ [hd demo_collect])"
  have "fst (publication_apply (PublishCollection demo_receipt) (demo_ctx 1) no_faults ?s) = accepted (CollectionPublished demo_receipt)"
    by (simp add: pub_eval demo_setup_def demo_collect_def suffix_to_prefix)
  from collection_respects_readers[OF pub_inv_run with_fst[OF this]] show ?thesis by simp
qed

text \<open>Time moves forward: over any run from a well-formed state the collected, readable and
  policy floors, the observed commit frontier, the lease clock and the root-intent, lease,
  retention-policy and range-map epochs never decrease.\<close>

theorem authority_is_monotone:
  assumes "pub_inv s" and "s' = authority_run es s"
  shows "ps_physically_collected_through s \<le> ps_physically_collected_through s' \<and>
    ps_minimum_readable_version s \<le> ps_minimum_readable_version s' \<and>
    ps_policy_floor s \<le> ps_policy_floor s' \<and> ps_observed_commit_frontier s \<le> ps_observed_commit_frontier s' \<and>
    ps_lease_clock_tick s \<le> ps_lease_clock_tick s' \<and> ps_root_intent_epoch s \<le> ps_root_intent_epoch s' \<and>
    ps_lease_epoch s \<le> ps_lease_epoch s' \<and> ps_retention_policy_epoch s \<le> ps_retention_policy_epoch s' \<and>
    ps_range_map_epoch s \<le> ps_range_map_epoch s'"
proof -
  have floors: "ps_physically_collected_through s \<le> ps_physically_collected_through (pub_run_step e s) \<and>
      ps_minimum_readable_version s \<le> ps_minimum_readable_version (pub_run_step e s) \<and>
      ps_policy_floor s \<le> ps_policy_floor (pub_run_step e s)" if "pub_inv s" for e s
    using that by (cases rule: pub_run_step_cases[of e s]) (auto simp: pub_inv_def dest: floors_step)
  have epochs: "ps_observed_commit_frontier s \<le> ps_observed_commit_frontier (pub_run_step e s) \<and>
      ps_lease_clock_tick s \<le> ps_lease_clock_tick (pub_run_step e s) \<and>
      ps_root_intent_epoch s \<le> ps_root_intent_epoch (pub_run_step e s) \<and>
      ps_lease_epoch s \<le> ps_lease_epoch (pub_run_step e s) \<and>
      ps_retention_policy_epoch s \<le> ps_retention_policy_epoch (pub_run_step e s) \<and>
      ps_range_map_epoch s \<le> ps_range_map_epoch (pub_run_step e s)" for e s
    by (cases rule: pub_run_step_cases[of e s]) (auto dest: epochs_step)
  show ?thesis
    unfolding assms(2)
    by (intro conjI authority.run_mono[OF _ assms(1)]) (simp_all add: floors epochs)
qed

theorem authority_is_monotone_witness:
  "192 \<le> ps_minimum_readable_version (authority_run [(AdvanceLeaseClock 0 20, demo_ctx 1)] (demo_state demo_setup))"
  using authority_is_monotone[OF pub_inv_run refl, of "map (\<lambda>a. (a, demo_ctx 1)) demo_setup" "[(AdvanceLeaseClock 0 20, demo_ctx 1)]"]
  by (simp only: demo_leased)

section \<open>Leases\<close>

lemma active_lease_iff:
  assumes "pub_inv s"
  shows "validate_active_snapshot_lease s l = Ok () \<longleftrightarrow> bt_get (ps_leases s) (sl_lease_id l) = Some l"
proof -
  have "ps_format_version s = PUBLICATION_FORMAT_VERSION" "leases_ok s"
    using assms by (simp_all add: pub_inv_def maps_ok_def)
  moreover have "ps_lease_clock_tick s < sl_deadline_tick l" if "bt_get (ps_leases s) (sl_lease_id l) = Some l"
    using leases_okD[OF \<open>leases_ok s\<close> that] by (simp add: lease_ok_def)
  ultimately show ?thesis
    by (auto simp: validate_active_snapshot_lease_def not_le split: option.split)
qed

text \<open>In a well-formed state a token validates exactly when it is the active lease under its
  id; then its snapshot lies at or above the collected frontier and the readable floor. The
  expiry answer never occurs, because the clock command already removed every expired lease.\<close>

theorem active_leases_validate:
  assumes "pub_inv s"
  shows "(validate_active_snapshot_lease s l = Ok () \<longleftrightarrow> bt_get (ps_leases s) (sl_lease_id l) = Some l) \<and>
    validate_active_snapshot_lease s l \<noteq> Err LeaseExpired \<and>
    (validate_active_snapshot_lease s l = Ok () \<longrightarrow>
       ps_physically_collected_through s \<le> sl_snapshot_version l \<and> ps_minimum_readable_version s \<le> sl_snapshot_version l)"
proof -
  have inv: "maps_ok s" "floors_ok s" "leases_ok s" using assms by (simp_all add: pub_inv_def)
  have "lease_ok s (sl_lease_id l) l" if "bt_get (ps_leases s) (sl_lease_id l) = Some l"
    using leases_okD[OF inv(3) that] .
  with inv(1,2) show ?thesis
    by (auto simp: validate_active_snapshot_lease_def maps_ok_def floors_ok_def lease_ok_def not_le split: option.split)
qed

theorem active_leases_validate_witness:
  "validate_active_snapshot_lease (demo_state demo_setup) demo_token = Ok ()"
  using active_leases_validate[OF pub_inv_run, of "map (\<lambda>a. (a, demo_ctx 1)) demo_setup" demo_token]
  by (simp add: demo_leased demo_token_def bt_get_def lease_token_def)

lemma new_tokens_step:
  assumes "pub_step ctx s a out s'" and "leases_ok s" "bt_wf (ps_leases s)" and "ps_lease_epoch s \<noteq> - 1"
    and "bt_get (ps_leases s') i = Some l"
  shows "bt_get (ps_leases s) i = Some l \<or> ps_lease_epoch s < sl_lease_epoch l"
  using assms(1)
proof cases
  case (tick e n expired s1)
  have "ps_leases s' = fold bt_remove (expired_ids n (ps_leases s)) (ps_leases s)"
    unfolding tick(3) using tick(6,7) by (simp add: bump_defs)
  then show ?thesis using assms(5) by (auto simp: bt.get_del_all split: if_splits)
qed (use assms(5) in \<open>auto simp: bump_defs lease_token_def saturating_succ_gt[OF assms(4)] split: if_splits\<close>)

text \<open>Tokens do not come back: a token that is not active, because it was released, has
  expired, or was superseded by a renewal, never validates again, whatever commands follow,
  as long as the lease epoch stays below its saturation point.\<close>

theorem dead_tokens_stay_dead:
  assumes "pub_inv s" and "validate_active_snapshot_lease s l \<noteq> Ok ()" and "sl_lease_epoch l \<le> ps_lease_epoch s"
    and "ps_lease_epoch (authority_run es s) \<noteq> - 1"
  shows "validate_active_snapshot_lease (authority_run es s) l \<noteq> Ok ()"
proof -
  have dead: "bt_get (ps_leases (authority_run es s)) (sl_lease_id l) \<noteq> Some l"
    if "pub_inv s" "bt_get (ps_leases s) (sl_lease_id l) \<noteq> Some l" "sl_lease_epoch l \<le> ps_lease_epoch s"
      "ps_lease_epoch (authority_run es s) \<noteq> - 1" for s
    using that
  proof (induction es arbitrary: s)
    case (Cons e es)
    let ?t = "pub_run_step e s"
    have inv: "pub_inv ?t" by (rule authority.step_ok[OF Cons.prems(1)])
    have le: "ps_lease_epoch s \<le> ps_lease_epoch ?t" "ps_lease_epoch ?t \<le> ps_lease_epoch (authority_run (e # es) s)"
      using run_epochs(2)[OF Cons.prems(1), of "[e]"] run_epochs(2)[OF inv, of es] by simp_all
    have top: "ps_lease_epoch s \<noteq> - 1"
      using le Cons.prems(4) by (metis order_trans word_order.extremum_unique)
    have "bt_get (ps_leases ?t) (sl_lease_id l) \<noteq> Some l"
    proof (cases rule: pub_run_step_cases[of e s])
      case kept
      with Cons.prems(2) show ?thesis by simp
    next
      case (step out s0)
      have "leases_ok s" "bt_wf (ps_leases s)" using Cons.prems(1) by (simp_all add: pub_inv_def maps_ok_def)
      from new_tokens_step[OF step(1) this top, of "sl_lease_id l" l] Cons.prems(2,3) show ?thesis
        using step(2) by auto
    qed
    with Cons.IH[OF inv] Cons.prems(3,4) le(1) show ?case by (simp add: order_trans)
  qed simp
  have "bt_get (ps_leases s) (sl_lease_id l) \<noteq> Some l"
    using assms(2) active_lease_iff[OF assms(1)] by simp
  from dead[OF assms(1) this assms(3,4)] show ?thesis
    using active_lease_iff[OF authority.run_ok[OF assms(1)]] by simp
qed

lemma demo_released_state:
  "ps_leases (demo_state (demo_setup @ [ReleaseLease ''A'' 1])) = []"
  "ps_lease_epoch (demo_state (demo_setup @ [ReleaseLease ''A'' 1])) = 2"
  "ps_lease_epoch (authority_run [(demo_setup ! 6, demo_ctx 1)] (demo_state (demo_setup @ [ReleaseLease ''A'' 1]))) = 3"
  by (simp_all add: pub_eval demo_setup_def)

theorem dead_tokens_stay_dead_witness:
  "validate_active_snapshot_lease
     (authority_run [(demo_setup ! 6, demo_ctx 1)] (demo_state (demo_setup @ [ReleaseLease ''A'' 1]))) demo_token \<noteq> Ok ()"
proof (rule dead_tokens_stay_dead[OF pub_inv_run])
  show "validate_active_snapshot_lease (demo_state (demo_setup @ [ReleaseLease ''A'' 1])) demo_token \<noteq> Ok ()"
    unfolding active_lease_iff[OF pub_inv_run] demo_released_state(1) by (simp add: bt_get_def)
  show "sl_lease_epoch demo_token \<le> ps_lease_epoch (demo_state (demo_setup @ [ReleaseLease ''A'' 1]))"
    unfolding demo_released_state(2) by (simp add: demo_token_def lease_token_def word_le_nat_alt)
  show "ps_lease_epoch (authority_run [(demo_setup ! 6, demo_ctx 1)] (demo_state (demo_setup @ [ReleaseLease ''A'' 1]))) \<noteq> - 1"
    unfolding demo_released_state(3) by simp
qed

section \<open>Jobs across generations\<close>

lemma prepare_blocked:
  assumes "jobs_ok s" and "bt_get (ps_collection_jobs s) i = Some j" and "bt_wf (ps_collection_jobs s)"
  shows "\<not> pub_step ctx s (PrepareCollection job_id floor input destination range_epoch collected namespace) out s'"
  using jobs_okD[OF assms(1,2)] bt_value_iff[OF assms(3), of j] assms(2)
  by (auto simp: pub_step_simps job_ok_def)

lemma job_stays_step:
  assumes "pub_step ctx s a out s'" and "jobs_ok s" and job: "bt_get (ps_collection_jobs s) i = Some j"
    and wf: "bt_wf (ps_collection_jobs s)" and gen: "ac_generation ctx \<noteq> cj_owner_generation j"
  shows "bt_get (ps_collection_jobs s') i = Some j \<and> ps_physically_collected_through s' = ps_physically_collected_through s"
  using assms(1)
proof cases
  case (prepare_job job_id floor input destination range_epoch namespace collected token)
  with prepare_blocked[OF assms(2) job wf] assms(1) show ?thesis by simp
next
  case (publish_job receipt token)
  with single_job[OF assms(2) publish_job(7)] job gen show ?thesis by (auto simp: bt_get_def split: if_splits)
next
  case (abandon_job token)
  with single_job[OF assms(2) abandon_job(4)] job gen show ?thesis by (auto simp: bt_get_def split: if_splits)
qed (use job in \<open>simp_all add: bump_defs\<close>)

text \<open>C39. A job outlives its generation: once the authority runs under other generations, a
  prepared collection job can be neither published nor abandoned. The job stays, the collection
  frontier stands still, and every further collection is refused.\<close>

theorem stale_job_blocks_collection:
  assumes "pub_inv s" and "bt_get (ps_collection_jobs s) i = Some j"
    and "\<forall>(a, ctx) \<in> set es. ac_generation ctx \<noteq> cj_owner_generation j" and "s' = authority_run es s"
  shows "bt_get (ps_collection_jobs s') i = Some j \<and>
    ps_physically_collected_through s' = ps_physically_collected_through s \<and>
    pt_status (fst (publication_apply (PrepareCollection job_id floor input destination range_epoch collected namespace)
      ctx no_faults s')) \<noteq> Accepted"
proof -
  have stays: "bt_get (ps_collection_jobs (authority_run es s)) i = Some j \<and>
      ps_physically_collected_through (authority_run es s) = ps_physically_collected_through s"
    if "pub_inv s" "bt_get (ps_collection_jobs s) i = Some j" "\<forall>(a, ctx) \<in> set es. ac_generation ctx \<noteq> cj_owner_generation j" for s
    using that
  proof (induction es arbitrary: s)
    case (Cons e es)
    have inv: "jobs_ok s" "bt_wf (ps_collection_jobs s)" using Cons.prems(1) by (simp_all add: pub_inv_def maps_ok_def)
    have "ac_generation (snd e) \<noteq> cj_owner_generation j" using Cons.prems(3) by (auto simp: case_prod_unfold)
    then have "bt_get (ps_collection_jobs (pub_run_step e s)) i = Some j \<and>
        ps_physically_collected_through (pub_run_step e s) = ps_physically_collected_through s"
      using Cons.prems(2) job_stays_step[OF _ inv(1) Cons.prems(2) inv(2)]
      by (cases rule: pub_run_step_cases[of e s]) simp_all
    with Cons.IH[OF authority.step_ok[OF Cons.prems(1)]] Cons.prems(3) show ?case by simp
  qed simp
  have job: "bt_get (ps_collection_jobs s') i = Some j \<and>
      ps_physically_collected_through s' = ps_physically_collected_through s"
    using stays[OF assms(1-3)] assms(4) by simp
  have "jobs_ok s'" "bt_wf (ps_collection_jobs s')"
    using authority.run_ok[OF assms(1), of es] assms(4) by (simp_all add: pub_inv_def maps_ok_def)
  note blocked = prepare_blocked[OF this(1) conjunct1[OF job] this(2)]
  obtain t s'' where ap: "publication_apply (PrepareCollection job_id floor input destination range_epoch collected namespace)
      ctx no_faults s' = (t, s'')" by (cases rule: prod.exhaust)
  then have "pt_status t \<noteq> Accepted"
    by (cases rule: publication_apply_cases) (use blocked in auto)
  with job ap show ?thesis by simp
qed

lemma demo_prepared_state:
  "ps_collection_jobs (demo_state (demo_setup @ [hd demo_collect])) = [(''J'', demo_job)]"
  by (simp add: pub_eval demo_setup_def demo_collect_def suffix_to_prefix)

theorem stale_job_blocks_collection_witness:
  "bt_get (ps_collection_jobs (authority_run [(AbandonCollection demo_job, demo_ctx 2), (PublishCollection demo_receipt, demo_ctx 2)]
     (demo_state (demo_setup @ [hd demo_collect])))) ''J'' = Some demo_job"
proof -
  have "bt_get (ps_collection_jobs (demo_state (demo_setup @ [hd demo_collect]))) ''J'' = Some demo_job"
    unfolding demo_prepared_state by (simp add: bt_get_def)
  from stale_job_blocks_collection[OF pub_inv_run this _ refl] show ?thesis by (rule conjunct1) simp
qed
end
