(* ===== verification/Framing.thy ===== *)
theory Framing
  imports Okv_Prelude
begin

text \<open>
  Append-only files of checksummed frames, as the node journal and the replicated log of
  \<open>okv-wal\<close> both write them. The locale \<open>framed_log\<close> is the interface between a frame
  format and its recovery loop: a whole frame at the front of the unread bytes is read back,
  and a cut frame is recognised as a torn tail. From it follows what a crash can leave: whole
  frames and at most one torn tail.
\<close>

text \<open>Whether a write and its \<open>sync_all\<close> succeed, or fail once some bytes reached the file.\<close>

datatype write_outcome = Synced | FailedAfter nat

text \<open>The checksum: what is relied on of SHA-256 is its length. A constant function has it.\<close>

definition digest32 :: "(bytes \<Rightarrow> bytes) \<Rightarrow> bool" where
  "digest32 sha \<longleftrightarrow> (\<forall>bs. length (sha bs) = 32)"

definition demo_sha :: "bytes \<Rightarrow> bytes" where
  "demo_sha bs = replicate 32 0"

lemma demo_sha_digest32 [simp]: "digest32 demo_sha"
  by (simp add: digest32_def demo_sha_def)

text \<open>What a reader finds at the front of the unread bytes.\<close>

datatype ('r, 'c) parsed = Whole 'r | Short | Damaged 'c

abbreviation frames_of :: "('r \<Rightarrow> bytes) \<Rightarrow> 'r list \<Rightarrow> bytes" where
  "frames_of frame rs \<equiv> concat (map frame rs)"

locale framed_log =
  fixes valid :: "'r \<Rightarrow> bool"
    and frame :: "'r \<Rightarrow> bytes"
    and parse :: "bytes \<Rightarrow> ('r, 'c) parsed"
  assumes frame_nonempty: "frame r \<noteq> []"
    and parse_frame: "valid r \<Longrightarrow> parse (frame r @ rest) = Whole r"
    and parse_torn: "valid r \<Longrightarrow> part \<noteq> [] \<Longrightarrow> strict_prefix part (frame r) \<Longrightarrow> parse part = Short"
begin

text \<open>The first \<open>n\<close> bytes of a log: whole frames, then nothing or a torn one.\<close>

lemma cut:
  "list_all valid rs \<Longrightarrow> \<exists>k part. k \<le> length rs \<and> take n (frames_of frame rs) = frames_of frame (take k rs) @ part \<and>
     (part = [] \<or> parse part = Short) \<and> (part = [] \<longleftrightarrow> length (frames_of frame (take k rs)) = min n (length (frames_of frame rs))) \<and>
     (\<forall>m \<le> length rs. length (frames_of frame (take m rs)) \<le> n \<longrightarrow> m \<le> k)"
proof (induction rs arbitrary: n)
  case Nil
  then show ?case by simp
next
  case (Cons r rs)
  show ?case
  proof (cases "length (frame r) \<le> n")
    case True
    from Cons obtain k part where k: "k \<le> length rs"
      "take (n - length (frame r)) (frames_of frame rs) = frames_of frame (take k rs) @ part"
      "part = [] \<or> parse part = Short"
      "part = [] \<longleftrightarrow> length (frames_of frame (take k rs)) = min (n - length (frame r)) (length (frames_of frame rs))"
      "\<forall>m \<le> length rs. length (frames_of frame (take m rs)) \<le> n - length (frame r) \<longrightarrow> m \<le> k"
      by (metis list.pred_inject(2))
    have "m \<le> Suc k" if "m \<le> length (r # rs)" "length (frames_of frame (take m (r # rs))) \<le> n" for m
      using that k(5) True by (cases m) auto
    moreover have "part = [] \<longleftrightarrow> length (frames_of frame (take (Suc k) (r # rs))) = min n (length (frames_of frame (r # rs)))"
      using k(4) True by auto
    ultimately show ?thesis
      using k(1-3) True by (intro exI[of _ "Suc k"] exI[of _ part]) simp
  next
    case False
    have strict: "strict_prefix (take n (frame r)) (frame r)"
      using False by (auto simp: strict_prefix_def take_is_prefix)
    then have "take n (frame r) = [] \<or> parse (take n (frame r)) = Short"
      using Cons.prems parse_torn[of r "take n (frame r)"] by auto
    moreover have "m \<le> 0" if "length (frames_of frame (take m (r # rs))) \<le> n" for m
      using that False by (cases m) auto
    moreover have "take n (frame r) = [] \<longleftrightarrow> min n (length (frame r) + length (frames_of frame rs)) = 0"
      using frame_nonempty[of r] False by auto
    ultimately show ?thesis
      using False by (intro exI[of _ 0] exI[of _ "take n (frame r)"]) auto
  qed
qed

end

section \<open>Slices\<close>

text \<open>Reading fixed fields from the front of a concatenation.\<close>

lemma slice_front: "length xs = n \<Longrightarrow> take n (xs @ ys) = xs" "length xs = n \<Longrightarrow> drop n (xs @ ys) = ys"
  by simp_all

lemma strict_prefix_take: "strict_prefix part xs \<Longrightarrow> n \<le> length part \<Longrightarrow> take n part = take n xs"
  by (metis append_take_drop_id prefix_def prefix_order.less_imp_le take_append diff_is_0_eq' append_Nil2 take0)

lemma strict_prefix_nth: "strict_prefix part xs \<Longrightarrow> n < length part \<Longrightarrow> part ! n = xs ! n"
  by (metis nth_append prefix_def prefix_order.less_imp_le)

lemma strict_prefix_shorter: "strict_prefix part xs \<Longrightarrow> length part < length xs"
  by (rule prefix_length_less)

lemma length_2E: assumes "length xs = 2" obtains a b where "xs = [a, b]"
  using assms by (auto simp: numeral_eq_Suc length_Suc_conv)

lemma length_4E: assumes "length xs = 4" obtains a b c d where "xs = [a, b, c, d]"
  using assms by (auto simp: numeral_eq_Suc length_Suc_conv)

lemma length_8E: assumes "length xs = 8" obtains a b c d e f g h where "xs = [a, b, c, d, e, f, g, h]"
  using assms by (auto simp: numeral_eq_Suc length_Suc_conv)
end
