(* ===== verification/Node_Journal.thy ===== *)
theory Node_Journal
  imports Framing
begin

text \<open>
  The per-node consensus journal (\<open>okv-wal/src/node_journal.rs\<close>): records, their frame
  format, the replay loop that rebuilds the state on open, and the operations that append
  records. The journal file is its byte content; a write either succeeds as a whole and is
  synchronised, or fails with an I/O error after some prefix of the bytes reached the file.
  SHA-256 is the parameter \<open>sha\<close>. Positions in a file are naturals; the sizes involved are
  far below the 64-bit bound at which \<open>checked_add\<close> could fail.
\<close>

section \<open>Records and state\<close>

definition JOURNAL_MAGIC :: bytes where "JOURNAL_MAGIC = ascii ''OKVR''"
definition JOURNAL_VERSION :: u16 where "JOURNAL_VERSION = 1"
definition JOURNAL_HEADER_BYTES :: nat where "JOURNAL_HEADER_BYTES = 4 + 2 + 1 + 1 + 4"
definition JOURNAL_CHECKSUM_BYTES :: nat where "JOURNAL_CHECKSUM_BYTES = 32"
definition MAX_RECORD_BODY_BYTES :: nat where "MAX_RECORD_BODY_BYTES = 64 * 1024 * 1024"

definition KIND_VOTE :: u8 where "KIND_VOTE = 1"
definition KIND_COMMITTED :: u8 where "KIND_COMMITTED = 2"
definition KIND_APPEND :: u8 where "KIND_APPEND = 3"
definition KIND_TRUNCATE :: u8 where "KIND_TRUNCATE = 4"
definition KIND_PURGE :: u8 where "KIND_PURGE = 5"
definition FLAG_NONE :: u8 where "FLAG_NONE = 0"
definition FLAG_SOME :: u8 where "FLAG_SOME = 1"

record journal_marker =
  jm_index :: u64
  jm_payload :: bytes

record journal_state =
  js_vote :: "bytes option"
  js_committed :: "bytes option"
  js_last_purged :: "journal_marker option"
  js_entries :: "(u64, bytes) btree"

definition journal_state_default :: journal_state where
  "journal_state_default = \<lparr>js_vote = None, js_committed = None, js_last_purged = None, js_entries = []\<rparr>"

definition last_entry :: "journal_state \<Rightarrow> (u64 \<times> bytes) option" where
  "last_entry st = (if js_entries st = [] then None else Some (last (js_entries st)))"

datatype journal_error =
    JournalIo
  | PayloadTooLarge nat
  | CorruptFrame u64
  | InvalidRecord string
  | NonConsecutive u64 u64
  | TruncatePurged u64 u64
  | PurgeRegression u64 u64

datatype journal_record =
    Vote bytes
  | Committed_at "bytes option"
  | Append u64 bytes
  | Truncate u64
  | Purge journal_marker

section \<open>Applying records\<close>

fun validate_append_loop :: "u64 option \<Rightarrow> (u64 \<times> bytes) list \<Rightarrow> (unit, journal_error) result" where
  "validate_append_loop expected [] = Ok ()"
| "validate_append_loop expected ((index, payload) # entries) =
     (if length payload + 8 > MAX_RECORD_BODY_BYTES then Err (PayloadTooLarge (length payload))
      else case expected of
        Some want \<Rightarrow>
          if index \<noteq> want then Err (NonConsecutive want index)
          else validate_append_loop (Some (saturating_add index 1)) entries
      | None \<Rightarrow> validate_append_loop (Some (saturating_add index 1)) entries)"

definition validate_append :: "journal_state \<Rightarrow> (u64 \<times> bytes) list \<Rightarrow> (unit, journal_error) result" where
  "validate_append st entries =
     validate_append_loop
       (case last_entry st of
          Some (index, _) \<Rightarrow> Some (saturating_add index 1)
        | None \<Rightarrow> map_option (\<lambda>marker. saturating_add (jm_index marker) 1) (js_last_purged st))
       entries"

fun apply_record :: "journal_state \<Rightarrow> journal_record \<Rightarrow> (journal_state, journal_error) result" where
  "apply_record st (Vote payload) = Ok (st\<lparr>js_vote := Some payload\<rparr>)"
| "apply_record st (Committed_at payload) = Ok (st\<lparr>js_committed := payload\<rparr>)"
| "apply_record st (Append index payload) =
     try_bind (validate_append st [(index, payload)])
       (\<lambda>_. Ok (st\<lparr>js_entries := bt_insert index payload (js_entries st)\<rparr>))"
| "apply_record st (Truncate from_index) =
     (let removed = map fst (filter (\<lambda>(index, _). from_index \<le> index) (js_entries st));
          cut = Ok (st\<lparr>js_entries := fold bt_remove removed (js_entries st)\<rparr>)
      in case js_last_purged st of
        Some purged \<Rightarrow>
          if from_index \<le> jm_index purged then Err (TruncatePurged from_index (jm_index purged)) else cut
      | None \<Rightarrow> cut)"
| "apply_record st (Purge marker) =
     (let removed = map fst (filter (\<lambda>(index, _). index \<le> jm_index marker) (js_entries st));
          cut = Ok (st\<lparr>js_entries := fold bt_remove removed (js_entries st), js_last_purged := Some marker\<rparr>)
      in case js_last_purged st of
        Some current \<Rightarrow>
          if jm_index marker < jm_index current then Err (PurgeRegression (jm_index current) (jm_index marker))
          else if jm_index marker = jm_index current \<and> jm_payload marker \<noteq> jm_payload current
          then Err (InvalidRecord ''purge marker changed at the same index'')
          else cut
      | None \<Rightarrow> cut)"

fun apply_records :: "journal_state \<Rightarrow> journal_record list \<Rightarrow> (journal_state, journal_error) result" where
  "apply_records st [] = Ok st"
| "apply_records st (r # rs) = try_bind (apply_record st r) (\<lambda>st'. apply_records st' rs)"

section \<open>Frames\<close>

fun record_parts :: "journal_record \<Rightarrow> u8 \<times> u8 \<times> bytes" where
  "record_parts (Vote payload) = (KIND_VOTE, FLAG_SOME, payload)"
| "record_parts (Committed_at (Some payload)) = (KIND_COMMITTED, FLAG_SOME, payload)"
| "record_parts (Committed_at None) = (KIND_COMMITTED, FLAG_NONE, [])"
| "record_parts (Append index payload) = (KIND_APPEND, FLAG_NONE, u64_be index @ payload)"
| "record_parts (Truncate from_index) = (KIND_TRUNCATE, FLAG_NONE, u64_be from_index)"
| "record_parts (Purge marker) = (KIND_PURGE, FLAG_NONE, u64_be (jm_index marker) @ jm_payload marker)"

text \<open>The bytes of a frame before its checksum.\<close>

definition frame_prefix :: "u8 \<Rightarrow> u8 \<Rightarrow> bytes \<Rightarrow> bytes" where
  "frame_prefix kind flags body =
     JOURNAL_MAGIC @ u16_be JOURNAL_VERSION @ [kind] @ [flags] @ u32_be (word_of_nat (length body)) @ body"

definition encode_record :: "(bytes \<Rightarrow> bytes) \<Rightarrow> journal_record \<Rightarrow> (bytes, journal_error) result" where
  "encode_record sha r =
     (case record_parts r of (kind, flags, body) \<Rightarrow>
        if length body > MAX_RECORD_BODY_BYTES \<or> \<not> length body < 2 ^ 32 then Err (PayloadTooLarge (length body))
        else Ok (frame_prefix kind flags body @ sha (frame_prefix kind flags body)))"

definition decode_record :: "u8 \<Rightarrow> u8 \<Rightarrow> bytes \<Rightarrow> journal_record option" where
  "decode_record kind flags body =
     (if kind = KIND_VOTE \<and> flags = FLAG_SOME \<and> body \<noteq> [] then Some (Vote body)
      else if kind = KIND_COMMITTED \<and> flags = FLAG_NONE \<and> body = [] then Some (Committed_at None)
      else if kind = KIND_COMMITTED \<and> flags = FLAG_SOME \<and> body \<noteq> [] then Some (Committed_at (Some body))
      else if kind = KIND_APPEND \<and> flags = FLAG_NONE \<and> length body \<ge> 8
      then Some (Append (u64_of_be (take 8 body)) (drop 8 body))
      else if kind = KIND_TRUNCATE \<and> flags = FLAG_NONE \<and> length body = 8 then Some (Truncate (u64_of_be body))
      else if kind = KIND_PURGE \<and> flags = FLAG_NONE \<and> length body > 8
      then Some (Purge \<lparr>jm_index = u64_of_be (take 8 body), jm_payload = drop 8 body\<rparr>)
      else None)"

section \<open>Replay\<close>

text \<open>
  The loop of \<open>replay\<close>, on the unread bytes \<open>bytes[offset..]\<close>: the state so far, the valid
  length and whether a torn tail was found.
\<close>

function replay_loop ::
  "(bytes \<Rightarrow> bytes) \<Rightarrow> journal_state \<Rightarrow> nat \<Rightarrow> bytes \<Rightarrow> (journal_state \<times> nat \<times> bool, journal_error) result" where
  "replay_loop sha st offset bs =
     (if bs = [] then Ok (st, offset, False)
      else if length bs < JOURNAL_HEADER_BYTES then Ok (st, offset, True)
      else
        let header = take JOURNAL_HEADER_BYTES bs in
        if take 4 header \<noteq> JOURNAL_MAGIC \<or> u16_of_be (take 2 (drop 4 header)) \<noteq> JOURNAL_VERSION
        then Err (CorruptFrame (to_u64 offset))
        else
          let body_len = unat (u32_of_be (take 4 (drop 8 header))) in
          if body_len > MAX_RECORD_BODY_BYTES then Err (CorruptFrame (to_u64 offset))
          else
            let frame_len = JOURNAL_HEADER_BYTES + body_len + JOURNAL_CHECKSUM_BYTES in
            if length bs < frame_len then Ok (st, offset, True)
            else
              let frame = take frame_len bs;
                  checksum_offset = frame_len - JOURNAL_CHECKSUM_BYTES in
              if sha (take checksum_offset frame) \<noteq> drop checksum_offset frame
              then Err (CorruptFrame (to_u64 offset))
              else
                case decode_record (header ! 6) (header ! 7) (drop JOURNAL_HEADER_BYTES (take checksum_offset frame)) of
                  None \<Rightarrow> Err (CorruptFrame (to_u64 offset))
                | Some record \<Rightarrow>
                   (case apply_record st record of
                      Err e \<Rightarrow> Err e
                    | Ok st' \<Rightarrow> replay_loop sha st' (offset + frame_len) (drop frame_len bs)))"
  by pat_completeness auto
termination
  by (relation "measure (\<lambda>(_, _, _, bs). length bs)") (auto simp: JOURNAL_HEADER_BYTES_def)

definition replay :: "(bytes \<Rightarrow> bytes) \<Rightarrow> bytes \<Rightarrow> (journal_state \<times> nat \<times> bool, journal_error) result" where
  "replay sha bs = replay_loop sha journal_state_default 0 bs"

section \<open>The journal\<close>

record node_journal =
  nj_file :: bytes
  nj_state :: journal_state
  nj_recovered_torn_tail :: bool

text \<open>The content found on disk, if the file exists; a new file is empty.\<close>

definition journal_open :: "(bytes \<Rightarrow> bytes) \<Rightarrow> bytes option \<Rightarrow> (node_journal, journal_error) result" where
  "journal_open sha disk =
     (let bs = (case disk of None \<Rightarrow> [] | Some content \<Rightarrow> content)
      in try_bind (replay sha bs) (\<lambda>(st, valid_bytes, torn).
           Ok \<lparr>nj_file = (if torn then take valid_bytes bs else bs), nj_state = st, nj_recovered_torn_tail = torn\<rparr>))"

fun encode_records :: "(bytes \<Rightarrow> bytes) \<Rightarrow> journal_record list \<Rightarrow> (bytes list, journal_error) result" where
  "encode_records sha [] = Ok []"
| "encode_records sha (r # rs) =
     try_bind (encode_record sha r) (\<lambda>f. try_bind (encode_records sha rs) (\<lambda>fs. Ok (f # fs)))"

definition persist_batch ::
  "(bytes \<Rightarrow> bytes) \<Rightarrow> write_outcome \<Rightarrow> journal_record list \<Rightarrow> node_journal \<Rightarrow> (unit, journal_error) result \<times> node_journal" where
  "persist_batch sha w records j =
     (case apply_records (nj_state j) records of
        Err e \<Rightarrow> (Err e, j)
      | Ok next_state \<Rightarrow>
         (case encode_records sha records of
            Err e \<Rightarrow> (Err e, j)
          | Ok frames \<Rightarrow>
             (case w of
                FailedAfter n \<Rightarrow> (Err JournalIo, j\<lparr>nj_file := nj_file j @ take n (concat frames)\<rparr>)
              | Synced \<Rightarrow>
                  (Ok (), j\<lparr>nj_file := nj_file j @ concat frames, nj_state := next_state,
                     nj_recovered_torn_tail := False\<rparr>))))"

definition persist ::
  "(bytes \<Rightarrow> bytes) \<Rightarrow> write_outcome \<Rightarrow> journal_record \<Rightarrow> node_journal \<Rightarrow> (unit, journal_error) result \<times> node_journal" where
  "persist sha w r j = persist_batch sha w [r] j"

definition save_vote where
  "save_vote sha w payload j = persist sha w (Vote payload) j"

definition save_committed where
  "save_committed sha w payload j = persist sha w (Committed_at payload) j"

definition journal_truncate where
  "journal_truncate sha w from_index j = persist sha w (Truncate from_index) j"

definition journal_purge where
  "journal_purge sha w marker j = persist sha w (Purge marker) j"

fun check_consecutive :: "u64 \<Rightarrow> (u64 \<times> bytes) list \<Rightarrow> (unit, journal_error) result" where
  "check_consecutive expected [] = Ok ()"
| "check_consecutive expected ((index, payload) # entries) =
     (if index \<noteq> expected then Err (NonConsecutive expected index)
      else if length payload + 8 > MAX_RECORD_BODY_BYTES then Err (PayloadTooLarge (length payload))
      else check_consecutive (saturating_add expected 1) entries)"

text \<open>
  \<open>plan_append\<close>. \<open>partition_point\<close> is specified for batches whose purged indices come first,
  which every batch in index order is.
\<close>

definition plan_append ::
  "journal_state \<Rightarrow> (u64 \<times> bytes) list \<Rightarrow> (journal_record list, journal_error) result" where
  "plan_append st batch =
     (let entries = (case js_last_purged st of
          Some purged \<Rightarrow> dropWhile (\<lambda>(index, _). index \<le> jm_index purged) batch
        | None \<Rightarrow> batch)
      in case entries of
        [] \<Rightarrow> Ok []
      | (first, _) # _ \<Rightarrow>
          try_bind (check_consecutive first entries) (\<lambda>_.
          try_bind
            (case last_entry st of
               Some (last_index, _) \<Rightarrow>
                 if first \<le> last_index then Ok [Truncate first]
                 else let wanted = saturating_add last_index 1
                      in if first \<noteq> wanted then Err (NonConsecutive wanted first) else Ok []
             | None \<Rightarrow>
                (case js_last_purged st of
                   Some purged \<Rightarrow>
                     let wanted = saturating_add (jm_index purged) 1
                     in if first \<noteq> wanted then Err (NonConsecutive wanted first) else Ok []
                 | None \<Rightarrow> Ok []))
            (\<lambda>records. Ok (records @ map (\<lambda>(index, payload). Append index payload) entries))))"

definition journal_append ::
  "(bytes \<Rightarrow> bytes) \<Rightarrow> write_outcome \<Rightarrow> (u64 \<times> bytes) list \<Rightarrow> node_journal \<Rightarrow> (unit, journal_error) result \<times> node_journal" where
  "journal_append sha w entries j =
     (if entries = [] then (Ok (), j)
      else case plan_append (nj_state j) entries of
        Err e \<Rightarrow> (Err e, j)
      | Ok records \<Rightarrow> persist_batch sha w records j)"
end
