(* ===== verification/Journal_Recovery.thy ===== *)
theory Journal_Recovery
  imports Node_Journal
begin

text \<open>
  Recovery of the node journal: the frame format satisfies the interface \<open>framed_log\<close>, so
  reopening the journal after any run of operations rebuilds the state, and reopening it after
  a crash that cut the file anywhere rebuilds the state after some prefix of the records, with
  everything synchronised before still there. Also the shape of the entry log, the conflict
  resolution of appends, and two ways to make a journal unreadable.
\<close>

declare replay_loop.simps [simp del]

section \<open>The frame format\<close>

fun nonempty_payload :: "journal_record \<Rightarrow> bool" where
  "nonempty_payload (Vote payload) \<longleftrightarrow> payload \<noteq> []"
| "nonempty_payload (Committed_at (Some payload)) \<longleftrightarrow> payload \<noteq> []"
| "nonempty_payload (Purge marker) \<longleftrightarrow> jm_payload marker \<noteq> []"
| "nonempty_payload _ \<longleftrightarrow> True"

definition body_fits :: "journal_record \<Rightarrow> bool" where
  "body_fits r \<longleftrightarrow> length (snd (snd (record_parts r))) \<le> MAX_RECORD_BODY_BYTES"

definition journal_frame :: "(bytes \<Rightarrow> bytes) \<Rightarrow> journal_record \<Rightarrow> bytes" where
  "journal_frame sha r =
     (case record_parts r of (kind, flags, body) \<Rightarrow> frame_prefix kind flags body @ sha (frame_prefix kind flags body))"

definition journal_parse :: "(bytes \<Rightarrow> bytes) \<Rightarrow> bytes \<Rightarrow> (journal_record, unit) parsed" where
  "journal_parse sha bs =
     (if length bs < 12 then Short
      else if take 4 bs \<noteq> JOURNAL_MAGIC \<or> u16_of_be (take 2 (drop 4 bs)) \<noteq> JOURNAL_VERSION then Damaged ()
      else
        let body_len = unat (u32_of_be (take 4 (drop 8 bs))) in
        if body_len > MAX_RECORD_BODY_BYTES then Damaged ()
        else if length bs < 44 + body_len then Short
        else if sha (take (12 + body_len) bs) \<noteq> take 32 (drop (12 + body_len) bs) then Damaged ()
        else case decode_record (bs ! 6) (bs ! 7) (take body_len (drop 12 bs)) of None \<Rightarrow> Damaged () | Some r \<Rightarrow> Whole r)"

lemma encode_record_Ok_iff:
  "encode_record sha r = Ok f \<longleftrightarrow> body_fits r \<and> f = journal_frame sha r"
  by (auto simp: encode_record_def body_fits_def journal_frame_def MAX_RECORD_BODY_BYTES_def split: prod.splits)

lemma encode_records_Ok_iff:
  "encode_records sha rs = Ok fs \<longleftrightarrow> list_all body_fits rs \<and> fs = map (journal_frame sha) rs"
  by (induction rs arbitrary: fs) (auto simp: try_bind_Ok_iff encode_record_Ok_iff)

lemma decode_record_parts:
  "nonempty_payload r \<Longrightarrow> record_parts r = (kind, flags, body) \<Longrightarrow> decode_record kind flags body = Some r"
  by (cases r rule: record_parts.cases)
     (auto simp: decode_record_def KIND_VOTE_def KIND_COMMITTED_def KIND_APPEND_def KIND_TRUNCATE_def
       KIND_PURGE_def FLAG_NONE_def FLAG_SOME_def)

lemma frame_prefix_fields:
  assumes "length body \<le> MAX_RECORD_BODY_BYTES"
  shows "length (frame_prefix kind flags body) = 12 + length body"
    and "take 4 (frame_prefix kind flags body @ r) = JOURNAL_MAGIC"
    and "u16_of_be (take 2 (drop 4 (frame_prefix kind flags body @ r))) = JOURNAL_VERSION"
    and "(frame_prefix kind flags body @ r) ! 6 = kind" and "(frame_prefix kind flags body @ r) ! 7 = flags"
    and "unat (u32_of_be (take 4 (drop 8 (frame_prefix kind flags body @ r)))) = length body"
    and "drop 12 (frame_prefix kind flags body @ r) = body @ r"
proof -
  have magic: "length JOURNAL_MAGIC = 4" by (simp add: JOURNAL_MAGIC_def ascii_def)
  obtain m0 m1 m2 m3 where m: "JOURNAL_MAGIC = [m0, m1, m2, m3]"
    using magic by (rule length_4E)
  obtain v0 v1 where v: "u16_be JOURNAL_VERSION = [v0, v1]"
    by (rule length_2E[OF length_u_be(1)])
  obtain l0 l1 l2 l3 where l: "u32_be (word_of_nat (length body)) = [l0, l1, l2, l3]"
    by (rule length_4E[OF length_u_be(2)])
  have len: "unat (word_of_nat (length body) :: u32) = length body"
    using assms by (simp add: unsigned_of_nat take_bit_eq_mod MAX_RECORD_BODY_BYTES_def)
  note expand = frame_prefix_def m v l
  show "length (frame_prefix kind flags body) = 12 + length body"
    "take 4 (frame_prefix kind flags body @ r) = JOURNAL_MAGIC"
    "(frame_prefix kind flags body @ r) ! 6 = kind" "(frame_prefix kind flags body @ r) ! 7 = flags"
    "drop 12 (frame_prefix kind flags body @ r) = body @ r"
    by (simp_all add: expand)
  have "take 2 (drop 4 (frame_prefix kind flags body @ r)) = u16_be JOURNAL_VERSION" by (simp add: expand)
  then show "u16_of_be (take 2 (drop 4 (frame_prefix kind flags body @ r))) = JOURNAL_VERSION" by simp
  have "take 4 (drop 8 (frame_prefix kind flags body @ r)) = u32_be (word_of_nat (length body))" by (simp add: expand)
  with len show "unat (u32_of_be (take 4 (drop 8 (frame_prefix kind flags body @ r)))) = length body" by simp
qed

lemma journal_frame_decomp:
  assumes "digest32 sha" and "body_fits r" and "record_parts r = (kind, flags, body)"
  shows "journal_frame sha r = frame_prefix kind flags body @ sha (frame_prefix kind flags body)"
    and "length (journal_frame sha r) = 44 + length body" and "length body \<le> MAX_RECORD_BODY_BYTES"
proof -
  show fits: "length body \<le> MAX_RECORD_BODY_BYTES" using assms by (simp add: body_fits_def)
  show "journal_frame sha r = frame_prefix kind flags body @ sha (frame_prefix kind flags body)"
    using assms(3) by (simp add: journal_frame_def)
  then show "length (journal_frame sha r) = 44 + length body"
    using assms(1) frame_prefix_fields(1)[OF fits] by (simp add: digest32_def)
qed

lemma journal_parse_frame:
  assumes "digest32 sha" and "body_fits r" and "nonempty_payload r"
  shows "journal_parse sha (journal_frame sha r @ rest) = Whole r"
proof -
  obtain kind flags body where parts: "record_parts r = (kind, flags, body)" by (cases "record_parts r")
  note frame = journal_frame_decomp[OF assms(1,2) parts]
  let ?p = "frame_prefix kind flags body"
  note fields = frame_prefix_fields[OF frame(3), of kind flags]
  have sha: "length (sha ?p) = 32" using assms(1) by (simp add: digest32_def)
  have "take (12 + length body) (?p @ sha ?p @ rest) = ?p" "drop (12 + length body) (?p @ sha ?p @ rest) = sha ?p @ rest"
    using fields(1) by simp_all
  then show ?thesis
    using frame fields sha decode_record_parts[OF assms(3) parts]
    by (simp add: journal_parse_def Let_def not_less)
qed

lemma journal_parse_torn:
  assumes "digest32 sha" and "body_fits r" and "strict_prefix part (journal_frame sha r)"
  shows "journal_parse sha part = Short"
proof (cases "length part < 12")
  case True
  then show ?thesis by (simp add: journal_parse_def)
next
  case False
  obtain kind flags body where parts: "record_parts r = (kind, flags, body)" by (cases "record_parts r")
  note frame = journal_frame_decomp[OF assms(1,2) parts]
  let ?p = "frame_prefix kind flags body"
  note fields = frame_prefix_fields[OF frame(3), of kind flags]
  have pre: "take 12 part = take 12 (?p @ sha ?p)"
    using strict_prefix_take[OF assms(3), of 12] False frame(1) by simp
  have at: "take m (drop k part) = take m (drop k (?p @ sha ?p))" if "k + m \<le> 12" for k m
  proof -
    have "take m (drop k xs) = take m (drop k (take 12 xs))" for xs :: bytes
      using that by (simp add: drop_take min_def)
    then show ?thesis by (metis pre)
  qed
  have "length part < 44 + length body"
    using strict_prefix_shorter[OF assms(3)] frame(2) by simp
  then show ?thesis
    using False fields at[of 0 4] at[of 4 2] at[of 8 4] frame(3)
    by (simp add: journal_parse_def Let_def)
qed

interpretation journal: framed_log "\<lambda>r. digest32 sha \<and> body_fits r \<and> nonempty_payload r" "journal_frame sha" "journal_parse sha" for sha
proof
  fix r :: journal_record and rest part
  show "journal_frame sha r \<noteq> []"
    by (cases "record_parts r") (simp add: journal_frame_def frame_prefix_def)
  show "digest32 sha \<and> body_fits r \<and> nonempty_payload r \<Longrightarrow> journal_parse sha (journal_frame sha r @ rest) = Whole r"
    by (simp add: journal_parse_frame)
  show "digest32 sha \<and> body_fits r \<and> nonempty_payload r \<Longrightarrow> part \<noteq> [] \<Longrightarrow> strict_prefix part (journal_frame sha r) \<Longrightarrow>
      journal_parse sha part = Short"
    by (blast intro: journal_parse_torn)
qed

section \<open>Replay\<close>

lemma replay_loop_Nil [simp]: "replay_loop sha st offset [] = Ok (st, offset, False)"
  by (simp add: replay_loop.simps)

lemma take_drop_header:
  "12 \<le> length bs \<Longrightarrow> k + m \<le> 12 \<Longrightarrow> take m (drop k (take 12 bs)) = take m (drop k bs)" for bs :: bytes
  by (simp add: drop_take min_def)

text \<open>The loop in terms of the parser.\<close>

lemma replay_loop_parse:
  assumes "bs \<noteq> []"
  defines "n \<equiv> 44 + unat (u32_of_be (take 4 (drop 8 bs)))"
  shows "replay_loop sha st offset bs =
    (case journal_parse sha bs of
       Short \<Rightarrow> Ok (st, offset, True)
     | Damaged _ \<Rightarrow> Err (CorruptFrame (to_u64 offset))
     | Whole r \<Rightarrow> try_bind (apply_record st r) (\<lambda>st'. replay_loop sha st' (offset + n) (drop n bs)))"
proof (cases "length bs < 12")
  case True
  then show ?thesis
    using assms(1) by (subst replay_loop.simps) (simp add: journal_parse_def JOURNAL_HEADER_BYTES_def)
next
  case False
  then have h: "take 4 (take 12 bs) = take 4 bs" "take 2 (drop 4 (take 12 bs)) = take 2 (drop 4 bs)"
    "take 4 (drop 8 (take 12 bs)) = take 4 (drop 8 bs)" "take 12 bs ! 6 = bs ! 6" "take 12 bs ! 7 = bs ! 7"
    using take_drop_header[of bs 0 4] take_drop_header[of bs 4 2] take_drop_header[of bs 8 4] by simp_all
  define l where "l = unat (u32_of_be (take 4 (drop 8 bs)))"
  have body: "drop 12 (take (12 + l) bs) = take l (drop 12 bs)"
    "take (12 + l) (take (44 + l) bs) = take (12 + l) bs"
    "drop (12 + l) (take (44 + l) bs) = take 32 (drop (12 + l) bs)"
    by (simp_all add: drop_take)
  have sizes: "12 + l + 32 = 44 + l" "44 + l - 32 = 12 + l" "JOURNAL_HEADER_BYTES = 12" "JOURNAL_CHECKSUM_BYTES = 32"
    by (simp_all add: JOURNAL_HEADER_BYTES_def JOURNAL_CHECKSUM_BYTES_def)
  from False have "\<not> length bs < 12" by simp
  with assms(1) show ?thesis
    unfolding n_def journal_parse_def
    by (subst replay_loop.simps, simp only: sizes Let_def h l_def[symmetric] body)
       (simp add: body try_bind.simps split: result.split option.split)
qed

lemma replay_loop_frame:
  assumes "digest32 sha" and "body_fits r" and "nonempty_payload r"
  shows "replay_loop sha st offset (journal_frame sha r @ rest) =
    try_bind (apply_record st r) (\<lambda>st'. replay_loop sha st' (offset + length (journal_frame sha r)) rest)"
proof -
  obtain kind flags body where parts: "record_parts r = (kind, flags, body)" by (cases "record_parts r")
  note frame = journal_frame_decomp[OF assms(1,2) parts]
  have len: "44 + unat (u32_of_be (take 4 (drop 8 (journal_frame sha r @ rest)))) = length (journal_frame sha r)"
    using frame frame_prefix_fields(6)[OF frame(3), of kind flags "sha (frame_prefix kind flags body) @ rest"] by simp
  have ne: "journal_frame sha r @ rest \<noteq> []" using journal.frame_nonempty[of sha r] by simp
  show ?thesis
    unfolding replay_loop_parse[OF ne] len journal_parse_frame[OF assms] by simp
qed

lemma replay_frames:
  assumes "digest32 sha" and "part = [] \<or> journal_parse sha part = Short"
  shows "list_all body_fits rs \<Longrightarrow> list_all nonempty_payload rs \<Longrightarrow>
    replay_loop sha st offset (frames_of (journal_frame sha) rs @ part) =
      try_bind (apply_records st rs) (\<lambda>st'. Ok (st', offset + length (frames_of (journal_frame sha) rs), part \<noteq> []))"
proof (induction rs arbitrary: st offset)
  case Nil
  then show ?case using assms(2) replay_loop_parse[of part] by (cases "part = []") auto
next
  case (Cons r rs)
  then show ?case
    by (cases "apply_record st r") (simp_all add: replay_loop_frame[OF assms(1)] add.assoc)
qed

lemma replay_past_frames:
  assumes "digest32 sha" and "list_all body_fits rs" "list_all nonempty_payload rs" and "apply_records st rs = Ok st'"
  shows "replay_loop sha st offset (frames_of (journal_frame sha) rs @ rest) =
    replay_loop sha st' (offset + length (frames_of (journal_frame sha) rs)) rest"
  using assms(2-)
proof (induction rs arbitrary: st offset)
  case (Cons r rs)
  then show ?case
    by (cases "apply_record st r") (simp_all add: replay_loop_frame[OF assms(1)] add.assoc)
qed simp

section \<open>Operations\<close>

text \<open>The state-changing operations of a journal as events, and the records each one plans.\<close>

datatype journal_event =
    SaveVote bytes
  | SaveCommitted "bytes option"
  | AppendEntries "(u64 \<times> bytes) list"
  | TruncateFrom u64
  | PurgeThrough journal_marker

fun journal_op :: "(bytes \<Rightarrow> bytes) \<Rightarrow> write_outcome \<Rightarrow> journal_event \<Rightarrow> node_journal \<Rightarrow> (unit, journal_error) result \<times> node_journal" where
  "journal_op sha w (SaveVote payload) j = save_vote sha w payload j"
| "journal_op sha w (SaveCommitted payload) j = save_committed sha w payload j"
| "journal_op sha w (AppendEntries entries) j = journal_append sha w entries j"
| "journal_op sha w (TruncateFrom from_index) j = journal_truncate sha w from_index j"
| "journal_op sha w (PurgeThrough marker) j = journal_purge sha w marker j"

fun planned :: "journal_state \<Rightarrow> journal_event \<Rightarrow> (journal_record list, journal_error) result" where
  "planned st (SaveVote payload) = Ok [Vote payload]"
| "planned st (SaveCommitted payload) = Ok [Committed_at payload]"
| "planned st (AppendEntries entries) = (if entries = [] then Ok [] else plan_append st entries)"
| "planned st (TruncateFrom from_index) = Ok [Truncate from_index]"
| "planned st (PurgeThrough marker) = Ok [Purge marker]"

text \<open>Votes, committed positions and purge markers of a consensus adapter are never empty.\<close>

fun event_ok :: "journal_event \<Rightarrow> bool" where
  "event_ok (SaveVote payload) \<longleftrightarrow> payload \<noteq> []"
| "event_ok (SaveCommitted (Some payload)) \<longleftrightarrow> payload \<noteq> []"
| "event_ok (PurgeThrough marker) \<longleftrightarrow> jm_payload marker \<noteq> []"
| "event_ok _ \<longleftrightarrow> True"

lemma journal_op_planned:
  "journal_op sha w e j = (case planned (nj_state j) e of Err er \<Rightarrow> (Err er, j) | Ok rs \<Rightarrow> persist_batch sha w rs j) \<or>
     e = AppendEntries [] \<and> journal_op sha w e j = (Ok (), j)"
  by (cases e) (auto simp: save_vote_def save_committed_def journal_truncate_def journal_purge_def persist_def
      journal_append_def split: result.split)

text \<open>The part of a batch above the purged prefix, and what is cut before it is appended.\<close>

definition live_entries :: "journal_state \<Rightarrow> (u64 \<times> bytes) list \<Rightarrow> (u64 \<times> bytes) list" where
  "live_entries st batch = (case js_last_purged st of
     Some purged \<Rightarrow> dropWhile (\<lambda>(index, _). index \<le> jm_index purged) batch | None \<Rightarrow> batch)"

definition cut_records :: "journal_state \<Rightarrow> u64 \<Rightarrow> journal_record list" where
  "cut_records st first = (case last_entry st of
     Some (l, _) \<Rightarrow> if first \<le> l then [Truncate first] else [] | None \<Rightarrow> [])"

abbreviation append_records :: "(u64 \<times> bytes) list \<Rightarrow> journal_record list" where
  "append_records es \<equiv> map (\<lambda>(index, payload). Append index payload) es"

lemma plan_append_Ok:
  assumes "plan_append st batch = Ok rs" and "live_entries st batch \<noteq> []"
  defines "first \<equiv> fst (hd (live_entries st batch))"
  shows "rs = cut_records st first @ append_records (live_entries st batch)"
    and "last_entry st = Some (l, p) \<Longrightarrow> first \<le> l \<or> first = saturating_add l 1"
proof -
  obtain f q es where live: "live_entries st batch = (f, q) # es" using assms(2) by (metis neq_Nil_conv surj_pair)
  have "first = f" by (simp add: first_def live)
  have plan: "plan_append st batch = (case live_entries st batch of [] \<Rightarrow> Ok [] | (first, _) # _ \<Rightarrow>
      try_bind (check_consecutive first (live_entries st batch)) (\<lambda>_. try_bind
            (case last_entry st of
               Some (last_index, _) \<Rightarrow>
                 if first \<le> last_index then Ok [Truncate first]
                 else let wanted = saturating_add last_index 1
                      in if first \<noteq> wanted then Err (NonConsecutive wanted first) else Ok []
             | None \<Rightarrow>
                (case js_last_purged st of
                   Some purged \<Rightarrow>
                     let wanted = saturating_add (jm_index purged) 1
                     in if first \<noteq> wanted then Err (NonConsecutive wanted first) else Ok []
                 | None \<Rightarrow> Ok []))
            (\<lambda>records. Ok (records @ append_records (live_entries st batch)))))"
    by (simp only: plan_append_def live_entries_def Let_def)
  show "rs = cut_records st first @ append_records (live_entries st batch)"
    using assms(1) unfolding plan live \<open>first = f\<close> cut_records_def
    by (auto simp: try_bind_Ok_iff Let_def split: option.splits if_splits)
  show "first \<le> l \<or> first = saturating_add l 1" if "last_entry st = Some (l, p)"
    using assms(1) that unfolding plan live \<open>first = f\<close>
    by (auto simp: try_bind_Ok_iff Let_def split: if_splits)
qed

lemma plan_append_live_Nil: "live_entries st batch = [] \<Longrightarrow> plan_append st batch = Ok []"
  by (simp add: plan_append_def live_entries_def Let_def split: option.splits)

lemma plan_append_nonempty:
  assumes "plan_append st batch = Ok rs"
  shows "list_all nonempty_payload rs"
proof (cases "live_entries st batch = []")
  case True
  with assms show ?thesis by (simp add: plan_append_live_Nil)
next
  case False
  have "list_all nonempty_payload (append_records es)" for es
    by (induction es) auto
  with plan_append_Ok(1)[OF assms False] show ?thesis
    by (auto simp: cut_records_def split: option.splits)
qed

lemma planned_nonempty: "event_ok e \<Longrightarrow> planned st e = Ok rs \<Longrightarrow> list_all nonempty_payload rs"
  by (cases e rule: event_ok.cases) (auto split: if_splits dest: plan_append_nonempty)

lemma apply_records_append:
  "apply_records st (xs @ ys) = try_bind (apply_records st xs) (\<lambda>st'. apply_records st' ys)"
proof (induction xs arbitrary: st)
  case (Cons x xs)
  then show ?case by (cases "apply_record st x") simp_all
qed simp

lemma apply_records_take:
  assumes "apply_records st rs = Ok st'"
  obtains st1 where "apply_records st (take k rs) = Ok st1"
proof -
  have "apply_records st (take k rs @ drop k rs) = Ok st'" using assms by simp
  then show ?thesis using that by (auto simp only: apply_records_append try_bind_Ok_iff)
qed

text \<open>A journal whose file is the frames of records that lead to its state.\<close>

definition journal_ok :: "(bytes \<Rightarrow> bytes) \<Rightarrow> node_journal \<Rightarrow> bool" where
  "journal_ok sha j \<longleftrightarrow> (\<exists>rs. list_all body_fits rs \<and> list_all nonempty_payload rs \<and>
     apply_records journal_state_default rs = Ok (nj_state j) \<and> nj_file j = frames_of (journal_frame sha) rs)"

lemma persist_batch_cases [consumes 1, case_names synced failed refused]:
  assumes "persist_batch sha w rs j = (res, j')"
  obtains st where "w = Synced" and "res = Ok ()" and "list_all body_fits rs" and "apply_records (nj_state j) rs = Ok st"
      and "j' = \<lparr>nj_file = nj_file j @ frames_of (journal_frame sha) rs, nj_state = st, nj_recovered_torn_tail = False\<rparr>"
    | n st where "w = FailedAfter n" and "res = Err JournalIo" and "list_all body_fits rs" and "apply_records (nj_state j) rs = Ok st"
      and "j' = j\<lparr>nj_file := nj_file j @ take n (frames_of (journal_frame sha) rs)\<rparr>"
    | e where "res = Err e" and "j' = j"
  using assms
  by (cases "apply_records (nj_state j) rs"; cases "encode_records sha rs"; cases w)
     (auto simp: persist_batch_def encode_records_Ok_iff)

lemma journal_ok_extend:
  assumes "journal_ok sha j" and "list_all body_fits rs" "list_all nonempty_payload rs"
    and "apply_records (nj_state j) rs = Ok st"
  shows "journal_ok sha \<lparr>nj_file = nj_file j @ frames_of (journal_frame sha) rs, nj_state = st, nj_recovered_torn_tail = b\<rparr>"
proof -
  from assms(1) obtain qs where "list_all body_fits qs" "list_all nonempty_payload qs"
    "apply_records journal_state_default qs = Ok (nj_state j)" "nj_file j = frames_of (journal_frame sha) qs"
    by (auto simp: journal_ok_def)
  with assms(2-4) show ?thesis
    by (auto simp: journal_ok_def apply_records_append intro!: exI[of _ "qs @ rs"])
qed

text \<open>Opening an intact journal, possibly with a torn tail behind it.\<close>

lemma open_ok:
  assumes "digest32 sha" and "journal_ok sha j" and "part = [] \<or> journal_parse sha part = Short"
  shows "journal_open sha (Some (nj_file j @ part)) = Ok (j\<lparr>nj_recovered_torn_tail := (part \<noteq> [])\<rparr>)"
proof -
  from assms(2) obtain rs where "list_all body_fits rs" "list_all nonempty_payload rs"
    "apply_records journal_state_default rs = Ok (nj_state j)" "nj_file j = frames_of (journal_frame sha) rs"
    by (auto simp: journal_ok_def)
  with replay_frames[OF assms(1,3), of rs journal_state_default 0] show ?thesis
    by (auto simp: journal_open_def replay_def Let_def)
qed

definition journal_step :: "(bytes \<Rightarrow> bytes) \<Rightarrow> journal_event \<Rightarrow> node_journal \<Rightarrow> node_journal" where
  "journal_step sha e j = snd (journal_op sha Synced e j)"

definition journal_new :: node_journal where
  "journal_new = \<lparr>nj_file = [], nj_state = journal_state_default, nj_recovered_torn_tail = False\<rparr>"

text \<open>What one operation does to an intact journal, whatever becomes of its write.\<close>

lemma journal_op_cases [consumes 3, case_names synced failed kept]:
  assumes "journal_op sha w e j = (res, j')" and "journal_ok sha j" and "event_ok e"
  obtains rs st where "w = Synced" and "planned (nj_state j) e = Ok rs" and "res = Ok ()" and "list_all body_fits rs"
      and "list_all nonempty_payload rs" and "apply_records (nj_state j) rs = Ok st"
      and "j' = \<lparr>nj_file = nj_file j @ frames_of (journal_frame sha) rs, nj_state = st, nj_recovered_torn_tail = False\<rparr>"
    | n rs st where "w = FailedAfter n" and "planned (nj_state j) e = Ok rs" and "res = Err JournalIo" and "list_all body_fits rs"
      and "list_all nonempty_payload rs" and "apply_records (nj_state j) rs = Ok st"
      and "j' = j\<lparr>nj_file := nj_file j @ take n (frames_of (journal_frame sha) rs)\<rparr>"
    | "j' = j"
proof (cases "planned (nj_state j) e")
  case (Ok rs)
  from journal_op_planned[of sha w e j] assms(1) Ok
  consider "persist_batch sha w rs j = (res, j')" | "j' = j" by auto
  then show ?thesis
  proof cases
    case 1
    then show ?thesis
    proof (cases rule: persist_batch_cases)
      case (synced st)
      then show ?thesis by (rule that(1)[OF _ Ok _ _ planned_nonempty[OF assms(3) Ok]])
    next
      case (failed n st)
      then show ?thesis by (rule that(2)[OF _ Ok _ _ planned_nonempty[OF assms(3) Ok]])
    next
      case (refused er)
      then show ?thesis by (intro that(3))
    qed
  qed (rule that(3))
next
  case (Err er)
  with journal_op_planned[of sha w e j] assms(1) show ?thesis by (auto intro: that(3))
qed

lemma journal_ok_step:
  assumes "journal_ok sha j" and "event_ok e"
  shows "journal_ok sha (journal_step sha e j)"
proof -
  obtain res j' where op: "journal_op sha Synced e j = (res, j')" by (cases "journal_op sha Synced e j")
  then have "journal_ok sha j'"
    using assms by (cases rule: journal_op_cases) (use assms in \<open>simp_all add: journal_ok_extend\<close>)
  with op show ?thesis by (simp add: journal_step_def)
qed

lemma torn_flag_step: "event_ok e \<Longrightarrow> journal_ok sha j \<Longrightarrow> \<not> nj_recovered_torn_tail j \<Longrightarrow> \<not> nj_recovered_torn_tail (journal_step sha e j)"
proof -
  assume ok: "event_ok e" "journal_ok sha j" "\<not> nj_recovered_torn_tail j"
  obtain res j' where op: "journal_op sha Synced e j = (res, j')" by (cases "journal_op sha Synced e j")
  then have "\<not> nj_recovered_torn_tail j'"
    using ok(2,1) by (cases rule: journal_op_cases) (use ok in simp_all)
  with op show ?thesis by (simp add: journal_step_def)
qed

lemma journal_ok_run:
  assumes "list_all event_ok es"
  shows "journal_ok sha (fold (journal_step sha) es journal_new) \<and>
    \<not> nj_recovered_torn_tail (fold (journal_step sha) es journal_new)"
proof -
  have "journal_ok sha j \<and> \<not> nj_recovered_torn_tail j \<Longrightarrow>
      journal_ok sha (fold (journal_step sha) es j) \<and> \<not> nj_recovered_torn_tail (fold (journal_step sha) es j)" for j
    using assms by (induction es arbitrary: j) (auto simp: journal_ok_step torn_flag_step)
  moreover have "journal_ok sha journal_new"
    unfolding journal_ok_def journal_new_def by (intro exI[of _ "[]"]) simp
  ultimately show ?thesis by (simp add: journal_new_def)
qed

section \<open>Properties\<close>

text \<open>Reopening restores the journal exactly: after any run of synchronised operations from a
  new journal (refused operations included), opening the file again yields the same file, the same
  state and no torn tail.\<close>

theorem reopen_restores_journal:
  assumes "digest32 sha" and "list_all event_ok es" and "j = fold (journal_step sha) es journal_new"
  shows "journal_open sha (Some (nj_file j)) = Ok j"
proof -
  have "journal_ok sha j" and torn: "\<not> nj_recovered_torn_tail j"
    using journal_ok_run[OF assms(2)] assms(3) by simp_all
  from open_ok[OF assms(1) this(1), of "[]"] torn show ?thesis by simp
qed

theorem reopen_restores_journal_witness:
  "journal_open demo_sha (Some (nj_file (fold (journal_step demo_sha) [SaveVote [1], AppendEntries [(1, [2]), (2, [3])]] journal_new))) =
     Ok (fold (journal_step demo_sha) [SaveVote [1], AppendEntries [(1, [2]), (2, [3])]] journal_new)"
  by (rule reopen_restores_journal[OF demo_sha_digest32 _ refl]) simp

text \<open>C10. Crash recovery: let an operation be attempted on an intact journal, its write succeed or
  fail anywhere, and the file then be cut at any point behind what was there before. Opening the
  file succeeds and yields an intact journal in the state after some prefix of the records the
  operation planned, with the file trimmed to exactly those frames; if the write was synchronised
  and nothing was cut, it is the state after the whole operation.\<close>

theorem crash_recovers_prefix:
  assumes "digest32 sha" and "journal_ok sha j" and "event_ok e" and "journal_op sha w e j = (res, j')"
    and "length (nj_file j) \<le> n"
  shows "\<exists>rs k st. (rs = [] \<or> planned (nj_state j) e = Ok rs) \<and> apply_records (nj_state j) (take k rs) = Ok st \<and>
    (\<exists>b. journal_open sha (Some (take n (nj_file j'))) =
       Ok \<lparr>nj_file = nj_file j @ frames_of (journal_frame sha) (take k rs), nj_state = st, nj_recovered_torn_tail = b\<rparr>) \<and>
    (res = Ok () \<and> length (nj_file j') \<le> n \<longrightarrow> st = nj_state j')"
proof -
  have cut: "\<exists>k st1 b. apply_records (nj_state j) (take k rs) = Ok st1 \<and>
      journal_open sha (Some (nj_file j @ take m (frames_of (journal_frame sha) rs))) =
        Ok \<lparr>nj_file = nj_file j @ frames_of (journal_frame sha) (take k rs), nj_state = st1, nj_recovered_torn_tail = b\<rparr> \<and>
      (length (frames_of (journal_frame sha) rs) \<le> m \<longrightarrow> st1 = st)"
    if rs: "list_all body_fits rs" "list_all nonempty_payload rs" "apply_records (nj_state j) rs = Ok st" for rs st m
  proof -
    have "list_all (\<lambda>r. digest32 sha \<and> body_fits r \<and> nonempty_payload r) rs"
      using rs(1,2) assms(1) by (auto simp: list_all_iff)
    from journal.cut[OF this, of m] obtain k part where k: "k \<le> length rs"
      "take m (frames_of (journal_frame sha) rs) = frames_of (journal_frame sha) (take k rs) @ part"
      "part = [] \<or> journal_parse sha part = Short"
      "\<forall>i \<le> length rs. length (frames_of (journal_frame sha) (take i rs)) \<le> m \<longrightarrow> i \<le> k" by blast
    from apply_records_take[OF rs(3), of k] obtain st1 where st1: "apply_records (nj_state j) (take k rs) = Ok st1" .
    have fits: "list_all body_fits (take k rs)" "list_all nonempty_payload (take k rs)"
      using rs(1,2) by (auto simp: list_all_iff dest: in_set_takeD)
    have "length (frames_of (journal_frame sha) rs) \<le> m \<longrightarrow> st1 = st"
    proof
      assume "length (frames_of (journal_frame sha) rs) \<le> m"
      then have "length rs \<le> k" using k(4) by simp
      with st1 rs(3) show "st1 = st" by simp
    qed
    with open_ok[OF assms(1) journal_ok_extend[OF assms(2) fits st1] k(3)] st1 k(2) show ?thesis
      by (intro exI[of _ k] exI[of _ st1] exI[of _ "part \<noteq> []"]) simp
  qed
  have old: "\<exists>rs k st. (rs = [] \<or> planned (nj_state j) e = Ok rs) \<and> apply_records (nj_state j) (take k rs) = Ok st \<and>
      (\<exists>b. journal_open sha (Some (nj_file j)) =
         Ok \<lparr>nj_file = nj_file j @ frames_of (journal_frame sha) (take k rs), nj_state = st, nj_recovered_torn_tail = b\<rparr>) \<and>
      st = nj_state j"
    using cut[of "[]" "nj_state j" 0] by (intro exI[of _ "[]"] exI[of _ 0] exI[of _ "nj_state j"]) simp
  show ?thesis
    using assms(4,2,3)
  proof (cases rule: journal_op_cases)
    case (synced rs st)
    from cut[OF synced(4-6), of "n - length (nj_file j)"] synced(2,7) assms(5) show ?thesis
      by (elim exE, rename_tac k st1 b, intro exI[of _ rs] exI, intro conjI) auto
  next
    case (failed i rs st)
    from cut[OF failed(4-6), of "min (n - length (nj_file j)) i"] failed(2,3,7) assms(5) show ?thesis
      by (elim exE, rename_tac k st1 b, intro exI[of _ rs] exI, intro conjI) auto
  next
    case kept
    with old assms(5) show ?thesis by auto
  qed
qed

abbreviation demo_journal :: node_journal where
  "demo_journal \<equiv> fold (journal_step demo_sha) [SaveVote [1]] journal_new"

theorem crash_recovers_prefix_witness:
  "\<exists>rs k st b. apply_records (nj_state demo_journal) (take k rs) = Ok st \<and>
     journal_open demo_sha (Some (take 50 (nj_file (snd (journal_op demo_sha (FailedAfter 20) (SaveVote [2]) demo_journal))))) =
       Ok \<lparr>nj_file = nj_file demo_journal @ frames_of (journal_frame demo_sha) (take k rs), nj_state = st, nj_recovered_torn_tail = b\<rparr>"
proof -
  have ok: "journal_ok demo_sha demo_journal"
    using journal_ok_run[of "[SaveVote [1]]" demo_sha] by simp
  have "length (nj_file demo_journal) \<le> 50"
    by (simp add: journal_step_def save_vote_def persist_def persist_batch_def journal_new_def encode_record_def
        MAX_RECORD_BODY_BYTES_def frame_prefix_def demo_sha_def JOURNAL_MAGIC_def ascii_def)
  from crash_recovers_prefix[OF demo_sha_digest32 ok _ prod.collapse[symmetric] this, of "SaveVote [2]" "FailedAfter 20"]
  show ?thesis by (simp only: event_ok.simps list.distinct) blast
qed

text \<open>An empty vote or an empty committed position poisons the journal: saving it is accepted
  and synchronised, but its frame is one that recovery rejects, so the journal can never be
  opened again.\<close>

theorem empty_payload_poisons_journal:
  assumes "digest32 sha" and "journal_ok sha j" and "e \<in> {SaveVote [], SaveCommitted (Some [])}"
  shows "\<exists>j'. journal_op sha Synced e j = (Ok (), j') \<and>
    journal_open sha (Some (nj_file j')) = Err (CorruptFrame (to_u64 (length (nj_file j))))"
proof -
  define r where "r = (if e = SaveVote [] then Vote [] else Committed_at (Some []))"
  obtain kind where parts: "record_parts r = (kind, FLAG_SOME, [])" "kind = KIND_VOTE \<or> kind = KIND_COMMITTED"
    by (cases "e = SaveVote []") (auto simp: r_def)
  have fits: "body_fits r" by (simp add: body_fits_def parts)
  then have enc: "encode_record sha r = Ok (journal_frame sha r)" by (simp add: encode_record_Ok_iff)
  have op: "\<exists>j'. journal_op sha Synced e j = (Ok (), j') \<and> nj_file j' = nj_file j @ journal_frame sha r"
    using assms(3) enc by (auto simp: r_def save_vote_def save_committed_def persist_def persist_batch_def)
  have "decode_record kind FLAG_SOME [] = None"
    using parts(2) by (auto simp: decode_record_def KIND_VOTE_def KIND_COMMITTED_def KIND_APPEND_def KIND_TRUNCATE_def
        KIND_PURGE_def FLAG_NONE_def FLAG_SOME_def)
  then have bad: "journal_parse sha (journal_frame sha r) = Damaged ()"
    using journal_frame_decomp[OF assms(1) fits parts(1)] frame_prefix_fields[of "[]" kind FLAG_SOME] assms(1)
    by (simp add: journal_parse_def Let_def digest32_def)
  from assms(2) obtain rs where rs: "list_all body_fits rs" "list_all nonempty_payload rs"
    "apply_records journal_state_default rs = Ok (nj_state j)" "nj_file j = frames_of (journal_frame sha) rs"
    by (auto simp: journal_ok_def)
  have "journal_open sha (Some (nj_file j @ journal_frame sha r)) = Err (CorruptFrame (to_u64 (length (nj_file j))))"
    using replay_past_frames[OF assms(1) rs(1-3), of 0 "journal_frame sha r"] rs(4)
      replay_loop_parse[OF journal.frame_nonempty, of sha _ _ sha r] bad
    by (simp add: journal_open_def replay_def Let_def)
  with op show ?thesis by auto
qed

theorem empty_payload_poisons_journal_witness:
  "\<exists>j'. journal_op demo_sha Synced (SaveVote []) demo_journal = (Ok (), j') \<and>
    journal_open demo_sha (Some (nj_file j')) = Err (CorruptFrame (to_u64 (length (nj_file demo_journal))))"
proof -
  have "journal_ok demo_sha demo_journal"
    using journal_ok_run[of "[SaveVote [1]]" demo_sha] by simp
  from empty_payload_poisons_journal[OF demo_sha_digest32 this, of "SaveVote []"] show ?thesis by (simp only: insertI1)
qed

text \<open>So does a failed write: when a write fails after its first byte reached the file, the
  journal keeps accepting operations, and the next synchronised one lands behind the stray byte,
  so the journal, acknowledged records included, can no longer be opened.\<close>

theorem failed_write_poisons_journal:
  assumes "digest32 sha" and "journal_ok sha j" and "p \<noteq> []" "q \<noteq> []"
    and "length p \<le> MAX_RECORD_BODY_BYTES" "length q \<le> MAX_RECORD_BODY_BYTES"
    and "j1 = snd (journal_op sha (FailedAfter 1) (SaveVote p) j)"
  shows "\<exists>j2. journal_op sha Synced (SaveVote q) j1 = (Ok (), j2) \<and>
    journal_open sha (Some (nj_file j2)) = Err (CorruptFrame (to_u64 (length (nj_file j))))"
proof -
  have enc: "encode_record sha (Vote x) = Ok (journal_frame sha (Vote x))" if "length x \<le> MAX_RECORD_BODY_BYTES" for x
    using that by (simp add: encode_record_Ok_iff body_fits_def)
  have magic: "\<exists>rest. journal_frame sha (Vote x) = 79 # 75 # 86 # 82 # rest" for x
    by (simp add: journal_frame_def frame_prefix_def JOURNAL_MAGIC_def ascii_def)
  from magic[of p] magic[of q] obtain rp rq where
    p: "journal_frame sha (Vote p) = 79 # 75 # 86 # 82 # rp" and q: "journal_frame sha (Vote q) = 79 # 75 # 86 # 82 # rq"
    by blast
  have j1: "nj_file j1 = nj_file j @ [79]"
    using assms(7) enc[OF assms(5)] p by (simp add: save_vote_def persist_def persist_batch_def)
  have op: "\<exists>j2. journal_op sha Synced (SaveVote q) j1 = (Ok (), j2) \<and>
      nj_file j2 = nj_file j @ [79] @ journal_frame sha (Vote q)"
    using enc[OF assms(6)] j1 by (auto simp: save_vote_def persist_def persist_batch_def)
  have "12 \<le> length (journal_frame sha (Vote q))"
    using journal_frame_decomp(2)[OF assms(1), of "Vote q" KIND_VOTE FLAG_SOME q] assms(6) by (simp add: body_fits_def)
  then have bad: "journal_parse sha ([79] @ journal_frame sha (Vote q)) = Damaged ()"
    by (simp add: journal_parse_def q JOURNAL_MAGIC_def ascii_def)
  from assms(2) obtain rs where rs: "list_all body_fits rs" "list_all nonempty_payload rs"
    "apply_records journal_state_default rs = Ok (nj_state j)" "nj_file j = frames_of (journal_frame sha) rs"
    by (auto simp: journal_ok_def)
  have "journal_open sha (Some (nj_file j @ [79] @ journal_frame sha (Vote q))) = Err (CorruptFrame (to_u64 (length (nj_file j))))"
    using replay_past_frames[OF assms(1) rs(1-3), of 0 "[79] @ journal_frame sha (Vote q)"] rs(4)
      replay_loop_parse[of "[79] @ journal_frame sha (Vote q)" sha] bad
    by (simp add: journal_open_def replay_def Let_def)
  with op show ?thesis by auto
qed

theorem failed_write_poisons_journal_witness:
  "\<exists>j2. journal_op demo_sha Synced (SaveVote [3]) (snd (journal_op demo_sha (FailedAfter 1) (SaveVote [2]) demo_journal)) = (Ok (), j2) \<and>
    journal_open demo_sha (Some (nj_file j2)) = Err (CorruptFrame (to_u64 (length (nj_file demo_journal))))"
proof -
  have "journal_ok demo_sha demo_journal"
    using journal_ok_run[of "[SaveVote [1]]" demo_sha] by simp
  from failed_write_poisons_journal[OF demo_sha_digest32 this _ _ _ _ refl, of "[2]" "[3]"] show ?thesis
    by (simp only: MAX_RECORD_BODY_BYTES_def list.distinct list.size) simp
qed
end
