(* ===== verification/Journal_Log.thy ===== *)
theory Journal_Log
  imports Journal_Recovery
begin

text \<open>
  The log kept by the node journal: retained indices are consecutive and lie above the purged
  prefix, and an accepted append makes the batch the tail of the log.
\<close>

section \<open>Consecutive indices\<close>

fun consecutive :: "u64 list \<Rightarrow> bool" where
  "consecutive (a # b # xs) \<longleftrightarrow> unat b = Suc (unat a) \<and> consecutive (b # xs)"
| "consecutive _ \<longleftrightarrow> True"

lemma consecutive_snoc:
  "consecutive xs \<Longrightarrow> (xs \<noteq> [] \<Longrightarrow> unat b = Suc (unat (last xs))) \<Longrightarrow> consecutive (xs @ [b])"
  by (induction xs rule: consecutive.induct) auto

lemma consecutive_appendD: "consecutive (xs @ ys) \<Longrightarrow> consecutive xs \<and> consecutive ys"
  by (induction xs rule: consecutive.induct; cases ys) auto

lemma filter_below: "sorted_wrt (<) xs \<Longrightarrow> filter (\<lambda>k. k < f) xs = takeWhile (\<lambda>k. k < f) xs" for f :: u64
proof (induction xs)
  case (Cons x xs)
  have "filter (\<lambda>k. k < f) xs = []" if "\<not> x < f"
    using Cons.prems that by (auto simp: filter_empty_conv)
  with Cons show ?case by simp
qed simp

lemma filter_above: "sorted_wrt (<) xs \<Longrightarrow> filter (\<lambda>k. f < k) xs = dropWhile (\<lambda>k. \<not> f < k) xs" for f :: u64
proof (induction xs)
  case (Cons x xs)
  have "filter (\<lambda>k. f < k) xs = xs" if "f < x"
    using Cons.prems that by (auto simp: filter_id_conv)
  with Cons show ?case by simp
qed simp

lemma consecutive_filter:
  assumes "sorted_wrt (<) xs" and "consecutive xs"
  shows "consecutive (filter (\<lambda>k. k < f) xs)" and "consecutive (filter (\<lambda>k. f < k) xs)"
proof -
  show "consecutive (filter (\<lambda>k. k < f) xs)"
    using assms consecutive_appendD[of "takeWhile (\<lambda>k. k < f) xs" "dropWhile (\<lambda>k. k < f) xs"]
    by (simp add: filter_below)
  show "consecutive (filter (\<lambda>k. f < k) xs)"
    using assms consecutive_appendD[of "takeWhile (\<lambda>k. \<not> f < k) xs" "dropWhile (\<lambda>k. \<not> f < k) xs"]
    by (simp add: filter_above)
qed

section \<open>The log invariant\<close>

abbreviation indices :: "journal_state \<Rightarrow> u64 list" where
  "indices st \<equiv> map fst (js_entries st)"

text \<open>At the largest index the successor saturates, so the marker bound is stated below it.\<close>

definition log_ok :: "journal_state \<Rightarrow> bool" where
  "log_ok st \<longleftrightarrow> bt_wf (js_entries st) \<and> consecutive (indices st) \<and>
     (\<forall>p. js_last_purged st = Some p \<longrightarrow> jm_index p \<noteq> - 1 \<longrightarrow> (\<forall>i \<in> set (indices st). jm_index p < i))"

lemma remove_by_index:
  assumes "bt_wf es"
  shows "fold bt_remove (map fst (filter (\<lambda>(i, _). P i) es)) es = filter (\<lambda>(i, _). \<not> P i) es"
proof (rule bt_ext)
  show "bt_wf (fold bt_remove (map fst (filter (\<lambda>(i, _). P i) es)) es)" "bt_wf (filter (\<lambda>(i, _). \<not> P i) es)"
    using assms by (simp_all add: bt.wf_del_all)
  show "bt_get (fold bt_remove (map fst (filter (\<lambda>(i, _). P i) es)) es) k = bt_get (filter (\<lambda>(i, _). \<not> P i) es) k" for k
  proof -
    have "k \<in> set (map fst (filter (\<lambda>(i, _). P i) es)) \<longleftrightarrow> bt_get es k \<noteq> None \<and> P k"
      using bt_entry_iff[OF assms] by force
    then show ?thesis
      using assms by (cases "bt_get es k") (auto simp: bt.get_del_all bt_get_filter)
  qed
qed

lemma map_fst_filter: "map fst (filter (\<lambda>(i, _). P i) es) = filter P (map fst es)"
  by (induction es) auto

text \<open>The records as operations on the entry map.\<close>

lemma apply_record_entries:
  assumes "bt_wf (js_entries st)" and "apply_record st r = Ok st'"
  shows "js_entries st' = (case r of
      Append i p \<Rightarrow> bt_insert i p (js_entries st)
    | Truncate f \<Rightarrow> filter (\<lambda>(i, _). i < f) (js_entries st)
    | Purge m \<Rightarrow> filter (\<lambda>(i, _). jm_index m < i) (js_entries st)
    | _ \<Rightarrow> js_entries st)"
    and "js_last_purged st' = (case r of Purge m \<Rightarrow> Some m | _ \<Rightarrow> js_last_purged st)"
  using assms(2) remove_by_index[OF assms(1)]
  by (cases r; force simp: Let_def not_le try_bind_Ok_iff split: option.splits if_splits)+

lemma apply_records_induct [consumes 2, case_names step]:
  assumes "apply_records st rs = Ok st'" and "P st"
    and "\<And>r s s'. r \<in> set rs \<Longrightarrow> P s \<Longrightarrow> apply_record s r = Ok s' \<Longrightarrow> P s'"
  shows "P st'"
  using assms by (induction rs arbitrary: st) (auto simp: try_bind_Ok_iff)

lemma bt_insert_replace: "\<forall>a \<in> fst ` set m. a < k \<Longrightarrow> bt_insert k v (m @ [(k, w)]) = m @ [(k, v)]"
  by (induction m) auto

text \<open>
  An appended record either extends the log by one index or, at the largest index, whose successor
  saturates to itself, overwrites the last entry.
\<close>

lemma indices_append:
  assumes wf: "bt_wf (js_entries st)" and app: "apply_record st (Append i p) = Ok st'"
  obtains (overwrite) "indices st' = indices st"
  | (first) "indices st = []" "indices st' = [i]"
      "\<And>q. js_last_purged st = Some q \<Longrightarrow> i = saturating_add (jm_index q) 1"
  | (extend) l where "indices st' = indices st @ [i]" "l = last (indices st)" "l \<in> set (indices st)"
      "l < i" "unat i = Suc (unat l)"
proof (cases "js_entries st" rule: rev_cases)
  case Nil
  then show thesis
    using app first by (fastforce simp: try_bind_Ok_iff validate_append_def last_entry_def split: option.splits if_splits)
next
  case (snoc m e)
  obtain l w where e: "e = (l, w)" by (cases e)
  have below: "\<forall>a \<in> fst ` set m. a < l"
    using wf snoc e by (auto simp: bt_wf_def sorted_wrt_append)
  have i: "i = saturating_add l 1" and st': "js_entries st' = bt_insert i p (js_entries st)"
    using app snoc e
    by (auto simp: try_bind_Ok_iff validate_append_def last_entry_def split: option.splits if_splits)
  show thesis
  proof (cases "l = - 1")
    case True
    then have "i = l" using i by (simp add: saturating_add_def unat_minus_1)
    then show thesis
      using overwrite st' snoc e bt_insert_replace[OF below] by simp
  next
    case False
    then have "l < i" using i saturating_succ_gt by simp
    then have "\<forall>a \<in> fst ` set (js_entries st). a < i"
      using below snoc e by auto
    then have ext: "indices st' = indices st @ [i]"
      by (simp add: st' bt_insert_last)
    have "min (unat l + 1) (2 ^ 64 - 1) = Suc (unat l)"
      using \<open>l < i\<close> i unat_bound[of i] by (simp add: word_less_nat_alt unat_saturating_add min_def split: if_splits)
    then have "unat i = Suc (unat l)"
      by (simp add: i unat_saturating_add)
    then show thesis
      using \<open>l < i\<close> by (intro extend[OF ext]) (simp_all add: snoc e)
  qed
qed

lemma log_ok_record:
  assumes ok: "log_ok st" and ap: "apply_record st r = Ok st'"
  shows "log_ok st'"
proof -
  have wf: "bt_wf (js_entries st)" and cs: "consecutive (indices st)"
    and pu: "\<And>p i. js_last_purged st = Some p \<Longrightarrow> jm_index p \<noteq> - 1 \<Longrightarrow> i \<in> set (indices st) \<Longrightarrow> jm_index p < i"
    using ok by (auto simp: log_ok_def)
  note es = apply_record_entries[OF wf ap]
  show ?thesis
  proof (cases r)
    case (Append i p)
    note app = ap[unfolded Append]
    have "consecutive (indices st')"
      by (rule indices_append[OF wf app]) (use cs in \<open>auto intro: consecutive_snoc\<close>)
    moreover have "jm_index q < k" if q: "js_last_purged st = Some q" "jm_index q \<noteq> - 1" and k: "k \<in> set (indices st')" for q k
      by (rule indices_append[OF wf app])
        (use pu[OF q] k q saturating_succ_gt[OF q(2)] in \<open>auto intro: less_trans\<close>)
    ultimately show ?thesis
      using es wf Append by (simp add: log_ok_def)
  next
    case (Truncate f)
    then show ?thesis
      using es wf cs pu consecutive_filter(1)[of "indices st" f]
      by (auto simp: log_ok_def map_fst_filter bt_wf_def sorted_wrt_filter)
  next
    case (Purge m)
    then show ?thesis
      using es wf cs pu consecutive_filter(2)[of "indices st" "jm_index m"]
      by (auto simp: log_ok_def map_fst_filter bt_wf_def sorted_wrt_filter)
  qed (use ok es in \<open>simp_all add: log_ok_def\<close>)
qed

lemma log_ok_records: "apply_records st rs = Ok st' \<Longrightarrow> log_ok st \<Longrightarrow> log_ok st'"
  by (erule apply_records_induct) (auto intro: log_ok_record)

lemma log_ok_default: "log_ok journal_state_default"
  by (simp add: log_ok_def journal_state_default_def)

text \<open>Whatever bytes are found on disk, and whatever becomes of a write.\<close>

lemma log_ok_replay: "replay_loop sha st offset bs = Ok (st', n, b) \<Longrightarrow> log_ok st \<Longrightarrow> log_ok st'"
proof (induction sha st offset bs rule: replay_loop.induct)
  case (1 sha st offset bs)
  from "1.prems" show ?case
    by (subst (asm) replay_loop.simps)
       (auto simp: Let_def split: if_splits option.splits result.splits
         elim!: "1.IH"[rotated -2] intro: log_ok_record)
qed

lemma log_ok_open: "journal_open sha disk = Ok j \<Longrightarrow> log_ok (nj_state j)"
  by (auto simp: journal_open_def replay_def Let_def try_bind_Ok_iff intro: log_ok_replay log_ok_default)

lemma log_ok_op: "log_ok (nj_state j) \<Longrightarrow> log_ok (nj_state (snd (journal_op sha w e j)))"
proof -
  assume ok: "log_ok (nj_state j)"
  have "log_ok (nj_state (snd (persist_batch sha w rs j)))" for rs
    using ok log_ok_records[of "nj_state j" rs]
    by (auto simp: persist_batch_def split: result.split write_outcome.split)
  then show ?thesis
    using journal_op_planned[of sha w e j] ok by (auto split: result.splits)
qed

lemma log_ok_ops: "log_ok (nj_state j) \<Longrightarrow> log_ok (nj_state (fold (\<lambda>(w, e) j. snd (journal_op sha w e j)) es j))"
  by (induction es arbitrary: j) (auto simp: log_ok_op)

section \<open>Appending a batch\<close>

lemma apply_appends:
  "apply_records st (append_records es) = Ok st' \<Longrightarrow>
     st' = st\<lparr>js_entries := fold (\<lambda>(i, p). bt_insert i p) es (js_entries st)\<rparr>"
proof (induction es arbitrary: st)
  case (Cons e es)
  obtain i p where e: "e = (i, p)" by (cases e)
  from Cons.prems have "apply_records (st\<lparr>js_entries := bt_insert i p (js_entries st)\<rparr>) (append_records es) = Ok st'"
    by (auto simp: e try_bind_Ok_iff)
  from Cons.IH[OF this] show ?case by (simp add: e)
qed simp

lemma apply_cut:
  assumes ok: "log_ok st" and plan: "plan_append st batch = Ok rs" and live: "live_entries st batch \<noteq> []"
    and cut: "apply_records st (cut_records st (fst (hd (live_entries st batch)))) = Ok st'"
  shows "st' = st\<lparr>js_entries := filter (\<lambda>(i, _). i < fst (hd (live_entries st batch))) (js_entries st)\<rparr>"
proof -
  let ?f = "fst (hd (live_entries st batch))"
  have wf: "bt_wf (js_entries st)" using ok by (simp add: log_ok_def)
  show ?thesis
  proof (cases "js_entries st" rule: rev_cases)
    case Nil
    then show ?thesis using cut by (simp add: cut_records_def last_entry_def)
  next
    case (snoc m e)
    have below: "\<forall>a \<in> fst ` set m. a < fst e"
      using wf snoc by (auto simp: bt_wf_def sorted_wrt_append)
    show ?thesis
    proof (cases "?f \<le> fst e")
      case True
      then show ?thesis
        using cut snoc remove_by_index[OF wf, of "\<lambda>i. ?f \<le> i"]
        by (auto simp: cut_records_def last_entry_def try_bind_Ok_iff Let_def not_le split: prod.splits option.splits if_splits)
    next
      case False
      then have "filter (\<lambda>(i, _). i < ?f) (js_entries st) = js_entries st"
        using below snoc by (fastforce simp: filter_id_conv)
      with False show ?thesis
        using cut snoc by (auto simp: cut_records_def last_entry_def split: prod.splits)
    qed
  qed
qed

lemma append_entries_state:
  assumes ok: "log_ok (nj_state j)" and live: "live_entries (nj_state j) batch \<noteq> []"
    and app: "journal_append sha Synced batch j = (Ok (), j')"
  defines "first \<equiv> fst (hd (live_entries (nj_state j) batch))"
  shows "nj_state j' = nj_state j\<lparr>js_entries := fold (\<lambda>(i, p). bt_insert i p) (live_entries (nj_state j) batch)
     (filter (\<lambda>(i, _). i < first) (js_entries (nj_state j)))\<rparr>"
proof -
  have "batch \<noteq> []" using live by (auto simp: live_entries_def split: option.splits)
  with app obtain rs where plan: "plan_append (nj_state j) batch = Ok rs" and pb: "persist_batch sha Synced rs j = (Ok (), j')"
    by (auto simp: journal_append_def split: result.splits)
  from pb have "apply_records (nj_state j) rs = Ok (nj_state j')"
    by (auto simp: persist_batch_def split: result.splits)
  then obtain s where "apply_records (nj_state j) (cut_records (nj_state j) first) = Ok s"
    and "apply_records s (append_records (live_entries (nj_state j) batch)) = Ok (nj_state j')"
    using plan_append_Ok(1)[OF plan live] by (auto simp: first_def apply_records_append try_bind_Ok_iff)
  then show ?thesis
    using apply_cut[OF ok plan live] by (auto simp: first_def dest!: apply_appends)
qed

section \<open>Properties\<close>

text \<open>Whatever bytes are on disk, if the journal opens then its log indices are strictly
  ascending without a gap and above the purged prefix, and they stay so under every sequence of
  operations, whether each is accepted, refused or fails while writing.\<close>

theorem journal_indices_consecutive:
  assumes "journal_open sha disk = Ok j"
    and "st = nj_state (fold (\<lambda>(w, e) j. snd (journal_op sha w e j)) ops j)"
  shows "bt_wf (js_entries st) \<and> consecutive (indices st) \<and>
    (\<forall>p. js_last_purged st = Some p \<longrightarrow> jm_index p \<noteq> - 1 \<longrightarrow> (\<forall>i \<in> set (indices st). jm_index p < i))"
  using log_ok_ops[OF log_ok_open[OF assms(1)]] unfolding assms(2) log_ok_def .

theorem journal_indices_consecutive_witness:
  "consecutive (indices (nj_state (fold (\<lambda>(w, e) j. snd (journal_op demo_sha w e j))
     [(Synced, AppendEntries [(4, [2]), (5, [3])]), (FailedAfter 3, TruncateFrom 5)] journal_new)))"
proof -
  have "journal_open demo_sha None = Ok journal_new"
    by (simp add: journal_open_def replay_def journal_new_def)
  from journal_indices_consecutive[OF this refl] show ?thesis by blast
qed

text \<open>An accepted append makes the live part of the batch, that above the purged prefix, the
  tail of the log: below its first index the log is as before, from there on it holds exactly the
  batch (so a conflicting suffix is gone), and nothing else of the state changes. At the
  saturating last index the last payload wins.\<close>

theorem append_replaces_suffix:
  assumes "log_ok (nj_state j)" and "live_entries (nj_state j) batch = (first, p) # es"
    and "journal_append sha Synced batch j = (Ok (), j')"
  shows "bt_get (js_entries (nj_state j')) i =
      (case map_of (rev ((first, p) # es)) i of
         Some q \<Rightarrow> Some q
       | None \<Rightarrow> if i < first then bt_get (js_entries (nj_state j)) i else None) \<and>
    js_vote (nj_state j') = js_vote (nj_state j) \<and> js_committed (nj_state j') = js_committed (nj_state j) \<and>
    js_last_purged (nj_state j') = js_last_purged (nj_state j)"
proof -
  have wf: "bt_wf (js_entries (nj_state j))" using assms(1) by (simp add: log_ok_def)
  have st: "nj_state j' = nj_state j\<lparr>js_entries := fold (\<lambda>(i, p). bt_insert i p) ((first, p) # es)
     (filter (\<lambda>(i, _). i < first) (js_entries (nj_state j)))\<rparr>"
    using append_entries_state[OF assms(1) _ assms(3)] unfolding assms(2) by (simp del: fold.simps)
  show ?thesis
    unfolding st using bt.get_put_all[of "(first, p) # es"]
    by (simp del: fold.simps rev.simps map_of.simps add: bt_get_filter[OF wf] split: option.split)
qed

abbreviation demo_log :: node_journal where
  "demo_log \<equiv> \<lparr>nj_file = [], nj_state = journal_state_default\<lparr>js_entries := [(1, [7]), (2, [8])]\<rparr>, nj_recovered_torn_tail = False\<rparr>"

theorem append_replaces_suffix_witness:
  "\<exists>j'. journal_append demo_sha Synced [(2, [9])] demo_log = (Ok (), j') \<and>
     bt_get (js_entries (nj_state j')) 1 = Some [7] \<and> bt_get (js_entries (nj_state j')) 2 = Some [9] \<and>
     bt_get (js_entries (nj_state j')) 3 = None"
proof -
  have ok: "log_ok (nj_state demo_log)"
    by (simp add: log_ok_def journal_state_default_def bt_wf_def word_less_nat_alt)
  have live: "live_entries (nj_state demo_log) [(2, [9])] = [(2, [9])]"
    by (simp add: live_entries_def journal_state_default_def)
  obtain j' where j': "journal_append demo_sha Synced [(2, [9])] demo_log = (Ok (), j')"
    by (simp add: journal_append_def plan_append_def journal_state_default_def last_entry_def persist_batch_def Let_def
        validate_append_def MAX_RECORD_BODY_BYTES_def encode_record_def bt_remove_def saturating_add_def word_le_nat_alt)
  from append_replaces_suffix[OF ok live this, of 1] append_replaces_suffix[OF ok live this, of 2]
    append_replaces_suffix[OF ok live this, of 3]
  show ?thesis
    by (intro exI[of _ j'] conjI j') (simp_all add: journal_state_default_def bt_get_Cons word_less_nat_alt)
qed
end
