(* ===== verification/Wal.thy ===== *)
theory Wal
  imports Framing
begin

text \<open>
  The replicated log of \<open>okv-wal/src/lib.rs\<close>: checksummed frames on one file per replica,
  appends to selected replicas, atomic rewrites and quorum recovery. The files are a map from
  replica to content; a write may fail after any number of its bytes. SHA-256 is the parameter
  \<open>sha\<close>. Sizes are natural numbers: on a 64-bit target the length of a frame whose header names
  a 32-bit payload length never overflows.
\<close>

section \<open>Data\<close>

definition FRAME_MAGIC :: bytes where "FRAME_MAGIC = ascii ''OKVW''"
definition FRAME_VERSION :: u16 where "FRAME_VERSION = 1"
definition FRAME_HEADER_BYTES :: nat where "FRAME_HEADER_BYTES = 4 + 2 + 8 + 4"
definition FRAME_CHECKSUM_LEN :: nat where "FRAME_CHECKSUM_LEN = 32"
definition MAX_PAYLOAD_LEN :: nat where "MAX_PAYLOAD_LEN = 64 * 1024 * 1024"

type_synonym replica_id = u8
type_synonym wal_disk = "replica_id \<rightharpoonup> bytes"

record append_outcome =
  ao_log_index :: u64
  ao_frame_bytes :: u64
  ao_synced_replicas :: "replica_id list"
  ao_quorum_durable :: bool

record recovered_record =
  rr_log_index :: u64
  rr_payload :: bytes
  rr_replica_ids :: "replica_id list"

record recovery =
  rec_records :: "recovered_record list"
  rec_torn_tail_replicas :: "replica_id list"
  rec_ignored_uncommitted_records :: u64
  rec_physical_bytes :: u64

definition last_index :: "recovery \<Rightarrow> u64" where
  "last_index r = (if rec_records r = [] then 0 else rr_log_index (last (rec_records r)))"

datatype wal_error =
    InvalidTopology
  | InvalidLogIndex u64
  | WalPayloadTooLarge nat
  | WalIo
  | CompleteFrameCorruption replica_id u64
  | MissingContiguousQuorum u64
  | ConflictingQuorum u64

record local_replicated_wal =
  wal_replica_count :: u8
  wal_quorum :: nat

text \<open>\<open>0..replica_count\<close>\<close>

definition replica_ids :: "u8 \<Rightarrow> replica_id list" where
  "replica_ids n = map word_of_nat [0..<unat n]"

section \<open>Opening and writing\<close>

text \<open>Opening keeps existing replica files and creates the missing ones empty.\<close>

definition wal_open :: "u8 \<Rightarrow> nat \<Rightarrow> wal_disk \<Rightarrow> (local_replicated_wal, wal_error) result \<times> wal_disk" where
  "wal_open replica_count quorum disk =
     (if replica_count = 0 \<or> quorum = 0 \<or> quorum > unat replica_count then (Err InvalidTopology, disk)
      else (Ok \<lparr>wal_replica_count = replica_count, wal_quorum = quorum\<rparr>,
            fold (\<lambda>r d. case d r of Some _ \<Rightarrow> d | None \<Rightarrow> d(r \<mapsto> [])) (replica_ids replica_count) disk))"

text \<open>The frame before its checksum, and the frame.\<close>

definition wal_frame_prefix :: "u64 \<Rightarrow> bytes \<Rightarrow> bytes" where
  "wal_frame_prefix log_index payload =
     FRAME_MAGIC @ u16_be FRAME_VERSION @ u64_be log_index @ u32_be (word_of_nat (length payload)) @ payload"

definition encode_frame :: "(bytes \<Rightarrow> bytes) \<Rightarrow> u64 \<Rightarrow> bytes \<Rightarrow> bytes" where
  "encode_frame sha log_index payload =
     wal_frame_prefix log_index payload @ sha (wal_frame_prefix log_index payload)"

definition payload_too_large :: "bytes \<Rightarrow> bool" where
  "payload_too_large payload \<longleftrightarrow> length payload > MAX_PAYLOAD_LEN \<or> \<not> length payload < 2 ^ 32"

fun check_selected :: "u8 \<Rightarrow> replica_id set \<Rightarrow> replica_id list \<Rightarrow> bool" where
  "check_selected replica_count unique [] \<longleftrightarrow> True"
| "check_selected replica_count unique (r # rs) \<longleftrightarrow>
     \<not> (r \<ge> replica_count \<or> r \<in> unique) \<and> check_selected replica_count (insert r unique) rs"

fun append_loop ::
  "(replica_id \<Rightarrow> write_outcome) \<Rightarrow> bytes \<Rightarrow> replica_id list \<Rightarrow> replica_id list \<Rightarrow> wal_disk \<Rightarrow>
     (replica_id list, wal_error) result \<times> wal_disk" where
  "append_loop w frame [] synced disk = (Ok synced, disk)"
| "append_loop w frame (r # rs) synced disk =
     (case disk r of
        None \<Rightarrow> (Err WalIo, disk)
      | Some content \<Rightarrow>
         (case w r of
            FailedAfter n \<Rightarrow> (Err WalIo, disk(r \<mapsto> content @ take n frame))
          | Synced \<Rightarrow> append_loop w frame rs (synced @ [r]) (disk(r \<mapsto> content @ frame))))"

definition wal_append ::
  "(bytes \<Rightarrow> bytes) \<Rightarrow> (replica_id \<Rightarrow> write_outcome) \<Rightarrow> u64 \<Rightarrow> bytes \<Rightarrow> replica_id list \<Rightarrow>
     local_replicated_wal \<Rightarrow> wal_disk \<Rightarrow> (append_outcome, wal_error) result \<times> wal_disk" where
  "wal_append sha w log_index payload selected wal disk =
     (if log_index = 0 then (Err (InvalidLogIndex log_index), disk)
      else if payload_too_large payload then (Err (WalPayloadTooLarge (length payload)), disk)
      else if \<not> check_selected (wal_replica_count wal) {} selected then (Err InvalidTopology, disk)
      else
        let frame = encode_frame sha log_index payload in
        case append_loop w frame selected [] disk of
          (Err e, disk') \<Rightarrow> (Err e, disk')
        | (Ok synced, disk') \<Rightarrow>
            (Ok \<lparr>ao_log_index = log_index, ao_frame_bytes = to_u64 (length frame),
                 ao_synced_replicas = sort synced, ao_quorum_durable = (length synced \<ge> wal_quorum wal)\<rparr>,
             disk'))"

fun check_rewrite :: "nat \<Rightarrow> (u64 \<times> bytes) list \<Rightarrow> (unit, wal_error) result" where
  "check_rewrite offset [] = Ok ()"
| "check_rewrite offset ((log_index, payload) # records) =
     (if log_index \<noteq> saturating_add (to_u64 offset) 1 then Err (InvalidLogIndex log_index)
      else if payload_too_large payload then Err (WalPayloadTooLarge (length payload))
      else check_rewrite (Suc offset) records)"

text \<open>
  The replacement of one replica file: it fails before the rename, which leaves the old file, or
  at the directory synchronisation behind it.
\<close>

datatype replace_outcome = Replaced | FailedBeforeRename | FailedAfterRename

fun rewrite_loop ::
  "(replica_id \<Rightarrow> replace_outcome) \<Rightarrow> bytes \<Rightarrow> replica_id list \<Rightarrow> wal_disk \<Rightarrow> (unit, wal_error) result \<times> wal_disk" where
  "rewrite_loop w content [] disk = (Ok (), disk)"
| "rewrite_loop w content (r # rs) disk =
     (case w r of
        FailedBeforeRename \<Rightarrow> (Err WalIo, disk)
      | FailedAfterRename \<Rightarrow> (Err WalIo, disk(r \<mapsto> content))
      | Replaced \<Rightarrow> rewrite_loop w content rs (disk(r \<mapsto> content)))"

definition wal_rewrite ::
  "(bytes \<Rightarrow> bytes) \<Rightarrow> (replica_id \<Rightarrow> replace_outcome) \<Rightarrow> (u64 \<times> bytes) list \<Rightarrow> local_replicated_wal \<Rightarrow> wal_disk \<Rightarrow>
     (unit, wal_error) result \<times> wal_disk" where
  "wal_rewrite sha w records wal disk =
     (case check_rewrite 0 records of
        Err e \<Rightarrow> (Err e, disk)
      | Ok _ \<Rightarrow>
          rewrite_loop w (concat (map (\<lambda>(log_index, payload). encode_frame sha log_index payload) records))
            (replica_ids (wal_replica_count wal)) disk)"

section \<open>Scanning a replica\<close>

record replica_scan =
  sc_replica_id :: replica_id
  sc_records :: "(u64, bytes) btree"
  sc_torn_tail :: bool
  sc_corrupt_index :: "u64 option"
  sc_physical_bytes :: u64

definition decode_header :: "bytes \<Rightarrow> (u64 \<times> nat) option" where
  "decode_header header =
     (if length header \<noteq> FRAME_HEADER_BYTES \<or> take 4 header \<noteq> FRAME_MAGIC then None
      else if u16_of_be (take 2 (drop 4 header)) \<noteq> FRAME_VERSION then None
      else
        let log_index = u64_of_be (take 8 (drop 6 header));
            payload_len = unat (u32_of_be (take 4 (drop 14 header)))
        in if log_index = 0 then None else Some (log_index, payload_len))"

text \<open>The loop on the unread bytes; it returns the records, \<open>torn_tail\<close> and \<open>corrupt_index\<close>.\<close>

function scan_loop ::
  "(bytes \<Rightarrow> bytes) \<Rightarrow> u64 \<Rightarrow> (u64, bytes) btree \<Rightarrow> bytes \<Rightarrow> (u64, bytes) btree \<times> bool \<times> u64 option" where
  "scan_loop sha expected_index records bs =
     (if bs = [] then (records, False, None)
      else if length bs < FRAME_HEADER_BYTES then (records, True, None)
      else case decode_header (take FRAME_HEADER_BYTES bs) of
        None \<Rightarrow> (records, False, Some expected_index)
      | Some (log_index, payload_len) \<Rightarrow>
         (let frame_len = FRAME_HEADER_BYTES + payload_len + FRAME_CHECKSUM_LEN in
          if payload_len > MAX_PAYLOAD_LEN then (records, False, Some log_index)
          else if length bs < frame_len then (records, True, None)
          else
            let frame = take frame_len bs;
                checksum_offset = frame_len - FRAME_CHECKSUM_LEN in
            if sha (take checksum_offset frame) \<noteq> drop checksum_offset frame then (records, False, Some log_index)
            else if log_index \<noteq> expected_index then (records, False, Some expected_index)
            else scan_loop sha (saturating_add expected_index 1)
                   (bt_insert log_index (take payload_len (drop FRAME_HEADER_BYTES frame)) records)
                   (drop frame_len bs)))"
  by pat_completeness auto
termination
  by (relation "measure (\<lambda>(_, _, _, bs). length bs)") (auto simp: FRAME_HEADER_BYTES_def)

declare scan_loop.simps [simp del]

definition scan_replica :: "(bytes \<Rightarrow> bytes) \<Rightarrow> wal_disk \<Rightarrow> replica_id \<Rightarrow> (replica_scan, wal_error) result" where
  "scan_replica sha disk r =
     (case disk r of
        None \<Rightarrow> Err WalIo
      | Some bs \<Rightarrow>
         (case scan_loop sha 1 [] bs of (records, torn_tail, corrupt_index) \<Rightarrow>
            Ok \<lparr>sc_replica_id = r, sc_records = records, sc_torn_tail = torn_tail,
                sc_corrupt_index = corrupt_index, sc_physical_bytes = to_u64 (length bs)\<rparr>))"

section \<open>Quorum recovery\<close>

fun scan_all :: "(bytes \<Rightarrow> bytes) \<Rightarrow> wal_disk \<Rightarrow> replica_id list \<Rightarrow> (replica_scan list, wal_error) result" where
  "scan_all sha disk [] = Ok []"
| "scan_all sha disk (r # rs) =
     try_bind (scan_replica sha disk r) (\<lambda>scan. try_bind (scan_all sha disk rs) (\<lambda>scans. Ok (scan # scans)))"

definition maximum_index :: "replica_scan list \<Rightarrow> u64" where
  "maximum_index scans =
     fold max (map (\<lambda>scan. fst (last (sc_records scan))) (filter (\<lambda>scan. sc_records scan \<noteq> []) scans)) 0"

definition add_candidate ::
  "(bytes \<Rightarrow> bytes) \<Rightarrow> u64 \<Rightarrow> replica_scan \<Rightarrow> (bytes, bytes \<times> replica_id list) btree \<Rightarrow> (bytes, bytes \<times> replica_id list) btree" where
  "add_candidate sha log_index scan candidates =
     (case bt_get (sc_records scan) log_index of
        None \<Rightarrow> candidates
      | Some payload \<Rightarrow>
         (case (case bt_get candidates (sha payload) of None \<Rightarrow> (payload, []) | Some c \<Rightarrow> c) of (p, ids) \<Rightarrow>
            bt_insert (sha payload) (p, ids @ [sc_replica_id scan]) candidates))"

definition quorum_candidates :: "(bytes \<Rightarrow> bytes) \<Rightarrow> nat \<Rightarrow> replica_scan list \<Rightarrow> u64 \<Rightarrow> (bytes \<times> replica_id list) list" where
  "quorum_candidates sha quorum scans log_index =
     filter (\<lambda>(_, replicas). length replicas \<ge> quorum) (bt_values (fold (add_candidate sha log_index) scans []))"

definition add_count :: "(bytes \<Rightarrow> bytes) \<Rightarrow> u64 \<Rightarrow> replica_scan \<Rightarrow> (bytes, nat) btree \<Rightarrow> (bytes, nat) btree" where
  "add_count sha later scan counts =
     (case bt_get (sc_records scan) later of
        None \<Rightarrow> counts
      | Some payload \<Rightarrow>
          bt_insert (sha payload) ((case bt_get counts (sha payload) of None \<Rightarrow> 0 | Some n \<Rightarrow> n) + 1) counts)"

definition later_quorum :: "(bytes \<Rightarrow> bytes) \<Rightarrow> nat \<Rightarrow> replica_scan list \<Rightarrow> u64 \<Rightarrow> bool" where
  "later_quorum sha quorum scans later \<longleftrightarrow>
     list_ex (\<lambda>count. count \<ge> quorum) (bt_values (fold (add_count sha later) scans []))"

text \<open>
  The loop over \<open>1..=maximum_index\<close>, as the list of the indices still to come: behind
  \<open>log_index\<close> they are \<open>log_index + 1..=maximum_index\<close>. It returns the records and the number
  of ignored ones.
\<close>

fun recover_loop ::
  "(bytes \<Rightarrow> bytes) \<Rightarrow> nat \<Rightarrow> replica_scan list \<Rightarrow> u64 list \<Rightarrow> recovered_record list \<Rightarrow>
     (recovered_record list \<times> u64, wal_error) result" where
  "recover_loop sha quorum scans [] records = Ok (records, 0)"
| "recover_loop sha quorum scans (log_index # later) records =
     (case quorum_candidates sha quorum scans log_index of
        [] \<Rightarrow>
         (case find (\<lambda>scan. sc_corrupt_index scan = Some log_index) scans of
            Some scan \<Rightarrow> Err (CompleteFrameCorruption (sc_replica_id scan) log_index)
          | None \<Rightarrow>
              if list_ex (later_quorum sha quorum scans) later then Err (MissingContiguousQuorum log_index)
              else Ok (records,
                sum_list (map (\<lambda>scan. to_u64 (length (filter (\<lambda>(k, _). log_index \<le> k) (sc_records scan)))) scans)))
      | [(payload, ids)] \<Rightarrow>
          recover_loop sha quorum scans later
            (records @ [\<lparr>rr_log_index = log_index, rr_payload = payload, rr_replica_ids = sort ids\<rparr>])
      | _ \<Rightarrow> Err (ConflictingQuorum log_index))"

definition indices_to :: "u64 \<Rightarrow> u64 list" where
  "indices_to maximum = map word_of_nat [1..<Suc (unat maximum)]"

definition wal_recover :: "(bytes \<Rightarrow> bytes) \<Rightarrow> local_replicated_wal \<Rightarrow> wal_disk \<Rightarrow> (recovery, wal_error) result" where
  "wal_recover sha wal disk =
     try_bind (scan_all sha disk (replica_ids (wal_replica_count wal))) (\<lambda>scans.
     try_bind (recover_loop sha (wal_quorum wal) scans (indices_to (maximum_index scans)) []) (\<lambda>(records, ignored).
     Ok \<lparr>rec_records = records,
         rec_torn_tail_replicas = map sc_replica_id (filter sc_torn_tail scans),
         rec_ignored_uncommitted_records = ignored,
         rec_physical_bytes = fold (\<lambda>scan n. saturating_add n (sc_physical_bytes scan)) scans 0\<rparr>))"
end
