(* ===== verification/Wal_Frames.thy ===== *)
theory Wal_Frames
  imports Wal
begin

text \<open>
  Frames of the replicated log: the format satisfies the interface \<open>framed_log\<close>, and scanning a
  replica that holds a prefix of a log, possibly with a torn frame behind it, finds exactly that
  prefix.
\<close>

section \<open>The frame format\<close>

abbreviation wal_frame :: "(bytes \<Rightarrow> bytes) \<Rightarrow> u64 \<times> bytes \<Rightarrow> bytes" where
  "wal_frame sha \<equiv> \<lambda>(log_index, payload). encode_frame sha log_index payload"

abbreviation entry_fits :: "u64 \<times> bytes \<Rightarrow> bool" where
  "entry_fits \<equiv> \<lambda>(log_index, payload). log_index \<noteq> 0 \<and> length payload \<le> MAX_PAYLOAD_LEN"

text \<open>A damaged frame names its index if its header is readable.\<close>

definition wal_parse :: "(bytes \<Rightarrow> bytes) \<Rightarrow> bytes \<Rightarrow> (u64 \<times> bytes, u64 option) parsed" where
  "wal_parse sha bs =
     (if length bs < 18 then Short
      else case decode_header (take 18 bs) of
        None \<Rightarrow> Damaged None
      | Some (i, n) \<Rightarrow>
          if n > MAX_PAYLOAD_LEN then Damaged (Some i)
          else if length bs < 50 + n then Short
          else if sha (take (18 + n) bs) \<noteq> take 32 (drop (18 + n) bs) then Damaged (Some i)
          else Whole (i, take n (drop 18 bs)))"

lemma wal_frame_fields:
  assumes "entry_fits (i, p)"
  shows "length (wal_frame_prefix i p) = 18 + length p"
    and "decode_header (take 18 (wal_frame_prefix i p @ r)) = Some (i, length p)"
    and "drop 18 (wal_frame_prefix i p @ r) = p @ r"
proof -
  have magic: "length FRAME_MAGIC = 4" by (simp add: FRAME_MAGIC_def ascii_def)
  obtain m0 m1 m2 m3 where m: "FRAME_MAGIC = [m0, m1, m2, m3]"
    using magic by (rule length_4E)
  obtain v0 v1 where v: "u16_be FRAME_VERSION = [v0, v1]"
    by (rule length_2E[OF length_u_be(1)])
  obtain i0 i1 i2 i3 i4 i5 i6 i7 where ix: "u64_be i = [i0, i1, i2, i3, i4, i5, i6, i7]"
    by (rule length_8E[OF length_u_be(3)])
  obtain l0 l1 l2 l3 where l: "u32_be (word_of_nat (length p)) = [l0, l1, l2, l3]"
    by (rule length_4E[OF length_u_be(2)])
  have len: "unat (word_of_nat (length p) :: u32) = length p"
    using assms by (simp add: unsigned_of_nat take_bit_eq_mod MAX_PAYLOAD_LEN_def)
  note expand = wal_frame_prefix_def m v ix l
  show "length (wal_frame_prefix i p) = 18 + length p" "drop 18 (wal_frame_prefix i p @ r) = p @ r"
    by (simp_all add: expand)
  have header: "take 18 (wal_frame_prefix i p @ r) =
      FRAME_MAGIC @ u16_be FRAME_VERSION @ u64_be i @ u32_be (word_of_nat (length p))"
    by (simp add: expand)
  define h where "h = take 18 (wal_frame_prefix i p @ r)"
  have h: "length h = 18" "take 4 h = FRAME_MAGIC" "take 2 (drop 4 h) = u16_be FRAME_VERSION"
    "take 8 (drop 6 h) = u64_be i" "take 4 (drop 14 h) = u32_be (word_of_nat (length p))"
    unfolding h_def header by (simp_all add: m v ix l)
  have "i \<noteq> 0" using assms by simp
  then have "decode_header h = Some (i, length p)"
    by (simp only: decode_header_def Let_def h FRAME_HEADER_BYTES_def u_of_be_be len) simp
  then show "decode_header (take 18 (wal_frame_prefix i p @ r)) = Some (i, length p)"
    by (simp only: h_def)
qed

lemma length_encode_frame:
  "digest32 sha \<Longrightarrow> entry_fits (i, p) \<Longrightarrow> length (encode_frame sha i p) = 50 + length p"
  using wal_frame_fields(1)[of i p] by (simp add: encode_frame_def digest32_def)

lemma wal_parse_frame:
  assumes "digest32 sha" and "entry_fits (i, p)"
  shows "wal_parse sha (encode_frame sha i p @ rest) = Whole (i, p)"
proof -
  let ?f = "wal_frame_prefix i p"
  note fields = wal_frame_fields[OF assms(2)]
  have sha: "length (sha ?f) = 32" using assms(1) by (simp add: digest32_def)
  have "take (18 + length p) (?f @ sha ?f @ rest) = ?f" "drop (18 + length p) (?f @ sha ?f @ rest) = sha ?f @ rest"
    using fields(1) by simp_all
  then show ?thesis
    using fields(1) fields(2,3)[of "sha ?f @ rest"] sha assms(2) by (simp add: wal_parse_def encode_frame_def)
qed

lemma wal_parse_torn:
  assumes "digest32 sha" and "entry_fits (i, p)" and "strict_prefix part (encode_frame sha i p)"
  shows "wal_parse sha part = Short"
proof (cases "length part < 18")
  case True
  then show ?thesis by (simp add: wal_parse_def)
next
  case False
  have "take 18 part = take 18 (encode_frame sha i p)"
    using strict_prefix_take[OF assms(3), of 18] False by simp
  then have "decode_header (take 18 part) = Some (i, length p)"
    using wal_frame_fields(2)[OF assms(2), of "sha (wal_frame_prefix i p)"] by (simp add: encode_frame_def)
  moreover have "length part < 50 + length p"
    using strict_prefix_shorter[OF assms(3)] length_encode_frame[OF assms(1,2)] by simp
  ultimately show ?thesis
    using False assms(2) by (simp add: wal_parse_def)
qed

interpretation wal: framed_log "\<lambda>e. digest32 sha \<and> entry_fits e" "wal_frame sha" "wal_parse sha" for sha
proof
  fix e rest part
  show "wal_frame sha e \<noteq> []"
    by (cases e) (simp add: encode_frame_def wal_frame_prefix_def FRAME_MAGIC_def ascii_def)
  show "digest32 sha \<and> entry_fits e \<Longrightarrow> wal_parse sha (wal_frame sha e @ rest) = Whole e"
    by (cases e) (simp add: wal_parse_frame)
  show "digest32 sha \<and> entry_fits e \<Longrightarrow> part \<noteq> [] \<Longrightarrow> strict_prefix part (wal_frame sha e) \<Longrightarrow> wal_parse sha part = Short"
    by (cases e) (auto intro: wal_parse_torn)
qed

section \<open>Scanning\<close>

text \<open>The loop in terms of the parser.\<close>

lemma scan_loop_parse:
  assumes "bs \<noteq> []"
  shows "scan_loop sha expected records bs =
    (case wal_parse sha bs of
       Short \<Rightarrow> (records, True, None)
     | Damaged c \<Rightarrow> (records, False, Some (case c of None \<Rightarrow> expected | Some i \<Rightarrow> i))
     | Whole (i, p) \<Rightarrow>
         if i \<noteq> expected then (records, False, Some expected)
         else scan_loop sha (saturating_add expected 1) (bt_insert i p records) (drop (50 + length p) bs))"
proof -
  have body: "take n (drop 18 (take (50 + n) bs)) = take n (drop 18 bs)"
    "take (18 + n) (take (50 + n) bs) = take (18 + n) bs"
    "drop (18 + n) (take (50 + n) bs) = take 32 (drop (18 + n) bs)" for n
    by (simp_all add: drop_take)
  have sizes: "FRAME_HEADER_BYTES = 18" "FRAME_CHECKSUM_LEN = 32" "18 + n + 32 = 50 + n" "50 + n - 32 = 18 + n" for n :: nat
    by (simp_all add: FRAME_HEADER_BYTES_def FRAME_CHECKSUM_LEN_def)
  show ?thesis
    using assms unfolding wal_parse_def
    by (subst scan_loop.simps, simp only: sizes Let_def body) (simp split: option.split)
qed

lemma scan_loop_Nil [simp]: "scan_loop sha expected records [] = (records, False, None)"
  by (simp add: scan_loop.simps)

lemma scan_loop_frame:
  assumes "digest32 sha" and "entry_fits (i, p)"
  shows "scan_loop sha i records (encode_frame sha i p @ rest) = scan_loop sha (saturating_add i 1) (bt_insert i p records) rest"
proof -
  have "encode_frame sha i p @ rest \<noteq> []" using wal.frame_nonempty[of sha "(i, p)"] by simp
  then show ?thesis
    by (simp add: scan_loop_parse wal_parse_frame[OF assms] length_encode_frame[OF assms])
qed

declare of_nat_Suc [simp del]

text \<open>The entries of a log, numbered from one.\<close>

definition numbered :: "bytes list \<Rightarrow> (u64 \<times> bytes) list" where
  "numbered ps = map (\<lambda>(i, p). (word_of_nat i, p)) (List.enumerate 1 ps)"

definition log_fits :: "bytes list \<Rightarrow> bool" where
  "log_fits ps \<longleftrightarrow> length ps < 2 ^ 64 \<and> (\<forall>p \<in> set ps. length p \<le> MAX_PAYLOAD_LEN)"

lemma unat_index: "n < 2 ^ 64 \<Longrightarrow> unat (word_of_nat n :: u64) = n"
  by (simp add: unsigned_of_nat take_bit_eq_mod)

lemma index_less: "m < n \<Longrightarrow> n < 2 ^ 64 \<Longrightarrow> (word_of_nat m :: u64) < word_of_nat n"
  by (simp only: word_less_nat_alt unat_index less_trans[of m n "2 ^ 64"])

lemma saturating_index: "Suc n < 2 ^ 64 \<Longrightarrow> saturating_add (word_of_nat n) 1 = (word_of_nat (Suc n) :: u64)"
proof -
  assume n: "Suc n < 2 ^ 64"
  then have "unat (word_of_nat n :: u64) = n" by (intro unat_index) linarith
  moreover from n have "n + unat (1 :: u64) < 2 ^ LENGTH(64)" by simp
  ultimately have "saturating_add (word_of_nat n) 1 = (word_of_nat n :: u64) + 1"
    by (simp only: saturating_add_def if_True)
  then show ?thesis by (simp only: of_nat_Suc add.commute)
qed

lemma numbered_Nil [simp]: "numbered [] = []"
  by (simp add: numbered_def)

lemma numbered_snoc [simp]: "numbered (ps @ [p]) = numbered ps @ [(word_of_nat (Suc (length ps)), p)]"
  by (simp add: numbered_def enumerate_append_eq)

lemma length_numbered [simp]: "length (numbered ps) = length ps"
  by (simp add: numbered_def)

lemma numbered_keys: "fst ` set (numbered ps) = word_of_nat ` {1..length ps}"
  by (induction ps rule: rev_induct) (auto simp: atLeastAtMostSuc_conv)

lemma numbered_keys_below:
  assumes "Suc (length ps) < 2 ^ 64"
  shows "\<forall>a \<in> fst ` set (numbered ps). a < word_of_nat (Suc (length ps))"
  unfolding numbered_keys using assms by (auto intro!: index_less)

lemma bt_wf_numbered: "log_fits ps \<Longrightarrow> bt_wf (numbered ps)"
proof (induction ps rule: rev_induct)
  case (snoc p ps)
  then have "bt_wf (numbered ps)" by (simp add: log_fits_def)
  moreover have "\<forall>a \<in> fst ` set (numbered ps). a < word_of_nat (Suc (length ps))"
    using snoc.prems by (intro numbered_keys_below) (simp add: log_fits_def)
  ultimately show ?case by (auto simp: bt_wf_def sorted_wrt_append)
qed simp

lemma bt_get_numbered:
  assumes "log_fits ps"
  shows "bt_get (numbered ps) i = (if 0 < unat i \<and> unat i \<le> length ps then Some (ps ! (unat i - 1)) else None)"
  using assms
proof (induction ps rule: rev_induct)
  case (snoc p ps)
  have "i = word_of_nat (Suc (length ps)) \<longleftrightarrow> unat i = Suc (length ps)"
    using snoc.prems by (auto simp: log_fits_def word_unat_eq_iff unat_index)
  moreover have "bt_get (numbered ps @ [e]) i = (case bt_get (numbered ps) i of None \<Rightarrow> bt_get [e] i | Some v \<Rightarrow> Some v)" for e
    by (simp add: bt_get_def map_add_def split: option.split)
  moreover have "log_fits ps" using snoc.prems by (simp add: log_fits_def)
  ultimately show ?case
    using snoc.IH by (auto simp: bt_get_Cons nth_append)
qed auto

lemma numbered_fits: "log_fits ps \<Longrightarrow> list_all entry_fits (numbered ps)"
proof (induction ps rule: rev_induct)
  case (snoc p ps)
  then have "(word_of_nat (Suc (length ps)) :: u64) \<noteq> 0"
    by (simp add: log_fits_def word_unat_eq_iff unat_index)
  with snoc show ?case by (simp add: log_fits_def)
qed simp

lemma scan_numbered:
  assumes "digest32 sha"
  shows "log_fits ps \<Longrightarrow> Suc (length ps) < 2 ^ 64 \<Longrightarrow> scan_loop sha 1 [] (frames_of (wal_frame sha) (numbered ps) @ rest) =
    scan_loop sha (word_of_nat (Suc (length ps))) (numbered ps) rest"
proof (induction ps arbitrary: rest rule: rev_induct)
  case (snoc p ps)
  have ps: "log_fits ps" using snoc.prems by (simp add: log_fits_def)
  have below: "\<forall>a \<in> fst ` set (numbered ps). a < word_of_nat (Suc (length ps))"
    using snoc.prems(2) by (intro numbered_keys_below) simp
  have fits: "entry_fits (word_of_nat (Suc (length ps)), p)"
    using numbered_fits[OF snoc.prems(1)] by simp
  have "scan_loop sha 1 [] (frames_of (wal_frame sha) (numbered (ps @ [p])) @ rest) =
      scan_loop sha (word_of_nat (Suc (length ps))) (numbered ps) (encode_frame sha (word_of_nat (Suc (length ps))) p @ rest)"
    using snoc.IH[OF ps] snoc.prems(2) by simp
  also have "\<dots> = scan_loop sha (word_of_nat (Suc (Suc (length ps)))) (numbered (ps @ [p])) rest"
    using snoc.prems(2) saturating_index[of "Suc (length ps)"]
    by (simp add: scan_loop_frame[OF assms fits] bt_insert_last[OF below])
  finally show ?case by simp
qed (simp add: of_nat_Suc)

text \<open>A replica that holds a prefix of a log, cut somewhere behind it.\<close>

definition holds_prefix :: "(bytes \<Rightarrow> bytes) \<Rightarrow> bytes list \<Rightarrow> nat \<Rightarrow> bytes \<Rightarrow> bool" where
  "holds_prefix sha log n content \<longleftrightarrow> n \<le> length log \<and>
     (\<exists>part. content = frames_of (wal_frame sha) (numbered (take n log)) @ part \<and> (part = [] \<or> wal_parse sha part = Short))"

lemma scan_prefix:
  assumes "digest32 sha" and "log_fits log" "Suc (length log) < 2 ^ 64" and "holds_prefix sha log n content"
  shows "\<exists>torn. scan_loop sha 1 [] content = (numbered (take n log), torn, None)"
proof -
  from assms(4) obtain part where part: "content = frames_of (wal_frame sha) (numbered (take n log)) @ part"
    "part = [] \<or> wal_parse sha part = Short" by (auto simp: holds_prefix_def)
  have fits: "log_fits (take n log)" using assms(2) by (auto simp: log_fits_def dest: in_set_takeD)
  have "Suc (length (take n log)) < 2 ^ 64" using assms(3) by simp
  from scan_numbered[OF assms(1) fits this, of part] part show ?thesis
    by (cases "part = []") (auto simp: scan_loop_parse)
qed
end
