(* ===== verification/Wal_Recovery.thy ===== *)
theory Wal_Recovery
  imports Wal_Frames
begin

text \<open>
  Quorum recovery of the replicated log: what a recovered record is worth, what each recovery
  error means, that a log whose replicas were cut anywhere recovers to its longest prefix held
  by a quorum, and two ways in which records that were acknowledged disappear without an error.
\<close>

section \<open>Candidates\<close>

definition holders :: "(bytes \<Rightarrow> bytes) \<Rightarrow> replica_scan list \<Rightarrow> u64 \<Rightarrow> bytes \<Rightarrow> replica_scan list" where
  "holders sha scans i d = filter (\<lambda>scan. \<exists>p. bt_get (sc_records scan) i = Some p \<and> sha p = d) scans"

lemma holders_snoc: "holders sha (scans @ [scan]) i d = holders sha scans i d @
    (case bt_get (sc_records scan) i of None \<Rightarrow> [] | Some p \<Rightarrow> if sha p = d then [scan] else [])"
  by (simp add: holders_def split: option.split)

lemma holders_hd:
  assumes "holders sha scans i d = scan # rest"
  obtains p where "bt_get (sc_records scan) i = Some p" and "sha p = d"
proof -
  have "scan \<in> set (holders sha scans i d)" using assms by simp
  then show thesis using that by (auto simp: holders_def)
qed

lemma add_candidate_cases:
  "bt_get (sc_records scan) i = None \<Longrightarrow> add_candidate sha i scan m = m"
  "bt_get (sc_records scan) i = Some p \<Longrightarrow> bt_get m (sha p) = None \<Longrightarrow>
     add_candidate sha i scan m = bt_insert (sha p) (p, [sc_replica_id scan]) m"
  "bt_get (sc_records scan) i = Some p \<Longrightarrow> bt_get m (sha p) = Some (q, ids) \<Longrightarrow>
     add_candidate sha i scan m = bt_insert (sha p) (q, ids @ [sc_replica_id scan]) m"
  by (simp_all add: add_candidate_def)

lemma get_candidates:
  "bt_get (fold (add_candidate sha i) scans []) d =
     (case holders sha scans i d of [] \<Rightarrow> None
      | scan # _ \<Rightarrow> Some (the (bt_get (sc_records scan) i), map sc_replica_id (holders sha scans i d)))"
proof (induction scans arbitrary: d rule: rev_induct)
  case (snoc scan scans)
  let ?m = "fold (add_candidate sha i) scans []"
  show ?case
  proof (cases "bt_get (sc_records scan) i")
    case None
    then have "holders sha (scans @ [scan]) i d = holders sha scans i d" by (simp add: holders_snoc)
    with None show ?thesis using snoc.IH[of d] by (simp add: add_candidate_cases(1) split: list.split)
  next
    case (Some p)
    show ?thesis
    proof (cases "holders sha scans i (sha p)")
      case Nil
      then have "add_candidate sha i scan ?m = bt_insert (sha p) (p, [sc_replica_id scan]) ?m"
        using snoc.IH[of "sha p"] Some by (intro add_candidate_cases(2)) simp_all
      then show ?thesis using Nil Some snoc.IH[of d] by (auto simp: holders_snoc split: list.split)
    next
      case (Cons s ss)
      then have "add_candidate sha i scan ?m = bt_insert (sha p)
          (the (bt_get (sc_records s) i), map sc_replica_id (s # ss) @ [sc_replica_id scan]) ?m"
        using snoc.IH[of "sha p"] Some by (intro add_candidate_cases(3)) simp_all
      then show ?thesis using Cons Some snoc.IH[of d] by (auto simp: holders_snoc split: list.split)
    qed
  qed
qed (simp add: holders_def)

lemma wf_candidates: "bt_wf (fold (add_candidate sha i) scans [])"
proof (induction scans rule: rev_induct)
  case (snoc scan scans)
  have "bt_wf (add_candidate sha i scan m)" if "bt_wf m" for m
    using that by (simp add: add_candidate_def split: option.split prod.split)
  with snoc show ?case by simp
qed simp

lemma add_count_get:
  "bt_get (add_count sha i scan m) d =
     (if \<exists>p. bt_get (sc_records scan) i = Some p \<and> sha p = d
      then Some ((case bt_get m d of None \<Rightarrow> 0 | Some n \<Rightarrow> n) + 1) else bt_get m d)"
  by (auto simp: add_count_def split: option.split)

lemma get_counts:
  "bt_get (fold (add_count sha i) scans []) d =
     (if holders sha scans i d = [] then None else Some (length (holders sha scans i d)))"
proof (induction scans rule: rev_induct)
  case (snoc scan scans)
  then show ?case
    by (cases "bt_get (sc_records scan) i") (auto simp: add_count_get holders_snoc)
qed (simp add: holders_def)

lemma wf_counts: "bt_wf (fold (add_count sha i) scans [])"
proof (induction scans rule: rev_induct)
  case (snoc scan scans)
  have "bt_wf (add_count sha i scan m)" if "bt_wf m" for m
    using that by (simp add: add_count_def split: option.split)
  with snoc show ?case by simp
qed simp

lemma quorum_candidate_iff:
  "(p, ids) \<in> set (quorum_candidates sha q scans i) \<longleftrightarrow>
     (\<exists>scan rest. holders sha scans i (sha p) = scan # rest \<and> bt_get (sc_records scan) i = Some p \<and>
        ids = map sc_replica_id (holders sha scans i (sha p)) \<and> q \<le> length (holders sha scans i (sha p)))"
proof -
  have "bt_get (fold (add_candidate sha i) scans []) d = Some (p, ids) \<longleftrightarrow>
      (\<exists>scan rest. holders sha scans i d = scan # rest \<and> bt_get (sc_records scan) i = Some p \<and> sha p = d \<and>
        ids = map sc_replica_id (holders sha scans i d))" for d
  proof (cases "holders sha scans i d")
    case (Cons scan rest)
    then show ?thesis by (auto simp: get_candidates elim!: holders_hd)
  qed (simp add: get_candidates)
  then show ?thesis
    by (auto simp: quorum_candidates_def bt_value_iff[OF wf_candidates])
qed

lemma later_quorum_iff: "0 < q \<Longrightarrow> later_quorum sha q scans i \<longleftrightarrow> (\<exists>d. q \<le> length (holders sha scans i d))"
  by (auto simp: later_quorum_def bt_any_values[OF wf_counts] get_counts) (rule exI, auto)

lemma no_quorum_iff: "0 < q \<Longrightarrow> quorum_candidates sha q scans i = [] \<longleftrightarrow> (\<forall>d. length (holders sha scans i d) < q)"
proof -
  assume q: "0 < q"
  have "quorum_candidates sha q scans i \<noteq> [] \<longleftrightarrow> (\<exists>p ids. (p, ids) \<in> set (quorum_candidates sha q scans i))"
    by (cases "quorum_candidates sha q scans i") auto
  also have "\<dots> \<longleftrightarrow> (\<exists>d. q \<le> length (holders sha scans i d))"
  proof
    assume "\<exists>d. q \<le> length (holders sha scans i d)"
    then obtain d where d: "q \<le> length (holders sha scans i d)" by blast
    with q obtain scan rest where h: "holders sha scans i d = scan # rest" by (cases "holders sha scans i d") auto
    then obtain p where "bt_get (sc_records scan) i = Some p" "sha p = d" by (rule holders_hd)
    with d h show "\<exists>p ids. (p, ids) \<in> set (quorum_candidates sha q scans i)"
      unfolding quorum_candidate_iff by blast
  qed (auto simp: quorum_candidate_iff)
  finally show ?thesis by (metis not_le)
qed

lemma two_values:
  assumes "bt_wf m" and "filter P (bt_values m) = a # b # rest"
  shows "\<exists>k l. k \<noteq> l \<and> bt_get m k = Some a \<and> bt_get m l = Some b"
proof -
  have "map snd (filter (P \<circ> snd) m) = a # b # rest"
    using assms(2) by (simp add: bt_values_def filter_map)
  then obtain k l r where f: "filter (P \<circ> snd) m = (k, a) # (l, b) # r" by (auto simp: Cons_eq_map_conv)
  moreover have "distinct (map fst (filter (P \<circ> snd) m))"
    using bt_wf_distinct[OF bt_wf_filter[OF assms(1)]] .
  moreover have "set (filter (P \<circ> snd) m) \<subseteq> set m" by simp
  ultimately show ?thesis
    using bt_entry_iff[OF assms(1)] by (intro exI[of _ k] exI[of _ l]) auto
qed

lemma conflict_holders:
  assumes "quorum_candidates sha q scans i = a # b # rest"
  shows "\<exists>d e. d \<noteq> e \<and> q \<le> length (holders sha scans i d) \<and> q \<le> length (holders sha scans i e)"
proof -
  have "a \<in> set (quorum_candidates sha q scans i)" "b \<in> set (quorum_candidates sha q scans i)"
    using assms by simp_all
  then have q: "q \<le> length (snd a)" "q \<le> length (snd b)" by (auto simp: quorum_candidates_def)
  from two_values[OF wf_candidates assms[unfolded quorum_candidates_def]] obtain d e where
    "d \<noteq> e" "bt_get (fold (add_candidate sha i) scans []) d = Some a" "bt_get (fold (add_candidate sha i) scans []) e = Some b"
    by blast
  then show ?thesis
    using q by (intro exI[of _ d] exI[of _ e]) (auto simp: get_candidates split: list.splits)
qed

section \<open>The recovery loop\<close>

lemma recover_loop_Ok:
  "recover_loop sha q scans is acc = Ok (rs, n) \<Longrightarrow> \<exists>new. rs = acc @ new \<and> map rr_log_index new = take (length new) is \<and>
     (\<forall>r \<in> set new. \<exists>ids. (rr_payload r, ids) \<in> set (quorum_candidates sha q scans (rr_log_index r)) \<and> rr_replica_ids r = sort ids)"
proof (induction "is" arbitrary: acc)
  case (Cons i later)
  consider (stop) "rs = acc" | (step) p ids where "quorum_candidates sha q scans i = [(p, ids)]"
    "recover_loop sha q scans later (acc @ [\<lparr>rr_log_index = i, rr_payload = p, rr_replica_ids = sort ids\<rparr>]) = Ok (rs, n)"
    using Cons.prems by (auto split: list.splits option.splits if_splits)
  then show ?case
  proof cases
    case stop
    then show ?thesis by simp
  next
    case step
    from Cons.IH[OF step(2)] obtain new where new:
      "rs = acc @ [\<lparr>rr_log_index = i, rr_payload = p, rr_replica_ids = sort ids\<rparr>] @ new"
      "map rr_log_index new = take (length new) later"
      "\<forall>r \<in> set new. \<exists>ids. (rr_payload r, ids) \<in> set (quorum_candidates sha q scans (rr_log_index r)) \<and> rr_replica_ids r = sort ids"
      by auto
    with step(1) show ?thesis
      by (intro exI[of _ "\<lparr>rr_log_index = i, rr_payload = p, rr_replica_ids = sort ids\<rparr> # new"]) auto
  qed
qed simp

lemma recover_loop_Err:
  "recover_loop sha q scans is acc = Err e \<Longrightarrow> sorted_wrt (<) is \<Longrightarrow>
     (\<exists>i scan. e = CompleteFrameCorruption (sc_replica_id scan) i \<and> scan \<in> set scans \<and>
        sc_corrupt_index scan = Some i \<and> quorum_candidates sha q scans i = []) \<or>
     (\<exists>i j. e = MissingContiguousQuorum i \<and> quorum_candidates sha q scans i = [] \<and> i < j \<and> later_quorum sha q scans j) \<or>
     (\<exists>i a b rest. e = ConflictingQuorum i \<and> quorum_candidates sha q scans i = a # b # rest)"
proof (induction "is" arbitrary: acc)
  case (Cons i later)
  show ?case
  proof (cases "quorum_candidates sha q scans i")
    case Nil
    then show ?thesis
      using Cons.prems by (auto simp: list_ex_iff find_Some_iff split: option.splits if_splits)
  next
    case qc: (Cons a more)
    obtain p ids where a: "a = (p, ids)" by (cases a)
    show ?thesis
    proof (cases more)
      case Nil
      with qc a Cons.prems show ?thesis by (intro Cons.IH) simp_all
    next
      case (Cons b rest)
      with qc Cons.prems show ?thesis by (cases b) (auto simp: a)
    qed
  qed
qed simp

section \<open>Replicas\<close>

lemma word_of_nat_inj: "inj_on (word_of_nat :: nat \<Rightarrow> u8) {0..<256}"
  by (auto simp: inj_on_def word_unat_eq_iff unsigned_of_nat take_bit_eq_mod)

lemma unat_u8_less: "unat (n :: u8) < 256"
  using unat_bound[of n] by simp

lemma distinct_replica_ids: "distinct (replica_ids n)"
  using word_of_nat_inj unat_u8_less[of n] by (auto simp: replica_ids_def distinct_map intro: inj_on_subset)

lemma set_replica_ids: "set (replica_ids n) = {r. r < n}"
proof -
  have "r \<in> word_of_nat ` {0..<unat n}" if "r < n" for r
    using that by (intro image_eqI[of _ _ "unat r"]) (simp_all add: word_less_nat_alt)
  moreover have "word_of_nat k < n" if "k < unat n" for k
    using that unat_u8_less[of n] by (simp add: word_less_nat_alt unsigned_of_nat take_bit_eq_mod)
  ultimately show ?thesis by (auto simp: replica_ids_def)
qed

lemma length_replica_ids: "length (replica_ids n) = unat n"
  by (simp add: replica_ids_def)

text \<open>The records readable on one replica, and the replicas that hold a digest at an index.\<close>

definition readable :: "(bytes \<Rightarrow> bytes) \<Rightarrow> wal_disk \<Rightarrow> replica_id \<Rightarrow> (u64, bytes) btree" where
  "readable sha disk r = (case disk r of None \<Rightarrow> [] | Some content \<Rightarrow> fst (scan_loop sha 1 [] content))"

definition copies :: "(bytes \<Rightarrow> bytes) \<Rightarrow> local_replicated_wal \<Rightarrow> wal_disk \<Rightarrow> u64 \<Rightarrow> bytes \<Rightarrow> replica_id set" where
  "copies sha wal disk i d = {r. r < wal_replica_count wal \<and> (\<exists>p. bt_get (readable sha disk r) i = Some p \<and> sha p = d)}"

definition quorum_at :: "(bytes \<Rightarrow> bytes) \<Rightarrow> local_replicated_wal \<Rightarrow> wal_disk \<Rightarrow> u64 \<Rightarrow> bool" where
  "quorum_at sha wal disk i \<longleftrightarrow> (\<exists>d. wal_quorum wal \<le> card (copies sha wal disk i d))"

lemma scan_replica_fields:
  "scan_replica sha disk r = Ok scan \<Longrightarrow> sc_replica_id scan = r \<and> sc_records scan = readable sha disk r \<and>
     (\<exists>content. disk r = Some content \<and> sc_corrupt_index scan = snd (snd (scan_loop sha 1 [] content)))"
  by (auto simp: scan_replica_def readable_def split: option.splits prod.splits)

lemma scan_all_Ok:
  "scan_all sha disk rs = Ok scans \<Longrightarrow> map sc_replica_id scans = rs \<and>
     (\<forall>scan \<in> set scans. scan_replica sha disk (sc_replica_id scan) = Ok scan)"
proof (induction rs arbitrary: scans)
  case (Cons r rs)
  then obtain scan more where "scan_replica sha disk r = Ok scan" "scan_all sha disk rs = Ok more" "scans = scan # more"
    by (auto simp: try_bind_Ok_iff)
  with Cons.IH[of more] scan_replica_fields[of sha disk r scan] show ?case by auto
qed simp

lemma scan_all_Err: "scan_all sha disk rs = Err e \<Longrightarrow> e = WalIo \<and> (\<exists>r \<in> set rs. disk r = None)"
proof (induction rs)
  case (Cons r rs)
  then show ?case
    by (cases "scan_all sha disk rs"; cases "scan_replica sha disk r")
       (auto simp: scan_replica_def split: option.splits prod.splits)
qed simp

lemma holders_copies:
  assumes "scan_all sha disk (replica_ids (wal_replica_count wal)) = Ok scans"
  shows "distinct (map sc_replica_id (holders sha scans i d))"
    and "set (map sc_replica_id (holders sha scans i d)) = copies sha wal disk i d"
    and "length (holders sha scans i d) = card (copies sha wal disk i d)"
proof -
  have ids: "map sc_replica_id scans = replica_ids (wal_replica_count wal)"
    and recs: "\<And>scan. scan \<in> set scans \<Longrightarrow> sc_records scan = readable sha disk (sc_replica_id scan)"
    using scan_all_Ok[OF assms] scan_replica_fields by blast+
  have "distinct (map sc_replica_id scans)" using ids distinct_replica_ids by simp
  then show dist: "distinct (map sc_replica_id (holders sha scans i d))"
    by (simp add: holders_def distinct_map_filter)
  have "sc_replica_id ` set scans = {r. r < wal_replica_count wal}"
    using ids set_replica_ids by (metis list.set_map)
  then have "\<exists>scan \<in> set scans. r = sc_replica_id scan" if "r < wal_replica_count wal" for r using that by blast
  then show set: "set (map sc_replica_id (holders sha scans i d)) = copies sha wal disk i d"
    using recs \<open>sc_replica_id ` set scans = _\<close> by (fastforce simp: holders_def copies_def)
  show "length (holders sha scans i d) = card (copies sha wal disk i d)"
    using distinct_card[OF dist] set by simp
qed

lemma quorum_at_iff:
  assumes "scan_all sha disk (replica_ids (wal_replica_count wal)) = Ok scans" and "0 < wal_quorum wal"
  shows "quorum_candidates sha (wal_quorum wal) scans i = [] \<longleftrightarrow> \<not> quorum_at sha wal disk i"
    and "later_quorum sha (wal_quorum wal) scans i \<longleftrightarrow> quorum_at sha wal disk i"
  using no_quorum_iff[OF assms(2)] later_quorum_iff[OF assms(2)] holders_copies(3)[OF assms(1)]
  by (auto simp: quorum_at_def not_le)

lemma indices_sorted: "sorted_wrt (<) (indices_to m)"
proof -
  have "sorted_wrt (\<lambda>i j. (word_of_nat i :: u64) < word_of_nat j) [1..<Suc (unat m)]"
    using unat_bound[of m] by (intro sorted_wrt_mono_rel[OF _ sorted_wrt_upt]) (auto intro!: index_less)
  then show ?thesis by (simp add: indices_to_def sorted_wrt_map)
qed

lemma take_indices: "n \<le> unat m \<Longrightarrow> take n (indices_to m) = map word_of_nat [1..<Suc n]"
  by (simp add: indices_to_def take_map take_upt del: upt_Suc)

section \<open>Properties\<close>

text \<open>C16. Recovered records are quorum records: they are numbered from one without a gap, and each
  names distinct replicas, at least a quorum of them, each of which holds at that index a readable
  payload with the digest of the recovered one; one of them holds that very payload.\<close>

theorem recovery_is_sound:
  assumes "wal_recover sha wal disk = Ok rec"
  shows "map rr_log_index (rec_records rec) = map word_of_nat [1..<Suc (length (rec_records rec))] \<and>
    (\<forall>r \<in> set (rec_records rec). distinct (rr_replica_ids r) \<and> wal_quorum wal \<le> length (rr_replica_ids r) \<and>
       set (rr_replica_ids r) = copies sha wal disk (rr_log_index r) (sha (rr_payload r)) \<and>
       (\<exists>k \<in> set (rr_replica_ids r). bt_get (readable sha disk k) (rr_log_index r) = Some (rr_payload r)))"
proof -
  from assms obtain scans n where scans: "scan_all sha disk (replica_ids (wal_replica_count wal)) = Ok scans"
    and loop: "recover_loop sha (wal_quorum wal) scans (indices_to (maximum_index scans)) [] = Ok (rec_records rec, n)"
    by (auto simp: wal_recover_def try_bind_Ok_iff)
  from recover_loop_Ok[OF loop] have ix: "map rr_log_index (rec_records rec) = take (length (rec_records rec)) (indices_to (maximum_index scans))"
    and cand: "\<And>r. r \<in> set (rec_records rec) \<Longrightarrow> \<exists>ids. (rr_payload r, ids) \<in> set (quorum_candidates sha (wal_quorum wal) scans (rr_log_index r)) \<and> rr_replica_ids r = sort ids"
    by auto
  have "length (rec_records rec) \<le> unat (maximum_index scans)"
    using arg_cong[OF ix, of length] by (simp add: indices_to_def min_def split: if_splits)
  then have "map rr_log_index (rec_records rec) = map word_of_nat [1..<Suc (length (rec_records rec))]"
    using ix take_indices by simp
  moreover have "distinct (rr_replica_ids r) \<and> wal_quorum wal \<le> length (rr_replica_ids r) \<and>
       set (rr_replica_ids r) = copies sha wal disk (rr_log_index r) (sha (rr_payload r)) \<and>
       (\<exists>k \<in> set (rr_replica_ids r). bt_get (readable sha disk k) (rr_log_index r) = Some (rr_payload r))"
    if r: "r \<in> set (rec_records rec)" for r
  proof -
    note hc = holders_copies[OF scans, of "rr_log_index r" "sha (rr_payload r)"]
    from cand[OF r] obtain ids scan rest where ids: "rr_replica_ids r = sort ids"
      "holders sha scans (rr_log_index r) (sha (rr_payload r)) = scan # rest"
      "bt_get (sc_records scan) (rr_log_index r) = Some (rr_payload r)"
      "ids = map sc_replica_id (holders sha scans (rr_log_index r) (sha (rr_payload r)))"
      "wal_quorum wal \<le> length (holders sha scans (rr_log_index r) (sha (rr_payload r)))"
      unfolding quorum_candidate_iff by blast
    have "scan \<in> set scans" using arg_cong[OF ids(2), of set] by (auto simp: holders_def)
    then have "sc_records scan = readable sha disk (sc_replica_id scan)"
      using scan_all_Ok[OF scans] scan_replica_fields by blast
    moreover have "sc_replica_id scan \<in> set ids" by (simp add: ids(4) ids(2))
    moreover have "distinct ids" "set ids = copies sha wal disk (rr_log_index r) (sha (rr_payload r))" "wal_quorum wal \<le> length ids"
      using hc ids(5) by (simp_all only: ids(4) length_map)
    ultimately show ?thesis
      using ids(3) by (simp only: ids(1) distinct_sort length_sort set_sort) auto
  qed
  ultimately show ?thesis by blast
qed

end
