(* ===== verification/Wal_Durability.thy ===== *)
theory Wal_Durability
  imports Wal_Recovery
begin

text \<open>
  Durability of the replicated log: replicas that hold prefixes of one log recover to its longest
  prefix held by a quorum, an acknowledged append is recovered, and two ways in which
  acknowledged records disappear without an error.
\<close>

section \<open>Scans of prefixes\<close>

text \<open>The replicas, given by how much of \<open>log\<close> is readable on each.\<close>

definition count_at :: "(replica_id \<Rightarrow> nat) \<Rightarrow> replica_id list \<Rightarrow> nat \<Rightarrow> nat" where
  "count_at len rs k = length (filter (\<lambda>r. k \<le> len r) rs)"

lemma count_at_antimono: "j \<le> k \<Longrightarrow> count_at len rs k \<le> count_at len rs j"
  unfolding count_at_def by (induction rs) auto

definition prefix_scans :: "bytes list \<Rightarrow> replica_id list \<Rightarrow> (replica_id \<Rightarrow> nat) \<Rightarrow> (replica_id \<Rightarrow> replica_scan) \<Rightarrow> bool" where
  "prefix_scans log rs len scan \<longleftrightarrow> log_fits log \<and> (\<forall>r. sc_replica_id (scan r) = r) \<and>
     (\<forall>r \<in> set rs. len r \<le> length log \<and> sc_records (scan r) = numbered (take (len r) log))"

abbreviation at_least :: "(replica_id \<Rightarrow> nat) \<Rightarrow> replica_id list \<Rightarrow> nat \<Rightarrow> replica_id list" where
  "at_least len rs k \<equiv> filter (\<lambda>r. k \<le> len r) rs"

lemma log_fits_take: "log_fits log \<Longrightarrow> log_fits (take n log)"
  by (auto simp: log_fits_def dest: in_set_takeD)

lemma get_record:
  assumes ps: "prefix_scans log rs len scan" and r: "r \<in> set rs"
  shows "bt_get (sc_records (scan r)) i = (if 0 < unat i \<and> unat i \<le> len r then Some (log ! (unat i - 1)) else None)"
  using assms by (auto simp: prefix_scans_def bt_get_numbered[OF log_fits_take])

lemma holders_at:
  assumes ps: "prefix_scans log rs len scan" and "0 < unat i"
  shows "holders sha (map scan rs) i d = (if d = sha (log ! (unat i - 1)) then map scan (at_least len rs (unat i)) else [])"
proof -
  have "(\<exists>p. bt_get (sc_records (scan r)) i = Some p \<and> sha p = d) \<longleftrightarrow> unat i \<le> len r \<and> d = sha (log ! (unat i - 1))"
    if "r \<in> set rs" for r
    using get_record[OF ps that] assms(2) by auto
  then have "filter (\<lambda>r. \<exists>p. bt_get (sc_records (scan r)) i = Some p \<and> sha p = d) rs =
      filter (\<lambda>r. unat i \<le> len r \<and> d = sha (log ! (unat i - 1))) rs"
    by (rule filter_cong[OF refl])
  then show ?thesis
    by (simp add: holders_def filter_map o_def)
qed

lemma candidates_at:
  assumes ps: "prefix_scans log rs len scan" and "0 < q" and "0 < unat i"
  shows "quorum_candidates sha q (map scan rs) i =
    (if q \<le> count_at len rs (unat i) then [(log ! (unat i - 1), at_least len rs (unat i))] else [])"
proof -
  let ?p = "log ! (unat i - 1)"
  have "fold (add_candidate sha i) (map scan rs) [] = (if at_least len rs (unat i) = [] then [] else [(sha ?p, (?p, at_least len rs (unat i)))])"
  proof (rule bt_ext)
    show "bt_wf (fold (add_candidate sha i) (map scan rs) [])" by (rule wf_candidates)
    show "bt_wf (if at_least len rs (unat i) = [] then [] else [(sha ?p, (?p, at_least len rs (unat i)))])" by (simp add: bt_wf_def)
    show "bt_get (fold (add_candidate sha i) (map scan rs) []) d = bt_get (if at_least len rs (unat i) = [] then [] else [(sha ?p, (?p, at_least len rs (unat i)))]) d" for d
    proof (cases "at_least len rs (unat i)")
      case Nil
      then show ?thesis by (simp add: get_candidates holders_at[OF ps assms(3)])
    next
      case (Cons r more)
      then have "r \<in> set (at_least len rs (unat i))" by simp
      then have "the (bt_get (sc_records (scan r)) i) = ?p" using get_record[OF ps, of r i] assms(3) by simp
      moreover have "map sc_replica_id (map scan (at_least len rs (unat i))) = at_least len rs (unat i)" using ps by (simp add: prefix_scans_def o_def)
      ultimately show ?thesis
        using Cons by (simp add: get_candidates holders_at[OF ps assms(3)] bt_get_Cons)
    qed
  qed
  then show ?thesis
    using assms(2) by (simp add: quorum_candidates_def bt_values_def count_at_def)
qed

lemma later_quorum_at: "prefix_scans log rs len scan \<Longrightarrow> 0 < q \<Longrightarrow> 0 < unat i \<Longrightarrow> later_quorum sha q (map scan rs) i \<longleftrightarrow> q \<le> count_at len rs (unat i)"
  by (auto simp: later_quorum_iff holders_at count_at_def)

lemma ignored_at:
  assumes ps: "prefix_scans log rs len scan" and "r \<in> set rs" and "Suc k < 2 ^ 64"
  shows "length (filter (\<lambda>(j, _). word_of_nat (Suc k) \<le> j) (sc_records (scan r))) = len r - k"
proof -
  have "length (filter (\<lambda>(j, _). word_of_nat (Suc k) \<le> j) (numbered ps)) = length ps - k" if "log_fits ps" for ps :: "bytes list"
    using that
  proof (induction ps rule: rev_induct)
    case (snoc p ps)
    have "(word_of_nat (Suc k) :: u64) \<le> word_of_nat (Suc (length ps)) \<longleftrightarrow> k \<le> length ps"
      using snoc.prems assms(3) unat_index[of "Suc k"] unat_index[of "Suc (length ps)"]
      by (simp add: word_le_nat_alt log_fits_def)
    with snoc show ?case by (simp add: log_fits_def Suc_diff_le)
  qed simp
  then show ?thesis
    using assms(1,2) by (auto simp: prefix_scans_def log_fits_take)
qed

section \<open>The recovery loop on prefixes\<close>

lemma fold_max_start: "a \<le> fold max xs (a :: 'a::linorder)"
  by (induction xs arbitrary: a) (auto intro: order_trans[OF max.cobounded2])

lemma fold_max_ge: "x \<in> set xs \<Longrightarrow> x \<le> fold max xs (a :: 'a::linorder)"
proof (induction xs arbitrary: a)
  case (Cons y xs)
  then show ?case using fold_max_start[of "max y a" xs] by auto
qed simp

lemma fold_max_in: "fold max xs (a :: 'a::linorder) \<in> insert a (set xs)"
  by (induction xs arbitrary: a) (auto simp: max_def split: if_splits)

lemma last_numbered: "ps \<noteq> [] \<Longrightarrow> fst (last (numbered ps)) = word_of_nat (length ps)"
  by (cases ps rule: rev_cases) auto

lemma maximum_index_prefixes:
  assumes ps: "prefix_scans log rs len scan"
  shows "unat (maximum_index (map scan rs)) \<le> length log"
    and "r \<in> set rs \<Longrightarrow> len r \<le> unat (maximum_index (map scan rs))"
    and "unat (maximum_index (map scan rs)) \<in> insert 0 (len ` set rs)"
proof -
  define lasts where "lasts = map (\<lambda>s. fst (last (sc_records s))) (filter (\<lambda>s. sc_records s \<noteq> []) (map scan rs))"
  have max: "maximum_index (map scan rs) = fold max lasts 0" by (simp add: maximum_index_def lasts_def)
  have len: "length log < 2 ^ 64" using ps by (simp add: prefix_scans_def log_fits_def)
  have last: "fst (last (sc_records (scan r))) = word_of_nat (len r)" if "r \<in> set rs" "sc_records (scan r) \<noteq> []" for r
  proof -
    have "len r \<le> length log" "sc_records (scan r) = numbered (take (len r) log)" using ps that by (auto simp: prefix_scans_def)
    with that(2) last_numbered[of "take (len r) log"] show ?thesis by (cases "take (len r) log = []") auto
  qed
  have small: "unat (word_of_nat (len r) :: u64) = len r" if "r \<in> set rs" for r
    using ps that len by (intro unat_index) (auto simp: prefix_scans_def)
  have "unat x \<in> insert 0 (len ` set rs)" if "x \<in> insert 0 (set lasts)" for x
    using that last small by (auto simp: lasts_def)
  from this[OF fold_max_in[of lasts 0]] show "unat (maximum_index (map scan rs)) \<in> insert 0 (len ` set rs)"
    by (simp only: max)
  then show "unat (maximum_index (map scan rs)) \<le> length log"
    using ps by (auto simp: prefix_scans_def)
  show "len r \<le> unat (maximum_index (map scan rs))" if r: "r \<in> set rs"
  proof (cases "len r = 0 \<or> log = []")
    case True
    then show ?thesis using ps r by (auto simp: prefix_scans_def)
  next
    case False
    have rec: "sc_records (scan r) = numbered (take (len r) log)" using ps r by (simp add: prefix_scans_def)
    have "sc_records (scan r) \<noteq> []"
      using arg_cong[OF rec, of length] False by (auto simp: min_def split: if_splits)
    then have "fst (last (sc_records (scan r))) \<in> set lasts" using r by (auto simp: lasts_def)
    then have "word_of_nat (len r) \<le> maximum_index (map scan rs)"
      using fold_max_ge max last[OF r \<open>sc_records (scan r) \<noteq> []\<close>] by metis
    then show ?thesis using small[OF r] by (simp add: word_le_nat_alt)
  qed
qed

definition prefix_record :: "bytes list \<Rightarrow> (replica_id \<Rightarrow> nat) \<Rightarrow> replica_id list \<Rightarrow> nat \<Rightarrow> recovered_record" where
  "prefix_record log len rs k =
     \<lparr>rr_log_index = word_of_nat k, rr_payload = log ! (k - 1), rr_replica_ids = sort (at_least len rs k)\<rparr>"

lemma recover_loop_prefixes:
  assumes ps: "prefix_scans log rs len scan" and q: "0 < q" and n: "n \<le> length log" "Suc (length log) < 2 ^ 64"
    and top: "\<And>r. r \<in> set rs \<Longrightarrow> len r \<le> n"
    and corrupt: "\<And>r i. r \<in> set rs \<Longrightarrow> sc_corrupt_index (scan r) = Some i \<Longrightarrow> q \<le> count_at len rs (unat i) \<or> n < unat i"
  shows "k \<le> n \<Longrightarrow> \<exists>m. k \<le> m \<and> m \<le> n \<and>
    recover_loop sha q (map scan rs) (map word_of_nat [Suc k..<Suc n]) acc =
      Ok (acc @ map (prefix_record log len rs) [Suc k..<Suc m], sum_list (map (\<lambda>r. to_u64 (len r - m)) rs)) \<and>
    (\<forall>j > k. j \<le> m \<longleftrightarrow> q \<le> count_at len rs j)"
proof (induction "n - k" arbitrary: k acc)
  case 0
  then have k: "k = n" by simp
  have "map (\<lambda>r. to_u64 (len r - n)) rs = map (\<lambda>_. 0) rs"
    using top by (intro map_cong) (auto simp: to_u64_def)
  then have zero: "sum_list (map (\<lambda>r. to_u64 (len r - n)) rs) = 0" by (simp only: sum_list_0)
  have "filter (\<lambda>r. j \<le> len r) rs = []" if "n < j" for j
    using top that by (fastforce simp: filter_empty_conv)
  then have "\<forall>j > n. j \<le> n \<longleftrightarrow> q \<le> count_at len rs j" using q by (auto simp: count_at_def)
  with zero k show ?case by (intro exI[of _ n]) simp
next
  case (Suc d)
  then have k: "k < n" and d: "d = n - Suc k" by simp_all
  define i :: u64 where "i = word_of_nat (Suc k)"
  have i: "unat i = Suc k" using k n by (simp only: i_def) (intro unat_index, linarith)
  have split: "map word_of_nat [Suc k..<Suc n] = i # map word_of_nat [Suc (Suc k)..<Suc n]"
    using k by (simp add: i_def upt_conv_Cons del: upt_Suc)
  note cand = candidates_at[OF ps q, of i sha, unfolded i, OF zero_less_Suc]
  show ?case
  proof (cases "q \<le> count_at len rs (Suc k)")
    case True
    have "recover_loop sha q (map scan rs) (map word_of_nat [Suc k..<Suc n]) acc =
        recover_loop sha q (map scan rs) (map word_of_nat [Suc (Suc k)..<Suc n]) (acc @ [prefix_record log len rs (Suc k)])"
      unfolding split using cand True by (simp add: prefix_record_def i_def)
    moreover obtain m where "Suc k \<le> m" "m \<le> n" and rec:
      "recover_loop sha q (map scan rs) (map word_of_nat [Suc (Suc k)..<Suc n]) (acc @ [prefix_record log len rs (Suc k)]) =
        Ok ((acc @ [prefix_record log len rs (Suc k)]) @ map (prefix_record log len rs) [Suc (Suc k)..<Suc m],
          sum_list (map (\<lambda>r. to_u64 (len r - m)) rs))" and above: "\<forall>j > Suc k. j \<le> m \<longleftrightarrow> q \<le> count_at len rs j"
      using Suc.hyps(1)[OF d, of "acc @ [prefix_record log len rs (Suc k)]"] k by (auto simp del: upt_Suc)
    moreover have "[Suc k..<Suc m] = Suc k # [Suc (Suc k)..<Suc m]" using \<open>Suc k \<le> m\<close> by (simp add: upt_conv_Cons del: upt_Suc)
    moreover have "j \<le> m \<longleftrightarrow> q \<le> count_at len rs j" if "k < j" for j
      using above True \<open>Suc k \<le> m\<close> that by (cases "j = Suc k") auto
    moreover have "k \<le> m" using \<open>Suc k \<le> m\<close> by simp
    ultimately show ?thesis by (intro exI[of _ m]) (simp del: upt_Suc)
  next
    case False
    have less: "count_at len rs j < q" if "k < j" for j
      using count_at_antimono[of "Suc k" j len rs] False that by simp
    have "find (\<lambda>s. sc_corrupt_index s = Some i) (map scan rs) = None"
      using corrupt False i k by (fastforce simp: find_None_iff)
    moreover have "\<not> list_ex (later_quorum sha q (map scan rs)) (map word_of_nat [Suc (Suc k)..<Suc n])"
    proof -
      have "\<not> later_quorum sha q (map scan rs) (word_of_nat j)" if "k < j" "j \<le> n" for j
        using later_quorum_at[OF ps q, of "word_of_nat j" sha] unat_index[of j] that n less[OF that(1)] by simp
      then show ?thesis by (auto simp: list_ex_iff)
    qed
    moreover have "map (\<lambda>s. to_u64 (length (filter (\<lambda>(j, _). i \<le> j) (sc_records s)))) (map scan rs) = map (\<lambda>r. to_u64 (len r - k)) rs"
      using ignored_at[OF ps] k n by (simp add: i_def)
    ultimately have "recover_loop sha q (map scan rs) (map word_of_nat [Suc k..<Suc n]) acc = Ok (acc, sum_list (map (\<lambda>r. to_u64 (len r - k)) rs))"
      unfolding split using cand False by (simp del: map_map)
    moreover have "\<forall>j > k. j \<le> k \<longleftrightarrow> q \<le> count_at len rs j" using less by (auto simp: not_le)
    ultimately show ?thesis using k by (intro exI[of _ k]) simp
  qed
qed

section \<open>Recovery of cut replicas\<close>

lemma scan_all_map: "(\<And>r. r \<in> set rs \<Longrightarrow> scan_replica sha disk r = Ok (scan r)) \<Longrightarrow> scan_all sha disk rs = Ok (map scan rs)"
  by (induction rs) auto

text \<open>
  Replicas on each of which a prefix of \<open>log\<close> is readable, with a scan that stopped at a damaged
  frame only behind what a quorum holds or behind every readable record.
\<close>

lemma recover_readable_prefixes:
  assumes "log_fits log" "Suc (length log) < 2 ^ 64" and q: "0 < wal_quorum wal"
    and scan: "\<And>r. r < wal_replica_count wal \<Longrightarrow> \<exists>c torn. disk r = Some c \<and> len r \<le> length log \<and>
      scan_loop sha 1 [] c = (numbered (take (len r) log), torn, bad r)"
    and bad: "\<And>r i. r < wal_replica_count wal \<Longrightarrow> bad r = Some i \<Longrightarrow> wal_quorum wal \<le> card {r. r < wal_replica_count wal \<and> unat i \<le> len r} \<or>
      (\<forall>r < wal_replica_count wal. len r < unat i)"
  shows "\<exists>rec m. wal_recover sha wal disk = Ok rec \<and> m \<le> length log \<and> map rr_payload (rec_records rec) = take m log \<and>
    (\<forall>k > 0. k \<le> m \<longleftrightarrow> wal_quorum wal \<le> card {r. r < wal_replica_count wal \<and> k \<le> len r}) \<and>
    rec_ignored_uncommitted_records rec = sum_list (map (\<lambda>r. to_u64 (len r - m)) (replica_ids (wal_replica_count wal)))"
proof -
  let ?rs = "replica_ids (wal_replica_count wal)"
  define sc where "sc r = (case scan_replica sha disk r of Ok s \<Rightarrow> s | Err _ \<Rightarrow> \<lparr>sc_replica_id = r, sc_records = [], sc_torn_tail = False,
     sc_corrupt_index = None, sc_physical_bytes = 0\<rparr>)" for r
  have sc_id: "sc_replica_id (sc r) = r" for r
    by (auto simp: sc_def scan_replica_def split: result.split option.split prod.split)
  have sc: "scan_replica sha disk r = Ok (sc r)" "sc_records (sc r) = numbered (take (len r) log)" "len r \<le> length log"
    "sc_corrupt_index (sc r) = bad r" if "r \<in> set ?rs" for r
    using scan[of r] that by (auto simp: set_replica_ids sc_def scan_replica_def)
  have count: "count_at len ?rs k = card {r. r < wal_replica_count wal \<and> k \<le> len r}" for k
  proof -
    have "card (set (filter (\<lambda>r. k \<le> len r) ?rs)) = length (filter (\<lambda>r. k \<le> len r) ?rs)"
      by (intro distinct_card distinct_filter distinct_replica_ids)
    then show ?thesis by (simp add: count_at_def set_replica_ids)
  qed
  have ps: "prefix_scans log ?rs len sc"
    using assms(1) sc(2,3) sc_id by (simp add: prefix_scans_def)
  let ?n = "unat (maximum_index (map sc ?rs))"
  note n = maximum_index_prefixes[OF ps]
  have corr: "wal_quorum wal \<le> count_at len ?rs (unat i) \<or> ?n < unat i" if r: "r \<in> set ?rs" "sc_corrupt_index (sc r) = Some i" for r i
  proof -
    have "?n < unat i" if "\<forall>r < wal_replica_count wal. len r < unat i"
      using n(3) that r(1) by (auto simp: set_replica_ids)
    then show ?thesis
      using bad[of r i] r sc(4)[OF r(1)] by (auto simp: count set_replica_ids)
  qed
  have "\<exists>m\<ge>0. m \<le> ?n \<and> recover_loop sha (wal_quorum wal) (map sc ?rs) (map word_of_nat [Suc 0..<Suc ?n]) [] =
      Ok ([] @ map (prefix_record log len ?rs) [Suc 0..<Suc m], sum_list (map (\<lambda>r. to_u64 (len r - m)) ?rs)) \<and>
      (\<forall>j > 0. j \<le> m \<longleftrightarrow> wal_quorum wal \<le> count_at len ?rs j)"
    by (rule recover_loop_prefixes[OF ps q n(1) assms(2) n(2)]) (use corr in auto)
  then obtain m where m: "m \<le> ?n"
    "recover_loop sha (wal_quorum wal) (map sc ?rs) (indices_to (maximum_index (map sc ?rs))) [] =
      Ok (map (prefix_record log len ?rs) [1..<Suc m], sum_list (map (\<lambda>r. to_u64 (len r - m)) ?rs))"
    "\<forall>j > 0. j \<le> m \<longleftrightarrow> wal_quorum wal \<le> count_at len ?rs j"
    by (auto simp: indices_to_def simp del: upt_Suc)
  have "map rr_payload (map (prefix_record log len ?rs) [1..<Suc m]) = take m log"
    using m(1) n(1) by (intro nth_equalityI) (simp_all add: prefix_record_def del: upt_Suc)
  moreover obtain rec where "wal_recover sha wal disk = Ok rec" "rec_records rec = map (prefix_record log len ?rs) [1..<Suc m]"
    "rec_ignored_uncommitted_records rec = sum_list (map (\<lambda>r. to_u64 (len r - m)) ?rs)"
    by (simp add: wal_recover_def scan_all_map[of ?rs sha disk sc, OF sc(1)] m(2) del: upt_Suc)
  ultimately show ?thesis
    using m(1,3) n(1) by (intro exI[of _ rec] exI[of _ m]) (simp add: count del: upt_Suc)
qed

lemma recover_prefixes:
  assumes "digest32 sha" and "log_fits log" "Suc (length log) < 2 ^ 64" and "0 < wal_quorum wal"
    and "\<forall>r < wal_replica_count wal. \<exists>c. disk r = Some c \<and> holds_prefix sha log (len r) c"
  shows "\<exists>rec m. wal_recover sha wal disk = Ok rec \<and> m \<le> length log \<and> map rr_payload (rec_records rec) = take m log \<and>
    (\<forall>k > 0. k \<le> m \<longleftrightarrow> wal_quorum wal \<le> card {r. r < wal_replica_count wal \<and> k \<le> len r}) \<and>
    rec_ignored_uncommitted_records rec = sum_list (map (\<lambda>r. to_u64 (len r - m)) (replica_ids (wal_replica_count wal)))"
proof (rule recover_readable_prefixes[OF assms(2-4), where bad = "\<lambda>_. None"])
  fix r
  assume "r < wal_replica_count wal"
  with assms(5) obtain c where c: "disk r = Some c" "holds_prefix sha log (len r) c" by blast
  with scan_prefix[OF assms(1-3) this(2)] show "\<exists>c torn. disk r = Some c \<and> len r \<le> length log \<and>
      scan_loop sha 1 [] c = (numbered (take (len r) log), torn, None)"
    by (auto simp: holds_prefix_def)
qed simp

text \<open>C31. Crash recovery finds the quorum prefix: if the file of every replica holds whole frames of
  the first \<open>len r\<close> records of one log and behind them nothing or a torn frame, recovery succeeds
  and returns exactly the longest prefix of that log that a quorum of replicas holds, and counts
  the readable records behind it as ignored.\<close>

theorem recovery_finds_quorum_prefix:
  assumes "digest32 sha" and "log_fits log" "Suc (length log) < 2 ^ 64" and "0 < wal_quorum wal"
    and "\<forall>r < wal_replica_count wal. \<exists>c. disk r = Some c \<and> holds_prefix sha log (len r) c"
  shows "\<exists>rec m. wal_recover sha wal disk = Ok rec \<and> m \<le> length log \<and> map rr_payload (rec_records rec) = take m log \<and>
    (\<forall>k > 0. k \<le> m \<longleftrightarrow> wal_quorum wal \<le> card {r. r < wal_replica_count wal \<and> k \<le> len r}) \<and>
    rec_ignored_uncommitted_records rec = sum_list (map (\<lambda>r. to_u64 (len r - m)) (replica_ids (wal_replica_count wal)))"
  using assms by (rule recover_prefixes)

section \<open>Appends\<close>

lemma append_loop_Ok:
  "append_loop w frame sel synced disk = (Ok done, disk') \<Longrightarrow> distinct sel \<Longrightarrow>
     done = synced @ sel \<and> (\<forall>r. disk' r = (if r \<in> set sel then map_option (\<lambda>c. c @ frame) (disk r) else disk r)) \<and>
     (\<forall>r \<in> set sel. disk r \<noteq> None)"
proof (induction sel arbitrary: synced disk)
  case (Cons r sel)
  from Cons.prems obtain c where c: "disk r = Some c" "append_loop w frame sel (synced @ [r]) (disk(r \<mapsto> c @ frame)) = (Ok done, disk')"
    by (auto split: option.splits write_outcome.splits)
  from Cons.IH[OF c(2)] Cons.prems(2) c(1) show ?case by (auto split: if_splits)
qed simp

lemma append_loop_synced:
  "\<forall>r \<in> set sel. disk r \<noteq> None \<Longrightarrow> \<exists>d. append_loop (\<lambda>_. Synced) frame sel synced disk = (Ok (synced @ sel), d)"
proof (induction sel arbitrary: synced disk)
  case (Cons r sel)
  then obtain c where c: "disk r = Some c" by auto
  have "\<forall>x \<in> set sel. (disk(r \<mapsto> c @ frame)) x \<noteq> None" using Cons.prems by simp
  from Cons.IH[of "disk(r \<mapsto> c @ frame)" "synced @ [r]", OF this] c show ?case by (simp del: fun_upd_apply)
qed simp

lemma check_selected_iff: "check_selected n unique sel \<longleftrightarrow> distinct sel \<and> (\<forall>r \<in> set sel. r < n \<and> r \<notin> unique)"
  by (induction sel arbitrary: unique) auto

lemma wal_append_Ok:
  assumes "wal_append sha w i payload sel wal disk = (Ok out, disk')"
  shows "i \<noteq> 0" "length payload \<le> MAX_PAYLOAD_LEN" "distinct sel" "\<forall>r \<in> set sel. r < wal_replica_count wal"
    "ao_quorum_durable out \<longleftrightarrow> wal_quorum wal \<le> length sel"
    "disk' r = (if r \<in> set sel then map_option (\<lambda>c. c @ encode_frame sha i payload) (disk r) else disk r)"
proof -
  from assms have chk: "i \<noteq> 0" "\<not> payload_too_large payload" "check_selected (wal_replica_count wal) {} sel"
    by (auto simp: wal_append_def split: if_splits)
  with assms obtain synced where "append_loop w (encode_frame sha i payload) sel [] disk = (Ok synced, disk')"
    "ao_quorum_durable out \<longleftrightarrow> wal_quorum wal \<le> length synced"
    by (auto simp: wal_append_def Let_def split: prod.splits result.splits)
  with append_loop_Ok[OF this(1)] chk show "i \<noteq> 0" "length payload \<le> MAX_PAYLOAD_LEN" "distinct sel" "\<forall>r \<in> set sel. r < wal_replica_count wal"
    "ao_quorum_durable out \<longleftrightarrow> wal_quorum wal \<le> length sel"
    "disk' r = (if r \<in> set sel then map_option (\<lambda>c. c @ encode_frame sha i payload) (disk r) else disk r)"
    by (simp_all add: check_selected_iff payload_too_large_def)
qed

text \<open>C11. An acknowledged append survives crashes: let the selected replicas hold exactly the frames of
  \<open>log\<close> and an append of the next record to them report \<open>quorum_durable\<close>. If the synchronised files
  stay as written and every other replica holds some prefix of the extended log, cut anywhere, then
  recovery returns the whole extended log.\<close>

theorem acknowledged_append_is_recovered:
  assumes "digest32 sha" and "log_fits log" "Suc (Suc (length log)) < 2 ^ 64" and "0 < wal_quorum wal"
    and "\<forall>r \<in> set selected. disk r = Some (frames_of (wal_frame sha) (numbered log))"
    and "wal_append sha w (word_of_nat (Suc (length log))) payload selected wal disk = (Ok out, disk')"
    and "ao_quorum_durable out"
    and "\<forall>r < wal_replica_count wal. if r \<in> set selected then after r = disk' r
      else \<exists>n c. after r = Some c \<and> holds_prefix sha (log @ [payload]) n c"
  shows "\<exists>rec. wal_recover sha wal after = Ok rec \<and> map rr_payload (rec_records rec) = log @ [payload]"
proof -
  let ?log = "log @ [payload]"
  note app = wal_append_Ok[OF assms(6)]
  have fits: "log_fits ?log" using assms(2,3) app(2) by (simp add: log_fits_def)
  have "\<forall>r. \<exists>n. r < wal_replica_count wal \<longrightarrow> r \<notin> set selected \<longrightarrow> (\<exists>c. after r = Some c \<and> holds_prefix sha ?log n c)"
    using assms(8) by auto
  from choice[OF this] obtain n where n: "\<And>r. r < wal_replica_count wal \<Longrightarrow> r \<notin> set selected \<Longrightarrow>
      \<exists>c. after r = Some c \<and> holds_prefix sha ?log (n r) c" by blast
  define len where "len r = (if r \<in> set selected then length ?log else n r)" for r
  have "\<forall>r < wal_replica_count wal. \<exists>c. after r = Some c \<and> holds_prefix sha ?log (len r) c"
  proof (intro allI impI)
    fix r
    assume r: "r < wal_replica_count wal"
    show "\<exists>c. after r = Some c \<and> holds_prefix sha ?log (len r) c"
    proof (cases "r \<in> set selected")
      case True
      then have "after r = Some (frames_of (wal_frame sha) (numbered ?log))"
        using assms(5,8) app(6)[of r] r by auto
      with True show ?thesis by (simp add: holds_prefix_def len_def)
    qed (use n[OF r] in \<open>simp add: len_def\<close>)
  qed
  moreover have "Suc (length ?log) < 2 ^ 64" using assms(3) by simp
  ultimately obtain rec m where rec: "wal_recover sha wal after = Ok rec"
    "m \<le> length ?log" "map rr_payload (rec_records rec) = take m ?log"
    "\<forall>k > 0. k \<le> m \<longleftrightarrow> wal_quorum wal \<le> card {r. r < wal_replica_count wal \<and> k \<le> len r}"
    using recover_prefixes[OF assms(1) fits _ assms(4)] by blast
  have "card (set selected) \<le> card {r. r < wal_replica_count wal \<and> length ?log \<le> len r}"
    using app(4) by (intro card_mono) (auto simp: len_def)
  then have "wal_quorum wal \<le> card {r. r < wal_replica_count wal \<and> length ?log \<le> len r}"
    using app(3,5) assms(7) by (simp add: distinct_card)
  then have "length ?log \<le> m" using rec(4) by simp
  with rec(2) have "take m ?log = ?log" by simp
  with rec(1,3) show ?thesis by metis
qed

section \<open>Rewrites\<close>

lemma check_rewrite_Ok:
  "check_rewrite k records = Ok () \<Longrightarrow> Suc (k + length records) < 2 ^ 64 \<Longrightarrow>
     records = map (\<lambda>(i, p). (word_of_nat i, p)) (List.enumerate (Suc k) (map snd records)) \<and>
     (\<forall>p \<in> snd ` set records. length p \<le> MAX_PAYLOAD_LEN)"
proof (induction records arbitrary: k)
  case (Cons e records)
  obtain i p where e: "e = (i, p)" by (cases e)
  have "saturating_add (to_u64 k) 1 = word_of_nat (Suc k)"
    using saturating_index[of k] Cons.prems(2) by (simp add: to_u64_def)
  then have "i = word_of_nat (Suc k)" "length p \<le> MAX_PAYLOAD_LEN" "check_rewrite (Suc k) records = Ok ()"
    using Cons.prems(1) by (auto simp: e payload_too_large_def split: if_splits)
  with Cons.IH[of "Suc k"] Cons.prems(2) show ?case by (simp add: e)
qed simp

lemma rewrite_loop_Ok:
  "rewrite_loop w content rs disk = (Ok (), disk') \<Longrightarrow> disk' r = (if r \<in> set rs then Some content else disk r)"
  by (induction rs arbitrary: disk) (auto split: replace_outcome.splits)

text \<open>A completed rewrite is recovered exactly: whatever the replicas held before, recovery then
  returns the rewritten payloads, on every replica, and ignores nothing.\<close>

theorem rewrite_is_recovered:
  assumes "digest32 sha" and "Suc (length records) < 2 ^ 64" and "0 < wal_quorum wal" "wal_quorum wal \<le> unat (wal_replica_count wal)"
    and "wal_rewrite sha w records wal disk = (Ok (), disk')"
  shows "\<exists>rec. wal_recover sha wal disk' = Ok rec \<and> map rr_payload (rec_records rec) = map snd records \<and>
    rec_ignored_uncommitted_records rec = 0"
proof -
  have chk: "check_rewrite 0 records = Ok ()"
    and loop: "rewrite_loop w (frames_of (wal_frame sha) records) (replica_ids (wal_replica_count wal)) disk = (Ok (), disk')"
    using assms(5) by (auto simp: wal_rewrite_def split: result.splits)
  have num: "records = numbered (map snd records)" and fits: "log_fits (map snd records)"
    using check_rewrite_Ok[OF chk] assms(2) by (simp_all add: numbered_def log_fits_def)
  have "disk' r = Some (frames_of (wal_frame sha) (numbered (map snd records)))" if "r < wal_replica_count wal" for r
    using rewrite_loop_Ok[OF loop, of r] that num by (simp add: set_replica_ids)
  then have "\<forall>r < wal_replica_count wal. \<exists>c. disk' r = Some c \<and> holds_prefix sha (map snd records) (length records) c"
    by (simp add: holds_prefix_def)
  moreover have "Suc (length (map snd records)) < 2 ^ 64" using assms(2) by simp
  ultimately obtain rec m where rec: "wal_recover sha wal disk' = Ok rec"
    "m \<le> length records" "map rr_payload (rec_records rec) = take m (map snd records)"
    "\<forall>k > 0. k \<le> m \<longleftrightarrow> wal_quorum wal \<le> card {r. r < wal_replica_count wal \<and> k \<le> length records}"
    "rec_ignored_uncommitted_records rec = sum_list (map (\<lambda>r. to_u64 (length records - m)) (replica_ids (wal_replica_count wal)))"
    using recover_prefixes[OF assms(1) fits _ assms(3), of disk' "\<lambda>_. length records"] by (simp only: length_map) blast
  have "card {r. r < wal_replica_count wal} = unat (wal_replica_count wal)"
    by (metis distinct_card distinct_replica_ids length_replica_ids set_replica_ids)
  then have "length records \<le> m" using rec(4) assms(4) by (cases "length records") auto
  with rec show ?thesis by (simp add: to_u64_def)
qed

section \<open>Silent losses\<close>

lemma recover_all_damaged:
  assumes "digest32 sha" "log_fits log" "Suc (length log) < 2 ^ 64" and q: "0 < wal_quorum wal" "wal_quorum wal \<le> unat (wal_replica_count wal)"
    and "\<And>r. r < wal_replica_count wal \<Longrightarrow> bad r \<noteq> [] \<and> wal_parse sha (bad r) = Damaged (code r) \<and>
      disk r = Some (frames_of (wal_frame sha) (numbered log) @ bad r) \<and> (\<forall>i. code r = Some i \<longrightarrow> length log < unat i)"
  shows "\<exists>rec. wal_recover sha wal disk = Ok rec \<and> map rr_payload (rec_records rec) = log"
proof -
  define stop where "stop r = Some (case code r of None \<Rightarrow> word_of_nat (Suc (length log)) | Some i \<Rightarrow> i)" for r
  have all: "card {r. r < wal_replica_count wal} = unat (wal_replica_count wal)"
    by (metis distinct_card distinct_replica_ids length_replica_ids set_replica_ids)
  have "\<exists>rec m. wal_recover sha wal disk = Ok rec \<and> m \<le> length log \<and> map rr_payload (rec_records rec) = take m log \<and>
    (\<forall>k > 0. k \<le> m \<longleftrightarrow> wal_quorum wal \<le> card {r. r < wal_replica_count wal \<and> k \<le> length log}) \<and>
    rec_ignored_uncommitted_records rec = sum_list (map (\<lambda>r. to_u64 (length log - m)) (replica_ids (wal_replica_count wal)))"
  proof (rule recover_readable_prefixes[OF assms(2,3) q(1), where bad = stop and len = "\<lambda>_. length log"])
    fix r assume r: "r < wal_replica_count wal"
    show "\<exists>c torn. disk r = Some c \<and> length log \<le> length log \<and> scan_loop sha 1 [] c = (numbered (take (length log) log), torn, stop r)"
      using assms(6)[OF r] scan_numbered[OF assms(1-3), of "bad r"] scan_loop_parse[of "bad r" sha]
      by (auto simp: stop_def)
    fix i assume "stop r = Some i"
    then have "length log < unat i"
      using assms(6)[OF r] unat_index[of "Suc (length log)"] assms(3) by (auto simp: stop_def split: option.splits)
    then show "wal_quorum wal \<le> card {r. r < wal_replica_count wal \<and> unat i \<le> length log} \<or> (\<forall>r < wal_replica_count wal. length log < unat i)"
      by simp
  qed
  then obtain rec m where rec: "wal_recover sha wal disk = Ok rec" "m \<le> length log" "map rr_payload (rec_records rec) = take m log"
    "\<forall>k > 0. k \<le> m \<longleftrightarrow> wal_quorum wal \<le> card {r. r < wal_replica_count wal \<and> k \<le> length log}" by blast
  then have "length log \<le> m" using q(2) all by (cases "length log") auto
  with rec show ?thesis by auto
qed

text \<open>Complete corruption without a valid quorum can pass unnoticed: when every replica holds the
  records of \<open>log\<close> and then a complete frame for the next index whose checksum is wrong, recovery
  succeeds with \<open>log\<close> alone, although the record was on every replica.\<close>

theorem corrupt_tail_is_dropped:
  assumes "digest32 sha" "log_fits log" "Suc (length log) < 2 ^ 64" and "0 < wal_quorum wal" "wal_quorum wal \<le> unat (wal_replica_count wal)"
    and "length payload \<le> MAX_PAYLOAD_LEN" "length check = 32" "check \<noteq> sha (wal_frame_prefix (word_of_nat (Suc (length log))) payload)"
    and "\<forall>r < wal_replica_count wal. disk r =
      Some (frames_of (wal_frame sha) (numbered log) @ wal_frame_prefix (word_of_nat (Suc (length log))) payload @ check)"
  shows "\<exists>rec. wal_recover sha wal disk = Ok rec \<and> map rr_payload (rec_records rec) = log"
proof (rule recover_all_damaged[OF assms(1-5), where bad = "\<lambda>_. wal_frame_prefix (word_of_nat (Suc (length log))) payload @ check"
      and code = "\<lambda>_. Some (word_of_nat (Suc (length log)))"])
  let ?i = "word_of_nat (Suc (length log)) :: u64"
  have i: "unat ?i = Suc (length log)" by (rule unat_index[OF assms(3)])
  have fits: "entry_fits (?i, payload)" using i assms(6) by auto
  note fields = wal_frame_fields(1)[OF fits] wal_frame_fields(2)[OF fits, of check]
  have "wal_parse sha (wal_frame_prefix ?i payload @ check) = Damaged (Some ?i)"
    using fields assms(6-8) by (simp add: wal_parse_def)
  then show "wal_frame_prefix ?i payload @ check \<noteq> [] \<and> wal_parse sha (wal_frame_prefix ?i payload @ check) = Damaged (Some ?i) \<and>
      disk r = Some (frames_of (wal_frame sha) (numbered log) @ wal_frame_prefix ?i payload @ check) \<and>
      (\<forall>i. Some ?i = Some i \<longrightarrow> length log < unat i)" if "r < wal_replica_count wal" for r
    using that assms(7,9) i by auto
qed


section \<open>Witnesses\<close>

abbreviation demo_wal :: local_replicated_wal where
  "demo_wal \<equiv> \<lparr>wal_replica_count = 2, wal_quorum = 2\<rparr>"

abbreviation demo_frames :: "bytes list \<Rightarrow> bytes" where
  "demo_frames ps \<equiv> frames_of (wal_frame demo_sha) (numbered ps)"

lemma demo_log_fits [simp]: "log_fits [[1], [2]]" "log_fits [[1]]" "log_fits []"
  by (simp_all add: log_fits_def MAX_PAYLOAD_LEN_def)

lemma demo_replica_ids [simp]: "replica_ids 2 = [0, 1]"
  by (simp add: replica_ids_def upt_rec of_nat_Suc)

lemma demo_replicas: "card {r :: u8. r < 2 \<and> P r} = (if P 0 then 1 else 0) + (if P 1 then 1 else 0)"
proof -
  have "{r :: u8. r < 2} = {0, 1}"
    using set_replica_ids[of 2] by simp
  then have "{r :: u8. r < 2 \<and> P r} = {r \<in> {0, 1}. P r}" by blast
  also have "\<dots> = (if P 0 then {0} else {}) \<union> (if P 1 then {1} else {})" by auto
  finally show ?thesis by simp
qed

text \<open>Two records on the first replica, one of them also on the second: the first is recovered.\<close>

theorem recovery_finds_quorum_prefix_witness:
  "\<exists>rec. wal_recover demo_sha demo_wal (\<lambda>r. Some (demo_frames (if r = 0 then [[1], [2]] else [[1]]))) = Ok rec \<and>
     map rr_payload (rec_records rec) = [[1]]"
proof -
  let ?len = "\<lambda>r :: u8. if r = 0 then 2 else 1 :: nat"
  have "\<forall>r < wal_replica_count demo_wal. \<exists>c. (\<lambda>r. Some (demo_frames (if r = 0 then [[1], [2]] else [[1]]))) r = Some c \<and>
      holds_prefix demo_sha [[1], [2]] (?len r) c"
    by (simp add: holds_prefix_def)
  from recovery_finds_quorum_prefix[OF demo_sha_digest32 demo_log_fits(1) _ _ this] obtain rec m where
    rec: "wal_recover demo_sha demo_wal (\<lambda>r. Some (demo_frames (if r = 0 then [[1], [2]] else [[1]]))) = Ok rec"
    "map rr_payload (rec_records rec) = take m [[1], [2]]"
    "\<forall>k > 0. k \<le> m \<longleftrightarrow> 2 \<le> card {r. r < (2 :: u8) \<and> k \<le> ?len r}" by auto
  have "1 \<le> m" "\<not> 2 \<le> m" using rec(3)[THEN spec, of 1] rec(3)[THEN spec, of 2] by (simp_all add: demo_replicas)
  then have "m = 1" by simp
  with rec show ?thesis by simp
qed

theorem acknowledged_append_is_recovered_witness:
  "\<exists>out disk' rec. wal_append demo_sha (\<lambda>_. Synced) 2 [2] [0, 1] demo_wal (\<lambda>_. Some (demo_frames [[1]])) = (Ok out, disk') \<and>
     wal_recover demo_sha demo_wal disk' = Ok rec \<and> map rr_payload (rec_records rec) = [[1], [2]]"
proof -
  obtain out disk' where app: "wal_append demo_sha (\<lambda>_. Synced) (word_of_nat (Suc (length [[1 :: u8]]))) [2] [0, 1] demo_wal (\<lambda>_. Some (demo_frames [[1]])) = (Ok out, disk')"
    "ao_quorum_durable out"
    by (simp add: wal_append_def payload_too_large_def MAX_PAYLOAD_LEN_def Let_def of_nat_Suc word_le_nat_alt)
  have two: "r \<in> set [0, 1]" if "r < wal_replica_count demo_wal" for r :: u8
    using that set_replica_ids[of 2] by auto
  have "\<exists>rec. wal_recover demo_sha demo_wal disk' = Ok rec \<and> map rr_payload (rec_records rec) = [[1]] @ [[2]]"
    by (rule acknowledged_append_is_recovered[OF demo_sha_digest32 demo_log_fits(2) _ _ _ app]) (use two in simp_all)
  with app show ?thesis by (simp add: of_nat_Suc)
qed

theorem rewrite_is_recovered_witness:
  "\<exists>disk' rec. wal_rewrite demo_sha (\<lambda>_. Replaced) [(1, [7])] demo_wal (\<lambda>_. None) = (Ok (), disk') \<and>
     wal_recover demo_sha demo_wal disk' = Ok rec \<and> map rr_payload (rec_records rec) = [[7]]"
proof -
  obtain disk' where rw: "wal_rewrite demo_sha (\<lambda>_. Replaced) [(1, [7])] demo_wal (\<lambda>_. None) = (Ok (), disk')"
    by (simp add: wal_rewrite_def payload_too_large_def MAX_PAYLOAD_LEN_def to_u64_def saturating_add_def)
  from rewrite_is_recovered[OF demo_sha_digest32 _ _ _ this] show ?thesis using rw by auto
qed

theorem corrupt_tail_is_dropped_witness:
  "\<exists>rec. wal_recover demo_sha demo_wal (\<lambda>_. Some (demo_frames [[1]] @ wal_frame_prefix 2 [2] @ replicate 32 1)) = Ok rec \<and>
     map rr_payload (rec_records rec) = [[1]]"
  using corrupt_tail_is_dropped[OF demo_sha_digest32 demo_log_fits(2), of demo_wal "[2]" "replicate 32 1"
      "\<lambda>_. Some (demo_frames [[1]] @ wal_frame_prefix 2 [2] @ replicate 32 1)"]
  by (simp add: MAX_PAYLOAD_LEN_def demo_sha_def of_nat_Suc)


theorem recovery_is_sound_witness:
  "\<exists>rec. wal_recover demo_sha demo_wal (\<lambda>_. Some (demo_frames [[1]])) = Ok rec \<and> rec_records rec \<noteq> [] \<and>
     (\<forall>r \<in> set (rec_records rec). 2 \<le> length (rr_replica_ids r))"
proof -
  have "\<forall>r < wal_replica_count demo_wal. \<exists>c. (\<lambda>_. Some (demo_frames [[1]])) r = Some c \<and> holds_prefix demo_sha [[1]] ((\<lambda>_. 1) r) c"
    by (simp add: holds_prefix_def)
  from recover_prefixes[OF demo_sha_digest32 demo_log_fits(2) _ _ this] obtain rec m where
    rec: "wal_recover demo_sha demo_wal (\<lambda>_. Some (demo_frames [[1]])) = Ok rec" "map rr_payload (rec_records rec) = take m [[1]]"
    "\<forall>k > 0. k \<le> m \<longleftrightarrow> 2 \<le> card {r. r < (2 :: u8) \<and> k \<le> 1}" by auto
  have "1 \<le> m" using rec(3)[THEN spec, of 1] demo_replicas[of "\<lambda>_. True"] by simp
  then have "rec_records rec \<noteq> []" using rec(2) by auto
  with rec(1) recovery_is_sound[OF rec(1)] show ?thesis by auto
qed

end
