(* ===== verification/Commit_Envelope.thy ===== *)
theory Commit_Envelope
  imports Mvcc_Model Framing
begin

text \<open>
  The commit envelope of \<open>okv-sim/src/commit.rs\<close>: its reader, its encoding with length, logical
  fingerprint and checksum, and its validating decoder. The reader's primitives satisfy the
  interface \<open>prefix_codec\<close>, from which it follows that decoding accepts exactly the encodings of
  valid envelopes. A Rust \<open>expect\<close> on a length that does not fit its field is the value \<open>None\<close>.
  SHA-256 is the parameter \<open>sha\<close>.
\<close>

section \<open>Data\<close>

definition ENVELOPE_MAGIC :: bytes where "ENVELOPE_MAGIC = ascii ''OKVC''"
definition CODEC_VERSION :: u16 where "CODEC_VERSION = 1"
definition REQUIRED_RESOLVERS :: "u16 list" where "REQUIRED_RESOLVERS = [1, 2]"
definition REQUIRED_LOG_TAGS :: "u16 list" where "REQUIRED_LOG_TAGS = [10, 20]"
definition CELL_ID :: bytes where "CELL_ID = replicate 16 0x11"
definition TENANT_ID :: bytes where "TENANT_ID = replicate 16 0x22"
definition RESOLVER_SET_ID :: bytes where "RESOLVER_SET_ID = replicate 16 0x33"

record commit_envelope =
  ce_codec_version :: u16
  ce_envelope_len :: u32
  ce_cell_id :: bytes
  ce_tenant_id :: bytes
  ce_generation :: u64
  ce_version :: version
  ce_log_index :: u64
  ce_client_id :: bytes
  ce_request_id :: u64
  ce_resolver_set_id :: bytes
  ce_logical_fingerprint :: bytes
  ce_read_conflicts :: bytes
  ce_write_conflicts :: bytes
  ce_canonical_mutations :: bytes
  ce_required_resolvers :: "u16 list"
  ce_required_log_tags :: "u16 list"
  ce_previous_log_chain :: bytes
  ce_checksum :: bytes

record commit_envelope_parts =
  cp_cell_id :: bytes
  cp_tenant_id :: bytes
  cp_generation :: u64
  cp_version :: version
  cp_log_index :: u64
  cp_client_id :: bytes
  cp_request_id :: u64
  cp_resolver_set_id :: bytes
  cp_read_conflicts :: bytes
  cp_write_conflicts :: bytes
  cp_canonical_mutations :: bytes
  cp_required_resolvers :: "u16 list"
  cp_required_log_tags :: "u16 list"
  cp_previous_log_chain :: bytes

record commit_request =
  cr_cell_id :: bytes
  cr_tenant_id :: bytes
  cr_generation :: u64
  cr_client_id :: bytes
  cr_request_id :: u64
  cr_read_conflicts :: bytes
  cr_write_conflicts :: bytes
  cr_canonical_mutations :: bytes

datatype commit_codec_error =
    Truncated
  | BadMagic
  | UnsupportedCodec u16
  | InvalidLength
  | ChecksumMismatch
  | InvalidGenerationVersion
  | FingerprintMismatch
  | InvalidSet
  | TrailingBytes

definition hash_byte_vec :: "bytes \<Rightarrow> bytes" where
  "hash_byte_vec bs = u64_be (to_u64 (length bs)) @ bs"

definition request_fingerprint :: "(bytes \<Rightarrow> bytes) \<Rightarrow> commit_request \<Rightarrow> bytes" where
  "request_fingerprint sha r =
     sha (ascii ''okv-commit-request-v1'' @ cr_cell_id r @ cr_tenant_id r @ u64_be (cr_generation r)
       @ cr_client_id r @ u64_be (cr_request_id r) @ hash_byte_vec (cr_read_conflicts r)
       @ hash_byte_vec (cr_write_conflicts r) @ hash_byte_vec (cr_canonical_mutations r))"

definition request_key :: "commit_request \<Rightarrow> bytes \<times> u64" where
  "request_key r = (cr_client_id r, cr_request_id r)"

section \<open>Encoding\<close>

text \<open>The bytes a push appends.\<close>

definition push_u16_vec :: "u16 list \<Rightarrow> bytes option" where
  "push_u16_vec vs = (if length vs < 2 ^ 16 then Some (u16_be (word_of_nat (length vs)) @ concat (map u16_be vs)) else None)"

definition push_byte_vec :: "bytes \<Rightarrow> bytes option" where
  "push_byte_vec v = (if length v < 2 ^ 32 then Some (u32_be (word_of_nat (length v)) @ v) else None)"

definition encode_without_checksum :: "commit_envelope \<Rightarrow> bytes option" where
  "encode_without_checksum e =
     (case (push_byte_vec (ce_read_conflicts e), push_byte_vec (ce_write_conflicts e),
            push_byte_vec (ce_canonical_mutations e), push_u16_vec (ce_required_resolvers e),
            push_u16_vec (ce_required_log_tags e)) of
        (Some rs, Some ws, Some ms, Some resolvers, Some tags) \<Rightarrow>
          Some (ENVELOPE_MAGIC @ u16_be (ce_codec_version e) @ u32_be (ce_envelope_len e) @ ce_cell_id e @ ce_tenant_id e
            @ u64_be (ce_generation e) @ version_to_be_bytes (ce_version e) @ u64_be (ce_log_index e) @ ce_client_id e
            @ u64_be (ce_request_id e) @ ce_resolver_set_id e @ ce_logical_fingerprint e
            @ rs @ ws @ ms @ resolvers @ tags @ ce_previous_log_chain e)
      | _ \<Rightarrow> None)"

definition envelope_encode :: "commit_envelope \<Rightarrow> bytes option" where
  "envelope_encode e = map_option (\<lambda>bs. bs @ ce_checksum e) (encode_without_checksum e)"

text \<open>The last two assignments of the constructors: the length, then the checksum.\<close>

definition seal :: "(bytes \<Rightarrow> bytes) \<Rightarrow> commit_envelope \<Rightarrow> commit_envelope option" where
  "seal sha e =
     (case encode_without_checksum e of
        None \<Rightarrow> None
      | Some bs \<Rightarrow>
         if \<not> length bs + 32 < 2 ^ 32 then None
         else
           let e' = e\<lparr>ce_envelope_len := word_of_nat (length bs + 32)\<rparr>
           in map_option (\<lambda>bs'. e'\<lparr>ce_checksum := sha bs'\<rparr>) (encode_without_checksum e'))"

definition envelope_new ::
  "(bytes \<Rightarrow> bytes) \<Rightarrow> commit_request \<Rightarrow> version \<Rightarrow> u64 \<Rightarrow> u16 list \<Rightarrow> bytes \<Rightarrow> commit_envelope option" where
  "envelope_new sha r ver log_index tags chain =
     seal sha \<lparr>ce_codec_version = CODEC_VERSION, ce_envelope_len = 0, ce_cell_id = cr_cell_id r,
       ce_tenant_id = cr_tenant_id r, ce_generation = cr_generation r, ce_version = ver, ce_log_index = log_index,
       ce_client_id = cr_client_id r, ce_request_id = cr_request_id r, ce_resolver_set_id = RESOLVER_SET_ID,
       ce_logical_fingerprint = request_fingerprint sha r, ce_read_conflicts = cr_read_conflicts r,
       ce_write_conflicts = cr_write_conflicts r, ce_canonical_mutations = cr_canonical_mutations r,
       ce_required_resolvers = REQUIRED_RESOLVERS, ce_required_log_tags = tags, ce_previous_log_chain = chain,
       ce_checksum = replicate 32 0\<rparr>"

definition envelope_from_parts :: "(bytes \<Rightarrow> bytes) \<Rightarrow> commit_envelope_parts \<Rightarrow> commit_envelope option" where
  "envelope_from_parts sha p =
     (case envelope_new sha
        \<lparr>cr_cell_id = cp_cell_id p, cr_tenant_id = cp_tenant_id p, cr_generation = cp_generation p,
         cr_client_id = cp_client_id p, cr_request_id = cp_request_id p, cr_read_conflicts = cp_read_conflicts p,
         cr_write_conflicts = cp_write_conflicts p, cr_canonical_mutations = cp_canonical_mutations p\<rparr>
        (cp_version p) (cp_log_index p) (cp_required_log_tags p) (cp_previous_log_chain p) of
        None \<Rightarrow> None
      | Some e \<Rightarrow>
          seal sha (e\<lparr>ce_resolver_set_id := cp_resolver_set_id p, ce_required_resolvers := cp_required_resolvers p\<rparr>))"

section \<open>Reading\<close>

text \<open>The reader is its unread bytes; the offset arithmetic cannot overflow on a 64-bit target.\<close>

definition reader_take :: "nat \<Rightarrow> bytes \<Rightarrow> (bytes \<times> bytes, commit_codec_error) result" where
  "reader_take n bs = (if n \<le> length bs then Ok (take n bs, drop n bs) else Err Truncated)"

definition reader_u16 :: "bytes \<Rightarrow> (u16 \<times> bytes, commit_codec_error) result" where
  "reader_u16 bs = try_bind (reader_take 2 bs) (\<lambda>(v, rest). Ok (u16_of_be v, rest))"

definition reader_u32 :: "bytes \<Rightarrow> (u32 \<times> bytes, commit_codec_error) result" where
  "reader_u32 bs = try_bind (reader_take 4 bs) (\<lambda>(v, rest). Ok (u32_of_be v, rest))"

definition reader_u64 :: "bytes \<Rightarrow> (u64 \<times> bytes, commit_codec_error) result" where
  "reader_u64 bs = try_bind (reader_take 8 bs) (\<lambda>(v, rest). Ok (u64_of_be v, rest))"

definition reader_byte_vec :: "bytes \<Rightarrow> (bytes \<times> bytes, commit_codec_error) result" where
  "reader_byte_vec bs = try_bind (reader_u32 bs) (\<lambda>(count, rest). reader_take (unat count) rest)"

definition reader_u16_vec :: "bytes \<Rightarrow> (u16 list \<times> bytes, commit_codec_error) result" where
  "reader_u16_vec bs = try_bind (reader_u16 bs) (\<lambda>(count, rest). dec_many reader_u16 (unat count) rest)"

fun strictly_sorted :: "u16 list \<Rightarrow> bool" where
  "strictly_sorted (a # b # vs) \<longleftrightarrow> a < b \<and> strictly_sorted (b # vs)"
| "strictly_sorted _ \<longleftrightarrow> True"

definition envelope_decode :: "(bytes \<Rightarrow> bytes) \<Rightarrow> bytes \<Rightarrow> (commit_envelope, commit_codec_error) result" where
  "envelope_decode sha bs =
     (if length bs < 32 then Err Truncated
      else
        let payload_len = length bs - 32; payload = take payload_len bs; stored_checksum = drop payload_len bs in
        if sha payload \<noteq> stored_checksum then Err ChecksumMismatch
        else
          try_bind (reader_take 4 payload) (\<lambda>(magic, r).
          if magic \<noteq> ENVELOPE_MAGIC then Err BadMagic else
          try_bind (reader_u16 r) (\<lambda>(codec_version, r).
          if codec_version \<noteq> CODEC_VERSION then Err (UnsupportedCodec codec_version) else
          try_bind (reader_u32 r) (\<lambda>(envelope_len, r).
          if unat envelope_len \<noteq> length bs then Err InvalidLength else
          try_bind (reader_take 16 r) (\<lambda>(cell_id, r).
          try_bind (reader_take 16 r) (\<lambda>(tenant_id, r).
          try_bind (reader_u64 r) (\<lambda>(gen, r).
          try_bind (reader_take 16 r) (\<lambda>(version_bytes, r).
          let ver = version_from_be_bytes version_bytes in
          if ver = ZERO \<or> generation ver \<noteq> gen then Err InvalidGenerationVersion else
          try_bind (reader_u64 r) (\<lambda>(log_index, r).
          try_bind (reader_take 16 r) (\<lambda>(client_id, r).
          try_bind (reader_u64 r) (\<lambda>(request_id, r).
          try_bind (reader_take 16 r) (\<lambda>(resolver_set_id, r).
          try_bind (reader_take 32 r) (\<lambda>(logical_fingerprint, r).
          try_bind (reader_byte_vec r) (\<lambda>(read_conflicts, r).
          try_bind (reader_byte_vec r) (\<lambda>(write_conflicts, r).
          try_bind (reader_byte_vec r) (\<lambda>(canonical_mutations, r).
          try_bind (reader_u16_vec r) (\<lambda>(required_resolvers, r).
          try_bind (reader_u16_vec r) (\<lambda>(required_log_tags, r).
          try_bind (reader_take 32 r) (\<lambda>(previous_log_chain, r).
          if r \<noteq> [] then Err TrailingBytes
          else if required_resolvers = [] \<or> required_log_tags = [] \<or> \<not> strictly_sorted required_resolvers
            \<or> \<not> strictly_sorted required_log_tags then Err InvalidSet
          else if request_fingerprint sha
              \<lparr>cr_cell_id = cell_id, cr_tenant_id = tenant_id, cr_generation = gen, cr_client_id = client_id,
               cr_request_id = request_id, cr_read_conflicts = read_conflicts, cr_write_conflicts = write_conflicts,
               cr_canonical_mutations = canonical_mutations\<rparr> \<noteq> logical_fingerprint then Err FingerprintMismatch
          else Ok \<lparr>ce_codec_version = codec_version, ce_envelope_len = envelope_len, ce_cell_id = cell_id,
              ce_tenant_id = tenant_id, ce_generation = gen, ce_version = ver, ce_log_index = log_index,
              ce_client_id = client_id, ce_request_id = request_id, ce_resolver_set_id = resolver_set_id,
              ce_logical_fingerprint = logical_fingerprint, ce_read_conflicts = read_conflicts,
              ce_write_conflicts = write_conflicts, ce_canonical_mutations = canonical_mutations,
              ce_required_resolvers = required_resolvers, ce_required_log_tags = required_log_tags,
              ce_previous_log_chain = previous_log_chain, ce_checksum = stored_checksum\<rparr>)))))))))))))))))))"

section \<open>Codec laws\<close>

interpretation rtake: prefix_codec "\<lambda>bs. length bs = n" "\<lambda>bs. bs" "reader_take n" for n
  by unfold_locales (auto simp: reader_take_def split: if_splits)

interpretation ru16: prefix_codec "\<lambda>_. True" u16_be reader_u16
  by unfold_locales (auto simp: reader_u16_def try_bind_Ok_iff rtake.dec_enc dest!: rtake.dec_sound)

interpretation ru32: prefix_codec "\<lambda>_. True" u32_be reader_u32
  by unfold_locales (auto simp: reader_u32_def try_bind_Ok_iff rtake.dec_enc dest!: rtake.dec_sound)

interpretation ru64: prefix_codec "\<lambda>_. True" u64_be reader_u64
  by unfold_locales (auto simp: reader_u64_def try_bind_Ok_iff rtake.dec_enc dest!: rtake.dec_sound)

lemma unat_u32_of_nat: "n < 2 ^ 32 \<Longrightarrow> unat (word_of_nat n :: u32) = n"
  by (simp add: unsigned_of_nat take_bit_eq_mod)

lemma unat_u16_of_nat: "n < 2 ^ 16 \<Longrightarrow> unat (word_of_nat n :: u16) = n"
  by (simp add: unsigned_of_nat take_bit_eq_mod)

interpretation rbytes: prefix_codec "\<lambda>v. length v < 2 ^ 32" "\<lambda>v. u32_be (word_of_nat (length v)) @ v" reader_byte_vec
proof
  fix v r
  show "length v < 2 ^ 32 \<Longrightarrow> reader_byte_vec ((u32_be (word_of_nat (length v)) @ v) @ r) = Ok (v, r)"
    by (simp add: reader_byte_vec_def ru32.dec_enc rtake.dec_enc unat_u32_of_nat)
next
  fix bs v r
  assume "reader_byte_vec bs = Ok (v, r)"
  then obtain count rest where "reader_u32 bs = Ok (count, rest)" "reader_take (unat count) rest = Ok (v, r)"
    by (auto simp: reader_byte_vec_def try_bind_Ok_iff)
  with ru32.dec_sound rtake.dec_sound have "bs = u32_be count @ v @ r" "length v = unat count" by blast+
  then show "length v < 2 ^ 32 \<and> bs = (u32_be (word_of_nat (length v)) @ v) @ r"
    using unat_bound[of count] by simp
qed

interpretation rtags: prefix_codec "\<lambda>vs. length vs < 2 ^ 16" "\<lambda>vs. u16_be (word_of_nat (length vs)) @ concat (map u16_be vs)" reader_u16_vec
proof
  fix vs r
  show "length vs < 2 ^ 16 \<Longrightarrow> reader_u16_vec ((u16_be (word_of_nat (length vs)) @ concat (map u16_be vs)) @ r) = Ok (vs, r)"
    using ru16.dec_many_enc[of vs "length vs" r] by (simp add: reader_u16_vec_def ru16.dec_enc unat_u16_of_nat list_all_iff)
next
  fix bs vs r
  assume "reader_u16_vec bs = Ok (vs, r)"
  then obtain count rest where "reader_u16 bs = Ok (count, rest)" "dec_many reader_u16 (unat count) rest = Ok (vs, r)"
    by (auto simp: reader_u16_vec_def try_bind_Ok_iff)
  with ru16.dec_sound ru16.dec_many_sound have "bs = u16_be count @ concat (map u16_be vs) @ r" "length vs = unat count" by blast+
  then show "length vs < 2 ^ 16 \<and> bs = (u16_be (word_of_nat (length vs)) @ concat (map u16_be vs)) @ r"
    using unat_bound[of count] by simp
qed

section \<open>Valid envelopes\<close>

definition envelope_request :: "commit_envelope \<Rightarrow> commit_request" where
  "envelope_request e =
     \<lparr>cr_cell_id = ce_cell_id e, cr_tenant_id = ce_tenant_id e, cr_generation = ce_generation e,
      cr_client_id = ce_client_id e, cr_request_id = ce_request_id e, cr_read_conflicts = ce_read_conflicts e,
      cr_write_conflicts = ce_write_conflicts e, cr_canonical_mutations = ce_canonical_mutations e\<rparr>"

text \<open>Array sizes and vector bounds, then what the constructors and the decoder establish.\<close>

definition envelope_shape :: "commit_envelope \<Rightarrow> bool" where
  "envelope_shape e \<longleftrightarrow> length (ce_cell_id e) = 16 \<and> length (ce_tenant_id e) = 16 \<and> length (ce_client_id e) = 16 \<and>
     length (ce_resolver_set_id e) = 16 \<and> length (ce_logical_fingerprint e) = 32 \<and> length (ce_previous_log_chain e) = 32 \<and>
     length (ce_read_conflicts e) < 2 ^ 32 \<and> length (ce_write_conflicts e) < 2 ^ 32 \<and> length (ce_canonical_mutations e) < 2 ^ 32 \<and>
     length (ce_required_resolvers e) < 2 ^ 16 \<and> length (ce_required_log_tags e) < 2 ^ 16"

definition envelope_bound :: "commit_envelope \<Rightarrow> bool" where
  "envelope_bound e \<longleftrightarrow> ce_codec_version e = CODEC_VERSION \<and> ce_version e \<noteq> ZERO \<and> generation (ce_version e) = ce_generation e \<and>
     ce_required_resolvers e \<noteq> [] \<and> ce_required_log_tags e \<noteq> [] \<and>
     strictly_sorted (ce_required_resolvers e) \<and> strictly_sorted (ce_required_log_tags e)"

definition envelope_valid :: "(bytes \<Rightarrow> bytes) \<Rightarrow> commit_envelope \<Rightarrow> bool" where
  "envelope_valid sha e \<longleftrightarrow> envelope_shape e \<and> envelope_bound e \<and>
     ce_logical_fingerprint e = request_fingerprint sha (envelope_request e) \<and>
     (\<exists>payload. encode_without_checksum e = Some payload \<and> unat (ce_envelope_len e) = length payload + 32 \<and>
        ce_checksum e = sha payload)"

definition envelope_body :: "commit_envelope \<Rightarrow> bytes" where
  "envelope_body e = ENVELOPE_MAGIC @ u16_be (ce_codec_version e) @ u32_be (ce_envelope_len e) @ ce_cell_id e @ ce_tenant_id e
     @ u64_be (ce_generation e) @ version_to_be_bytes (ce_version e) @ u64_be (ce_log_index e) @ ce_client_id e
     @ u64_be (ce_request_id e) @ ce_resolver_set_id e @ ce_logical_fingerprint e
     @ (u32_be (word_of_nat (length (ce_read_conflicts e))) @ ce_read_conflicts e)
     @ (u32_be (word_of_nat (length (ce_write_conflicts e))) @ ce_write_conflicts e)
     @ (u32_be (word_of_nat (length (ce_canonical_mutations e))) @ ce_canonical_mutations e)
     @ (u16_be (word_of_nat (length (ce_required_resolvers e))) @ concat (map u16_be (ce_required_resolvers e)))
     @ (u16_be (word_of_nat (length (ce_required_log_tags e))) @ concat (map u16_be (ce_required_log_tags e)))
     @ ce_previous_log_chain e"

lemma encode_shape: "envelope_shape e \<Longrightarrow> encode_without_checksum e = Some (envelope_body e)"
  by (simp add: envelope_shape_def encode_without_checksum_def push_byte_vec_def push_u16_vec_def envelope_body_def)

lemma envelope_valid_iff:
  "envelope_valid sha e \<longleftrightarrow> envelope_shape e \<and> envelope_bound e \<and>
     ce_logical_fingerprint e = request_fingerprint sha (envelope_request e) \<and>
     unat (ce_envelope_len e) = length (envelope_body e) + 32 \<and> ce_checksum e = sha (envelope_body e)"
  by (auto simp: envelope_valid_def encode_shape)

lemmas reader_enc = rtake.dec_enc ru16.dec_enc ru32.dec_enc ru64.dec_enc rbytes.dec_enc[simplified append.assoc]
  rtags.dec_enc[simplified append.assoc]

lemma reader_take_end: "length xs = n \<Longrightarrow> reader_take n xs = Ok (xs, [])"
  using rtake.dec_enc[of xs n "[]"] by simp

lemma length_MAGIC [simp]: "length ENVELOPE_MAGIC = 4"
  by (simp add: ENVELOPE_MAGIC_def ascii_def)

lemma decode_body:
  assumes "digest32 sha" and "envelope_valid sha e"
  shows "envelope_decode sha (envelope_body e @ ce_checksum e) = Ok e"
proof -
  from assms(2) have shape: "envelope_shape e" and bound: "envelope_bound e"
    and fp: "request_fingerprint sha (envelope_request e) = ce_logical_fingerprint e"
    and len: "unat (ce_envelope_len e) = length (envelope_body e) + 32" and sum: "ce_checksum e = sha (envelope_body e)"
    by (auto simp: envelope_valid_iff)
  have "length (ce_checksum e) = 32" using assms(1) sum by (simp add: digest32_def)
  then have parts: "length (envelope_body e @ ce_checksum e) - 32 = length (envelope_body e)"
    "\<not> length (envelope_body e @ ce_checksum e) < 32" "length (envelope_body e @ ce_checksum e) = unat (ce_envelope_len e)"
    "take (length (envelope_body e)) (envelope_body e @ ce_checksum e) = envelope_body e"
    "drop (length (envelope_body e)) (envelope_body e @ ce_checksum e) = ce_checksum e"
    using len by simp_all
  have small: "\<not> unat (ce_envelope_len e) < 32" using len by simp
  have req: "request_fingerprint sha
      \<lparr>cr_cell_id = ce_cell_id e, cr_tenant_id = ce_tenant_id e, cr_generation = ce_generation e,
       cr_client_id = ce_client_id e, cr_request_id = ce_request_id e, cr_read_conflicts = ce_read_conflicts e,
       cr_write_conflicts = ce_write_conflicts e, cr_canonical_mutations = ce_canonical_mutations e\<rparr> = ce_logical_fingerprint e"
    using fp by (simp add: envelope_request_def)
  show ?thesis
    unfolding envelope_decode_def Let_def parts(1,2) unfolding parts(3-5) using sum[symmetric] shape bound req small
    by (simp add: envelope_body_def envelope_shape_def envelope_bound_def reader_enc reader_take_end del: length_append)
qed

lemma try_readE:
  assumes "try_bind r (\<lambda>(x, rest). f x rest) = Ok y"
  obtains x rest where "r = Ok (x, rest)" and "f x rest = Ok y"
  using assms by (cases r) auto

lemma guardE:
  assumes "(if c then Err z else t) = Ok y"
  obtains "\<not> c" and "t = Ok y"
  using assms by (auto split: if_splits)

lemma decode_sound:
  assumes "envelope_decode sha bs = Ok e"
  shows "envelope_valid sha e \<and> bs = envelope_body e @ ce_checksum e"
proof -
  define payload where "payload = take (length bs - 32) bs"
  define stored where "stored = drop (length bs - 32) bs"
  have big: "\<not> length bs < 32" and sum: "sha payload = stored"
    using assms by (auto simp: envelope_decode_def Let_def payload_def stored_def split: if_splits)
  have bs: "bs = payload @ stored" and len: "length bs = length payload + 32"
    using big by (simp_all add: payload_def stored_def)
  have "payload = envelope_body e \<and> stored = ce_checksum e \<and> envelope_shape e \<and> envelope_bound e \<and>
      ce_logical_fingerprint e = request_fingerprint sha (envelope_request e) \<and> unat (ce_envelope_len e) = length bs"
    using assms big sum
    unfolding envelope_decode_def Let_def payload_def[symmetric] stored_def[symmetric]
    by (elim guardE try_readE)
       (auto dest!: rtake.dec_sound ru16.dec_sound ru32.dec_sound ru64.dec_sound rbytes.dec_sound rtags.dec_sound
          simp: envelope_body_def envelope_shape_def envelope_bound_def envelope_request_def)
  with sum bs len show ?thesis by (auto simp: envelope_valid_iff)
qed

section \<open>Construction\<close>

lemma envelope_body_length [simp]:
  "length (envelope_body (e\<lparr>ce_envelope_len := n\<rparr>)) = length (envelope_body e)"
  by (simp add: envelope_body_def)

lemma envelope_updates [simp]:
  "envelope_shape (e\<lparr>ce_envelope_len := n\<rparr>) = envelope_shape e" "envelope_bound (e\<lparr>ce_envelope_len := n\<rparr>) = envelope_bound e"
  "envelope_shape (e\<lparr>ce_checksum := c\<rparr>) = envelope_shape e" "envelope_bound (e\<lparr>ce_checksum := c\<rparr>) = envelope_bound e"
  "envelope_request (e\<lparr>ce_envelope_len := n\<rparr>) = envelope_request e" "envelope_request (e\<lparr>ce_checksum := c\<rparr>) = envelope_request e"
  "envelope_body (e\<lparr>ce_checksum := c\<rparr>) = envelope_body e"
  by (simp_all add: envelope_shape_def envelope_bound_def envelope_request_def envelope_body_def)

lemma seal_shape:
  assumes "envelope_shape e"
  shows "seal sha e = (if length (envelope_body e) + 32 < 2 ^ 32 then
     let e' = e\<lparr>ce_envelope_len := word_of_nat (length (envelope_body e) + 32)\<rparr> in Some (e'\<lparr>ce_checksum := sha (envelope_body e')\<rparr>)
     else None)"
  using assms by (simp add: seal_def encode_shape Let_def)

lemma seal_valid:
  assumes "envelope_shape e" "envelope_bound e" "ce_logical_fingerprint e = request_fingerprint sha (envelope_request e)"
    and "seal sha e = Some e'"
  shows "envelope_valid sha e'"
proof -
  let ?n = "length (envelope_body e) + 32"
  have fit: "?n < 2 ^ 32" and e': "e' = e\<lparr>ce_envelope_len := word_of_nat ?n, ce_checksum := sha (envelope_body (e\<lparr>ce_envelope_len := word_of_nat ?n\<rparr>))\<rparr>"
    using assms(4) by (auto simp: seal_shape[OF assms(1)] Let_def split: if_splits)
  have "unat (word_of_nat ?n :: u32) = ?n" by (rule unat_u32_of_nat[OF fit])
  then show ?thesis
    using assms(1-3) by (simp add: envelope_valid_iff e' del: of_nat_add of_nat_numeral)
qed

lemma encode_valid: "envelope_valid sha e \<Longrightarrow> envelope_encode e = Some (envelope_body e @ ce_checksum e)"
  by (simp add: envelope_valid_def envelope_encode_def encode_shape)

lemma envelope_new_valid:
  assumes "digest32 sha"
    and "length (cr_cell_id r) = 16" "length (cr_tenant_id r) = 16" "length (cr_client_id r) = 16" "length chain = 32"
    and "length (cr_read_conflicts r) < 2 ^ 32" "length (cr_write_conflicts r) < 2 ^ 32" "length (cr_canonical_mutations r) < 2 ^ 32"
    and "ver \<noteq> ZERO" "generation ver = cr_generation r" "tags \<noteq> []" "length tags < 2 ^ 16" "strictly_sorted tags"
    and "envelope_new sha r ver i tags chain = Some e"
  shows "envelope_valid sha e"
  using assms(14) unfolding envelope_new_def
  by (rule seal_valid[rotated 3])
     (use assms(1-13) in \<open>simp_all add: envelope_shape_def envelope_bound_def envelope_request_def digest32_def
       request_fingerprint_def RESOLVER_SET_ID_def REQUIRED_RESOLVERS_def word_less_nat_alt\<close>)

section \<open>Properties\<close>

text \<open>C32. The envelope codec is canonical: a byte string decodes to an envelope exactly if the envelope
  is valid (array sizes, codec version, version bound to the generation, non-empty sorted sets,
  logical fingerprint, length and checksum) and the byte string is its encoding. So decoding undoes
  encoding, and no other byte string decodes to the same envelope.\<close>

theorem envelope_codec:
  assumes "digest32 sha"
  shows "envelope_decode sha bs = Ok e \<longleftrightarrow> envelope_valid sha e \<and> envelope_encode e = Some bs"
proof
  assume "envelope_decode sha bs = Ok e"
  then have "envelope_valid sha e" "bs = envelope_body e @ ce_checksum e" by (auto dest: decode_sound)
  then show "envelope_valid sha e \<and> envelope_encode e = Some bs" using encode_valid by simp
next
  assume "envelope_valid sha e \<and> envelope_encode e = Some bs"
  then show "envelope_decode sha bs = Ok e" using decode_body[OF assms] encode_valid[of sha e] by simp
qed

definition parts_ok :: "commit_envelope_parts \<Rightarrow> bool" where
  "parts_ok p \<longleftrightarrow> length (cp_cell_id p) = 16 \<and> length (cp_tenant_id p) = 16 \<and> length (cp_client_id p) = 16 \<and>
     length (cp_resolver_set_id p) = 16 \<and> length (cp_previous_log_chain p) = 32 \<and>
     cp_version p \<noteq> ZERO \<and> generation (cp_version p) = cp_generation p \<and>
     cp_required_resolvers p \<noteq> [] \<and> cp_required_log_tags p \<noteq> [] \<and>
     strictly_sorted (cp_required_resolvers p) \<and> strictly_sorted (cp_required_log_tags p) \<and>
     length (cp_required_resolvers p) < 2 ^ 16 \<and> length (cp_required_log_tags p) < 2 ^ 16 \<and>
     226 + length (cp_read_conflicts p) + length (cp_write_conflicts p) + length (cp_canonical_mutations p)
       + 2 * max 2 (length (cp_required_resolvers p)) + 2 * length (cp_required_log_tags p) < 2 ^ 32"

lemma length_envelope_body:
  "envelope_shape e \<Longrightarrow> length (envelope_body e) = 194 + length (ce_read_conflicts e) + length (ce_write_conflicts e)
     + length (ce_canonical_mutations e) + 2 * length (ce_required_resolvers e) + 2 * length (ce_required_log_tags e)"
proof -
  have "length (concat (map u16_be vs)) = 2 * length vs" for vs by (induction vs) auto
  then show "envelope_shape e \<Longrightarrow> ?thesis" by (simp add: envelope_shape_def envelope_body_def)
qed

lemma from_parts_decodes:
  assumes "digest32 sha" and "parts_ok p"
  shows "\<exists>e bs. envelope_from_parts sha p = Some e \<and> envelope_encode e = Some bs \<and> envelope_decode sha bs = Ok e \<and>
    length bs = unat (ce_envelope_len e) \<and> ce_version e = cp_version p \<and> ce_log_index e = cp_log_index p \<and>
    ce_required_resolvers e = cp_required_resolvers p \<and> ce_required_log_tags e = cp_required_log_tags p \<and>
    ce_canonical_mutations e = cp_canonical_mutations p \<and> ce_previous_log_chain e = cp_previous_log_chain p \<and>
    (ce_client_id e, ce_request_id e) = (cp_client_id p, cp_request_id p) \<and>
    ce_generation e = cp_generation p \<and> length bs = 226 + length (cp_read_conflicts p) + length (cp_write_conflicts p) +
      length (cp_canonical_mutations p) + 2 * length (cp_required_resolvers p) + 2 * length (cp_required_log_tags p)"
proof -
  define r where "r = \<lparr>cr_cell_id = cp_cell_id p, cr_tenant_id = cp_tenant_id p, cr_generation = cp_generation p,
     cr_client_id = cp_client_id p, cr_request_id = cp_request_id p, cr_read_conflicts = cp_read_conflicts p,
     cr_write_conflicts = cp_write_conflicts p, cr_canonical_mutations = cp_canonical_mutations p\<rparr>"
  define e0 where "e0 = \<lparr>ce_codec_version = CODEC_VERSION, ce_envelope_len = 0, ce_cell_id = cp_cell_id p,
       ce_tenant_id = cp_tenant_id p, ce_generation = cp_generation p, ce_version = cp_version p, ce_log_index = cp_log_index p,
       ce_client_id = cp_client_id p, ce_request_id = cp_request_id p, ce_resolver_set_id = RESOLVER_SET_ID,
       ce_logical_fingerprint = request_fingerprint sha r, ce_read_conflicts = cp_read_conflicts p,
       ce_write_conflicts = cp_write_conflicts p, ce_canonical_mutations = cp_canonical_mutations p,
       ce_required_resolvers = REQUIRED_RESOLVERS, ce_required_log_tags = cp_required_log_tags p,
       ce_previous_log_chain = cp_previous_log_chain p, ce_checksum = replicate 32 0\<rparr>"
  have size: "226 + length (cp_read_conflicts p) + length (cp_write_conflicts p) + length (cp_canonical_mutations p)
      + 2 * k + 2 * length (cp_required_log_tags p) < 2 ^ 32" if "k \<le> max 2 (length (cp_required_resolvers p))" for k
    using assms(2) that unfolding parts_ok_def by linarith
  have shape0: "envelope_shape e0"
    using assms by (simp add: envelope_shape_def e0_def parts_ok_def digest32_def request_fingerprint_def RESOLVER_SET_ID_def REQUIRED_RESOLVERS_def)
  then have "length (envelope_body e0) + 32 < 2 ^ 32"
    using size[of 2] by (simp add: length_envelope_body) (simp add: e0_def REQUIRED_RESOLVERS_def)
  then obtain n c where new: "seal sha e0 = Some (e0\<lparr>ce_envelope_len := n, ce_checksum := c\<rparr>)"
    by (simp add: seal_shape[OF shape0] Let_def)
  define e1 where "e1 = e0\<lparr>ce_envelope_len := n, ce_checksum := c, ce_resolver_set_id := cp_resolver_set_id p,
    ce_required_resolvers := cp_required_resolvers p\<rparr>"
  have parts: "envelope_from_parts sha p = seal sha e1"
    using new by (simp add: envelope_from_parts_def envelope_new_def e0_def r_def e1_def)
  have shape1: "envelope_shape e1" and bound1: "envelope_bound e1"
    using shape0 assms(2) by (simp_all add: envelope_shape_def envelope_bound_def e1_def e0_def parts_ok_def)
  have fp1: "ce_logical_fingerprint e1 = request_fingerprint sha (envelope_request e1)"
    by (simp add: e1_def e0_def r_def envelope_request_def)
  have "length (envelope_body e1) + 32 < 2 ^ 32"
    using size[of "length (cp_required_resolvers p)"] shape1 by (simp add: length_envelope_body) (simp add: e1_def e0_def)
  then obtain m d where sealed: "seal sha e1 = Some (e1\<lparr>ce_envelope_len := m, ce_checksum := d\<rparr>)"
    by (simp add: seal_shape[OF shape1] Let_def)
  let ?e = "e1\<lparr>ce_envelope_len := m, ce_checksum := d\<rparr>"
  have valid: "envelope_valid sha ?e" by (rule seal_valid[OF shape1 bound1 fp1 sealed])
  have "length (ce_checksum ?e) = 32" using valid assms(1) by (simp add: envelope_valid_iff digest32_def)
  moreover have "envelope_shape ?e" using shape1 by simp
  ultimately have "length (envelope_body ?e @ ce_checksum ?e) = unat (ce_envelope_len ?e)"
    "length (envelope_body ?e @ ce_checksum ?e) = 226 + length (cp_read_conflicts p) + length (cp_write_conflicts p) +
      length (cp_canonical_mutations p) + 2 * length (cp_required_resolvers p) + 2 * length (cp_required_log_tags p)"
    using valid by (simp_all add: envelope_valid_iff length_envelope_body) (simp add: e1_def e0_def)
  then show ?thesis
    using parts sealed encode_valid[OF valid] decode_body[OF assms(1) valid]
    by (intro exI[of _ ?e] exI[of _ "envelope_body ?e @ ce_checksum ?e"]) (simp add: e1_def e0_def)
qed

text \<open>Conversely a construction that does not panic had parts within the size.\<close>

lemma seal_fits:
  assumes "seal sha e = Some e'"
  shows "length (ce_read_conflicts e) < 2 ^ 32 \<and> length (ce_write_conflicts e) < 2 ^ 32 \<and> length (ce_canonical_mutations e) < 2 ^ 32 \<and>
    length (ce_required_resolvers e) < 2 ^ 16 \<and> length (ce_required_log_tags e) < 2 ^ 16 \<and> (\<exists>n c. e' = e\<lparr>ce_envelope_len := n, ce_checksum := c\<rparr>)"
proof -
  obtain bs where bs: "encode_without_checksum e = Some bs" using assms by (auto simp: seal_def split: option.splits)
  have "\<exists>n c. e' = e\<lparr>ce_envelope_len := n, ce_checksum := c\<rparr>"
    using assms by (auto simp: seal_def Let_def split: option.splits if_splits)
  with bs show ?thesis
    by (auto simp: encode_without_checksum_def push_byte_vec_def push_u16_vec_def split: option.splits if_splits)
qed

definition parts_shape :: "commit_envelope_parts \<Rightarrow> bool" where
  "parts_shape p \<longleftrightarrow> length (cp_cell_id p) = 16 \<and> length (cp_tenant_id p) = 16 \<and> length (cp_client_id p) = 16 \<and>
     length (cp_resolver_set_id p) = 16 \<and> length (cp_previous_log_chain p) = 32 \<and>
     cp_version p \<noteq> ZERO \<and> generation (cp_version p) = cp_generation p \<and>
     cp_required_resolvers p \<noteq> [] \<and> cp_required_log_tags p \<noteq> [] \<and>
     strictly_sorted (cp_required_resolvers p) \<and> strictly_sorted (cp_required_log_tags p)"

lemma from_parts_fits:
  assumes "digest32 sha" "parts_shape p" "envelope_from_parts sha p = Some e"
  shows "parts_ok p"
proof -
  define e0 where "e0 = \<lparr>ce_codec_version = CODEC_VERSION, ce_envelope_len = 0, ce_cell_id = cp_cell_id p,
       ce_tenant_id = cp_tenant_id p, ce_generation = cp_generation p, ce_version = cp_version p, ce_log_index = cp_log_index p,
       ce_client_id = cp_client_id p, ce_request_id = cp_request_id p, ce_resolver_set_id = RESOLVER_SET_ID,
       ce_logical_fingerprint = request_fingerprint sha \<lparr>cr_cell_id = cp_cell_id p, cr_tenant_id = cp_tenant_id p, cr_generation = cp_generation p,
         cr_client_id = cp_client_id p, cr_request_id = cp_request_id p, cr_read_conflicts = cp_read_conflicts p,
         cr_write_conflicts = cp_write_conflicts p, cr_canonical_mutations = cp_canonical_mutations p\<rparr>, ce_read_conflicts = cp_read_conflicts p,
       ce_write_conflicts = cp_write_conflicts p, ce_canonical_mutations = cp_canonical_mutations p,
       ce_required_resolvers = REQUIRED_RESOLVERS, ce_required_log_tags = cp_required_log_tags p,
       ce_previous_log_chain = cp_previous_log_chain p, ce_checksum = replicate 32 0\<rparr>"
  obtain e1 where s0: "seal sha e0 = Some e1"
    and s1: "seal sha (e1\<lparr>ce_resolver_set_id := cp_resolver_set_id p, ce_required_resolvers := cp_required_resolvers p\<rparr>) = Some e"
    using assms(3) by (auto simp: envelope_from_parts_def envelope_new_def e0_def split: option.splits)
  obtain n c where e1: "e1 = e0\<lparr>ce_envelope_len := n, ce_checksum := c\<rparr>" using seal_fits[OF s0] by blast
  define e2 where "e2 = e1\<lparr>ce_resolver_set_id := cp_resolver_set_id p, ce_required_resolvers := cp_required_resolvers p\<rparr>"
  note fits = seal_fits[OF s0] seal_fits[OF s1]
  have shape: "envelope_shape e0" "envelope_shape e2"
    using fits assms(1,2) by (simp_all add: envelope_shape_def e0_def e1 e2_def parts_shape_def digest32_def request_fingerprint_def RESOLVER_SET_ID_def)
  have "length (envelope_body e0) + 32 < 2 ^ 32" "length (envelope_body e2) + 32 < 2 ^ 32"
    using s0 s1 by (auto simp: seal_shape[OF shape(1)] seal_shape[OF shape(2)] e2_def[symmetric] split: if_splits)
  then show ?thesis
    using fits assms(2) unfolding length_envelope_body[OF shape(1)] length_envelope_body[OF shape(2)]
    by (simp add: parts_ok_def parts_shape_def e0_def e1 e2_def REQUIRED_RESOLVERS_def max_def)
qed

text \<open>Construction from parts never panics within the stated size, and what it builds carries the
  parts, encodes, and decodes to itself.\<close>

theorem from_parts_round_trip:
  assumes "digest32 sha" and "parts_ok p"
  shows "\<exists>e bs. envelope_from_parts sha p = Some e \<and> envelope_encode e = Some bs \<and> envelope_decode sha bs = Ok e \<and>
    length bs = unat (ce_envelope_len e) \<and> ce_version e = cp_version p \<and> ce_log_index e = cp_log_index p \<and>
    ce_required_resolvers e = cp_required_resolvers p \<and> ce_required_log_tags e = cp_required_log_tags p \<and>
    ce_canonical_mutations e = cp_canonical_mutations p \<and> ce_previous_log_chain e = cp_previous_log_chain p \<and>
    (ce_client_id e, ce_request_id e) = (cp_client_id p, cp_request_id p)"
  using from_parts_decodes[OF assms] by blast

text \<open>Witnesses.\<close>

abbreviation demo_parts :: commit_envelope_parts where
  "demo_parts \<equiv> \<lparr>cp_cell_id = CELL_ID, cp_tenant_id = TENANT_ID, cp_generation = 3, cp_version = Version 3 1, cp_log_index = 1,
     cp_client_id = replicate 16 5, cp_request_id = 9, cp_resolver_set_id = RESOLVER_SET_ID, cp_read_conflicts = [1],
     cp_write_conflicts = [2], cp_canonical_mutations = [3], cp_required_resolvers = [1, 2], cp_required_log_tags = [10, 20],
     cp_previous_log_chain = replicate 32 0\<rparr>"

lemma demo_parts_ok: "parts_ok demo_parts"
  by (simp add: parts_ok_def CELL_ID_def TENANT_ID_def RESOLVER_SET_ID_def ZERO_def word_less_nat_alt)

theorem from_parts_round_trip_witness:
  "\<exists>e bs. envelope_from_parts demo_sha demo_parts = Some e \<and> envelope_encode e = Some bs \<and> envelope_decode demo_sha bs = Ok e \<and>
     ce_version e = Version 3 1"
  using from_parts_round_trip[OF demo_sha_digest32 demo_parts_ok] by auto

theorem envelope_codec_witness:
  "\<exists>e bs. envelope_decode demo_sha bs = Ok e \<and> envelope_valid demo_sha e \<and> envelope_encode e = Some bs"
proof -
  obtain e where "envelope_new demo_sha \<lparr>cr_cell_id = CELL_ID, cr_tenant_id = TENANT_ID, cr_generation = 3, cr_client_id = replicate 16 5,
      cr_request_id = 9, cr_read_conflicts = [], cr_write_conflicts = [], cr_canonical_mutations = []\<rparr> (Version 3 1) 1 [10, 20] (replicate 32 0) = Some e"
    by (simp add: envelope_new_def seal_def encode_without_checksum_def push_byte_vec_def push_u16_vec_def Let_def
        CELL_ID_def TENANT_ID_def RESOLVER_SET_ID_def REQUIRED_RESOLVERS_def request_fingerprint_def demo_sha_def)
  then have valid: "envelope_valid demo_sha e"
    by (rule envelope_new_valid[rotated 13]) (simp_all add: CELL_ID_def TENANT_ID_def ZERO_def word_less_nat_alt)
  with envelope_codec[OF demo_sha_digest32, of "envelope_body e @ ce_checksum e" e] encode_valid[OF valid]
  show ?thesis by (intro exI[of _ e] exI[of _ "envelope_body e @ ce_checksum e"]) simp
qed
end
