(* ===== verification/Commit_Model.thy ===== *)
theory Commit_Model
  imports Commit_Envelope
begin

text \<open>
  The commit contract model of \<open>okv-sim/src/commit.rs\<close>: submission of a request with its
  deduplication, generation, resolver and log-tag checks, the certified records on three
  replicas, and recovery of the client outcomes from them. The deliberately wrong modes are
  modelled too. A panic, of a length \<open>expect\<close> or of an overflowing counter, is the value \<open>None\<close>.
\<close>

section \<open>Data\<close>

definition QUORUM :: nat where "QUORUM = 2"

datatype commit_contract_mode =
    Correct
  | RamOnlyDedup
  | AcceptConflictingRetry
  | AcceptPartialResolver
  | OmitRequiredLogTag
  | AcceptStaleGeneration
  | AckBeforeQuorum

fun mode_id :: "commit_contract_mode \<Rightarrow> string" where
  "mode_id Correct = ''correct''"
| "mode_id RamOnlyDedup = ''ram_only_dedup''"
| "mode_id AcceptConflictingRetry = ''accept_conflicting_retry''"
| "mode_id AcceptPartialResolver = ''accept_partial_resolver''"
| "mode_id OmitRequiredLogTag = ''omit_required_log_tag''"
| "mode_id AcceptStaleGeneration = ''accept_stale_generation''"
| "mode_id AckBeforeQuorum = ''ack_before_quorum''"

datatype reject_reason = ConflictingRetry | MissingResolver | MissingLogTag | StaleGeneration

datatype commit_outcome = Committed version | Unknown | Unavailable | Rejected reject_reason

record commit_certificate =
  acknowledgers :: "u8 list"

definition is_quorum :: "commit_certificate \<Rightarrow> bool" where
  "is_quorum c \<longleftrightarrow> length (remdups (filter (\<lambda>r. unat r < 3) (acknowledgers c))) \<ge> QUORUM"

record stored_record =
  sr_envelope :: commit_envelope
  sr_certificate :: commit_certificate

record replica =
  rep_records :: "(u64, stored_record) btree"

record commit_model =
  cm_mode :: commit_contract_mode
  cm_active_generation :: u64
  cm_next_sequence :: u64
  cm_next_log_index :: u64
  cm_previous_log_chain :: bytes
  cm_replicas :: "replica list"
  cm_outcomes :: "(bytes \<times> u64, bytes \<times> version) btree"

definition commit_model_new :: "commit_contract_mode \<Rightarrow> commit_model" where
  "commit_model_new mode =
     \<lparr>cm_mode = mode, cm_active_generation = 3, cm_next_sequence = 0, cm_next_log_index = 0,
      cm_previous_log_chain = replicate 32 0, cm_replicas = replicate 3 \<lparr>rep_records = []\<rparr>, cm_outcomes = []\<rparr>"

definition contains_all :: "u16 list \<Rightarrow> u16 list \<Rightarrow> bool" where
  "contains_all actual required \<longleftrightarrow> list_all (\<lambda>item. item \<in> set actual) required"

section \<open>Submission\<close>

text \<open>The loop over the synchronised replicas; identifiers without a replica are skipped.\<close>

definition store_on :: "u64 \<Rightarrow> stored_record \<Rightarrow> u8 \<Rightarrow> replica list \<Rightarrow> replica list" where
  "store_on log_index r replica_id replicas =
     (if unat replica_id < length replicas
      then replicas[unat replica_id := (replicas ! unat replica_id)\<lparr>rep_records :=
             bt_insert log_index r (rep_records (replicas ! unat replica_id))\<rparr>]
      else replicas)"

definition submit ::
  "(bytes \<Rightarrow> bytes) \<Rightarrow> commit_request \<Rightarrow> u16 list \<Rightarrow> u16 list \<Rightarrow> u8 list \<Rightarrow> bool \<Rightarrow> commit_model \<Rightarrow>
     (commit_outcome \<times> commit_model) option" where
  "submit sha r accepted_resolvers routed_tags fsynced_replicas deliver_reply m =
     (case bt_get (cm_outcomes m) (request_key r) of
        Some (fp, ver) \<Rightarrow>
          Some (if fp = request_fingerprint sha r \<or> cm_mode m = AcceptConflictingRetry then Committed ver
                else Rejected ConflictingRetry, m)
      | None \<Rightarrow>
          if cr_generation r \<noteq> cm_active_generation m \<and> cm_mode m \<noteq> AcceptStaleGeneration
          then Some (Rejected StaleGeneration, m)
          else if \<not> contains_all accepted_resolvers REQUIRED_RESOLVERS \<and> cm_mode m \<noteq> AcceptPartialResolver
          then Some (Rejected MissingResolver, m)
          else if \<not> contains_all routed_tags REQUIRED_LOG_TAGS \<and> cm_mode m \<noteq> OmitRequiredLogTag
          then Some (Rejected MissingLogTag, m)
          else if cm_next_sequence m = - 1 \<or> cm_next_log_index m = - 1 then None
          else
            let next_sequence = cm_next_sequence m + 1; next_log_index = cm_next_log_index m + 1;
                ver = from_parts (cm_active_generation m) next_sequence;
                tags = remdups_adj (sort routed_tags) in
            case envelope_new sha r ver next_log_index tags (cm_previous_log_chain m) of
              None \<Rightarrow> None
            | Some envelope \<Rightarrow>
               (case envelope_encode envelope of
                  None \<Rightarrow> None
                | Some encoded \<Rightarrow>
                    let certificate = \<lparr>acknowledgers = fsynced_replicas\<rparr>;
                        m' = m\<lparr>cm_next_sequence := next_sequence, cm_next_log_index := next_log_index,
                          cm_previous_log_chain := sha encoded,
                          cm_replicas := fold (store_on next_log_index \<lparr>sr_envelope = envelope, sr_certificate = certificate\<rparr>)
                            fsynced_replicas (cm_replicas m)\<rparr> in
                    Some (if is_quorum certificate
                          then (if deliver_reply then Committed ver else Unknown,
                                m'\<lparr>cm_outcomes := bt_insert (request_key r) (request_fingerprint sha r, ver) (cm_outcomes m)\<rparr>)
                          else (if cm_mode m = AckBeforeQuorum then Committed ver else Unavailable, m'))))"

section \<open>Recovery\<close>

record recovery_state =
  rs_recovered :: "(bytes \<times> u64, bytes \<times> version) btree"
  rs_maximum_sequence :: u64
  rs_maximum_index :: u64
  rs_log_chain :: bytes

fun recover_records :: "(bytes \<Rightarrow> bytes) \<Rightarrow> stored_record list \<Rightarrow> recovery_state \<Rightarrow> recovery_state option" where
  "recover_records sha [] s = Some s"
| "recover_records sha (r # rs) s =
     (if \<not> is_quorum (sr_certificate r) then recover_records sha rs s
      else case envelope_encode (sr_envelope r) of
        None \<Rightarrow> None
      | Some encoded \<Rightarrow>
         (case envelope_decode sha encoded of
            Err _ \<Rightarrow> recover_records sha rs s
          | Ok e \<Rightarrow>
              recover_records sha rs \<lparr>
                rs_recovered = bt_insert (ce_client_id e, ce_request_id e) (ce_logical_fingerprint e, ce_version e) (rs_recovered s),
                rs_maximum_sequence = max (rs_maximum_sequence s) (sequence (ce_version e)),
                rs_maximum_index = (if ce_log_index e > rs_maximum_index s then ce_log_index e else rs_maximum_index s),
                rs_log_chain = (if ce_log_index e > rs_maximum_index s then sha encoded else rs_log_chain s)\<rparr>))"

definition commit_recover :: "(bytes \<Rightarrow> bytes) \<Rightarrow> commit_model \<Rightarrow> (u64 \<times> commit_model) option" where
  "commit_recover sha m =
     map_option (\<lambda>s.
       let outcomes = (if cm_mode m \<noteq> RamOnlyDedup then rs_recovered s else []) in
       (to_u64 (length outcomes),
        m\<lparr>cm_next_sequence := rs_maximum_sequence s, cm_next_log_index := rs_maximum_index s,
          cm_previous_log_chain := rs_log_chain s, cm_outcomes := outcomes\<rparr>))
       (recover_records sha (concat (map (\<lambda>replica. bt_values (rep_records replica)) (cm_replicas m)))
          \<lparr>rs_recovered = [], rs_maximum_sequence = 0, rs_maximum_index = 0, rs_log_chain = replicate 32 0\<rparr>)"
end
