(* ===== verification/Commit_Safety.thy ===== *)
theory Commit_Safety
  imports Commit_Model
begin

text \<open>
  Safety of the commit contract in its correct mode: over every run of submissions and
  recoveries the retained outcomes are exactly those of the quorum-certified records, so that
  recovery loses nothing, a retry gets the original answer, and committed versions are unique.
\<close>

section \<open>Runs\<close>

datatype commit_event = Submit commit_request "u16 list" "u16 list" "u8 list" bool | Recover

fun commit_step :: "(bytes \<Rightarrow> bytes) \<Rightarrow> commit_event \<Rightarrow> commit_model \<Rightarrow> commit_model option" where
  "commit_step sha (Submit r resolvers tags fsynced deliver) m = map_option snd (submit sha r resolvers tags fsynced deliver m)"
| "commit_step sha Recover m = map_option snd (commit_recover sha m)"

fun commit_run :: "(bytes \<Rightarrow> bytes) \<Rightarrow> commit_event list \<Rightarrow> commit_model \<Rightarrow> commit_model option" where
  "commit_run sha [] m = Some m"
| "commit_run sha (e # es) m = (case commit_step sha e m of None \<Rightarrow> None | Some m' \<Rightarrow> commit_run sha es m')"

text \<open>Requests have arrays of their declared sizes, and no more log tags than the count field holds.\<close>

definition request_ok :: "commit_request \<Rightarrow> bool" where
  "request_ok r \<longleftrightarrow> length (cr_cell_id r) = 16 \<and> length (cr_tenant_id r) = 16 \<and> length (cr_client_id r) = 16 \<and>
     length (cr_read_conflicts r) < 2 ^ 32 \<and> length (cr_write_conflicts r) < 2 ^ 32 \<and> length (cr_canonical_mutations r) < 2 ^ 32"

fun event_request_ok :: "commit_event \<Rightarrow> bool" where
  "event_request_ok (Submit r _ tags _ _) \<longleftrightarrow> request_ok r \<and> length tags < 2 ^ 16"
| "event_request_ok Recover \<longleftrightarrow> True"

section \<open>Certified records\<close>

definition stored :: "commit_model \<Rightarrow> nat \<Rightarrow> stored_record \<Rightarrow> bool" where
  "stored m i r \<longleftrightarrow> i < length (cm_replicas m) \<and> bt_get (rep_records (cm_replicas m ! i)) (ce_log_index (sr_envelope r)) = Some r"

definition certified :: "commit_model \<Rightarrow> commit_envelope set" where
  "certified m = {e. \<exists>i r. stored m i r \<and> is_quorum (sr_certificate r) \<and> e = sr_envelope r}"

definition envelope_key :: "commit_envelope \<Rightarrow> bytes \<times> u64" where
  "envelope_key e = (ce_client_id e, ce_request_id e)"

definition replicas_ok :: "commit_model \<Rightarrow> bool" where
  "replicas_ok m \<longleftrightarrow> length (cm_replicas m) = 3 \<and>
     (\<forall>i < 3. bt_wf (rep_records (cm_replicas m ! i)) \<and>
        (\<forall>k r. bt_get (rep_records (cm_replicas m ! i)) k = Some r \<longrightarrow> ce_log_index (sr_envelope r) = k))"

definition certified_ok :: "(bytes \<Rightarrow> bytes) \<Rightarrow> commit_model \<Rightarrow> bool" where
  "certified_ok sha m \<longleftrightarrow> (\<forall>e \<in> certified m. envelope_valid sha e \<and> ce_generation e = cm_active_generation m \<and>
     ce_log_index e \<le> cm_next_log_index m \<and> sequence (ce_version e) \<le> cm_next_sequence m \<and>
     card {i. \<exists>r. stored m i r \<and> sr_envelope r = e} \<ge> QUORUM)"

definition certified_unique :: "commit_model \<Rightarrow> bool" where
  "certified_unique m \<longleftrightarrow> inj_on envelope_key (certified m) \<and> inj_on (sequence \<circ> ce_version) (certified m) \<and>
     inj_on ce_log_index (certified m)"

definition outcomes_ok :: "commit_model \<Rightarrow> bool" where
  "outcomes_ok m \<longleftrightarrow> bt_wf (cm_outcomes m) \<and>
     (\<forall>k fp v. bt_get (cm_outcomes m) k = Some (fp, v) \<longleftrightarrow>
        (\<exists>e \<in> certified m. envelope_key e = k \<and> ce_logical_fingerprint e = fp \<and> ce_version e = v))"

definition commit_inv :: "(bytes \<Rightarrow> bytes) \<Rightarrow> commit_model \<Rightarrow> bool" where
  "commit_inv sha m \<longleftrightarrow> cm_mode m = Correct \<and> length (cm_previous_log_chain m) = 32 \<and>
     replicas_ok m \<and> certified_ok sha m \<and> certified_unique m \<and> outcomes_ok m"

section \<open>Storing a record\<close>

lemma length_store [simp]: "length (fold (store_on k R) ids reps) = length reps"
  by (induction ids arbitrary: reps) (auto simp: store_on_def)

lemma get_store:
  "i < length reps \<Longrightarrow> bt_get (rep_records (fold (store_on k R) ids reps ! i)) j =
     (if i \<in> unat ` set ids \<and> j = k then Some R else bt_get (rep_records (reps ! i)) j)"
proof (induction ids arbitrary: reps)
  case (Cons a ids)
  have "i < length (store_on k R a reps)" using Cons.prems by (simp add: store_on_def)
  from Cons.IH[OF this] show ?case
    using Cons.prems by (auto simp: store_on_def nth_list_update)
qed simp

lemma wf_store:
  "\<forall>i < length reps. bt_wf (rep_records (reps ! i)) \<Longrightarrow> i < length reps \<Longrightarrow> bt_wf (rep_records (fold (store_on k R) ids reps ! i))"
proof (induction ids arbitrary: reps)
  case (Cons a ids)
  have "\<forall>i < length (store_on k R a reps). bt_wf (rep_records (store_on k R a reps ! i))"
    using Cons.prems(1) by (auto simp: store_on_def nth_list_update)
  moreover have "i < length (store_on k R a reps)" using Cons.prems(2) by (simp add: store_on_def)
  ultimately show ?case using Cons.IH by simp
qed simp

text \<open>The model after a record \<open>R\<close> was written at a fresh index.\<close>

definition written :: "(bytes \<Rightarrow> bytes) \<Rightarrow> stored_record \<Rightarrow> commit_model \<Rightarrow> commit_model \<Rightarrow> bool" where
  "written sha R m m' \<longleftrightarrow> cm_mode m' = cm_mode m \<and> cm_active_generation m' = cm_active_generation m \<and>
     cm_next_sequence m < cm_next_sequence m' \<and> cm_next_log_index m < cm_next_log_index m' \<and>
     ce_log_index (sr_envelope R) = cm_next_log_index m' \<and> sequence (ce_version (sr_envelope R)) = cm_next_sequence m' \<and>
     ce_generation (sr_envelope R) = cm_active_generation m \<and> length (cm_previous_log_chain m') = 32 \<and>
     envelope_valid sha (sr_envelope R) \<and>
     cm_replicas m' = fold (store_on (cm_next_log_index m') R) (acknowledgers (sr_certificate R)) (cm_replicas m)"

lemma stored_written:
  assumes "written sha R m m'" and "replicas_ok m"
  shows "stored m' i r \<longleftrightarrow> (if i \<in> unat ` set (acknowledgers (sr_certificate R)) \<and> ce_log_index (sr_envelope r) = cm_next_log_index m'
    then i < 3 \<and> r = R else stored m i r)"
proof -
  have len: "length (cm_replicas m) = 3" using assms(2) by (simp add: replicas_ok_def)
  have ix: "ce_log_index (sr_envelope R) = cm_next_log_index m'" using assms(1) by (simp add: written_def)
  have reps: "cm_replicas m' = fold (store_on (cm_next_log_index m') R) (acknowledgers (sr_certificate R)) (cm_replicas m)"
    using assms(1) by (simp add: written_def)
  show ?thesis
  proof (cases "i < 3")
    case True
    then show ?thesis
      using len ix by (auto simp: stored_def reps get_store)
  qed (simp add: stored_def reps len)
qed

lemma replicas_ok_written: "written sha R m m' \<Longrightarrow> replicas_ok m \<Longrightarrow> replicas_ok m'"
  by (auto simp: replicas_ok_def written_def get_store wf_store split: if_splits)

lemma certified_index:
  "certified_ok sha m \<Longrightarrow> stored m i r \<Longrightarrow> is_quorum (sr_certificate r) \<Longrightarrow> ce_log_index (sr_envelope r) \<le> cm_next_log_index m"
  by (auto simp: certified_ok_def certified_def)

lemma quorum_replicas:
  assumes "is_quorum c"
  shows "QUORUM \<le> card {i. i < 3 \<and> i \<in> unat ` set (acknowledgers c)}"
proof -
  let ?ids = "remdups (filter (\<lambda>r. unat r < 3) (acknowledgers c))"
  have "card (unat ` set ?ids) = length ?ids"
    using distinct_card[of ?ids] by (subst card_image) (auto simp: inj_on_def word_unat_eq_iff simp del: set_remdups set_filter)
  moreover have "unat ` set ?ids = {i. i < 3 \<and> i \<in> unat ` set (acknowledgers c)}" by auto
  ultimately show ?thesis using assms by (simp add: is_quorum_def)
qed

lemma certified_written:
  assumes "written sha R m m'" and "replicas_ok m" and "certified_ok sha m"
  shows "certified m' = (if is_quorum (sr_certificate R) then insert (sr_envelope R) (certified m) else certified m)"
proof -
  note st = stored_written[OF assms(1,2)]
  have fresh: "ce_log_index (sr_envelope r) \<noteq> cm_next_log_index m'" if "stored m i r" "is_quorum (sr_certificate r)" for i r
    using certified_index[OF assms(3) that] assms(1) by (auto simp: written_def)
  have new: "\<exists>i. stored m' i R" if q: "is_quorum (sr_certificate R)"
  proof -
    have "0 < card {i. i < 3 \<and> i \<in> unat ` set (acknowledgers (sr_certificate R))}"
      using quorum_replicas[OF q] by (simp add: QUORUM_def)
    then obtain i where "i < 3" "i \<in> unat ` set (acknowledgers (sr_certificate R))" by (auto simp: card_gt_0_iff)
    then show ?thesis using st[of i R] assms(1) by (auto simp: written_def)
  qed
  have old: "stored m' i r \<longleftrightarrow> stored m i r \<or> (\<exists>j. stored m' j R) \<and> stored m' i r \<and> r = R" if "is_quorum (sr_certificate r)" for i r
    using st[of i r] fresh[of i r] that by (auto split: if_splits)
  show ?thesis
  proof (cases "is_quorum (sr_certificate R)")
    case True
    then show ?thesis using old new unfolding certified_def by (simp, blast)
  next
    case False
    then show ?thesis using old unfolding certified_def by (simp, blast)
  qed
qed

section \<open>Submission keeps the invariant\<close>

lemma copies_written:
  assumes "written sha R m m'" and "replicas_ok m" and "certified_ok sha m" and "e \<in> certified m'"
  shows "QUORUM \<le> card {i. \<exists>r. stored m' i r \<and> sr_envelope r = e}"
proof -
  note st = stored_written[OF assms(1,2)]
  have fin: "finite {i. \<exists>r. stored m' i r \<and> sr_envelope r = e}"
    by (rule finite_subset[of _ "{..<length (cm_replicas m')}"]) (auto simp: stored_def)
  show ?thesis
  proof (cases "e \<in> certified m")
    case True
    then have "ce_log_index e \<le> cm_next_log_index m" "QUORUM \<le> card {i. \<exists>r. stored m i r \<and> sr_envelope r = e}"
      using assms(3) by (auto simp: certified_ok_def)
    moreover have "{i. \<exists>r. stored m i r \<and> sr_envelope r = e} \<subseteq> {i. \<exists>r. stored m' i r \<and> sr_envelope r = e}"
    proof
      fix i
      assume "i \<in> {i. \<exists>r. stored m i r \<and> sr_envelope r = e}"
      then obtain r where r: "stored m i r" "sr_envelope r = e" by blast
      then have "stored m' i r" using st[of i r] calculation(1) assms(1) by (auto simp: written_def)
      with r show "i \<in> {i. \<exists>r. stored m' i r \<and> sr_envelope r = e}" by blast
    qed
    ultimately show ?thesis using card_mono[OF fin] by (meson order_trans)
  next
    case False
    then have "e = sr_envelope R" and q: "is_quorum (sr_certificate R)"
      using certified_written[OF assms(1-3)] assms(4) by (auto split: if_splits)
    moreover have "stored m' i R" if "i < 3" "i \<in> unat ` set (acknowledgers (sr_certificate R))" for i
      using st[of i R] that assms(1) by (simp add: written_def)
    ultimately have "{i. i < 3 \<and> i \<in> unat ` set (acknowledgers (sr_certificate R))} \<subseteq> {i. \<exists>r. stored m' i r \<and> sr_envelope r = e}"
      by blast
    then show ?thesis using card_mono[OF fin] quorum_replicas[OF q] by (meson order_trans)
  qed
qed

lemma certified_ok_written:
  assumes "written sha R m m'" and "replicas_ok m" and "certified_ok sha m"
  shows "certified_ok sha m'"
  unfolding certified_ok_def
proof
  fix e
  assume e: "e \<in> certified m'"
  have w: "cm_next_log_index m < cm_next_log_index m'" "cm_next_sequence m < cm_next_sequence m'" "cm_active_generation m' = cm_active_generation m"
    using assms(1) by (auto simp: written_def)
  show "envelope_valid sha e \<and> ce_generation e = cm_active_generation m' \<and> ce_log_index e \<le> cm_next_log_index m' \<and>
      sequence (ce_version e) \<le> cm_next_sequence m' \<and> QUORUM \<le> card {i. \<exists>r. stored m' i r \<and> sr_envelope r = e}"
  proof (cases "e \<in> certified m")
    case True
    with assms(3) w copies_written[OF assms e] show ?thesis
      by (auto simp: certified_ok_def intro: less_imp_le le_less_trans)
  next
    case False
    then have "e = sr_envelope R"
      using certified_written[OF assms] e by (auto split: if_splits)
    with assms(1) copies_written[OF assms e] w show ?thesis by (auto simp: written_def)
  qed
qed

lemma certified_unique_written:
  assumes "written sha R m m'" and "replicas_ok m" and "certified_ok sha m" and "certified_unique m"
    and "is_quorum (sr_certificate R) \<Longrightarrow> envelope_key (sr_envelope R) \<notin> envelope_key ` certified m"
  shows "certified_unique m'"
proof -
  have below: "ce_log_index e < cm_next_log_index m'" "sequence (ce_version e) < cm_next_sequence m'" if "e \<in> certified m" for e
    using assms(1,3) that by (auto simp: certified_ok_def written_def intro: le_less_trans)
  show ?thesis
  proof (cases "is_quorum (sr_certificate R)")
    case True
    have R: "ce_log_index (sr_envelope R) = cm_next_log_index m'" "sequence (ce_version (sr_envelope R)) = cm_next_sequence m'"
      using assms(1) by (auto simp: written_def)
    have "sr_envelope R \<notin> certified m" using below(1)[of "sr_envelope R"] R by auto
    moreover have "ce_log_index (sr_envelope R) \<notin> ce_log_index ` certified m"
      "(sequence \<circ> ce_version) (sr_envelope R) \<notin> (sequence \<circ> ce_version) ` certified m"
      using below R by fastforce+
    ultimately show ?thesis
      using assms(4,5) True by (auto simp: certified_unique_def certified_written[OF assms(1-3)] inj_on_insert)
  next
    case False
    then show ?thesis using assms(4) by (simp add: certified_unique_def certified_written[OF assms(1-3)])
  qed
qed

lemma strictly_sorted_iff: "strictly_sorted vs \<longleftrightarrow> sorted_wrt (<) vs"
  by (induction vs rule: strictly_sorted.induct) (auto intro: less_trans)

lemma tags_ok:
  assumes "contains_all tags REQUIRED_LOG_TAGS" and "length tags < 2 ^ 16"
  shows "remdups_adj (sort tags) \<noteq> []" "length (remdups_adj (sort tags)) < 2 ^ 16" "strictly_sorted (remdups_adj (sort tags))"
proof -
  have "10 \<in> set (remdups_adj (sort tags))" using assms(1) by (simp add: contains_all_def REQUIRED_LOG_TAGS_def)
  then show "remdups_adj (sort tags) \<noteq> []" by (metis empty_iff empty_set)
  show "length (remdups_adj (sort tags)) < 2 ^ 16"
    using remdups_adj_length[of "sort tags"] assms(2) by simp
  show "strictly_sorted (remdups_adj (sort tags))" by (simp add: strictly_sorted_iff strict_sorted_remdups_adj)
qed

lemma succ_gt: "x \<noteq> - 1 \<Longrightarrow> x < x + 1" for x :: "'a::len word"
proof -
  assume "x \<noteq> - 1"
  then have "unat x \<noteq> 2 ^ LENGTH('a) - Suc 0" by (simp add: word_unat_eq_iff unat_minus_1)
  with unat_le_max[of x] have "unat x + 1 < 2 ^ LENGTH('a)" by linarith
  then have "unat (x + 1) = unat x + 1" by (simp add: unat_word_ariths)
  then show ?thesis by (simp add: word_less_nat_alt)
qed

text \<open>The cases of a submission in the correct mode.\<close>

lemma submit_cases [consumes 5, case_names retry rejected durable unavailable]:
  assumes "digest32 sha" and "commit_inv sha m" and "request_ok r" "length tags < 2 ^ 16"
    and "submit sha r resolvers tags fsynced deliver m = Some (oc, m')"
  obtains fp v where "bt_get (cm_outcomes m) (request_key r) = Some (fp, v)" "m' = m"
      "oc = (if fp = request_fingerprint sha r then Committed v else Rejected ConflictingRetry)"
    | reason where "bt_get (cm_outcomes m) (request_key r) = None" "m' = m" "oc = Rejected reason"
    | R where "bt_get (cm_outcomes m) (request_key r) = None" "written sha R m m'" "is_quorum (sr_certificate R)"
      "envelope_key (sr_envelope R) = request_key r" "ce_logical_fingerprint (sr_envelope R) = request_fingerprint sha r"
      "cm_outcomes m' = bt_insert (request_key r) (request_fingerprint sha r, ce_version (sr_envelope R)) (cm_outcomes m)"
      "oc = (if deliver then Committed (ce_version (sr_envelope R)) else Unknown)"
    | R where "bt_get (cm_outcomes m) (request_key r) = None" "written sha R m m'" "\<not> is_quorum (sr_certificate R)"
      "cm_outcomes m' = cm_outcomes m" "oc = Unavailable"
proof (cases "bt_get (cm_outcomes m) (request_key r)")
  case (Some p)
  obtain fp v where "p = (fp, v)" by (cases p)
  with Some assms(2,5) show thesis by (intro that(1)) (auto simp: submit_def commit_inv_def)
next
  case None
  let ?ver = "from_parts (cm_active_generation m) (cm_next_sequence m + 1)" and ?k = "cm_next_log_index m + 1"
  have mode: "cm_mode m = Correct" using assms(2) by (simp add: commit_inv_def)
  from assms(5) None mode consider (reject) reason where "m' = m" "oc = Rejected reason"
    | (go) e encoded where "cr_generation r = cm_active_generation m" "contains_all tags REQUIRED_LOG_TAGS"
      "contains_all resolvers REQUIRED_RESOLVERS" "cm_next_sequence m \<noteq> - 1" "cm_next_log_index m \<noteq> - 1"
      "envelope_new sha r ?ver ?k (remdups_adj (sort tags)) (cm_previous_log_chain m) = Some e"
      "envelope_encode e = Some encoded"
    by (auto simp: submit_def Let_def split: if_splits option.splits)
  then show thesis
  proof cases
    case reject
    with None show thesis by (intro that(2))
  next
    case go
    define R where "R = \<lparr>sr_envelope = e, sr_certificate = \<lparr>acknowledgers = fsynced\<rparr>\<rparr>"
    have "cm_next_sequence m + 1 \<noteq> 0" using succ_gt[OF go(4)] by auto
    then have ver: "?ver \<noteq> ZERO" "generation ?ver = cr_generation r" using go(1) by (simp_all add: from_parts_def ZERO_def)
    have chain: "length (cm_previous_log_chain m) = 32" using assms(2) by (simp add: commit_inv_def)
    have valid: "envelope_valid sha e"
      using assms(1,3) chain ver tags_ok[OF go(2) assms(4)]
      by (intro envelope_new_valid[OF _ _ _ _ _ _ _ _ _ _ _ _ _ go(6)]) (simp_all add: request_ok_def)
    have fields: "ce_log_index e = ?k" "ce_version e = ?ver" "ce_generation e = cr_generation r"
      "envelope_key e = request_key r" "ce_logical_fingerprint e = request_fingerprint sha r"
      using go(6) by (auto simp: envelope_new_def seal_def Let_def envelope_key_def request_key_def split: option.splits if_splits)
    have sha: "length (sha encoded) = 32" using assms(1) by (simp add: digest32_def)
    have "submit sha r resolvers tags fsynced deliver m = Some (if is_quorum \<lparr>acknowledgers = fsynced\<rparr>
        then (if deliver then Committed ?ver else Unknown,
          m\<lparr>cm_next_sequence := cm_next_sequence m + 1, cm_next_log_index := ?k, cm_previous_log_chain := sha encoded,
            cm_replicas := fold (store_on ?k R) fsynced (cm_replicas m),
            cm_outcomes := bt_insert (request_key r) (request_fingerprint sha r, ?ver) (cm_outcomes m)\<rparr>)
        else (Unavailable, m\<lparr>cm_next_sequence := cm_next_sequence m + 1, cm_next_log_index := ?k, cm_previous_log_chain := sha encoded,
            cm_replicas := fold (store_on ?k R) fsynced (cm_replicas m)\<rparr>))"
      by (simp add: submit_def Let_def R_def None mode go)
    note out = trans[OF assms(5)[symmetric] this]
    have "written sha R m m'"
      using out go(1) valid fields sha succ_gt[OF go(4)] succ_gt[OF go(5)]
      by (auto simp: written_def R_def from_parts_def split: if_splits)
    then show thesis
      using out None fields by (cases "is_quorum (sr_certificate R)") (auto simp: R_def intro: that(3,4))
  qed
qed

lemma outcomes_okD:
  "outcomes_ok m \<Longrightarrow> bt_get (cm_outcomes m) k = Some (fp, v) \<longleftrightarrow>
     (\<exists>e \<in> certified m. envelope_key e = k \<and> ce_logical_fingerprint e = fp \<and> ce_version e = v)"
  unfolding outcomes_ok_def by blast

lemma outcomes_ok_durable:
  assumes "written sha R m m'" "replicas_ok m" "certified_ok sha m" and "outcomes_ok m" and "is_quorum (sr_certificate R)"
    and "bt_get (cm_outcomes m) (envelope_key (sr_envelope R)) = None"
    and "cm_outcomes m' = bt_insert (envelope_key (sr_envelope R)) (ce_logical_fingerprint (sr_envelope R), ce_version (sr_envelope R)) (cm_outcomes m)"
  shows "outcomes_ok m'" and "envelope_key (sr_envelope R) \<notin> envelope_key ` certified m"
proof -
  note old = outcomes_okD[OF assms(4)]
  show fresh: "envelope_key (sr_envelope R) \<notin> envelope_key ` certified m"
  proof
    assume "envelope_key (sr_envelope R) \<in> envelope_key ` certified m"
    then obtain e where "e \<in> certified m" "envelope_key e = envelope_key (sr_envelope R)" by (metis imageE)
    then have "bt_get (cm_outcomes m) (envelope_key (sr_envelope R)) = Some (ce_logical_fingerprint e, ce_version e)"
      unfolding old by blast
    with assms(6) show False by simp
  qed
  have cert: "certified m' = insert (sr_envelope R) (certified m)"
    using certified_written[OF assms(1-3)] assms(5) by simp
  have "bt_get (cm_outcomes m') k = Some (fp, v) \<longleftrightarrow>
      (\<exists>e \<in> certified m'. envelope_key e = k \<and> ce_logical_fingerprint e = fp \<and> ce_version e = v)" for k fp v
  proof (cases "k = envelope_key (sr_envelope R)")
    case True
    then have "\<not> (\<exists>e \<in> certified m. envelope_key e = k)" using fresh by (metis imageI)
    with True show ?thesis by (auto simp: assms(7) cert)
  next
    case False
    then show ?thesis using old[of k fp v] by (auto simp: assms(7) cert)
  qed
  then show "outcomes_ok m'"
    using assms(4,7) by (simp add: outcomes_ok_def)
qed

lemma commit_inv_submit:
  assumes "digest32 sha" and "commit_inv sha m" and "request_ok r" "length tags < 2 ^ 16"
    and "submit sha r resolvers tags fsynced deliver m = Some (oc, m')"
  shows "commit_inv sha m'"
proof -
  have inv: "cm_mode m = Correct" "replicas_ok m" "certified_ok sha m" "certified_unique m" "outcomes_ok m"
    using assms(2) by (auto simp: commit_inv_def)
  from assms show ?thesis
  proof (cases rule: submit_cases)
    case (durable R)
    have out: "outcomes_ok m'" "envelope_key (sr_envelope R) \<notin> envelope_key ` certified m"
      using durable by (intro outcomes_ok_durable[OF durable(2) inv(2,3,5) durable(3)]; simp)+
    with durable inv show ?thesis
      using replicas_ok_written[OF durable(2)] certified_ok_written[OF durable(2)] certified_unique_written[OF durable(2)]
      by (auto simp: commit_inv_def written_def)
  next
    case (unavailable R)
    have "outcomes_ok m'"
      using inv(5) unavailable certified_written[OF unavailable(2) inv(2,3)] by (simp add: outcomes_ok_def)
    with unavailable inv show ?thesis
      using replicas_ok_written[OF unavailable(2)] certified_ok_written[OF unavailable(2)] certified_unique_written[OF unavailable(2)]
      by (auto simp: commit_inv_def written_def)
  qed (use assms(2) in simp_all)
qed

section \<open>Recovery keeps the outcomes\<close>

definition recovered_envelope :: "(bytes \<Rightarrow> bytes) \<Rightarrow> commit_envelope \<Rightarrow> recovery_state \<Rightarrow> recovery_state" where
  "recovered_envelope sha e s = \<lparr>
     rs_recovered = bt_insert (envelope_key e) (ce_logical_fingerprint e, ce_version e) (rs_recovered s),
     rs_maximum_sequence = max (rs_maximum_sequence s) (sequence (ce_version e)),
     rs_maximum_index = (if ce_log_index e > rs_maximum_index s then ce_log_index e else rs_maximum_index s),
     rs_log_chain = (if ce_log_index e > rs_maximum_index s then sha (envelope_body e @ ce_checksum e) else rs_log_chain s)\<rparr>"

lemma recover_records_valid:
  assumes "digest32 sha"
  shows "\<forall>r \<in> set rs. is_quorum (sr_certificate r) \<longrightarrow> envelope_valid sha (sr_envelope r) \<Longrightarrow>
    recover_records sha rs s = Some (fold (recovered_envelope sha) (map sr_envelope (filter (\<lambda>r. is_quorum (sr_certificate r)) rs)) s)"
proof (induction rs arbitrary: s)
  case (Cons r rs)
  then show ?case
    using encode_valid[of sha "sr_envelope r"] decode_body[OF assms, of "sr_envelope r"]
    by (auto simp: recovered_envelope_def envelope_key_def)
qed simp

abbreviation recovery_start :: recovery_state where
  "recovery_start \<equiv> \<lparr>rs_recovered = [], rs_maximum_sequence = 0, rs_maximum_index = 0, rs_log_chain = replicate 32 0\<rparr>"

lemma fold_recovered_wf: "bt_wf (rs_recovered (fold (recovered_envelope sha) es recovery_start))"
  by (induction es rule: rev_induct) (simp_all add: recovered_envelope_def)

lemma fold_recovered:
  "inj_on envelope_key (set es) \<Longrightarrow> bt_get (rs_recovered (fold (recovered_envelope sha) es recovery_start)) k = Some (fp, v) \<longleftrightarrow>
     (\<exists>e \<in> set es. envelope_key e = k \<and> ce_logical_fingerprint e = fp \<and> ce_version e = v)"
proof (induction es rule: rev_induct)
  case (snoc e es)
  have "inj_on envelope_key (set es)" using snoc.prems by (auto intro: inj_on_subset)
  from snoc.IH[OF this] show ?case
    using snoc.prems by (auto simp: recovered_envelope_def inj_on_def)
qed simp

lemma fold_recovered_maxima:
  "(\<forall>e \<in> set es. ce_log_index e \<le> rs_maximum_index (fold (recovered_envelope sha) es s) \<and>
      sequence (ce_version e) \<le> rs_maximum_sequence (fold (recovered_envelope sha) es s)) \<and>
   (digest32 sha \<longrightarrow> length (rs_log_chain s) = 32 \<longrightarrow> length (rs_log_chain (fold (recovered_envelope sha) es s)) = 32)"
proof (induction es rule: rev_induct)
  case (snoc e es)
  then show ?case
    by (auto simp: recovered_envelope_def digest32_def le_max_iff_disj not_less intro: order_trans less_imp_le)
qed simp

lemma stored_records:
  assumes "replicas_ok m"
  shows "r \<in> set (concat (map (\<lambda>replica. bt_values (rep_records replica)) (cm_replicas m))) \<longleftrightarrow> (\<exists>i. stored m i r)"
proof -
  have "r \<in> set (bt_values (rep_records (cm_replicas m ! i))) \<longleftrightarrow> stored m i r" if "i < length (cm_replicas m)" for i
    using assms that by (auto simp: replicas_ok_def stored_def bt_value_iff)
  moreover have "r \<in> set (concat (map (\<lambda>replica. bt_values (rep_records replica)) (cm_replicas m))) \<longleftrightarrow>
      (\<exists>i < length (cm_replicas m). r \<in> set (bt_values (rep_records (cm_replicas m ! i))))"
    by (simp add: Bex_def) (metis in_set_conv_nth)
  moreover have "stored m i r \<Longrightarrow> i < length (cm_replicas m)" for i by (simp add: stored_def)
  ultimately show ?thesis by blast
qed

lemma commit_recover_inv:
  assumes "digest32 sha" and "commit_inv sha m"
  shows "\<exists>m'. commit_recover sha m = Some (to_u64 (length (cm_outcomes m)), m') \<and> cm_outcomes m' = cm_outcomes m \<and>
    cm_replicas m' = cm_replicas m \<and> cm_active_generation m' = cm_active_generation m \<and> commit_inv sha m'"
proof -
  have inv: "cm_mode m = Correct" "replicas_ok m" "certified_ok sha m" "certified_unique m" "outcomes_ok m"
    using assms(2) by (auto simp: commit_inv_def)
  let ?rs = "concat (map (\<lambda>replica. bt_values (rep_records replica)) (cm_replicas m))"
  let ?es = "map sr_envelope (filter (\<lambda>r. is_quorum (sr_certificate r)) ?rs)"
  define s where "s = fold (recovered_envelope sha) ?es recovery_start"
  have "set ?es = sr_envelope ` {r \<in> set ?rs. is_quorum (sr_certificate r)}" by simp
  also have "\<dots> = certified m" unfolding stored_records[OF inv(2)] certified_def by blast
  finally have es: "set ?es = certified m" .
  have "\<forall>r \<in> set ?rs. is_quorum (sr_certificate r) \<longrightarrow> envelope_valid sha (sr_envelope r)"
  proof (intro ballI impI)
    fix r
    assume "r \<in> set ?rs" "is_quorum (sr_certificate r)"
    then have "sr_envelope r \<in> certified m" unfolding stored_records[OF inv(2)] certified_def by blast
    with inv(3) show "envelope_valid sha (sr_envelope r)" by (simp add: certified_ok_def)
  qed
  from recover_records_valid[OF assms(1) this] have run: "recover_records sha ?rs recovery_start = Some s" by (simp only: s_def)
  have inj: "inj_on envelope_key (set ?es)" using inv(4) unfolding es by (simp add: certified_unique_def)
  have rec: "rs_recovered s = cm_outcomes m"
  proof (rule bt_ext)
    show "bt_wf (rs_recovered s)" "bt_wf (cm_outcomes m)"
      using fold_recovered_wf inv(5) by (simp_all add: s_def outcomes_ok_def)
    have "bt_get (rs_recovered s) k = Some x \<longleftrightarrow> bt_get (cm_outcomes m) k = Some x" for k x
      using fold_recovered[OF inj, of sha k "fst x" "snd x", folded s_def, unfolded es] outcomes_okD[OF inv(5), of k "fst x" "snd x"]
      by simp
    then show "bt_get (rs_recovered s) k = bt_get (cm_outcomes m) k" for k
      by (metis option.exhaust)
  qed
  define m' where "m' = m\<lparr>cm_next_sequence := rs_maximum_sequence s, cm_next_log_index := rs_maximum_index s,
          cm_previous_log_chain := rs_log_chain s, cm_outcomes := cm_outcomes m\<rparr>"
  have "commit_recover sha m = Some (to_u64 (length (cm_outcomes m)), m')"
    unfolding commit_recover_def run by (simp add: inv(1) rec m'_def Let_def)
  moreover have same: "stored m' = stored m" "certified m' = certified m"
    by (simp_all add: fun_eq_iff stored_def certified_def m'_def)
  moreover have "certified_ok sha m'"
    using inv(3) fold_recovered_maxima[of ?es sha recovery_start, folded s_def, unfolded es]
    by (auto simp: certified_ok_def same) (simp_all add: m'_def)
  moreover have "length (rs_log_chain s) = 32"
    using fold_recovered_maxima[of ?es sha recovery_start, folded s_def] assms(1) by simp
  ultimately show ?thesis
    using inv by (intro exI[of _ m']) (auto simp: commit_inv_def replicas_ok_def certified_unique_def outcomes_ok_def m'_def)
qed

section \<open>Runs keep the invariant\<close>

lemma commit_inv_new: "commit_inv sha (commit_model_new Correct)"
proof -
  have "\<not> stored (commit_model_new Correct) i r" for i r
    by (simp add: stored_def commit_model_new_def)
  then have "certified (commit_model_new Correct) = {}" by (simp add: certified_def)
  then show ?thesis
    by (simp add: commit_inv_def replicas_ok_def certified_ok_def certified_unique_def outcomes_ok_def)
       (simp add: commit_model_new_def)
qed

lemma commit_inv_step:
  assumes "digest32 sha" "commit_inv sha m" "event_request_ok e" "commit_step sha e m = Some m'"
  shows "commit_inv sha m'" and "bt_get (cm_outcomes m) k = Some x \<Longrightarrow> bt_get (cm_outcomes m') k = Some x"
proof -
  have "commit_inv sha m' \<and> (bt_get (cm_outcomes m) k = Some x \<longrightarrow> bt_get (cm_outcomes m') k = Some x)"
  proof (cases e)
    case (Submit r resolvers tags fsynced deliver)
    with assms obtain oc where sub: "submit sha r resolvers tags fsynced deliver m = Some (oc, m')" and ok: "request_ok r" "length tags < 2 ^ 16"
      by auto
    from assms(1,2) ok sub have "bt_get (cm_outcomes m) k = Some x \<longrightarrow> bt_get (cm_outcomes m') k = Some x"
      by (cases rule: submit_cases) auto
    with commit_inv_submit[OF assms(1,2) ok sub] show ?thesis by blast
  next
    case Recover
    with commit_recover_inv[OF assms(1,2)] assms(4) show ?thesis by auto
  qed
  then show "commit_inv sha m'" and "bt_get (cm_outcomes m) k = Some x \<Longrightarrow> bt_get (cm_outcomes m') k = Some x" by blast+
qed

lemma commit_inv_run:
  assumes "digest32 sha"
  shows "commit_inv sha m \<Longrightarrow> list_all event_request_ok es \<Longrightarrow> commit_run sha es m = Some m' \<Longrightarrow>
    commit_inv sha m' \<and> (bt_get (cm_outcomes m) k = Some x \<longrightarrow> bt_get (cm_outcomes m') k = Some x)"
proof (induction es arbitrary: m)
  case (Cons e es)
  then obtain m1 where m1: "commit_step sha e m = Some m1" "commit_run sha es m1 = Some m'" by (auto split: option.splits)
  have "event_request_ok e" using Cons.prems by simp
  with commit_inv_step[OF assms Cons.prems(1) _ m1(1)] Cons.IH[OF _ _ m1(2)] Cons.prems(2) show ?case by auto
qed simp

text \<open>The states reached from a new model by submissions of well-formed requests and recoveries.\<close>

definition commit_reachable :: "(bytes \<Rightarrow> bytes) \<Rightarrow> commit_model \<Rightarrow> bool" where
  "commit_reachable sha m \<longleftrightarrow> (\<exists>es. list_all event_request_ok es \<and> commit_run sha es (commit_model_new Correct) = Some m)"

lemma reachable_inv: "digest32 sha \<Longrightarrow> commit_reachable sha m \<Longrightarrow> commit_inv sha m"
  using commit_inv_run[OF _ commit_inv_new] by (auto simp: commit_reachable_def)

section \<open>Properties\<close>

text \<open>C8. Exactly once: when a submission is answered \<open>Committed\<close>, or its reply is lost (\<open>Unknown\<close>), then
  after any further run of submissions and recoveries every retry of the request is answered
  \<open>Committed\<close> with one and the same version, which is the acknowledged one, and changes nothing; a
  different request under the same client identity is rejected as a conflicting retry.\<close>

theorem commits_are_exactly_once:
  assumes "digest32 sha" and "commit_reachable sha m" and "request_ok r" "length tags < 2 ^ 16"
    and "submit sha r resolvers tags fsynced deliver m = Some (oc, m1)" "oc = Committed v \<or> oc = Unknown"
    and "list_all event_request_ok es" "commit_run sha es m1 = Some m2"
  shows "\<exists>w. (oc = Committed v \<longrightarrow> w = v) \<and>
    (\<forall>resolvers' tags' fsynced' deliver'. submit sha r resolvers' tags' fsynced' deliver' m2 = Some (Committed w, m2) \<and>
      (\<forall>q. request_key q = request_key r \<longrightarrow> request_fingerprint sha q \<noteq> request_fingerprint sha r \<longrightarrow>
         submit sha q resolvers' tags' fsynced' deliver' m2 = Some (Rejected ConflictingRetry, m2)))"
proof -
  note inv = reachable_inv[OF assms(1,2)]
  have inv1: "commit_inv sha m1" by (rule commit_inv_submit[OF assms(1) inv assms(3-5)])
  from assms(1) inv assms(3-5) obtain w where w: "bt_get (cm_outcomes m1) (request_key r) = Some (request_fingerprint sha r, w)"
    "oc = Committed v \<longrightarrow> w = v"
    by (cases rule: submit_cases) (use assms(6) in \<open>auto split: if_splits\<close>)
  from commit_inv_run[OF assms(1) inv1 assms(7,8), of "request_key r"] w(1)
  have "bt_get (cm_outcomes m2) (request_key r) = Some (request_fingerprint sha r, w)" and "cm_mode m2 = Correct"
    by (auto simp: commit_inv_def)
  with w(2) show ?thesis by (intro exI[of _ w]) (simp add: submit_def)
qed

text \<open>C27. Recovery loses nothing: in every reachable state recovery terminates without a panic, reports the
  number of retained outcomes, and rebuilds from the replicas exactly the outcomes that were in
  memory.\<close>

theorem recovery_restores_outcomes:
  assumes "digest32 sha" and "commit_reachable sha m"
  shows "\<exists>m'. commit_recover sha m = Some (to_u64 (length (cm_outcomes m)), m') \<and> cm_outcomes m' = cm_outcomes m"
  using commit_recover_inv[OF assms(1) reachable_inv[OF assms]] by blast

text \<open>C28. A retained outcome is backed by a quorum and has its own version: a valid envelope with its
  fingerprint and version is stored on at least two of the three replicas, and no other client
  identity has the same version.\<close>

theorem outcomes_are_durable_and_unique:
  assumes "digest32 sha" and "commit_reachable sha m" and "bt_get (cm_outcomes m) k = Some (fp, v)"
  shows "(\<exists>e. envelope_valid sha e \<and> (ce_client_id e, ce_request_id e) = k \<and> ce_logical_fingerprint e = fp \<and> ce_version e = v \<and>
      2 \<le> card {i. i < 3 \<and> (\<exists>r. bt_get (rep_records (cm_replicas m ! i)) (ce_log_index e) = Some r \<and> sr_envelope r = e)}) \<and>
    (\<forall>k' fp'. bt_get (cm_outcomes m) k' = Some (fp', v) \<longrightarrow> k' = k)"
proof -
  have inv: "replicas_ok m" "certified_ok sha m" "certified_unique m" "outcomes_ok m"
    using reachable_inv[OF assms(1,2)] by (auto simp: commit_inv_def)
  from outcomes_okD[OF inv(4)] assms(3) obtain e where e: "e \<in> certified m" "envelope_key e = k" "ce_logical_fingerprint e = fp" "ce_version e = v"
    by blast
  have "{i. \<exists>r. stored m i r \<and> sr_envelope r = e} =
      {i. i < 3 \<and> (\<exists>r. bt_get (rep_records (cm_replicas m ! i)) (ce_log_index e) = Some r \<and> sr_envelope r = e)}"
    using inv(1) by (auto simp: stored_def replicas_ok_def)
  then have "envelope_valid sha e \<and>
      2 \<le> card {i. i < 3 \<and> (\<exists>r. bt_get (rep_records (cm_replicas m ! i)) (ce_log_index e) = Some r \<and> sr_envelope r = e)}"
    using inv(2) e(1) by (auto simp: certified_ok_def QUORUM_def)
  moreover have "k' = k" if "bt_get (cm_outcomes m) k' = Some (fp', v)" for k' fp'
  proof -
    from outcomes_okD[OF inv(4)] that obtain e' where e': "e' \<in> certified m" "envelope_key e' = k'" "ce_version e' = v" by blast
    then have "e' = e" using inv(3) e(1,4) by (auto simp: certified_unique_def inj_on_def)
    with e(2) e'(2) show ?thesis by simp
  qed
  ultimately show ?thesis using e by (auto simp: envelope_key_def)
qed

section \<open>Witnesses\<close>

abbreviation demo_request :: commit_request where
  "demo_request \<equiv> \<lparr>cr_cell_id = CELL_ID, cr_tenant_id = TENANT_ID, cr_generation = 3, cr_client_id = replicate 16 5,
     cr_request_id = 9, cr_read_conflicts = [], cr_write_conflicts = [], cr_canonical_mutations = []\<rparr>"

lemma demo_request_ok: "request_ok demo_request"
  by (simp add: request_ok_def CELL_ID_def TENANT_ID_def)

lemma demo_submit:
  obtains m1 where "submit demo_sha demo_request [1, 2] [10, 20] [0, 1] False (commit_model_new Correct) = Some (Unknown, m1)"
    and "bt_get (cm_outcomes m1) (replicate 16 5, 9) = Some (request_fingerprint demo_sha demo_request, Version 3 1)"
    and "commit_reachable demo_sha m1"
proof -
  let ?new = "envelope_new demo_sha demo_request (Version 3 1) 1 [10, 20] (replicate 32 0)"
  obtain e where e: "?new = Some e"
    by (simp add: envelope_new_def seal_def encode_without_checksum_def push_byte_vec_def push_u16_vec_def Let_def
        CELL_ID_def TENANT_ID_def RESOLVER_SET_ID_def REQUIRED_RESOLVERS_def request_fingerprint_def demo_sha_def)
  then have "envelope_valid demo_sha e"
    by (rule envelope_new_valid[rotated 13]) (simp_all add: CELL_ID_def TENANT_ID_def ZERO_def word_less_nat_alt)
  note enc = encode_valid[OF this]
  have tags: "remdups_adj (sort [10, 20 :: u16]) = [10, 20]" by (simp add: word_le_nat_alt)
  have "\<exists>m1. submit demo_sha demo_request [1, 2] [10, 20] [0, 1] False (commit_model_new Correct) = Some (Unknown, m1) \<and>
      bt_get (cm_outcomes m1) (replicate 16 5, 9) = Some (request_fingerprint demo_sha demo_request, Version 3 1)"
    unfolding submit_def tags
    by (simp add: commit_model_new_def contains_all_def REQUIRED_RESOLVERS_def REQUIRED_LOG_TAGS_def Let_def from_parts_def
        e enc is_quorum_def QUORUM_def request_key_def bt_get_Cons)
  then obtain m1 where m1: "submit demo_sha demo_request [1, 2] [10, 20] [0, 1] False (commit_model_new Correct) = Some (Unknown, m1)"
    "bt_get (cm_outcomes m1) (replicate 16 5, 9) = Some (request_fingerprint demo_sha demo_request, Version 3 1)" by blast
  moreover have "commit_reachable demo_sha m1"
    unfolding commit_reachable_def using m1(1) demo_request_ok
    by (intro exI[of _ "[Submit demo_request [1, 2] [10, 20] [0, 1] False]"]) simp
  ultimately show thesis by (rule that)
qed

lemma demo_new_reachable: "commit_reachable sha (commit_model_new Correct)"
  unfolding commit_reachable_def by (intro exI[of _ "[]"]) simp

text \<open>A reply is lost, the process restarts, and the retry learns the version.\<close>

theorem commits_are_exactly_once_witness:
  "\<exists>m1 m2 w. submit demo_sha demo_request [1, 2] [10, 20] [0, 1] False (commit_model_new Correct) = Some (Unknown, m1) \<and>
     commit_run demo_sha [Recover] m1 = Some m2 \<and>
     submit demo_sha demo_request [1] [] [2] True m2 = Some (Committed w, m2)"
proof -
  obtain m1 where m1: "submit demo_sha demo_request [1, 2] [10, 20] [0, 1] False (commit_model_new Correct) = Some (Unknown, m1)"
    "commit_reachable demo_sha m1" using demo_submit by metis
  obtain m2 where m2: "commit_run demo_sha [Recover] m1 = Some m2"
    using commit_recover_inv[OF demo_sha_digest32 reachable_inv[OF demo_sha_digest32 m1(2)]] by auto
  have "list_all event_request_ok [Recover]" "length [10, 20 :: u16] < 2 ^ 16" by simp_all
  with commits_are_exactly_once[OF demo_sha_digest32 demo_new_reachable demo_request_ok _ m1(1) _ _ m2] m1(1) m2
  show ?thesis by blast
qed

theorem recovery_restores_outcomes_witness:
  "\<exists>m m'. bt_get (cm_outcomes m) (replicate 16 5, 9) = Some (request_fingerprint demo_sha demo_request, Version 3 1) \<and>
     commit_recover demo_sha m = Some (to_u64 (length (cm_outcomes m)), m') \<and> cm_outcomes m' = cm_outcomes m"
proof -
  obtain m1 where m1: "bt_get (cm_outcomes m1) (replicate 16 5, 9) = Some (request_fingerprint demo_sha demo_request, Version 3 1)"
    "commit_reachable demo_sha m1" using demo_submit by metis
  with recovery_restores_outcomes[OF demo_sha_digest32 m1(2)] show ?thesis by blast
qed

theorem outcomes_are_durable_and_unique_witness:
  "\<exists>(m :: commit_model) e. bt_get (cm_outcomes m) (replicate 16 5, 9) = Some (request_fingerprint demo_sha demo_request, Version 3 1) \<and>
     envelope_valid demo_sha e \<and> ce_version e = Version 3 1"
proof -
  obtain m1 where m1: "bt_get (cm_outcomes m1) (replicate 16 5, 9) = Some (request_fingerprint demo_sha demo_request, Version 3 1)"
    "commit_reachable demo_sha m1" using demo_submit by metis
  from outcomes_are_durable_and_unique[OF demo_sha_digest32 m1(2,1)] obtain e where
    "envelope_valid demo_sha e" "ce_version e = Version 3 1" by auto
  with m1(1) show ?thesis by (intro exI[of _ m1] exI[of _ e] conjI)
qed
end
