(* ===== verification/Reconfiguration.thy ===== *)
theory Reconfiguration
  imports Okv_Prelude
begin

text \<open>
  Routine voter reconfiguration (\<open>okv-model/src/routine_reconfiguration.rs\<close>): the membership
  authority with its deliberately wrong modes, and the contract scenario that checks it. Voter
  sets are sets, incarnations are byte arrays, and SHA-256 is the parameter \<open>sha\<close>.
\<close>

section \<open>Data\<close>

datatype routine_mode =
    Routine_Correct
  | ReuseNodeIdentity
  | AdmitLearnerWithoutAuthority
  | PromoteBeforeCatchup
  | AcceptStaleMembershipEpoch
  | AcceptConcurrentReconfiguration
  | DoubleApplyFinalizeRetry
  | AcceptRemovedVoterCommit
  | RepairWithoutDataQuorum

fun routine_mode_id :: "routine_mode \<Rightarrow> string" where
  "routine_mode_id Routine_Correct = ''correct''"
| "routine_mode_id ReuseNodeIdentity = ''reuse_node_identity''"
| "routine_mode_id AdmitLearnerWithoutAuthority = ''admit_learner_without_authority''"
| "routine_mode_id PromoteBeforeCatchup = ''promote_before_catchup''"
| "routine_mode_id AcceptStaleMembershipEpoch = ''accept_stale_membership_epoch''"
| "routine_mode_id AcceptConcurrentReconfiguration = ''accept_concurrent_reconfiguration''"
| "routine_mode_id DoubleApplyFinalizeRetry = ''double_apply_finalize_retry''"
| "routine_mode_id AcceptRemovedVoterCommit = ''accept_removed_voter_commit''"
| "routine_mode_id RepairWithoutDataQuorum = ''repair_without_data_quorum''"

record routine_report =
  rp_seed :: u64
  rp_mode :: routine_mode
  rp_executed_checks :: u64
  rp_anomaly_count :: u64
  rp_first_mismatch_step :: "u64 option"
  rp_first_mismatch :: "string option"
  rp_authority_preparations :: u64
  rp_learner_admissions :: u64
  rp_learner_ready_certificates :: u64
  rp_membership_changes :: u64
  rp_finalize_attempts :: u64
  rp_committed_transactions :: u64
  rp_rejected_controls :: u64
  rp_generation :: u64
  rp_membership_epoch :: u64
  rp_active_voters :: "u64 list"
  rp_trace_sha256 :: string

record pending_reconfiguration =
  pd_id :: u64
  pd_expected_epoch :: u64
  pd_old_voters :: "u64 set"
  pd_next_voters :: "u64 set"
  pd_replacement_node :: u64
  pd_replacement_incarnation :: bytes
  pd_learner_ready_position :: "u64 option"
  pd_membership_position :: "u64 option"

record authority_model =
  am_generation :: u64
  am_membership_epoch :: u64
  am_active_voters :: "u64 set"
  am_active_incarnations :: "(u64, bytes) btree"
  am_pending :: "pending_reconfiguration option"
  am_completed :: "(u64, u64 \<times> u64 set) btree"
  am_mode :: routine_mode

definition authority_new :: "routine_mode \<Rightarrow> authority_model" where
  "authority_new mode =
     \<lparr>am_generation = 7, am_membership_epoch = 4, am_active_voters = {1, 2, 3},
      am_active_incarnations = [(1, replicate 16 0x11), (2, replicate 16 0x22), (3, replicate 16 0x33)],
      am_pending = None, am_completed = [], am_mode = mode\<rparr>"

section \<open>The authority\<close>

definition routine_prepare ::
  "u64 \<Rightarrow> u64 \<Rightarrow> u64 \<Rightarrow> u64 set \<Rightarrow> u64 \<Rightarrow> bytes \<Rightarrow> authority_model \<Rightarrow> bool \<times> authority_model" where
  "routine_prepare expected_generation expected_epoch rid next_voters replacement_node replacement_incarnation m =
     (let stale_epoch = (expected_epoch \<noteq> am_membership_epoch m) in
      if expected_generation \<noteq> am_generation m
        \<or> (stale_epoch \<and> am_mode m \<noteq> AcceptStaleMembershipEpoch)
        \<or> rid = 0 \<or> card next_voters \<noteq> card (am_active_voters m) \<or> replacement_node \<notin> next_voters
      then (False, m)
      else if replacement_node \<in> am_active_voters m \<and> am_mode m \<noteq> ReuseNodeIdentity then (False, m)
      else if list_ex (\<lambda>existing. existing = replacement_incarnation) (bt_values (am_active_incarnations m))
        \<and> am_mode m \<noteq> ReuseNodeIdentity then (False, m)
      else
        let candidate = \<lparr>pd_id = rid, pd_expected_epoch = expected_epoch, pd_old_voters = am_active_voters m,
              pd_next_voters = next_voters, pd_replacement_node = replacement_node,
              pd_replacement_incarnation = replacement_incarnation, pd_learner_ready_position = None,
              pd_membership_position = None\<rparr> in
        case am_pending m of
          Some pending \<Rightarrow>
            if pending = candidate then (True, m)
            else if am_mode m \<noteq> AcceptConcurrentReconfiguration then (False, m)
            else (True, m\<lparr>am_pending := Some candidate\<rparr>)
        | None \<Rightarrow> (True, m\<lparr>am_pending := Some candidate\<rparr>))"

definition authorize_learner :: "u64 \<Rightarrow> u64 \<Rightarrow> bytes \<Rightarrow> authority_model \<Rightarrow> bool" where
  "authorize_learner rid node_id incarnation m \<longleftrightarrow>
     (case am_pending m of
        None \<Rightarrow> False
      | Some pending \<Rightarrow> pd_id pending = rid \<and> pd_replacement_node pending = node_id
          \<and> pd_replacement_incarnation pending = incarnation)
     \<or> am_mode m = AdmitLearnerWithoutAuthority"

definition mark_learner_ready :: "u64 \<Rightarrow> u64 \<Rightarrow> u64 \<Rightarrow> u64 set \<Rightarrow> authority_model \<Rightarrow> bool \<times> authority_model" where
  "mark_learner_ready rid snapshot_position applied_position next_voters m =
     (case am_pending m of
        None \<Rightarrow> (False, m)
      | Some pending \<Rightarrow>
          if pd_id pending \<noteq> rid \<or> snapshot_position = 0 \<or> applied_position < snapshot_position
            \<or> pd_next_voters pending \<noteq> next_voters
          then (False, m)
          else (True, m\<lparr>am_pending := Some (pending\<lparr>pd_learner_ready_position := Some applied_position\<rparr>)\<rparr>))"

definition commit_membership :: "u64 \<Rightarrow> u64 set \<Rightarrow> u64 \<Rightarrow> authority_model \<Rightarrow> bool \<times> authority_model" where
  "commit_membership rid next_voters membership_position m =
     (case am_pending m of
        None \<Rightarrow> (False, m)
      | Some pending \<Rightarrow>
          let ready = (case pd_learner_ready_position pending of
                None \<Rightarrow> False | Some ready_position \<Rightarrow> membership_position > ready_position) in
          if pd_id pending \<noteq> rid \<or> pd_next_voters pending \<noteq> next_voters
            \<or> (\<not> ready \<and> am_mode m \<noteq> PromoteBeforeCatchup)
          then (False, m)
          else (True, m\<lparr>am_pending := Some (pending\<lparr>pd_membership_position := Some membership_position\<rparr>)\<rparr>))"

definition routine_finalize :: "u64 \<Rightarrow> u64 \<Rightarrow> authority_model \<Rightarrow> bool \<times> authority_model" where
  "routine_finalize rid certified_position m =
     (case bt_get (am_completed m) rid of
        Some (_, voters) \<Rightarrow>
          (True, if am_mode m = DoubleApplyFinalizeRetry
                 then m\<lparr>am_membership_epoch := saturating_add (am_membership_epoch m) 1, am_active_voters := voters\<rparr>
                 else m)
      | None \<Rightarrow>
         (case am_pending m of
            None \<Rightarrow> (False, m)
          | Some pending \<Rightarrow>
              if pd_id pending \<noteq> rid \<or> pd_membership_position pending \<noteq> Some certified_position then (False, m)
              else
                let voters = pd_next_voters pending;
                    epoch = saturating_add (am_membership_epoch m) 1 in
                (True, m\<lparr>am_pending := None, am_active_voters := voters,
                   am_active_incarnations := bt_insert (pd_replacement_node pending) (pd_replacement_incarnation pending)
                     (filter (\<lambda>(node_id, _). node_id \<in> voters) (am_active_incarnations m)),
                   am_membership_epoch := epoch,
                   am_completed := bt_insert rid (epoch, voters) (am_completed m)\<rparr>)))"

definition can_commit :: "u64 \<Rightarrow> u64 \<Rightarrow> bool \<Rightarrow> authority_model \<Rightarrow> bool" where
  "can_commit node_id gen quorum_available m \<longleftrightarrow>
     (if \<not> quorum_available \<or> gen \<noteq> am_generation m then False
      else node_id \<in> am_active_voters m \<or> (am_mode m = AcceptRemovedVoterCommit \<and> node_id = 1))"

definition can_complete_routine_repair :: "bool \<Rightarrow> authority_model \<Rightarrow> bool" where
  "can_complete_routine_repair quorum_available m \<longleftrightarrow> quorum_available \<or> am_mode m = RepairWithoutDataQuorum"

section \<open>The contract scenario\<close>

text \<open>The hasher is the bytes it was updated with.\<close>

record routine_scenario =
  sn_seed :: u64
  sn_mode :: routine_mode
  sn_authority :: authority_model
  sn_trace :: bytes
  sn_step :: u64
  sn_anomaly_count :: u64
  sn_first_mismatch_step :: "u64 option"
  sn_first_mismatch :: "string option"
  sn_authority_preparations :: u64
  sn_learner_admissions :: u64
  sn_learner_ready_certificates :: u64
  sn_membership_changes :: u64
  sn_finalize_attempts :: u64
  sn_committed_transactions :: u64
  sn_rejected_controls :: u64

definition scenario_new :: "u64 \<Rightarrow> routine_mode \<Rightarrow> routine_scenario" where
  "scenario_new seed mode =
     \<lparr>sn_seed = seed, sn_mode = mode, sn_authority = authority_new mode,
      sn_trace = ascii ''okv-routine-reconfiguration-v0'' @ u64_be seed @ ascii (routine_mode_id mode),
      sn_step = 0, sn_anomaly_count = 0, sn_first_mismatch_step = None, sn_first_mismatch = None,
      sn_authority_preparations = 0, sn_learner_admissions = 0, sn_learner_ready_certificates = 0,
      sn_membership_changes = 0, sn_finalize_attempts = 0, sn_committed_transactions = 0, sn_rejected_controls = 0\<rparr>"

definition u64_from :: "bool \<Rightarrow> u64" where
  "u64_from b = (if b then 1 else 0)"

definition routine_check :: "string \<Rightarrow> bool \<Rightarrow> routine_scenario \<Rightarrow> routine_scenario" where
  "routine_check name passed s =
     (let step = saturating_add (sn_step s) 1;
          s = s\<lparr>sn_step := step, sn_trace := sn_trace s @ u64_be step @ ascii name @ [if passed then 1 else 0]\<rparr> in
      if \<not> passed then
        (let s = s\<lparr>sn_anomaly_count := saturating_add (sn_anomaly_count s) 1\<rparr> in
         if sn_first_mismatch s = None
         then s\<lparr>sn_first_mismatch_step := Some step, sn_first_mismatch := Some (name @ '' failed'')\<rparr> else s)
      else s)"

definition incarnation :: "(bytes \<Rightarrow> bytes) \<Rightarrow> u64 \<Rightarrow> bytes" where
  "incarnation sha seed = take 16 (sha (u64_be seed))"

definition hex_digit :: "nat \<Rightarrow> char" where
  "hex_digit n = ''0123456789abcdef'' ! n"

definition digest_hex :: "(bytes \<Rightarrow> bytes) \<Rightarrow> bytes \<Rightarrow> string" where
  "digest_hex sha trace = concat (map (\<lambda>b. [hex_digit (unat b div 16), hex_digit (unat b mod 16)]) (sha trace))"

definition rejected_if :: "bool \<Rightarrow> routine_scenario \<Rightarrow> routine_scenario" where
  "rejected_if b s = s\<lparr>sn_rejected_controls := saturating_add (sn_rejected_controls s) (u64_from b)\<rparr>"

text \<open>The parameters of the run: the next voters, the replacement and its incarnation.\<close>

definition scenario_next_voters :: "routine_mode \<Rightarrow> u64 set" where
  "scenario_next_voters mode = (if mode = ReuseNodeIdentity then {1, 2, 3} else {2, 3, 4})"

definition scenario_replacement :: "routine_mode \<Rightarrow> u64" where
  "scenario_replacement mode = (if mode = ReuseNodeIdentity then 1 else 4)"

definition scenario_incarnation :: "(bytes \<Rightarrow> bytes) \<Rightarrow> u64 \<Rightarrow> routine_mode \<Rightarrow> bytes" where
  "scenario_incarnation sha seed mode = (if mode = ReuseNodeIdentity then replicate 16 0x11 else incarnation sha seed)"

text \<open>Checks 1 to 6: authorisation, preparation and its refusals.\<close>

definition scenario_prepare :: "(bytes \<Rightarrow> bytes) \<Rightarrow> routine_scenario \<Rightarrow> routine_scenario" where
  "scenario_prepare sha s =
     (let gen = am_generation (sn_authority s); initial_epoch = am_membership_epoch (sn_authority s);
          next_voters = scenario_next_voters (sn_mode s); rid = max (sn_seed s) 1;
          node = scenario_replacement (sn_mode s); inc = scenario_incarnation sha (sn_seed s) (sn_mode s);
          unauthorized = authorize_learner rid node inc (sn_authority s);
          s = routine_check ''learner_requires_authority'' (\<not> unauthorized) (rejected_if (\<not> unauthorized) s);
          stale_accepted = fst (routine_prepare gen (saturating_sub initial_epoch 1) rid next_voters node inc (sn_authority s));
          s = routine_check ''stale_membership_epoch_rejected'' (\<not> stale_accepted) (rejected_if (\<not> stale_accepted) s);
          (prepared, authority) = routine_prepare gen initial_epoch rid next_voters node inc (sn_authority s);
          s = s\<lparr>sn_authority := authority,
                sn_authority_preparations := saturating_add (sn_authority_preparations s) (u64_from prepared)\<rparr>;
          s = routine_check ''reconfiguration_prepared'' prepared s;
          s = routine_check ''replacement_identity_and_incarnation_are_fresh'' (node = 4 \<and> inc \<noteq> replicate 16 0x11) s;
          s = routine_check ''prepare_preserves_generation'' (am_generation (sn_authority s) = gen) s;
          concurrent = fst (routine_prepare gen initial_epoch (saturating_add rid 1) {1, 3, 5} 5 (replicate 16 0x55) (sn_authority s))
      in routine_check ''concurrent_reconfiguration_rejected'' (\<not> concurrent) (rejected_if (\<not> concurrent) s))"

text \<open>Checks 7 to 11: admission, catch-up and promotion.\<close>

definition scenario_promote :: "(bytes \<Rightarrow> bytes) \<Rightarrow> u64 \<Rightarrow> routine_scenario \<Rightarrow> routine_scenario" where
  "scenario_promote sha gen s =
     (let next_voters = scenario_next_voters (sn_mode s); rid = max (sn_seed s) 1;
          node = scenario_replacement (sn_mode s); inc = scenario_incarnation sha (sn_seed s) (sn_mode s);
          authorized = authorize_learner rid node inc (sn_authority s);
          s = s\<lparr>sn_learner_admissions := saturating_add (sn_learner_admissions s) (u64_from authorized)\<rparr>;
          s = routine_check ''prepared_learner_is_authorized'' authorized s;
          during_catchup = can_commit 2 gen True (sn_authority s);
          s = s\<lparr>sn_committed_transactions := saturating_add (sn_committed_transactions s) (u64_from during_catchup)\<rparr>;
          s = routine_check ''commits_continue_during_catchup'' during_catchup s;
          early_promoted = fst (commit_membership rid next_voters 10 (sn_authority s));
          s = routine_check ''promotion_requires_snapshot_and_suffix'' (\<not> early_promoted) (rejected_if (\<not> early_promoted) s);
          (learner_ready, authority) = mark_learner_ready rid 8 11 next_voters (sn_authority s);
          s = s\<lparr>sn_authority := authority,
                sn_learner_ready_certificates := saturating_add (sn_learner_ready_certificates s) (u64_from learner_ready)\<rparr>;
          s = routine_check ''learner_ready_binds_exact_position'' learner_ready s;
          (membership_committed, authority) = commit_membership rid next_voters 12 (sn_authority s);
          s = s\<lparr>sn_authority := authority,
                sn_membership_changes := saturating_add (sn_membership_changes s) (u64_from membership_committed)\<rparr>
      in routine_check ''membership_change_committed_once'' membership_committed s)"

text \<open>Checks 12 to 19: finalisation, its retry, and the state after it.\<close>

definition scenario_finalize :: "u64 \<Rightarrow> u64 \<Rightarrow> routine_scenario \<Rightarrow> routine_scenario" where
  "scenario_finalize gen initial_epoch s =
     (let rid = max (sn_seed s) 1;
          (finalized, authority) = routine_finalize rid 12 (sn_authority s);
          s = s\<lparr>sn_authority := authority, sn_finalize_attempts := saturating_add (sn_finalize_attempts s) 1\<rparr>;
          s = routine_check ''authority_finalizes_exact_membership'' finalized s;
          (retry, authority) = routine_finalize rid 12 (sn_authority s);
          s = s\<lparr>sn_authority := authority, sn_finalize_attempts := saturating_add (sn_finalize_attempts s) 1\<rparr>;
          s = routine_check ''lost_finalize_reply_retries_exactly'' retry s;
          s = routine_check ''membership_epoch_advances_once'' (am_membership_epoch (sn_authority s) = saturating_add initial_epoch 1) s;
          s = routine_check ''active_voter_set_is_exact'' (am_active_voters (sn_authority s) = {2, 3, 4}) s;
          s = routine_check ''routine_repair_preserves_generation'' (am_generation (sn_authority s) = gen) s;
          removed_rejected = (\<not> can_commit 1 gen True (sn_authority s));
          s = routine_check ''removed_voter_cannot_commit'' removed_rejected (rejected_if removed_rejected s);
          repaired_commit = can_commit 4 gen True (sn_authority s);
          s = s\<lparr>sn_committed_transactions := saturating_add (sn_committed_transactions s) (u64_from repaired_commit)\<rparr>;
          s = routine_check ''new_voter_set_can_commit'' repaired_commit s;
          no_quorum_rejected = (\<not> can_complete_routine_repair False (sn_authority s))
      in routine_check ''lost_data_quorum_requires_generation_recovery'' no_quorum_rejected (rejected_if no_quorum_rejected s))"

definition scenario_run :: "(bytes \<Rightarrow> bytes) \<Rightarrow> routine_scenario \<Rightarrow> routine_report" where
  "scenario_run sha s0 =
     (let gen = am_generation (sn_authority s0); initial_epoch = am_membership_epoch (sn_authority s0);
          s = scenario_finalize gen initial_epoch (scenario_promote sha gen (scenario_prepare sha s0)) in
      \<lparr>rp_seed = sn_seed s, rp_mode = sn_mode s, rp_executed_checks = sn_step s, rp_anomaly_count = sn_anomaly_count s,
       rp_first_mismatch_step = sn_first_mismatch_step s, rp_first_mismatch = sn_first_mismatch s,
       rp_authority_preparations = sn_authority_preparations s, rp_learner_admissions = sn_learner_admissions s,
       rp_learner_ready_certificates = sn_learner_ready_certificates s, rp_membership_changes = sn_membership_changes s,
       rp_finalize_attempts = sn_finalize_attempts s, rp_committed_transactions = sn_committed_transactions s,
       rp_rejected_controls = sn_rejected_controls s, rp_generation = am_generation (sn_authority s),
       rp_membership_epoch = am_membership_epoch (sn_authority s),
       rp_active_voters = sorted_list_of_set (am_active_voters (sn_authority s)),
       rp_trace_sha256 = digest_hex sha (sn_trace s)\<rparr>)"

definition run_routine_reconfiguration_contract :: "(bytes \<Rightarrow> bytes) \<Rightarrow> u64 \<Rightarrow> routine_mode \<Rightarrow> routine_report" where
  "run_routine_reconfiguration_contract sha seed mode = scenario_run sha (scenario_new seed mode)"
end
