(* ===== verification/Reconfiguration_Safety.thy ===== *)
theory Reconfiguration_Safety
  imports Reconfiguration
begin

text \<open>
  Properties of routine reconfiguration: membership changes only by finalising the pending change
  after its learner was ready and its membership entry committed; a completed identifier that is
  prepared again blocks the authority; and voters that were never learners can become active.
\<close>

section \<open>Steps of the authority\<close>

datatype routine_event =
    Prepare u64 u64 u64 "u64 set" u64 bytes
  | LearnerReady u64 u64 u64 "u64 set"
  | CommitMembership u64 "u64 set" u64
  | Finalize u64 u64

fun routine_step :: "routine_event \<Rightarrow> authority_model \<Rightarrow> authority_model" where
  "routine_step (Prepare gen epoch rid voters node inc) m = snd (routine_prepare gen epoch rid voters node inc m)"
| "routine_step (LearnerReady rid snapshot applied voters) m = snd (mark_learner_ready rid snapshot applied voters m)"
| "routine_step (CommitMembership rid voters position) m = snd (commit_membership rid voters position m)"
| "routine_step (Finalize rid position) m = snd (routine_finalize rid position m)"

definition pending_ok :: "authority_model \<Rightarrow> pending_reconfiguration \<Rightarrow> bool" where
  "pending_ok m p \<longleftrightarrow> pd_old_voters p = am_active_voters m \<and> pd_expected_epoch p = am_membership_epoch m \<and>
     card (pd_next_voters p) = 3 \<and> pd_replacement_node p \<in> pd_next_voters p - am_active_voters m \<and>
     (pd_membership_position p \<noteq> None \<longrightarrow> pd_learner_ready_position p \<noteq> None)"

definition routine_inv :: "authority_model \<Rightarrow> bool" where
  "routine_inv m \<longleftrightarrow> am_mode m = Routine_Correct \<and> am_generation m = 7 \<and> card (am_active_voters m) = 3 \<and>
     (\<forall>p. am_pending m = Some p \<longrightarrow> pending_ok m p)"

lemma routine_inv_new: "routine_inv (authority_new Routine_Correct)"
  by (simp add: routine_inv_def authority_new_def)

text \<open>What an operation of the correct authority does when it changes the state.\<close>

lemma prepare_result:
  "am_mode m = Routine_Correct \<Longrightarrow> snd (routine_prepare gen epoch rid voters node inc m) = m \<or>
     am_pending m = None \<and> epoch = am_membership_epoch m \<and> card voters = card (am_active_voters m) \<and>
     node \<in> voters - am_active_voters m \<and>
     snd (routine_prepare gen epoch rid voters node inc m) = m\<lparr>am_pending := Some
       \<lparr>pd_id = rid, pd_expected_epoch = epoch, pd_old_voters = am_active_voters m, pd_next_voters = voters,
        pd_replacement_node = node, pd_replacement_incarnation = inc, pd_learner_ready_position = None,
        pd_membership_position = None\<rparr>\<rparr>"
  by (simp add: routine_prepare_def Let_def split: option.split)

lemma ready_result:
  "snd (mark_learner_ready rid snapshot applied voters m) = m \<or>
     (\<exists>p. am_pending m = Some p \<and> pd_id p = rid \<and>
        snd (mark_learner_ready rid snapshot applied voters m) = m\<lparr>am_pending := Some (p\<lparr>pd_learner_ready_position := Some applied\<rparr>)\<rparr>)"
  by (simp add: mark_learner_ready_def split: option.split)

lemma commit_result:
  "am_mode m = Routine_Correct \<Longrightarrow> snd (commit_membership rid voters position m) = m \<or>
     (\<exists>p ready. am_pending m = Some p \<and> pd_id p = rid \<and> pd_learner_ready_position p = Some ready \<and> ready < position \<and>
        snd (commit_membership rid voters position m) = m\<lparr>am_pending := Some (p\<lparr>pd_membership_position := Some position\<rparr>)\<rparr>)"
  by (simp add: commit_membership_def Let_def split: option.split)

lemma finalize_result:
  "am_mode m = Routine_Correct \<Longrightarrow> snd (routine_finalize rid position m) = m \<or>
     (\<exists>p. bt_get (am_completed m) rid = None \<and> am_pending m = Some p \<and> pd_id p = rid \<and> pd_membership_position p = Some position \<and>
        snd (routine_finalize rid position m) = m\<lparr>am_pending := None, am_active_voters := pd_next_voters p,
          am_active_incarnations := bt_insert (pd_replacement_node p) (pd_replacement_incarnation p)
            (filter (\<lambda>(node_id, _). node_id \<in> pd_next_voters p) (am_active_incarnations m)),
          am_membership_epoch := saturating_add (am_membership_epoch m) 1,
          am_completed := bt_insert rid (saturating_add (am_membership_epoch m) 1, pd_next_voters p) (am_completed m)\<rparr>)"
  by (simp add: routine_finalize_def Let_def split: option.split prod.split)

lemma routine_inv_step:
  assumes inv: "routine_inv m"
  shows "routine_inv (routine_step e m)"
proof -
  have mode: "am_mode m = Routine_Correct" and pend: "\<And>p. am_pending m = Some p \<Longrightarrow> pending_ok m p"
    using inv by (auto simp: routine_inv_def)
  show ?thesis
  proof (cases e)
    case (Prepare gen epoch rid voters node inc)
    show ?thesis
      using prepare_result[OF mode, of gen epoch rid voters node inc] inv pend Prepare by (auto simp: routine_inv_def pending_ok_def)
  next
    case (LearnerReady rid snapshot applied voters)
    show ?thesis
      using ready_result[of rid snapshot applied voters m] inv pend LearnerReady by (auto simp: routine_inv_def pending_ok_def)
  next
    case (CommitMembership rid voters position)
    show ?thesis
      using commit_result[OF mode, of rid voters position] inv pend CommitMembership by (auto simp: routine_inv_def pending_ok_def)
  next
    case (Finalize rid position)
    show ?thesis
      using finalize_result[OF mode, of rid position] inv pend Finalize by (auto simp: routine_inv_def pending_ok_def)
  qed
qed

interpretation routine: invariant_system routine_step routine_inv
  by unfold_locales (rule routine_inv_step)

section \<open>Membership\<close>

text \<open>C18. Membership changes exactly as decided: over every run of the correct authority the generation
  and the number of voters stay, and a step changes the voters, the epoch or the incarnations only if it
  finalises the pending change, which was prepared against the current voters and epoch, whose
  learner was marked ready and whose membership entry was committed at the certified position; then
  the voters become the prepared set, the epoch advances by one and the change is no longer pending.\<close>

theorem membership_changes_are_exact:
  assumes "m = fold routine_step es (authority_new Routine_Correct)" and "m' = routine_step e m"
  shows "am_generation m' = 7 \<and> card (am_active_voters m') = 3 \<and>
    ((am_active_voters m' = am_active_voters m \<and> am_membership_epoch m' = am_membership_epoch m \<and>
        am_active_incarnations m' = am_active_incarnations m) \<or>
     (\<exists>rid position p ready. e = Finalize rid position \<and> am_pending m = Some p \<and> pd_id p = rid \<and>
        pd_old_voters p = am_active_voters m \<and> pd_expected_epoch p = am_membership_epoch m \<and>
        pd_learner_ready_position p = Some ready \<and> pd_membership_position p = Some position \<and>
        am_active_voters m' = pd_next_voters p \<and> am_membership_epoch m' = saturating_add (am_membership_epoch m) 1 \<and>
        am_pending m' = None))"
proof -
  have inv: "routine_inv m" using routine.run_ok[OF routine_inv_new] assms(1) by simp
  then have mode: "am_mode m = Routine_Correct" and pend: "\<And>p. am_pending m = Some p \<Longrightarrow> pending_ok m p"
    by (auto simp: routine_inv_def)
  have "routine_inv m'" using routine_inv_step[OF inv] assms(2) by simp
  moreover have "(am_active_voters m' = am_active_voters m \<and> am_membership_epoch m' = am_membership_epoch m \<and>
        am_active_incarnations m' = am_active_incarnations m) \<or>
     (\<exists>rid position p ready. e = Finalize rid position \<and> am_pending m = Some p \<and> pd_id p = rid \<and>
        pd_old_voters p = am_active_voters m \<and> pd_expected_epoch p = am_membership_epoch m \<and>
        pd_learner_ready_position p = Some ready \<and> pd_membership_position p = Some position \<and>
        am_active_voters m' = pd_next_voters p \<and> am_membership_epoch m' = saturating_add (am_membership_epoch m) 1 \<and>
        am_pending m' = None)"
  proof (cases e)
    case (Prepare gen epoch rid voters node inc)
    then show ?thesis using prepare_result[OF mode, of gen epoch rid voters node inc] assms(2) by auto
  next
    case (LearnerReady rid snapshot applied voters)
    then show ?thesis using ready_result[of rid snapshot applied voters m] assms(2) by auto
  next
    case (CommitMembership rid voters position)
    then show ?thesis using commit_result[OF mode, of rid voters position] assms(2) by auto
  next
    case (Finalize rid position)
    then show ?thesis
      using finalize_result[OF mode, of rid position] assms(2) pend by (auto simp: pending_ok_def)
  qed
  ultimately show ?thesis by (simp add: routine_inv_def)
qed

abbreviation demo_change :: "routine_event list" where
  "demo_change \<equiv> [Prepare 7 4 9 {2, 3, 4} 4 (replicate 16 5), LearnerReady 9 8 11 {2, 3, 4}, CommitMembership 9 {2, 3, 4} 12]"

lemmas routine_eval = authority_new_def routine_prepare_def mark_learner_ready_def commit_membership_def routine_finalize_def
  Let_def bt_values_def word_less_nat_alt

lemma demo_changed:
  "fold routine_step demo_change (authority_new Routine_Correct) = (authority_new Routine_Correct)\<lparr>am_pending := Some
     \<lparr>pd_id = 9, pd_expected_epoch = 4, pd_old_voters = {1, 2, 3}, pd_next_voters = {2, 3, 4}, pd_replacement_node = 4,
      pd_replacement_incarnation = replicate 16 5, pd_learner_ready_position = Some 11, pd_membership_position = Some 12\<rparr>\<rparr>"
  by (simp add: routine_eval)

lemma demo_finalized:
  "routine_step (Finalize 9 12) (fold routine_step demo_change (authority_new Routine_Correct)) = (authority_new Routine_Correct)\<lparr>
     am_active_voters := {2, 3, 4}, am_membership_epoch := 5, am_completed := [(9, (5, {2, 3, 4}))],
     am_active_incarnations := [(2, replicate 16 0x22), (3, replicate 16 0x33), (4, replicate 16 5)]\<rparr>"
  unfolding demo_changed by (simp add: routine_eval saturating_add_def)

lemma set_differs: "x \<in> A \<Longrightarrow> x \<notin> B \<Longrightarrow> A \<noteq> B"
  by blast

theorem membership_changes_are_exact_witness:
  "\<exists>m m'. m = fold routine_step demo_change (authority_new Routine_Correct) \<and> m' = routine_step (Finalize 9 12) m \<and>
     am_active_voters m \<noteq> am_active_voters m' \<and> am_membership_epoch m' = saturating_add (am_membership_epoch m) 1"
proof -
  define m where "m = fold routine_step demo_change (authority_new Routine_Correct)"
  define m' where "m' = routine_step (Finalize 9 12) m"
  have "am_active_voters m = {1, 2, 3}" unfolding m_def demo_changed by (simp add: authority_new_def)
  moreover have "am_active_voters m' = {2, 3, 4}" unfolding m'_def m_def demo_finalized by simp
  ultimately have "am_active_voters m \<noteq> am_active_voters m'" by (intro set_differs[of 1]) simp_all
  moreover from this membership_changes_are_exact[OF m_def m'_def]
  have "am_membership_epoch m' = saturating_add (am_membership_epoch m) 1" by auto
  ultimately show ?thesis using m_def m'_def by blast
qed

section \<open>A completed identifier blocks the authority\<close>

lemma blocked_step:
  assumes "am_mode m = Routine_Correct" and "bt_get (am_completed m) rid \<noteq> None"
    and "am_pending m = Some p" "pd_id p = rid" "pd_next_voters p = voters"
  shows "\<exists>p'. am_mode (routine_step e m) = Routine_Correct \<and> am_completed (routine_step e m) = am_completed m \<and>
    am_pending (routine_step e m) = Some p' \<and> pd_id p' = rid \<and> pd_next_voters p' = voters \<and>
    am_active_voters (routine_step e m) = am_active_voters m \<and> am_membership_epoch (routine_step e m) = am_membership_epoch m"
proof (cases e)
  case (Prepare gen epoch rid' voters' node inc)
  then show ?thesis using prepare_result[OF assms(1), of gen epoch rid' voters' node inc] assms by auto
next
  case (LearnerReady rid' snapshot applied voters')
  then show ?thesis using ready_result[of rid' snapshot applied voters' m] assms by auto
next
  case (CommitMembership rid' voters' position)
  then show ?thesis using commit_result[OF assms(1), of rid' voters' position] assms by auto
next
  case (Finalize rid' position)
  then show ?thesis using finalize_result[OF assms(1), of rid' position] assms by auto
qed


abbreviation demo_completed :: authority_model where
  "demo_completed \<equiv> fold routine_step (demo_change @ [Finalize 9 12]) (authority_new Routine_Correct)"

lemma demo_completed:
  "demo_completed = (authority_new Routine_Correct)\<lparr>
     am_active_voters := {2, 3, 4}, am_membership_epoch := 5, am_completed := [(9, (5, {2, 3, 4}))],
     am_active_incarnations := [(2, replicate 16 0x22), (3, replicate 16 0x33), (4, replicate 16 5)]\<rparr>"
  using demo_finalized by simp


section \<open>Voters that were never learners\<close>

text \<open>Preparation checks only the named replacement: a change to the voters 4, 5 and 6 with
  replacement 4 is accepted and finalised, and nodes 5 and 6, which were never authorised as
  learners and have no incarnation, can commit.\<close>

abbreviation unadmitted_change :: "u64 \<Rightarrow> bytes \<Rightarrow> routine_event list" where
  "unadmitted_change rid inc \<equiv> [Prepare 7 4 rid {4, 5, 6} 4 inc, LearnerReady rid 8 11 {4, 5, 6},
     CommitMembership rid {4, 5, 6} 12, Finalize rid 12]"

theorem unadmitted_voters_can_commit:
  assumes "rid \<noteq> 0" and "inc \<notin> {replicate 16 0x11, replicate 16 0x22, replicate 16 0x33}"
    and "m = fold routine_step (unadmitted_change rid inc) (authority_new Routine_Correct)"
  shows "can_commit 5 7 True m \<and> can_commit 6 7 True m \<and> am_active_incarnations m = [(4, inc)]"
proof -
  have "m = (authority_new Routine_Correct)\<lparr>am_active_voters := {4, 5, 6}, am_membership_epoch := 5,
      am_completed := [(rid, (5, {4, 5, 6}))], am_active_incarnations := [(4, inc)]\<rparr>"
    unfolding assms(3) using assms(1,2) by (simp add: routine_eval saturating_add_def) blast
  then show ?thesis by (simp add: can_commit_def authority_new_def)
qed
end
