(* ===== verification/Generation.thy ===== *)
theory Generation
  imports Okv_Prelude
begin

text \<open>
  The generation authority of a cell (\<open>okv-consensus/src/generation.rs\<close>): bootstrap, the fenced
  takeover of a new generation with its two quorum certificates, and routine voter replacement
  within a generation. SHA-256, the Ed25519 verification and the JSON serialisation of the signed
  statements are the fields of the parameter \<open>generation_env\<close>; serialisation that fails is None.
\<close>

section \<open>Parameters and data\<close>

record recovery_log_position =
  lp_term :: u64
  lp_index :: u64

datatype recovery_certificate_kind = Fence | Recovered

record recovery_certificate_statement =
  rcs_protocol_version :: u16
  rcs_kind :: recovery_certificate_kind
  rcs_cell_id :: u64
  rcs_generation :: u64
  rcs_recovery_id :: u64
  rcs_active_transaction_system_id :: string
  rcs_pending_transaction_system_id :: string
  rcs_log_position :: recovery_log_position
  rcs_membership_sha256 :: bytes

record recovery_attestation =
  ra_signer_id :: u64
  ra_signature :: bytes

record recovery_certificate =
  rce_statement :: recovery_certificate_statement
  rce_attestations :: "recovery_attestation list"

datatype routine_certificate_kind = LearnerReadyKind | MembershipCommittedKind

record routine_certificate_statement =
  rts_protocol_version :: u16
  rts_kind :: routine_certificate_kind
  rts_cell_id :: u64
  rts_generation :: u64
  rts_membership_epoch :: u64
  rts_reconfiguration_id :: u64
  rts_transaction_system_id :: string
  rts_old_membership_sha256 :: bytes
  rts_next_membership_sha256 :: bytes
  rts_replacement_node :: u64
  rts_replacement_incarnation :: bytes
  rts_snapshot_position :: recovery_log_position
  rts_applied_position :: recovery_log_position

record routine_certificate =
  rtc_statement :: routine_certificate_statement
  rtc_attestations :: "recovery_attestation list"

record generation_env =
  ge_sha :: "bytes \<Rightarrow> bytes"
  ge_verify :: "bytes \<Rightarrow> bytes \<Rightarrow> bytes \<Rightarrow> bool"
  ge_json_recovery :: "recovery_certificate_statement \<Rightarrow> bytes option"
  ge_json_routine :: "routine_certificate_statement \<Rightarrow> bytes option"

datatype generation_phase = Uninitialized | Active | Fencing | Recovering

datatype routine_phase = Prepared | LearnerReady

record pending_routine =
  pr_reconfiguration_id :: u64
  pr_expected_membership_epoch :: u64
  pr_phase :: routine_phase
  pr_replacement_node :: u64
  pr_replacement_incarnation :: bytes
  pr_next_members :: "(u64, bytes) btree"
  pr_next_incarnations :: "(u64, bytes) btree"
  pr_learner_snapshot_position :: "recovery_log_position option"
  pr_learner_applied_position :: "recovery_log_position option"

record completed_routine =
  cmr_reconfiguration_id :: u64
  cmr_membership_epoch :: u64
  cmr_membership_sha256 :: bytes
  cmr_membership_position :: recovery_log_position
  cmr_certificate_sha256 :: bytes

record generation_state =
  gs_cell_id :: u64
  gs_generation :: u64
  gs_phase :: generation_phase
  gs_recovery_id :: "u64 option"
  gs_transaction_system_id :: "string option"
  gs_pending_transaction_system_id :: "string option"
  gs_members :: "(u64, bytes) btree"
  gs_incarnations :: "(u64, bytes) btree"
  gs_pending_members :: "(u64, bytes) btree"
  gs_pending_incarnations :: "(u64, bytes) btree"
  gs_wal_root :: "string option"
  gs_control_root_version :: u64
  gs_fenced_log_index :: u64
  gs_recovered_log_index :: u64
  gs_fenced_log_position :: "recovery_log_position option"
  gs_recovered_log_position :: "recovery_log_position option"
  gs_last_completed_generation :: u64
  gs_last_completed_recovery_id :: "u64 option"
  gs_membership_epoch :: u64
  gs_pending_reconfiguration :: "pending_routine option"
  gs_completed_reconfigurations :: "(u64, completed_routine) btree"

definition generation_default :: generation_state where
  "generation_default =
     \<lparr>gs_cell_id = 0, gs_generation = 0, gs_phase = Uninitialized, gs_recovery_id = None,
      gs_transaction_system_id = None, gs_pending_transaction_system_id = None, gs_members = [], gs_incarnations = [],
      gs_pending_members = [], gs_pending_incarnations = [], gs_wal_root = None, gs_control_root_version = 0,
      gs_fenced_log_index = 0, gs_recovered_log_index = 0, gs_fenced_log_position = None, gs_recovered_log_position = None,
      gs_last_completed_generation = 0, gs_last_completed_recovery_id = None, gs_membership_epoch = 0,
      gs_pending_reconfiguration = None, gs_completed_reconfigurations = []\<rparr>"

datatype generation_action =
    Bootstrap u64 u64 string "(u64, bytes) btree" "(u64, bytes) btree" string u64
  | Prepare u64 u64 u64 u64 string "(u64, bytes) btree" "(u64, bytes) btree"
  | Reserve u64 u64 string u64 "recovery_certificate option"
  | Activate u64 u64 string string u64 u64 "recovery_certificate option"
  | PrepareRoutineReconfiguration u64 u64 bytes u64 u64 bytes "(u64, bytes) btree" "(u64, bytes) btree"
  | MarkRoutineLearnerReady u64 u64 u64 "routine_certificate option"
  | FinalizeRoutineReconfiguration u64 u64 u64 "routine_certificate option"

datatype generation_command_status =
    Accepted | StaleGeneration | CompareFailed | RecoveryConflict | MissingRecoveryProof | InvalidRecoveryProof
  | StaleMembershipEpoch | ReconfigurationConflict | MissingRoutineProof | InvalidRoutineProof | InvalidPhase
  | InvalidRequest

record generation_faults =
  accept_competing_recovery :: bool
  activate_without_recovery_proof :: bool
  accept_invalid_recovery_certificate :: bool

definition no_generation_faults :: generation_faults where
  "no_generation_faults = \<lparr>accept_competing_recovery = False, activate_without_recovery_proof = False,
     accept_invalid_recovery_certificate = False\<rparr>"

record generation_credential =
  gc_generation :: u64
  gc_transaction_system_id :: string

section \<open>Digests and signatures\<close>

definition RECOVERY_CERTIFICATE_MAGIC :: bytes where
  "RECOVERY_CERTIFICATE_MAGIC = ascii ''OKV-RECOVERY-CERTIFICATE-V1'' @ [0]"
definition RECOVERY_CERTIFICATE_VERSION :: u16 where "RECOVERY_CERTIFICATE_VERSION = 1"
definition ROUTINE_CERTIFICATE_MAGIC :: bytes where
  "ROUTINE_CERTIFICATE_MAGIC = ascii ''OKV-ROUTINE-RECONFIGURATION-CERTIFICATE-V1'' @ [0]"
definition ROUTINE_CERTIFICATE_VERSION :: u16 where "ROUTINE_CERTIFICATE_VERSION = 1"

definition routine_membership_digest :: "generation_env \<Rightarrow> (u64, bytes) btree \<Rightarrow> (u64, bytes) btree \<Rightarrow> bytes" where
  "routine_membership_digest env members incarnations =
     ge_sha env (ascii ''OKV-ROUTINE-MEMBERSHIP-V1'' @ [0] @ u64_be (word_of_nat (length members)) @
       concat (map (\<lambda>(node_id, public_key). u64_be node_id @ u64_be (word_of_nat (length public_key)) @ public_key @
         (case bt_get incarnations node_id of Some incarnation \<Rightarrow> incarnation | None \<Rightarrow> [])) members))"

definition recovery_membership_digest :: "generation_env \<Rightarrow> (u64, bytes) btree \<Rightarrow> bytes" where
  "recovery_membership_digest env members =
     ge_sha env (ascii ''OKV-RECOVERY-MEMBERSHIP-V1'' @ [0] @ u64_be (word_of_nat (length members)) @
       concat (map (\<lambda>(node_id, public_key). u64_be node_id @ u64_be (word_of_nat (length public_key)) @ public_key) members))"

definition recovery_statement_new ::
  "generation_env \<Rightarrow> recovery_certificate_kind \<Rightarrow> generation_state \<Rightarrow> recovery_log_position \<Rightarrow> (u64, bytes) btree \<Rightarrow>
     recovery_certificate_statement" where
  "recovery_statement_new env kind s position members =
     \<lparr>rcs_protocol_version = RECOVERY_CERTIFICATE_VERSION, rcs_kind = kind, rcs_cell_id = gs_cell_id s,
      rcs_generation = gs_generation s, rcs_recovery_id = (case gs_recovery_id s of None \<Rightarrow> 0 | Some r \<Rightarrow> r),
      rcs_active_transaction_system_id = (case gs_transaction_system_id s of None \<Rightarrow> [] | Some t \<Rightarrow> t),
      rcs_pending_transaction_system_id = (case gs_pending_transaction_system_id s of None \<Rightarrow> [] | Some t \<Rightarrow> t),
      rcs_log_position = position, rcs_membership_sha256 = recovery_membership_digest env members\<rparr>"

definition routine_statement_new ::
  "generation_env \<Rightarrow> routine_certificate_kind \<Rightarrow> generation_state \<Rightarrow> recovery_log_position \<Rightarrow> recovery_log_position \<Rightarrow>
     routine_certificate_statement option" where
  "routine_statement_new env kind s snapshot_position applied_position =
     map_option (\<lambda>pending.
       \<lparr>rts_protocol_version = ROUTINE_CERTIFICATE_VERSION, rts_kind = kind, rts_cell_id = gs_cell_id s,
        rts_generation = gs_generation s, rts_membership_epoch = gs_membership_epoch s,
        rts_reconfiguration_id = pr_reconfiguration_id pending,
        rts_transaction_system_id = (case gs_transaction_system_id s of None \<Rightarrow> [] | Some t \<Rightarrow> t),
        rts_old_membership_sha256 = routine_membership_digest env (gs_members s) (gs_incarnations s),
        rts_next_membership_sha256 = routine_membership_digest env (pr_next_members pending) (pr_next_incarnations pending),
        rts_replacement_node = pr_replacement_node pending, rts_replacement_incarnation = pr_replacement_incarnation pending,
        rts_snapshot_position = snapshot_position, rts_applied_position = applied_position\<rparr>)
       (gs_pending_reconfiguration s)"

definition recovery_signing_bytes :: "generation_env \<Rightarrow> recovery_certificate_statement \<Rightarrow> bytes option" where
  "recovery_signing_bytes env st = map_option (\<lambda>j. RECOVERY_CERTIFICATE_MAGIC @ j) (ge_json_recovery env st)"

definition routine_signing_bytes :: "generation_env \<Rightarrow> routine_certificate_statement \<Rightarrow> bytes option" where
  "routine_signing_bytes env st = map_option (\<lambda>j. ROUTINE_CERTIFICATE_MAGIC @ j) (ge_json_routine env st)"

definition quorum_size :: "nat \<Rightarrow> nat" where
  "quorum_size member_count = member_count div 2 + 1"

text \<open>
  The loop over the attestations of a certificate: every signer is new, has a public key and has
  signed; its result is the set of signers.
\<close>

fun collect_signers :: "('a \<Rightarrow> u64) \<Rightarrow> (u64 \<Rightarrow> bytes option) \<Rightarrow> ('a \<Rightarrow> bytes \<Rightarrow> bool) \<Rightarrow> 'a list \<Rightarrow> u64 set \<Rightarrow> u64 set option" where
  "collect_signers signer key vouches [] acc = Some acc"
| "collect_signers signer key vouches (a # as) acc =
     (if signer a \<in> acc then None
      else case key (signer a) of
        None \<Rightarrow> None
      | Some public_key \<Rightarrow>
          if \<not> vouches a public_key then None
          else collect_signers signer key vouches as (insert (signer a) acc))"

section \<open>Authorisation\<close>

definition authorizes :: "generation_state \<Rightarrow> u64 \<Rightarrow> string \<Rightarrow> bool" where
  "authorizes s g t \<longleftrightarrow> gs_phase s = Active \<and> gs_generation s = g \<and> gs_transaction_system_id s = Some t"

definition authorizes_node :: "generation_state \<Rightarrow> u64 \<Rightarrow> string \<Rightarrow> u64 \<Rightarrow> bool" where
  "authorizes_node s g t node_id \<longleftrightarrow> authorizes s g t \<and> bt_contains (gs_members s) node_id"

definition authorizes_routine_learner :: "generation_state \<Rightarrow> u64 \<Rightarrow> u64 \<Rightarrow> u64 \<Rightarrow> u64 \<Rightarrow> bytes \<Rightarrow> bool" where
  "authorizes_routine_learner s g membership_epoch reconfiguration_id node_id storage_incarnation \<longleftrightarrow>
     gs_phase s = Active \<and> gs_generation s = g \<and> gs_membership_epoch s = membership_epoch \<and>
     (case gs_pending_reconfiguration s of
        None \<Rightarrow> False
      | Some pending \<Rightarrow> pr_reconfiguration_id pending = reconfiguration_id \<and> pr_replacement_node pending = node_id
          \<and> pr_replacement_incarnation pending = storage_incarnation \<and> pr_phase pending \<in> {Prepared, LearnerReady})"

definition authorizes_routine_membership :: "generation_state \<Rightarrow> u64 \<Rightarrow> u64 \<Rightarrow> u64 \<Rightarrow> u64 set \<Rightarrow> bool" where
  "authorizes_routine_membership s g membership_epoch reconfiguration_id voters \<longleftrightarrow>
     gs_phase s = Active \<and> gs_generation s = g \<and> gs_membership_epoch s = membership_epoch \<and>
     (case gs_pending_reconfiguration s of
        None \<Rightarrow> False
      | Some pending \<Rightarrow> pr_reconfiguration_id pending = reconfiguration_id \<and> pr_phase pending = LearnerReady
          \<and> fst ` set (pr_next_members pending) = voters)"

definition authorizes_recovery :: "generation_state \<Rightarrow> u64 \<Rightarrow> u64 \<Rightarrow> string \<Rightarrow> bool" where
  "authorizes_recovery s g recovery_id t \<longleftrightarrow> gs_phase s = Recovering \<and> gs_generation s = g \<and>
     gs_recovery_id s = Some recovery_id \<and> gs_pending_transaction_system_id s = Some t"

definition authorizes_fencing :: "generation_state \<Rightarrow> u64 \<Rightarrow> u64 \<Rightarrow> string \<Rightarrow> bool" where
  "authorizes_fencing s g recovery_id t \<longleftrightarrow> gs_phase s = Fencing \<and> gs_generation s = g \<and>
     gs_recovery_id s = Some recovery_id \<and> gs_pending_transaction_system_id s = Some t"

section \<open>Validation\<close>

definition valid_recovery_members :: "(u64, bytes) btree \<Rightarrow> bool" where
  "valid_recovery_members members \<longleftrightarrow> members \<noteq> [] \<and>
     list_all (\<lambda>(node_id, public_key). node_id \<noteq> 0 \<and> length public_key = 32) members"

definition valid_routine_members :: "(u64, bytes) btree \<Rightarrow> (u64, bytes) btree \<Rightarrow> bool" where
  "valid_routine_members members incarnations \<longleftrightarrow> valid_recovery_members members \<and>
     map fst members = map fst incarnations \<and> list_all (\<lambda>incarnation. incarnation \<noteq> replicate 16 0) (bt_values incarnations)"

definition valid_members_with_optional_incarnations :: "(u64, bytes) btree \<Rightarrow> (u64, bytes) btree \<Rightarrow> bool" where
  "valid_members_with_optional_incarnations members incarnations \<longleftrightarrow> valid_recovery_members members \<and>
     (incarnations = [] \<or> valid_routine_members members incarnations)"

definition valid_routine_replacement ::
  "(u64, bytes) btree \<Rightarrow> (u64, bytes) btree \<Rightarrow> (u64, bytes) btree \<Rightarrow> (u64, bytes) btree \<Rightarrow> u64 \<Rightarrow> bytes \<Rightarrow> bool" where
  "valid_routine_replacement old_members old_incarnations next_members next_incarnations node incarnation \<longleftrightarrow>
     (if \<not> valid_routine_members old_members old_incarnations
        \<or> \<not> valid_routine_members next_members next_incarnations
        \<or> length old_members \<noteq> length next_members
        \<or> bt_contains old_members node
        \<or> bt_get next_incarnations node \<noteq> Some incarnation
        \<or> list_ex (\<lambda>i. i = incarnation) (bt_values old_incarnations)
      then False
      else
        let removed = length (filter (\<lambda>node_id. \<not> bt_contains next_members node_id) (map fst old_members));
            added = length (filter (\<lambda>node_id. \<not> bt_contains old_members node_id) (map fst next_members)) in
        removed = 1 \<and> added = 1 \<and> bt_contains next_members node)"

definition routine_certificate_digest :: "generation_env \<Rightarrow> routine_certificate \<Rightarrow> bytes option" where
  "routine_certificate_digest env c = map_option (ge_sha env) (routine_signing_bytes env (rtc_statement c))"

definition verify_routine_quorum :: "generation_env \<Rightarrow> routine_certificate \<Rightarrow> (u64, bytes) btree \<Rightarrow> bool" where
  "verify_routine_quorum env c members \<longleftrightarrow>
     (case routine_signing_bytes env (rtc_statement c) of
        None \<Rightarrow> False
      | Some bs \<Rightarrow>
         (case collect_signers ra_signer_id (bt_get members) (\<lambda>a pk. ge_verify env pk bs (ra_signature a)) (rtc_attestations c) {} of
            None \<Rightarrow> False
          | Some signers \<Rightarrow> card signers \<ge> quorum_size (length members)))"

definition verify_recovery_certificate ::
  "generation_env \<Rightarrow> generation_state \<Rightarrow> recovery_certificate \<Rightarrow> recovery_certificate_kind \<Rightarrow> (u64, bytes) btree \<Rightarrow> bool" where
  "verify_recovery_certificate env s c expected_kind members \<longleftrightarrow>
     (let st = rce_statement c in
      if rcs_protocol_version st \<noteq> RECOVERY_CERTIFICATE_VERSION
        \<or> rcs_kind st \<noteq> expected_kind
        \<or> rcs_cell_id st \<noteq> gs_cell_id s
        \<or> rcs_generation st \<noteq> gs_generation s
        \<or> Some (rcs_recovery_id st) \<noteq> gs_recovery_id s
        \<or> Some (rcs_active_transaction_system_id st) \<noteq> gs_transaction_system_id s
        \<or> Some (rcs_pending_transaction_system_id st) \<noteq> gs_pending_transaction_system_id s
        \<or> lp_index (rcs_log_position st) = 0
        \<or> \<not> valid_recovery_members members
        \<or> rcs_membership_sha256 st \<noteq> recovery_membership_digest env members
      then False
      else if expected_kind = Recovered \<and> lp_index (rcs_log_position st) \<le> gs_fenced_log_index s then False
      else case recovery_signing_bytes env st of
        None \<Rightarrow> False
      | Some bs \<Rightarrow>
         (case collect_signers ra_signer_id (bt_get members) (\<lambda>a pk. ge_verify env pk bs (ra_signature a)) (rce_attestations c) {} of
            None \<Rightarrow> False
          | Some signers \<Rightarrow> card signers \<ge> quorum_size (length members)))"

definition verify_routine_certificate ::
  "generation_env \<Rightarrow> generation_state \<Rightarrow> routine_certificate \<Rightarrow> routine_certificate_kind \<Rightarrow> bool" where
  "verify_routine_certificate env s c expected_kind \<longleftrightarrow>
     (case gs_pending_reconfiguration s of
        None \<Rightarrow> False
      | Some pending \<Rightarrow>
          let st = rtc_statement c in
          if routine_statement_new env expected_kind s (rts_snapshot_position st) (rts_applied_position st) \<noteq> Some st
            \<or> lp_index (rts_snapshot_position st) = 0
            \<or> lp_index (rts_applied_position st) < lp_index (rts_snapshot_position st)
          then False
          else if expected_kind = MembershipCommittedKind \<and>
            (case pr_learner_applied_position pending of
               None \<Rightarrow> True | Some position \<Rightarrow> lp_index (rts_applied_position st) \<le> lp_index position)
          then False
          else case routine_signing_bytes env st of
            None \<Rightarrow> False
          | Some bs \<Rightarrow>
             (case collect_signers ra_signer_id
                 (\<lambda>n. case bt_get (gs_members s) n of Some pk \<Rightarrow> Some pk | None \<Rightarrow> bt_get (pr_next_members pending) n)
                 (\<lambda>a pk. ge_verify env pk bs (ra_signature a)) (rtc_attestations c) {} of
                None \<Rightarrow> False
              | Some signers \<Rightarrow>
                 (case expected_kind of
                    LearnerReadyKind \<Rightarrow>
                      pr_replacement_node pending \<in> signers \<and>
                      card {n \<in> signers. bt_contains (gs_members s) n} \<ge> quorum_size (length (gs_members s))
                  | MembershipCommittedKind \<Rightarrow>
                      card {n \<in> signers. bt_contains (pr_next_members pending) n}
                        \<ge> quorum_size (length (pr_next_members pending)))))"

section \<open>Actions\<close>

type_synonym generation_result = "generation_command_status \<times> generation_state"

definition bootstrap :: "u64 \<Rightarrow> u64 \<Rightarrow> string \<Rightarrow> (u64, bytes) btree \<Rightarrow> (u64, bytes) btree \<Rightarrow> string \<Rightarrow> u64 \<Rightarrow> generation_state \<Rightarrow> generation_result" where
  "bootstrap cell_id g t members incarnations wal_root control_root_version s =
     (if gs_phase s \<noteq> Uninitialized \<or> cell_id = 0 \<or> g = 0 \<or> t = []
        \<or> \<not> valid_members_with_optional_incarnations members incarnations \<or> wal_root = [] \<or> control_root_version = 0
      then (InvalidPhase, s)
      else (Accepted,
        \<lparr>gs_cell_id = cell_id, gs_generation = g, gs_phase = Active, gs_recovery_id = None,
         gs_transaction_system_id = Some t, gs_pending_transaction_system_id = None, gs_members = members,
         gs_incarnations = incarnations, gs_pending_members = [], gs_pending_incarnations = [],
         gs_wal_root = Some wal_root, gs_control_root_version = control_root_version, gs_fenced_log_index = 0,
         gs_recovered_log_index = 0, gs_fenced_log_position = None, gs_recovered_log_position = None,
         gs_last_completed_generation = g, gs_last_completed_recovery_id = None, gs_membership_epoch = 0,
         gs_pending_reconfiguration = None, gs_completed_reconfigurations = []\<rparr>))"

definition prepare_generation ::
  "generation_faults \<Rightarrow> u64 \<Rightarrow> u64 \<Rightarrow> u64 \<Rightarrow> u64 \<Rightarrow> string \<Rightarrow> (u64, bytes) btree \<Rightarrow> (u64, bytes) btree \<Rightarrow>
     generation_state \<Rightarrow> generation_result" where
  "prepare_generation faults expected_generation next_generation expected_control_root_version recovery_id t members incarnations s =
     (let normal = (gs_phase s = Active \<and> gs_pending_reconfiguration s = None \<and> expected_generation = gs_generation s
            \<and> next_generation = saturating_add (gs_generation s) 1
            \<and> expected_control_root_version = gs_control_root_version s);
          competing = (accept_competing_recovery faults \<and> gs_phase s = Fencing \<and> next_generation = gs_generation s
            \<and> saturating_add expected_generation 1 = gs_generation s
            \<and> expected_control_root_version = gs_control_root_version s) in
      if \<not> normal \<and> \<not> competing
      then (if expected_generation < gs_generation s then StaleGeneration
            else if gs_phase s \<in> {Fencing, Recovering} then RecoveryConflict else CompareFailed, s)
      else if recovery_id = 0 \<or> t = [] \<or> \<not> valid_members_with_optional_incarnations members incarnations
      then (InvalidRequest, s)
      else (Accepted, s\<lparr>gs_generation := next_generation, gs_phase := Fencing, gs_recovery_id := Some recovery_id,
        gs_pending_transaction_system_id := Some t, gs_pending_members := members, gs_pending_incarnations := incarnations,
        gs_fenced_log_index := 0, gs_recovered_log_index := 0, gs_fenced_log_position := None,
        gs_recovered_log_position := None\<rparr>))"

definition reserve_generation ::
  "generation_env \<Rightarrow> generation_faults \<Rightarrow> u64 \<Rightarrow> u64 \<Rightarrow> string \<Rightarrow> u64 \<Rightarrow> recovery_certificate option \<Rightarrow>
     generation_state \<Rightarrow> generation_result" where
  "reserve_generation env faults g recovery_id t expected_control_root_version certificate s =
     (if gs_phase s \<noteq> Fencing \<or> g \<noteq> gs_generation s then (InvalidPhase, s)
      else if gs_recovery_id s \<noteq> Some recovery_id \<or> gs_pending_transaction_system_id s \<noteq> Some t then (RecoveryConflict, s)
      else if expected_control_root_version \<noteq> gs_control_root_version s then (CompareFailed, s)
      else case certificate of
        None \<Rightarrow> (MissingRecoveryProof, s)
      | Some c \<Rightarrow>
          if \<not> accept_invalid_recovery_certificate faults \<and> \<not> verify_recovery_certificate env s c Fence (gs_members s)
          then (InvalidRecoveryProof, s)
          else (Accepted, s\<lparr>gs_phase := Recovering,
            gs_fenced_log_index := lp_index (rcs_log_position (rce_statement c)),
            gs_fenced_log_position := Some (rcs_log_position (rce_statement c))\<rparr>))"

text \<open>The assignments that both branches of an activation share.\<close>

definition install_generation :: "u64 \<Rightarrow> string \<Rightarrow> string \<Rightarrow> u64 \<Rightarrow> generation_state \<Rightarrow> generation_state" where
  "install_generation g t wal_root next_control_root_version s =
     s\<lparr>gs_phase := Active, gs_last_completed_recovery_id := gs_recovery_id s, gs_recovery_id := None,
       gs_transaction_system_id := Some t, gs_members := gs_pending_members s, gs_incarnations := gs_pending_incarnations s,
       gs_pending_transaction_system_id := None, gs_pending_members := [], gs_pending_incarnations := [],
       gs_wal_root := Some wal_root, gs_control_root_version := next_control_root_version,
       gs_last_completed_generation := g\<rparr>"

definition activate_generation ::
  "generation_env \<Rightarrow> generation_faults \<Rightarrow> u64 \<Rightarrow> u64 \<Rightarrow> string \<Rightarrow> string \<Rightarrow> u64 \<Rightarrow> u64 \<Rightarrow> recovery_certificate option \<Rightarrow>
     generation_state \<Rightarrow> generation_result" where
  "activate_generation env faults g recovery_id t wal_root expected_control_root_version next_control_root_version certificate s =
     (if gs_phase s \<noteq> Recovering \<or> g \<noteq> gs_generation s then (InvalidPhase, s)
      else if gs_recovery_id s \<noteq> Some recovery_id \<or> gs_pending_transaction_system_id s \<noteq> Some t then (RecoveryConflict, s)
      else if expected_control_root_version \<noteq> gs_control_root_version s
        \<or> next_control_root_version \<noteq> saturating_add (gs_control_root_version s) 1 then (CompareFailed, s)
      else if t = [] \<or> wal_root = [] then (InvalidRequest, s)
      else case certificate of
        None \<Rightarrow>
          if activate_without_recovery_proof faults
          then (Accepted, install_generation g t wal_root next_control_root_version s)
          else (MissingRecoveryProof, s)
      | Some c \<Rightarrow>
          if \<not> accept_invalid_recovery_certificate faults
            \<and> \<not> verify_recovery_certificate env s c Recovered (gs_pending_members s)
          then (InvalidRecoveryProof, s)
          else (Accepted, (install_generation g t wal_root next_control_root_version s)\<lparr>
            gs_recovered_log_index := lp_index (rcs_log_position (rce_statement c)),
            gs_recovered_log_position := Some (rcs_log_position (rce_statement c))\<rparr>))"

definition prepare_routine ::
  "generation_env \<Rightarrow> u64 \<Rightarrow> u64 \<Rightarrow> bytes \<Rightarrow> u64 \<Rightarrow> u64 \<Rightarrow> bytes \<Rightarrow> (u64, bytes) btree \<Rightarrow> (u64, bytes) btree \<Rightarrow>
     generation_state \<Rightarrow> generation_result" where
  "prepare_routine env expected_generation expected_epoch expected_sha rid node incarnation members incarnations s =
     (let next_digest = routine_membership_digest env members incarnations in
      case bt_get (gs_completed_reconfigurations s) rid of
        Some completed \<Rightarrow>
          (if cmr_membership_sha256 completed = next_digest \<and> cmr_membership_epoch completed = saturating_add expected_epoch 1
           then Accepted else ReconfigurationConflict, s)
      | None \<Rightarrow>
          if gs_phase s \<noteq> Active \<or> expected_generation \<noteq> gs_generation s then (InvalidPhase, s)
          else if expected_epoch \<noteq> gs_membership_epoch s then (StaleMembershipEpoch, s)
          else if expected_sha \<noteq> routine_membership_digest env (gs_members s) (gs_incarnations s) then (CompareFailed, s)
          else if rid = 0 \<or> node = 0 \<or> incarnation = replicate 16 0
            \<or> \<not> valid_routine_replacement (gs_members s) (gs_incarnations s) members incarnations node incarnation
          then (InvalidRequest, s)
          else
            let candidate = \<lparr>pr_reconfiguration_id = rid, pr_expected_membership_epoch = expected_epoch, pr_phase = Prepared,
                  pr_replacement_node = node, pr_replacement_incarnation = incarnation, pr_next_members = members,
                  pr_next_incarnations = incarnations, pr_learner_snapshot_position = None,
                  pr_learner_applied_position = None\<rparr> in
            case gs_pending_reconfiguration s of
              Some pending \<Rightarrow> (if pending = candidate then Accepted else ReconfigurationConflict, s)
            | None \<Rightarrow> (Accepted, s\<lparr>gs_pending_reconfiguration := Some candidate\<rparr>))"

definition mark_routine_learner_ready ::
  "generation_env \<Rightarrow> u64 \<Rightarrow> u64 \<Rightarrow> u64 \<Rightarrow> routine_certificate option \<Rightarrow> generation_state \<Rightarrow> generation_result" where
  "mark_routine_learner_ready env g epoch rid certificate s =
     (if gs_phase s \<noteq> Active \<or> g \<noteq> gs_generation s then (InvalidPhase, s)
      else if epoch \<noteq> gs_membership_epoch s then (StaleMembershipEpoch, s)
      else case gs_pending_reconfiguration s of
        None \<Rightarrow> (ReconfigurationConflict, s)
      | Some pending \<Rightarrow>
          if pr_reconfiguration_id pending \<noteq> rid then (ReconfigurationConflict, s)
          else if pr_phase pending = LearnerReady then
            (case certificate of
               None \<Rightarrow> MissingRoutineProof
             | Some c \<Rightarrow>
                 if pr_learner_snapshot_position pending = Some (rts_snapshot_position (rtc_statement c))
                   \<and> pr_learner_applied_position pending = Some (rts_applied_position (rtc_statement c))
                 then Accepted else ReconfigurationConflict, s)
          else case certificate of
            None \<Rightarrow> (MissingRoutineProof, s)
          | Some c \<Rightarrow>
              if \<not> verify_routine_certificate env s c LearnerReadyKind then (InvalidRoutineProof, s)
              else (Accepted, s\<lparr>gs_pending_reconfiguration := Some (pending\<lparr>pr_phase := LearnerReady,
                pr_learner_snapshot_position := Some (rts_snapshot_position (rtc_statement c)),
                pr_learner_applied_position := Some (rts_applied_position (rtc_statement c))\<rparr>)\<rparr>))"

text \<open>
  The digest of a verified certificate is unwrapped: verification has serialised the same statement.
  The model keeps the panic as None.
\<close>

definition finalize_routine ::
  "generation_env \<Rightarrow> u64 \<Rightarrow> u64 \<Rightarrow> u64 \<Rightarrow> routine_certificate option \<Rightarrow> generation_state \<Rightarrow> generation_result option" where
  "finalize_routine env g expected_epoch rid certificate s =
     (case bt_get (gs_completed_reconfigurations s) rid of
        Some completed \<Rightarrow>
          Some (case certificate of
              None \<Rightarrow> MissingRoutineProof
            | Some c \<Rightarrow>
                if cmr_membership_epoch completed = saturating_add expected_epoch 1
                  \<and> cmr_membership_position completed = rts_applied_position (rtc_statement c)
                  \<and> cmr_membership_sha256 completed = rts_next_membership_sha256 (rtc_statement c)
                  \<and> routine_certificate_digest env c = Some (cmr_certificate_sha256 completed)
                  \<and> verify_routine_quorum env c (gs_members s)
                then Accepted else ReconfigurationConflict, s)
      | None \<Rightarrow>
          if gs_phase s \<noteq> Active \<or> g \<noteq> gs_generation s then Some (InvalidPhase, s)
          else if expected_epoch \<noteq> gs_membership_epoch s then Some (StaleMembershipEpoch, s)
          else case gs_pending_reconfiguration s of
            None \<Rightarrow> Some (ReconfigurationConflict, s)
          | Some pending \<Rightarrow>
              if pr_reconfiguration_id pending \<noteq> rid \<or> pr_phase pending \<noteq> LearnerReady then Some (ReconfigurationConflict, s)
              else case certificate of
                None \<Rightarrow> Some (MissingRoutineProof, s)
              | Some c \<Rightarrow>
                  if \<not> verify_routine_certificate env s c MembershipCommittedKind then Some (InvalidRoutineProof, s)
                  else case routine_certificate_digest env c of
                    None \<Rightarrow> None
                  | Some digest \<Rightarrow>
                      let epoch = saturating_add (gs_membership_epoch s) 1 in
                      Some (Accepted, s\<lparr>gs_pending_reconfiguration := None, gs_members := pr_next_members pending,
                        gs_incarnations := pr_next_incarnations pending, gs_membership_epoch := epoch,
                        gs_completed_reconfigurations := bt_insert rid
                          \<lparr>cmr_reconfiguration_id = rid, cmr_membership_epoch = epoch,
                           cmr_membership_sha256 = rts_next_membership_sha256 (rtc_statement c),
                           cmr_membership_position = rts_applied_position (rtc_statement c),
                           cmr_certificate_sha256 = digest\<rparr> (gs_completed_reconfigurations s)\<rparr>))"

fun generation_apply ::
  "generation_env \<Rightarrow> generation_faults \<Rightarrow> generation_action \<Rightarrow> generation_state \<Rightarrow> generation_result option" where
  "generation_apply env faults (Bootstrap cell_id g t members incarnations wal_root version) s =
     Some (bootstrap cell_id g t members incarnations wal_root version s)"
| "generation_apply env faults (Prepare expected next version rid t members incarnations) s =
     Some (prepare_generation faults expected next version rid t members incarnations s)"
| "generation_apply env faults (Reserve g rid t version certificate) s =
     Some (reserve_generation env faults g rid t version certificate s)"
| "generation_apply env faults (Activate g rid t wal_root version next certificate) s =
     Some (activate_generation env faults g rid t wal_root version next certificate s)"
| "generation_apply env faults (PrepareRoutineReconfiguration g epoch sha rid node incarnation members incarnations) s =
     Some (prepare_routine env g epoch sha rid node incarnation members incarnations s)"
| "generation_apply env faults (MarkRoutineLearnerReady g epoch rid certificate) s =
     Some (mark_routine_learner_ready env g epoch rid certificate s)"
| "generation_apply env faults (FinalizeRoutineReconfiguration g epoch rid certificate) s =
     finalize_routine env g epoch rid certificate s"
end
