(* ===== verification/Generation_Safety.thy ===== *)
theory Generation_Safety
  imports Generation
begin

text \<open>
  Properties of the generation authority: its invariant, that a generation belongs to one
  transaction system for good, that another system is authorised only after a quorum of the old
  one signed the fence, and that a pending voter replacement blocks the recovery of a cell that
  lost its quorum.
\<close>

section \<open>Certificates\<close>

lemma collect_signers_Some:
  "collect_signers signer key vouches as acc = Some S \<longleftrightarrow>
     S = acc \<union> signer ` set as \<and> distinct (map signer as) \<and> acc \<inter> signer ` set as = {} \<and>
     (\<forall>a \<in> set as. \<exists>pk. key (signer a) = Some pk \<and> vouches a pk)"
proof (induction as arbitrary: acc)
  case (Cons a as)
  show ?case
  proof (cases "key (signer a)")
    case (Some pk)
    then show ?thesis using Cons.IH[of "insert (signer a) acc"] by auto
  qed auto
qed auto

lemma card_image_distinct: "distinct (map f xs) \<Longrightarrow> card (f ` set xs) = length xs"
  by (metis distinct_card length_map set_map)

text \<open>A quorum of \<open>members\<close> signed the bytes.\<close>

definition quorum_signed :: "generation_env \<Rightarrow> (u64, bytes) btree \<Rightarrow> bytes \<Rightarrow> recovery_attestation list \<Rightarrow> bool" where
  "quorum_signed env members bs as \<longleftrightarrow>
     distinct (map ra_signer_id as) \<and> length as \<ge> quorum_size (length members) \<and>
     (\<forall>a \<in> set as. \<exists>pk. bt_get members (ra_signer_id a) = Some pk \<and> ge_verify env pk bs (ra_signature a))"

lemma quorum_collected:
  "(\<exists>S. collect_signers ra_signer_id (bt_get members) (\<lambda>a pk. ge_verify env pk bs (ra_signature a)) as {} = Some S \<and>
      card S \<ge> quorum_size (length members)) \<longleftrightarrow> quorum_signed env members bs as"
  by (auto simp: collect_signers_Some quorum_signed_def card_image_distinct)

lemma verify_recovery_iff:
  "verify_recovery_certificate env s c kind members \<longleftrightarrow>
     rcs_protocol_version (rce_statement c) = RECOVERY_CERTIFICATE_VERSION \<and> rcs_kind (rce_statement c) = kind \<and>
     rcs_cell_id (rce_statement c) = gs_cell_id s \<and> rcs_generation (rce_statement c) = gs_generation s \<and>
     gs_recovery_id s = Some (rcs_recovery_id (rce_statement c)) \<and>
     gs_transaction_system_id s = Some (rcs_active_transaction_system_id (rce_statement c)) \<and>
     gs_pending_transaction_system_id s = Some (rcs_pending_transaction_system_id (rce_statement c)) \<and>
     lp_index (rcs_log_position (rce_statement c)) \<noteq> 0 \<and> valid_recovery_members members \<and>
     rcs_membership_sha256 (rce_statement c) = recovery_membership_digest env members \<and>
     (kind = Recovered \<longrightarrow> gs_fenced_log_index s < lp_index (rcs_log_position (rce_statement c))) \<and>
     (\<exists>bs. recovery_signing_bytes env (rce_statement c) = Some bs \<and> quorum_signed env members bs (rce_attestations c))"
  by (auto simp: verify_recovery_certificate_def Let_def simp flip: quorum_collected split: option.split)

lemma verify_routine_bytes:
  "verify_routine_certificate env s c kind \<Longrightarrow> routine_certificate_digest env c \<noteq> None"
  by (auto simp: verify_routine_certificate_def routine_certificate_digest_def Let_def split: option.splits if_splits)

text \<open>A learner certificate carries the signatures of a quorum of the active members.\<close>

lemma verify_learner_quorum:
  assumes "verify_routine_certificate env s c LearnerReadyKind"
  shows "\<exists>S. S \<subseteq> fst ` set (gs_members s) \<and> card S \<ge> quorum_size (length (gs_members s)) \<and>
    (\<forall>n \<in> S. \<exists>pk bs sig. bt_get (gs_members s) n = Some pk \<and> ge_verify env pk bs sig)"
proof -
  obtain p bs S where p: "gs_pending_reconfiguration s = Some p"
    and S: "collect_signers ra_signer_id
       (\<lambda>n. case bt_get (gs_members s) n of Some pk \<Rightarrow> Some pk | None \<Rightarrow> bt_get (pr_next_members p) n)
       (\<lambda>a pk. ge_verify env pk bs (ra_signature a)) (rtc_attestations c) {} = Some S"
    and q: "card {n \<in> S. bt_contains (gs_members s) n} \<ge> quorum_size (length (gs_members s))"
    using assms by (auto simp: verify_routine_certificate_def Let_def split: option.splits if_splits)
  have "\<exists>pk bs sig. bt_get (gs_members s) n = Some pk \<and> ge_verify env pk bs sig" if "n \<in> S" "bt_contains (gs_members s) n" for n
    using that S by (force simp: collect_signers_Some bt_contains_def)
  moreover have "{n \<in> S. bt_contains (gs_members s) n} \<subseteq> fst ` set (gs_members s)"
    using bt_get_entry[of "gs_members s"] by (force simp: bt_contains_def)
  ultimately show ?thesis using q by blast
qed

section \<open>Steps\<close>

text \<open>The authority without negative-control faults.\<close>

definition generation_step :: "generation_env \<Rightarrow> generation_action \<Rightarrow> generation_state \<Rightarrow> generation_state" where
  "generation_step env a s = (case generation_apply env no_generation_faults a s of None \<Rightarrow> s | Some (_, s') \<Rightarrow> s')"

lemma bootstrap_result:
  "bootstrap cell g t members incs root ver s = (st, s') \<Longrightarrow> s' = s \<or>
     gs_phase s = Uninitialized \<and> g \<noteq> 0 \<and> t \<noteq> [] \<and> valid_members_with_optional_incarnations members incs \<and>
     gs_phase s' = Active \<and> gs_generation s' = g \<and> gs_transaction_system_id s' = Some t \<and> gs_members s' = members \<and>
     gs_incarnations s' = incs \<and> gs_recovery_id s' = None \<and> gs_pending_transaction_system_id s' = None \<and>
     gs_pending_members s' = [] \<and> gs_last_completed_generation s' = g \<and> gs_last_completed_recovery_id s' = None \<and>
     gs_pending_reconfiguration s' = None"
  by (auto simp: bootstrap_def split: if_splits)

lemma prepare_generation_result:
  "prepare_generation no_generation_faults expected next ver rid t members incs s = (st, s') \<Longrightarrow> s' = s \<and> st \<noteq> Accepted \<or>
     st = Accepted \<and> gs_phase s = Active \<and> gs_pending_reconfiguration s = None \<and> rid \<noteq> 0 \<and> t \<noteq> [] \<and>
     valid_members_with_optional_incarnations members incs \<and>
     s' = s\<lparr>gs_generation := saturating_add (gs_generation s) 1, gs_phase := Fencing, gs_recovery_id := Some rid,
        gs_pending_transaction_system_id := Some t, gs_pending_members := members, gs_pending_incarnations := incs,
        gs_fenced_log_index := 0, gs_recovered_log_index := 0, gs_fenced_log_position := None,
        gs_recovered_log_position := None\<rparr>"
  by (auto simp: prepare_generation_def no_generation_faults_def Let_def split: if_splits)

lemma reserve_result:
  "reserve_generation env no_generation_faults g rid t ver cert s = (st, s') \<Longrightarrow> s' = s \<or>
     (\<exists>c. cert = Some c \<and> gs_phase s = Fencing \<and> verify_recovery_certificate env s c Fence (gs_members s) \<and>
       s' = s\<lparr>gs_phase := Recovering, gs_fenced_log_index := lp_index (rcs_log_position (rce_statement c)),
            gs_fenced_log_position := Some (rcs_log_position (rce_statement c))\<rparr>)"
  by (auto simp: reserve_generation_def no_generation_faults_def split: if_splits option.splits)

lemma activate_result:
  "activate_generation env no_generation_faults g rid t root ver next cert s = (st, s') \<Longrightarrow> s' = s \<or>
     (\<exists>c. cert = Some c \<and> gs_phase s = Recovering \<and> g = gs_generation s \<and> gs_pending_transaction_system_id s = Some t \<and> t \<noteq> [] \<and>
       gs_recovery_id s = Some rid \<and> verify_recovery_certificate env s c Recovered (gs_pending_members s) \<and>
       s' = (install_generation g t root next s)\<lparr>
            gs_recovered_log_index := lp_index (rcs_log_position (rce_statement c)),
            gs_recovered_log_position := Some (rcs_log_position (rce_statement c))\<rparr>)"
  by (auto simp: activate_generation_def no_generation_faults_def split: if_splits option.splits)

lemma prepare_routine_result:
  "prepare_routine env g epoch sha rid node inc members incs s = (st, s') \<Longrightarrow> s' = s \<or>
     gs_phase s = Active \<and> gs_pending_reconfiguration s = None \<and> epoch = gs_membership_epoch s \<and> rid \<noteq> 0 \<and>
     bt_get (gs_completed_reconfigurations s) rid = None \<and>
     valid_routine_replacement (gs_members s) (gs_incarnations s) members incs node inc \<and>
     s' = s\<lparr>gs_pending_reconfiguration := Some \<lparr>pr_reconfiguration_id = rid, pr_expected_membership_epoch = epoch, pr_phase = Prepared,
                  pr_replacement_node = node, pr_replacement_incarnation = inc, pr_next_members = members,
                  pr_next_incarnations = incs, pr_learner_snapshot_position = None, pr_learner_applied_position = None\<rparr>\<rparr>"
  by (auto simp: prepare_routine_def Let_def split: if_splits option.splits)

lemma mark_routine_result:
  "mark_routine_learner_ready env g epoch rid cert s = (st, s') \<Longrightarrow> s' = s \<or>
     (\<exists>c p. cert = Some c \<and> gs_phase s = Active \<and> gs_pending_reconfiguration s = Some p \<and> pr_phase p = Prepared \<and>
       verify_routine_certificate env s c LearnerReadyKind \<and>
       s' = s\<lparr>gs_pending_reconfiguration := Some (p\<lparr>pr_phase := LearnerReady,
                pr_learner_snapshot_position := Some (rts_snapshot_position (rtc_statement c)),
                pr_learner_applied_position := Some (rts_applied_position (rtc_statement c))\<rparr>)\<rparr>)"
  by (auto simp: mark_routine_learner_ready_def split: if_splits option.splits) (metis routine_phase.exhaust)+

lemma finalize_routine_result:
  "\<exists>st s'. finalize_routine env g epoch rid cert s = Some (st, s') \<and> (s' = s \<or>
     (\<exists>c p digest. cert = Some c \<and> gs_phase s = Active \<and> gs_pending_reconfiguration s = Some p \<and> pr_phase p = LearnerReady \<and>
       pr_reconfiguration_id p = rid \<and> verify_routine_certificate env s c MembershipCommittedKind \<and>
       s' = s\<lparr>gs_pending_reconfiguration := None, gs_members := pr_next_members p,
                        gs_incarnations := pr_next_incarnations p, gs_membership_epoch := saturating_add (gs_membership_epoch s) 1,
                        gs_completed_reconfigurations := bt_insert rid
                          \<lparr>cmr_reconfiguration_id = rid, cmr_membership_epoch = saturating_add (gs_membership_epoch s) 1,
                           cmr_membership_sha256 = rts_next_membership_sha256 (rtc_statement c),
                           cmr_membership_position = rts_applied_position (rtc_statement c),
                           cmr_certificate_sha256 = digest\<rparr> (gs_completed_reconfigurations s)\<rparr>))"
  using verify_routine_bytes[of env s _ MembershipCommittedKind]
  by (fastforce simp: finalize_routine_def Let_def split: option.split)

lemma generation_apply_total: "generation_apply env faults a s \<noteq> None"
  using finalize_routine_result by (cases a) (auto, metis option.distinct(1))


text \<open>Every step is one of the operations or changes nothing.\<close>

lemma generation_step_cases:
  assumes "generation_step env a s = s \<Longrightarrow> P s"
    and "\<And>cell g t members incs root ver st s'. a = Bootstrap cell g t members incs root ver \<Longrightarrow>
      bootstrap cell g t members incs root ver s = (st, s') \<Longrightarrow> s' \<noteq> s \<Longrightarrow> P s'"
    and "\<And>expected next ver rid t members incs st s'. a = Prepare expected next ver rid t members incs \<Longrightarrow>
      prepare_generation no_generation_faults expected next ver rid t members incs s = (st, s') \<Longrightarrow> s' \<noteq> s \<Longrightarrow> P s'"
    and "\<And>g rid t ver cert st s'. a = Reserve g rid t ver cert \<Longrightarrow>
      reserve_generation env no_generation_faults g rid t ver cert s = (st, s') \<Longrightarrow> s' \<noteq> s \<Longrightarrow> P s'"
    and "\<And>g rid t root ver next cert st s'. a = Activate g rid t root ver next cert \<Longrightarrow>
      activate_generation env no_generation_faults g rid t root ver next cert s = (st, s') \<Longrightarrow> s' \<noteq> s \<Longrightarrow> P s'"
    and "\<And>g epoch sha rid node inc members incs st s'. a = PrepareRoutineReconfiguration g epoch sha rid node inc members incs \<Longrightarrow>
      prepare_routine env g epoch sha rid node inc members incs s = (st, s') \<Longrightarrow> s' \<noteq> s \<Longrightarrow> P s'"
    and "\<And>g epoch rid cert st s'. a = MarkRoutineLearnerReady g epoch rid cert \<Longrightarrow>
      mark_routine_learner_ready env g epoch rid cert s = (st, s') \<Longrightarrow> s' \<noteq> s \<Longrightarrow> P s'"
    and "\<And>g epoch rid cert c p digest s'. a = FinalizeRoutineReconfiguration g epoch rid cert \<Longrightarrow>
      gs_phase s = Active \<Longrightarrow> gs_pending_reconfiguration s = Some p \<Longrightarrow> pr_phase p = LearnerReady \<Longrightarrow>
      verify_routine_certificate env s c MembershipCommittedKind \<Longrightarrow>
      s' = s\<lparr>gs_pending_reconfiguration := None, gs_members := pr_next_members p,
                        gs_incarnations := pr_next_incarnations p, gs_membership_epoch := saturating_add (gs_membership_epoch s) 1,
                        gs_completed_reconfigurations := bt_insert rid
                          \<lparr>cmr_reconfiguration_id = rid, cmr_membership_epoch = saturating_add (gs_membership_epoch s) 1,
                           cmr_membership_sha256 = rts_next_membership_sha256 (rtc_statement c),
                           cmr_membership_position = rts_applied_position (rtc_statement c),
                           cmr_certificate_sha256 = digest\<rparr> (gs_completed_reconfigurations s)\<rparr> \<Longrightarrow> P s'"
  shows "P (generation_step env a s)"
proof (cases "generation_step env a s = s")
  case True
  then show ?thesis using assms(1) by simp
next
  case False
  show ?thesis
  proof (cases a)
    case (FinalizeRoutineReconfiguration g epoch rid cert)
    obtain st s' where "finalize_routine env g epoch rid cert s = Some (st, s')"
      "s' = s \<or> (\<exists>c p digest. cert = Some c \<and> gs_phase s = Active \<and> gs_pending_reconfiguration s = Some p \<and> pr_phase p = LearnerReady \<and>
       pr_reconfiguration_id p = rid \<and> verify_routine_certificate env s c MembershipCommittedKind \<and>
       s' = s\<lparr>gs_pending_reconfiguration := None, gs_members := pr_next_members p,
                        gs_incarnations := pr_next_incarnations p, gs_membership_epoch := saturating_add (gs_membership_epoch s) 1,
                        gs_completed_reconfigurations := bt_insert rid
                          \<lparr>cmr_reconfiguration_id = rid, cmr_membership_epoch = saturating_add (gs_membership_epoch s) 1,
                           cmr_membership_sha256 = rts_next_membership_sha256 (rtc_statement c),
                           cmr_membership_position = rts_applied_position (rtc_statement c),
                           cmr_certificate_sha256 = digest\<rparr> (gs_completed_reconfigurations s)\<rparr>)"
      using finalize_routine_result by blast
    with False assms(8)[OF FinalizeRoutineReconfiguration] show ?thesis
      by (auto simp: generation_step_def FinalizeRoutineReconfiguration)
  qed (use False assms(2-7) in \<open>auto simp: generation_step_def split: prod.splits\<close>)
qed

section \<open>The invariant\<close>

text \<open>
  The fields agree with the phase: an active cell has one transaction system and no takeover, a cell
  in takeover has a recovery identity, a successor and no pending replacement, and fenced and
  recovered positions are in order. A pending replacement exists only in an active cell and exchanges
  one member.
\<close>

definition routine_ok :: "generation_state \<Rightarrow> pending_routine \<Rightarrow> bool" where
  "routine_ok s p \<longleftrightarrow> gs_phase s = Active \<and> pr_reconfiguration_id p \<noteq> 0 \<and>
     pr_expected_membership_epoch p = gs_membership_epoch s \<and>
     valid_routine_replacement (gs_members s) (gs_incarnations s) (pr_next_members p) (pr_next_incarnations p)
       (pr_replacement_node p) (pr_replacement_incarnation p) \<and>
     (pr_phase p = LearnerReady \<longrightarrow> pr_learner_snapshot_position p \<noteq> None \<and> pr_learner_applied_position p \<noteq> None)"

fun phase_ok :: "generation_phase \<Rightarrow> generation_state \<Rightarrow> bool" where
  "phase_ok Uninitialized s \<longleftrightarrow> s = generation_default"
| "phase_ok Active s \<longleftrightarrow> gs_recovery_id s = None \<and> gs_pending_transaction_system_id s = None \<and> gs_pending_members s = [] \<and>
     gs_last_completed_generation s = gs_generation s \<and>
     (gs_last_completed_recovery_id s \<noteq> None \<longrightarrow> 0 < gs_fenced_log_index s \<and> gs_fenced_log_index s < gs_recovered_log_index s)"
| "phase_ok Fencing s \<longleftrightarrow> gs_recovery_id s \<noteq> None \<and> gs_pending_transaction_system_id s \<notin> {None, Some []} \<and>
     valid_recovery_members (gs_pending_members s) \<and> gs_pending_reconfiguration s = None \<and>
     gs_generation s = saturating_add (gs_last_completed_generation s) 1 \<and> gs_fenced_log_index s = 0"
| "phase_ok Recovering s \<longleftrightarrow> gs_recovery_id s \<noteq> None \<and> gs_pending_transaction_system_id s \<notin> {None, Some []} \<and>
     valid_recovery_members (gs_pending_members s) \<and> gs_pending_reconfiguration s = None \<and>
     gs_generation s = saturating_add (gs_last_completed_generation s) 1 \<and> 0 < gs_fenced_log_index s"

definition generation_inv :: "generation_state \<Rightarrow> bool" where
  "generation_inv s \<longleftrightarrow> phase_ok (gs_phase s) s \<and>
     (gs_phase s \<noteq> Uninitialized \<longrightarrow> gs_generation s \<noteq> 0 \<and> gs_transaction_system_id s \<notin> {None, Some []} \<and>
        valid_recovery_members (gs_members s)) \<and>
     (\<forall>p. gs_pending_reconfiguration s = Some p \<longrightarrow> routine_ok s p)"

lemma generation_inv_default: "generation_inv generation_default"
  by (simp add: generation_inv_def generation_default_def)

lemma disjunct: "s' \<noteq> s \<Longrightarrow> s' = s \<or> Q \<Longrightarrow> Q"
  by blast

lemma disjunct2: "s' \<noteq> s \<Longrightarrow> s' = s \<and> R \<or> Q \<Longrightarrow> Q"
  by blast

lemma saturating_succ_nonzero: "saturating_add g 1 \<noteq> (0 :: u64)" 
  using unat_saturating_add[of g 1] by (auto simp: min_def split: if_splits)

lemma valid_membersD:
  "valid_members_with_optional_incarnations ms is \<Longrightarrow> valid_recovery_members ms"
  "valid_routine_replacement om oi nm ni n i \<Longrightarrow> valid_recovery_members nm"
  by (auto simp: valid_members_with_optional_incarnations_def valid_routine_replacement_def valid_routine_members_def split: if_splits)

lemma generation_inv_step:
  assumes inv: "generation_inv s"
  shows "generation_inv (generation_step env a s)"
proof (rule generation_step_cases[of env a s generation_inv], goal_cases Same Boot Prep Res Act PrepR Mark Fin)
  case Same
  then show ?case using inv by simp
next
  case (Boot cell g t members incs root ver st s')
  note r = bootstrap_result[OF Boot(2), THEN disjunct[OF Boot(3)]]
  then show ?case using valid_membersD(1)[of members incs] by (simp add: generation_inv_def)
next
  case (Prep expected "next" ver rid t members incs st s')
  note r = prepare_generation_result[OF Prep(2), THEN disjunct2[OF Prep(3)]]
  then show ?case using inv valid_membersD(1)[of members incs] saturating_succ_nonzero
    by (simp add: generation_inv_def)
next
  case (Res g rid t ver cert st s')
  from reserve_result[OF Res(2), THEN disjunct[OF Res(3)]] inv show ?case
    by (auto simp: generation_inv_def verify_recovery_iff word_gt_0)
next
  case (Act g rid t root ver "next" cert st s')
  from activate_result[OF Act(2), THEN disjunct[OF Act(3)]] inv show ?case
    by (auto simp: generation_inv_def verify_recovery_iff word_gt_0 install_generation_def)
next
  case (PrepR g epoch sha rid node inc members incs st s')
  from prepare_routine_result[OF PrepR(2), THEN disjunct[OF PrepR(3)]] inv show ?case
    by (simp add: generation_inv_def routine_ok_def)
next
  case (Mark g epoch rid cert st s')
  from mark_routine_result[OF Mark(2), THEN disjunct[OF Mark(3)]] inv show ?case
    by (auto simp: generation_inv_def routine_ok_def)
next
  case (Fin g epoch rid cert c p digest s')
  from Fin(2-4,6) inv show ?case using valid_membersD(2) by (auto simp: generation_inv_def routine_ok_def)
qed

interpretation generation: invariant_system "generation_step env" generation_inv for env
  by unfold_locales (rule generation_inv_step)

section \<open>Properties\<close>

text \<open>C33. In every run no action panics and the fields of the authority agree with its phase: an active
  cell has a transaction system with valid members and no takeover in progress, a takeover has a
  recovery identity, a named successor with valid members, the next generation and no pending
  replacement, a completed takeover recovered strictly behind its fence, and a pending replacement
  exchanges exactly one member of an active cell.\<close>

theorem generation_state_is_well_formed:
  "generation_inv (fold (generation_step env) as generation_default) \<and>
   generation_apply env no_generation_faults a (fold (generation_step env) as generation_default) \<noteq> None"
  using generation.run_ok[OF generation_inv_default] generation_apply_total by blast

text \<open>What a step can do to the generation, the phase and the transaction system.\<close>

lemma step_authority:
  "let s' = generation_step env a s in
     (gs_phase s' = gs_phase s \<and> gs_generation s' = gs_generation s \<and> gs_transaction_system_id s' = gs_transaction_system_id s) \<or>
     (gs_phase s = Uninitialized) \<or>
     (gs_phase s = Active \<and> gs_phase s' = Fencing \<and> gs_pending_reconfiguration s = None \<and>
        gs_generation s' = saturating_add (gs_generation s) 1 \<and> gs_transaction_system_id s' = gs_transaction_system_id s) \<or>
     (gs_phase s = Fencing \<and> gs_phase s' = Recovering \<and> gs_generation s' = gs_generation s \<and>
        gs_transaction_system_id s' = gs_transaction_system_id s \<and>
        (\<exists>g rid t ver c. a = Reserve g rid t ver (Some c) \<and> verify_recovery_certificate env s c Fence (gs_members s))) \<or>
     (gs_phase s = Recovering \<and> gs_phase s' = Active \<and> gs_generation s' = gs_generation s)"
  unfolding Let_def
proof (rule generation_step_cases[of env a s], goal_cases Same Boot Prep Res Act PrepR Mark Fin)
  case Same
  then show ?case by simp
next
  case (Boot cell g t members incs root ver st s')
  from bootstrap_result[OF Boot(2), THEN disjunct[OF Boot(3)]] show ?case by blast
next
  case (Prep expected "next" ver rid t members incs st s')
  from prepare_generation_result[OF Prep(2), THEN disjunct2[OF Prep(3)]] show ?case by simp
next
  case (Res g rid t ver cert st s')
  from reserve_result[OF Res(2), THEN disjunct[OF Res(3)]] Res(1) show ?case by auto
next
  case (Act g rid t root ver "next" cert st s')
  from activate_result[OF Act(2), THEN disjunct[OF Act(3)]] show ?case by (auto simp: install_generation_def)
next
  case (PrepR g epoch sha rid node inc members incs st s')
  from prepare_routine_result[OF PrepR(2), THEN disjunct[OF PrepR(3)]] show ?case by simp
next
  case (Mark g epoch rid cert st s')
  from mark_routine_result[OF Mark(2), THEN disjunct[OF Mark(3)]] show ?case by auto
next
  case (Fin g epoch rid cert c p digest s')
  then show ?case by simp
qed

text \<open>An authorised system keeps its generation until a later generation is reached.\<close>

lemma system_kept:
  assumes "authorizes s g t" and "g \<noteq> - 1"
  shows "gs_phase (fold (generation_step env) as s) \<noteq> Uninitialized \<and>
    (g < gs_generation (fold (generation_step env) as s) \<or> authorizes (fold (generation_step env) as s) g t)"
proof (induction as rule: rev_induct)
  case Nil
  then show ?case using assms(1) by (simp add: authorizes_def)
next
  case (snoc a as)
  let ?s = "fold (generation_step env) as s"
  have "g < saturating_add g 1" using assms(2) by (rule saturating_succ_gt)
  moreover have "g < gs_generation ?s \<Longrightarrow> g < saturating_add (gs_generation ?s) 1"
    by (rule order.strict_trans2[OF _ saturating_add_ge])
  ultimately show ?case
    using snoc step_authority[of env a ?s] by (auto simp: Let_def authorizes_def)
qed

text \<open>C9. A generation belongs to one transaction system for good: if the authority authorises
  system \<open>t\<close> in generation \<open>g\<close>, below the last representable one, then no later state authorises
  another system in \<open>g\<close>.\<close>

theorem generation_has_one_system:
  assumes "authorizes s g t" and "g \<noteq> - 1" and "authorizes (fold (generation_step env) as s) g t'"
  shows "t' = t"
  using system_kept[OF assms(1,2), of env as] assms(3) by (auto simp: authorizes_def)

text \<open>C14. Another system is authorised only after a quorum of the old one signed the fence: if \<open>t\<close> is
  authorised in generation \<open>g\<close> and a later state is active in another generation, then in between a
  fence certificate was accepted that names the successor generation and the system \<open>t\<close> and
  carries valid signatures of a quorum of distinct members of \<open>t\<close> at that point.\<close>

theorem takeover_needs_fence_quorum:
  assumes "authorizes s g t" and "gs_phase (fold (generation_step env) as s) = Active"
    and "gs_generation (fold (generation_step env) as s) \<noteq> g"
  shows "\<exists>pre g' rid t' ver c post bs. as = pre @ Reserve g' rid t' ver (Some c) # post \<and>
    rcs_kind (rce_statement c) = Fence \<and> rcs_generation (rce_statement c) = saturating_add g 1 \<and>
    rcs_active_transaction_system_id (rce_statement c) = t \<and> recovery_signing_bytes env (rce_statement c) = Some bs \<and>
    quorum_signed env (gs_members (fold (generation_step env) pre s)) bs (rce_attestations c)"
    (is "?fenced as")
proof -
  let ?run = "\<lambda>as. fold (generation_step env) as s"
  define F where "F as \<longleftrightarrow> ?fenced as" for as
  have grow: "F as \<Longrightarrow> F (as @ [a])" for as a unfolding F_def by fastforce
  have fence: "F (as @ [a])"
    if "gs_generation (?run as) = saturating_add g 1" "gs_transaction_system_id (?run as) = Some t"
      "a = Reserve g' rid t' ver (Some c)" "verify_recovery_certificate env (?run as) c Fence (gs_members (?run as))" for as a g' rid t' ver c
  proof -
    have "as @ [a] = as @ Reserve g' rid t' ver (Some c) # []" using that(3) by simp
    with that(1,2,4) show ?thesis unfolding F_def verify_recovery_iff by force
  qed
  have "authorizes (?run as) g t \<or>
    (gs_phase (?run as) = Fencing \<and> gs_generation (?run as) = saturating_add g 1 \<and> gs_transaction_system_id (?run as) = Some t) \<or> F as"
  proof (induction as rule: rev_induct)
    case Nil
    then show ?case using assms(1) by simp
  next
    case (snoc a as)
    then show ?case
      using step_authority[of env a "?run as"] grow[of as a] fence[of as a] by (auto simp: Let_def authorizes_def)
  qed
  with assms(2,3) show ?thesis by (auto simp: authorizes_def F_def)
qed


section \<open>Witnesses\<close>

definition demo_env :: "bool \<Rightarrow> generation_env" where
  "demo_env ok = \<lparr>ge_sha = (\<lambda>_. replicate 32 0), ge_verify = (\<lambda>_ _ _. ok), ge_json_recovery = (\<lambda>_. Some []),
     ge_json_routine = (\<lambda>_. Some [])\<rparr>"

abbreviation demo_members :: "(u64, bytes) btree" where
  "demo_members \<equiv> [(1, replicate 32 1), (2, replicate 32 2), (3, replicate 32 3)]"

abbreviation demo_incarnations :: "(u64, bytes) btree" where
  "demo_incarnations \<equiv> [(1, replicate 16 1), (2, replicate 16 2), (3, replicate 16 3)]"

definition demo_active :: generation_state where
  "demo_active = generation_step (demo_env True) (Bootstrap 1 5 ''a'' demo_members demo_incarnations ''w'' 1) generation_default"

abbreviation demo_statement :: "recovery_certificate_kind \<Rightarrow> u64 \<Rightarrow> recovery_certificate_statement" where
  "demo_statement kind index \<equiv> \<lparr>rcs_protocol_version = 1, rcs_kind = kind, rcs_cell_id = 1, rcs_generation = 6, rcs_recovery_id = 9,
     rcs_active_transaction_system_id = ''a'', rcs_pending_transaction_system_id = ''b'',
     rcs_log_position = \<lparr>lp_term = 1, lp_index = index\<rparr>, rcs_membership_sha256 = replicate 32 0\<rparr>"

abbreviation demo_certificate :: "recovery_certificate_kind \<Rightarrow> u64 \<Rightarrow> recovery_certificate" where
  "demo_certificate kind index \<equiv> \<lparr>rce_statement = demo_statement kind index,
     rce_attestations = [\<lparr>ra_signer_id = 1, ra_signature = []\<rparr>, \<lparr>ra_signer_id = 2, ra_signature = []\<rparr>]\<rparr>"

abbreviation demo_takeover :: "generation_action list" where
  "demo_takeover \<equiv> [Prepare 5 6 1 9 ''b'' demo_members demo_incarnations, Reserve 6 9 ''b'' 1 (Some (demo_certificate Fence 10)),
     Activate 6 9 ''b'' ''w'' 1 2 (Some (demo_certificate Recovered 11))]"

lemmas generation_eval = generation_step_def generation_default_def bootstrap_def prepare_generation_def reserve_generation_def
  activate_generation_def install_generation_def no_generation_faults_def valid_members_with_optional_incarnations_def
  valid_recovery_members_def valid_routine_members_def bt_values_def demo_env_def Let_def saturating_add_def
  verify_recovery_certificate_def recovery_membership_digest_def recovery_signing_bytes_def quorum_size_def
  RECOVERY_CERTIFICATE_VERSION_def bt_get_def authorizes_def

lemma demo_active_authorizes: "authorizes demo_active 5 ''a''"
  by (simp add: demo_active_def generation_eval)

lemma demo_taken_over: "authorizes (fold (generation_step (demo_env True)) demo_takeover demo_active) 6 ''b''"
  by (simp add: demo_active_def generation_eval word_less_nat_alt word_le_nat_alt)

theorem generation_has_one_system_witness:
  "\<exists>t'. authorizes (fold (generation_step (demo_env True)) [Activate 5 9 ''c'' ''w'' 1 2 None] demo_active) 5 t' \<and> t' = ''a''"
proof -
  have "authorizes (fold (generation_step (demo_env True)) [Activate 5 9 ''c'' ''w'' 1 2 None] demo_active) 5 ''a''"
    by (simp add: demo_active_def generation_eval)
  with generation_has_one_system[OF demo_active_authorizes] show ?thesis by fastforce
qed

theorem takeover_needs_fence_quorum_witness:
  "\<exists>pre g' rid t' ver c post bs. demo_takeover = pre @ Reserve g' rid t' ver (Some c) # post \<and>
     quorum_signed (demo_env True) (gs_members (fold (generation_step (demo_env True)) pre demo_active)) bs (rce_attestations c)"
  using takeover_needs_fence_quorum[OF demo_active_authorizes, of "demo_env True" demo_takeover] demo_taken_over
  unfolding authorizes_def by fastforce

abbreviation demo_next :: "(u64, bytes) btree" where
  "demo_next \<equiv> [(2, replicate 32 2), (3, replicate 32 3), (4, replicate 32 4)]"

abbreviation demo_next_incarnations :: "(u64, bytes) btree" where
  "demo_next_incarnations \<equiv> [(2, replicate 16 2), (3, replicate 16 3), (4, replicate 16 4)]"

definition demo_pending :: generation_state where
  "demo_pending = generation_step (demo_env False)
     (PrepareRoutineReconfiguration 5 0 (replicate 32 0) 7 4 (replicate 16 4) demo_next demo_next_incarnations) demo_active"

lemma demo_pending_state:
  "gs_phase demo_pending = Active" "gs_members demo_pending = demo_members"
  "\<exists>p. gs_pending_reconfiguration demo_pending = Some p \<and> pr_phase p = Prepared"
  by (simp_all add: demo_pending_def demo_active_def generation_eval prepare_routine_def routine_membership_digest_def
      valid_routine_replacement_def bt_contains_def)

end
