(* ===== verification/Cell_Types.thy ===== *)
theory Cell_Types
  imports Commit_Envelope Generation
begin

text \<open>
  The data of the cell transaction authority (\<open>okv-consensus/src/cell_transaction.rs\<close>): key ranges and
  mutations with their derived order, transaction commands, resolver evidence, the signed statements
  of the tagged logs, and the replicated state of a domain. JSON serialisation, SHA-256 and Ed25519
  are the fields of the parameter \<open>cell_env\<close>; what is serialised is a value of \<open>cell_json\<close>.
\<close>

section \<open>Ranges and mutations\<close>

text \<open>\<open>RequestIdentity\<close>: client and request, ordered as the source derives it.\<close>

type_synonym request_identity = "u64 \<times> u64"

record cell_read_version =
  crv_generation :: u64
  crv_sequence :: u64

datatype cell_key_range = CellKeyRange (kr_start: bytes) (kr_end: bytes)

instantiation cell_key_range :: linorder
begin

definition less_eq_cell_key_range :: "cell_key_range \<Rightarrow> cell_key_range \<Rightarrow> bool" where
  "less_eq_cell_key_range a b \<longleftrightarrow> (kr_start a, kr_end a) \<le> (kr_start b, kr_end b)"

definition less_cell_key_range :: "cell_key_range \<Rightarrow> cell_key_range \<Rightarrow> bool" where
  "less_cell_key_range a b \<longleftrightarrow> (kr_start a, kr_end a) < (kr_start b, kr_end b)"

instance
  by standard (auto simp: less_eq_cell_key_range_def less_cell_key_range_def cell_key_range.expand split: if_splits)

end

definition range_point :: "bytes \<Rightarrow> cell_key_range" where
  "range_point key = CellKeyRange key (key @ [0])"

definition range_valid :: "cell_key_range \<Rightarrow> bool" where
  "range_valid r \<longleftrightarrow> kr_start r < kr_end r"

definition cell_range_contains :: "cell_key_range \<Rightarrow> bytes \<Rightarrow> bool" where
  "cell_range_contains r key \<longleftrightarrow> kr_start r \<le> key \<and> key < kr_end r"

definition range_overlaps :: "cell_key_range \<Rightarrow> cell_key_range \<Rightarrow> bool" where
  "range_overlaps r other \<longleftrightarrow> kr_start r < kr_end other \<and> kr_start other < kr_end r"

datatype cell_mutation = CellClear bytes | CellSet bytes bytes

fun cell_mutation_key :: "cell_mutation \<Rightarrow> bytes" where
  "cell_mutation_key (CellClear key) = key"
| "cell_mutation_key (CellSet key value) = key"

text \<open>The derived order: variants first, then their fields.\<close>

fun cell_mutation_rank :: "cell_mutation \<Rightarrow> nat \<times> bytes \<times> bytes" where
  "cell_mutation_rank (CellClear key) = (0, key, [])"
| "cell_mutation_rank (CellSet key value) = (1, key, value)"

lemma cell_mutation_rank_inj: "cell_mutation_rank a = cell_mutation_rank b \<Longrightarrow> a = b"
  by (cases a; cases b) auto

instantiation cell_mutation :: linorder
begin

definition less_eq_cell_mutation :: "cell_mutation \<Rightarrow> cell_mutation \<Rightarrow> bool" where
  "less_eq_cell_mutation a b \<longleftrightarrow> cell_mutation_rank a \<le> cell_mutation_rank b"

definition less_cell_mutation :: "cell_mutation \<Rightarrow> cell_mutation \<Rightarrow> bool" where
  "less_cell_mutation a b \<longleftrightarrow> cell_mutation_rank a < cell_mutation_rank b"

instance
  by standard (auto simp: less_eq_cell_mutation_def less_cell_mutation_def intro: cell_mutation_rank_inj)

end

section \<open>Commands and resolver evidence\<close>

datatype cell_resolver_decision = Accept | Conflict

record cell_resolver_partition =
  rp_resolver_id :: u16
  rp_start :: bytes
  rp_end :: bytes

record cell_resolver_decision_statement =
  ds_format_version :: u16
  ds_cell_id :: bytes
  ds_tenant_id :: bytes
  ds_generation :: u64
  ds_map_epoch :: u64
  ds_map_sha256 :: bytes
  ds_resolver_id :: u16
  ds_resolver_incarnation :: bytes
  ds_transaction_identity :: request_identity
  ds_candidate_sequence :: u64
  ds_read_version :: cell_read_version
  ds_resolver_read_sequence :: u64
  ds_transaction_sha256 :: bytes
  ds_read_conflicts :: "cell_key_range list"
  ds_write_conflicts :: "cell_key_range list"
  ds_decision :: cell_resolver_decision

record cell_resolver_decision_attestation =
  da_statement :: cell_resolver_decision_statement
  da_signature :: bytes

record cell_partitioned_resolution =
  pn_transaction_system_generation :: u64
  pn_resolver_read_sequence :: u64
  pn_map_epoch :: u64
  pn_candidate_sequence :: u64
  pn_attestations :: "cell_resolver_decision_attestation list"

record cell_transaction_command =
  ct_identity :: request_identity
  ct_credential :: "generation_credential option"
  ct_cell_id :: bytes
  ct_tenant_id :: bytes
  ct_generation :: u64
  ct_read_version :: cell_read_version
  ct_read_conflicts :: "cell_key_range list"
  ct_write_conflicts :: "cell_key_range list"
  ct_mutations :: "cell_mutation list"
  ct_partitioned_resolution :: "cell_partitioned_resolution option"
  ct_accepted_resolvers :: "u16 list"
  ct_durable_log_tags :: "u16 list"

datatype cell_transaction_status =
    Committed | TxConflict | FutureReadVersion | InvalidReadVersion | TxInvalidRequest | MissingLogTag | MissingResolver

record cell_transaction_response =
  cr_status :: cell_transaction_status
  cr_response_generation :: u64
  cr_commit_sequence :: "u64 option"
  cr_envelope :: "bytes option"
  cr_row_count :: u64

section \<open>Tagged logs\<close>

record cell_tagged_log_receipt =
  tr_format_version :: u16
  tr_log_set_id :: u16
  tr_generation :: u64
  tr_envelope_sha256 :: bytes
  tr_durable_position :: u64
  tr_quorum_node_ids :: "u64 list"

record cell_log_set_member =
  lm_node_id :: u64
  lm_public_key :: bytes

record cell_log_set_policy =
  lsp_format_version :: u16
  lsp_generation :: u64
  lsp_policy_epoch :: u64
  lsp_log_set_id :: u16
  lsp_quorum_size :: u16
  lsp_ratekeeper_soft_limit_bytes :: u64
  lsp_members :: "cell_log_set_member list"

record cell_tagged_log_statement =
  ts_format_version :: u16
  ts_cell_id :: bytes
  ts_tenant_id :: bytes
  ts_generation :: u64
  ts_transaction_identity :: request_identity
  ts_commit_sequence :: u64
  ts_log_set_id :: u16
  ts_policy_epoch :: u64
  ts_envelope_sha256 :: bytes
  ts_durable_position :: u64

record cell_tagged_log_attestation =
  ta_signer_id :: u64
  ta_signature :: bytes

record cell_tagged_log_certificate =
  tc_statement :: cell_tagged_log_statement
  tc_attestations :: "cell_tagged_log_attestation list"

record cell_log_set_policy_transition =
  pt_format_version :: u16
  pt_cell_id :: bytes
  pt_tenant_id :: bytes
  pt_generation :: u64
  pt_transition_id :: u64
  pt_log_set_id :: u16
  pt_old_policy :: cell_log_set_policy
  pt_next_policy :: cell_log_set_policy
  pt_failed_node_id :: u64
  pt_learner_node_id :: u64
  pt_learner_incarnation :: bytes
  pt_learner_public_key :: bytes
  pt_repair_readiness_sha256 :: bytes
  pt_retained_root_sha256 :: bytes
  pt_retained_last_position :: u64

record completed_policy_transition =
  cpt_transition :: cell_log_set_policy_transition
  cpt_successor_stage_sha256 :: bytes
  cpt_authority_commit_index :: u64

section \<open>The replicated state\<close>

record committed_write =
  cw_sequence :: u64
  cw_range :: cell_key_range

record staged_transaction =
  sg_identity :: request_identity
  sg_transaction :: cell_transaction_command
  sg_commit_sequence :: u64
  sg_envelope :: bytes
  sg_receipts :: "(u16, cell_tagged_log_receipt) btree"
  sg_certificates :: "(u16, cell_tagged_log_certificate) btree"
  sg_visible :: bool
  sg_aborted :: bool

record capacity_reservation =
  cx_transaction :: cell_transaction_command
  cx_reservation_epoch :: u64
  cx_sample_epochs :: "(u16, (u64, u64) btree) btree"

record cell_domain_state =
  cd_cell_id :: bytes
  cd_tenant_id :: bytes
  cd_generation :: u64
  cd_latest_sequence :: u64
  cd_last_resolver_candidate :: u64
  cd_last_resolver_generation :: u64
  cd_rows :: "(bytes, bytes) btree"
  cd_committed_writes :: "committed_write list"
  cd_committed_envelopes :: "bytes list"
  cd_previous_log_chain :: bytes
  cd_log_set_policies :: "(u16, cell_log_set_policy) btree"
  cd_pending_transition :: "cell_log_set_policy_transition option"
  cd_completed_transitions :: "(u64, completed_policy_transition) btree"
  cd_staged :: "staged_transaction list"
  cd_capacity_reservations :: "(string, capacity_reservation) btree"
  cd_capacity_attempt_epochs :: "(string, u64) btree"
  cd_capacity_retry_tokens :: "(string, bytes) btree"
  cd_capacity_sample_epochs :: "(u16, (u64, u64) btree) btree"

text \<open>\<open>CellDomainState { cell_id, tenant_id, generation, ..default() }\<close>\<close>

definition domain_new :: "bytes \<Rightarrow> bytes \<Rightarrow> u64 \<Rightarrow> cell_domain_state" where
  "domain_new cell_id tenant_id g =
     \<lparr>cd_cell_id = cell_id, cd_tenant_id = tenant_id, cd_generation = g, cd_latest_sequence = 0,
      cd_last_resolver_candidate = 0, cd_last_resolver_generation = 0, cd_rows = [], cd_committed_writes = [],
      cd_committed_envelopes = [], cd_previous_log_chain = replicate 32 0, cd_log_set_policies = [],
      cd_pending_transition = None, cd_completed_transitions = [], cd_staged = [], cd_capacity_reservations = [],
      cd_capacity_attempt_epochs = [], cd_capacity_retry_tokens = [], cd_capacity_sample_epochs = []\<rparr>"

text \<open>\<open>CellTransactionState\<close> is its vector of domains.\<close>

type_synonym cell_transaction_state = "cell_domain_state list"

record generation_fence_faults =
  bypass_commit_fence :: bool
  bypass_apply_fence :: bool
  accept_apply_during_recovery :: bool
  accept_recovering_commits :: bool
  allow_preauthorized_test_write :: bool
  accept_incomplete_staged_head :: bool
  ignore_staged_head_takeover_expectation :: bool
  allow_successor_to_skip_staged_head :: bool
  accept_invalid_staged_abort_proof :: bool
  reuse_aborted_sequence_or_chain :: bool
  publish_beyond_staged_absence :: bool
  abort_quorum_present_staged_record :: bool
  skip_recoverable_staged_prefix :: bool
  retain_aborted_staged_suffix :: bool
  accept_over_limit_staged_window :: bool
  accept_missing_staged_inventory :: bool
  ratekeeper_accept_best_node_capacity :: bool
  ratekeeper_accept_stale_sample :: bool
  ratekeeper_allow_stage_without_reservation :: bool
  policy_transition_accept_missing_readiness :: bool
  policy_transition_accept_unresolved_stage :: bool
  policy_transition_accept_invalid_next_policy :: bool
  policy_transition_accept_mixed_stage_quorum :: bool
  policy_transition_double_apply :: bool

definition no_fence_faults :: generation_fence_faults where
  "no_fence_faults = \<lparr>bypass_commit_fence = False, bypass_apply_fence = False, accept_apply_during_recovery = False,
     accept_recovering_commits = False, allow_preauthorized_test_write = False, accept_incomplete_staged_head = False,
     ignore_staged_head_takeover_expectation = False, allow_successor_to_skip_staged_head = False,
     accept_invalid_staged_abort_proof = False, reuse_aborted_sequence_or_chain = False, publish_beyond_staged_absence = False,
     abort_quorum_present_staged_record = False, skip_recoverable_staged_prefix = False, retain_aborted_staged_suffix = False,
     accept_over_limit_staged_window = False, accept_missing_staged_inventory = False,
     ratekeeper_accept_best_node_capacity = False, ratekeeper_accept_stale_sample = False,
     ratekeeper_allow_stage_without_reservation = False, policy_transition_accept_missing_readiness = False,
     policy_transition_accept_unresolved_stage = False, policy_transition_accept_invalid_next_policy = False,
     policy_transition_accept_mixed_stage_quorum = False, policy_transition_double_apply = False\<rparr>"

section \<open>Certificates of the tagged logs\<close>

record cell_tagged_log_fence_statement =
  tfs_format_version :: u16
  tfs_cell_id :: bytes
  tfs_tenant_id :: bytes
  tfs_generation :: u64
  tfs_recovery_id :: u64
  tfs_transaction_identity :: request_identity
  tfs_commit_sequence :: u64
  tfs_log_set_id :: u16
  tfs_policy_epoch :: u64
  tfs_envelope_sha256 :: bytes

record cell_tagged_log_fence_attestation =
  tfa_signer_id :: u64
  tfa_record_present :: bool
  tfa_signature :: bytes

record cell_tagged_log_fence_certificate =
  tfc_statement :: cell_tagged_log_fence_statement
  tfc_attestations :: "cell_tagged_log_fence_attestation list"

record cell_staged_window_record =
  swr_transaction_identity :: request_identity
  swr_commit_sequence :: u64
  swr_envelope_sha256 :: bytes

record cell_staged_window =
  sw_format_version :: u16
  sw_first_sequence :: u64
  sw_last_sequence :: u64
  sw_encoded_bytes :: u64
  sw_records :: "cell_staged_window_record list"
  sw_window_sha256 :: bytes

record cell_tagged_log_prefix_fence_statement =
  pfs_format_version :: u16
  pfs_cell_id :: bytes
  pfs_tenant_id :: bytes
  pfs_generation :: u64
  pfs_recovery_id :: u64
  pfs_log_set_id :: u16
  pfs_policy_epoch :: u64
  pfs_window :: cell_staged_window

record cell_tagged_log_prefix_observation =
  pob_transaction_identity :: request_identity
  pob_commit_sequence :: u64
  pob_envelope_sha256 :: bytes
  pob_record_present :: bool

record cell_tagged_log_prefix_fence_attestation =
  pfa_signer_id :: u64
  pfa_observations :: "cell_tagged_log_prefix_observation list"
  pfa_signature :: bytes

record cell_tagged_log_prefix_fence_certificate =
  pfc_statement :: cell_tagged_log_prefix_fence_statement
  pfc_attestations :: "cell_tagged_log_prefix_fence_attestation list"

record cell_tagged_log_capacity_statement =
  cps_format_version :: u16
  cps_cell_id :: bytes
  cps_tenant_id :: bytes
  cps_generation :: u64
  cps_transaction_identity :: request_identity
  cps_transaction_sha256 :: bytes
  cps_log_set_id :: u16
  cps_policy_epoch :: u64
  cps_projected_frame_bytes :: u64
  cps_soft_limit_bytes :: u64
  cps_reservation_epoch :: u64

record cell_tagged_log_capacity_attestation =
  cpa_signer_id :: u64
  cpa_last_position :: u64
  cpa_popped_through :: u64
  cpa_retained_bytes :: u64
  cpa_hard_limit_bytes :: u64
  cpa_sample_epoch :: u64
  cpa_signature :: bytes

record cell_tagged_log_capacity_certificate =
  cpc_statement :: cell_tagged_log_capacity_statement
  cpc_attestations :: "cell_tagged_log_capacity_attestation list"

record cell_tagged_log_pop_statement =
  pps_format_version :: u16
  pps_cell_id :: bytes
  pps_tenant_id :: bytes
  pps_generation :: u64
  pps_log_set_id :: u16
  pps_policy_epoch :: u64
  pps_publication_root_sha256 :: bytes
  pps_object_frontier :: u64
  pps_pop_epoch :: u64

record cell_tagged_log_pop_attestation =
  ppa_signer_id :: u64
  ppa_last_position :: u64
  ppa_popped_through :: u64
  ppa_retained_bytes :: u64
  ppa_sample_epoch :: u64
  ppa_signature :: bytes

record cell_tagged_log_pop_certificate =
  ppc_statement :: cell_tagged_log_pop_statement
  ppc_attestations :: "cell_tagged_log_pop_attestation list"

datatype cell_tagged_log_repair_phase = BaseSnapshot | RepairLearnerReady

record cell_tagged_log_repair_statement =
  rps_format_version :: u16
  rps_phase :: cell_tagged_log_repair_phase
  rps_cell_id :: bytes
  rps_tenant_id :: bytes
  rps_generation :: u64
  rps_log_set_id :: u16
  rps_policy_epoch :: u64
  rps_repair_id :: u64
  rps_failed_node_id :: u64
  rps_learner_node_id :: u64
  rps_learner_incarnation :: bytes
  rps_learner_public_key :: bytes
  rps_last_position :: u64
  rps_popped_through :: u64
  rps_snapshot_length :: u64
  rps_snapshot_sha256 :: bytes

record cell_tagged_log_repair_attestation =
  rpa_signer_id :: u64
  rpa_source_sample_epoch :: u64
  rpa_signature :: bytes

record cell_tagged_log_repair_certificate =
  rpc_statement :: cell_tagged_log_repair_statement
  rpc_attestations :: "cell_tagged_log_repair_attestation list"

record cell_tagged_log_policy_stage_statement =
  pss_format_version :: u16
  pss_cell_id :: bytes
  pss_tenant_id :: bytes
  pss_generation :: u64
  pss_transition_id :: u64
  pss_log_set_id :: u16
  pss_old_policy_epoch :: u64
  pss_next_policy_epoch :: u64
  pss_transition_sha256 :: bytes
  pss_retained_root_sha256 :: bytes
  pss_retained_last_position :: u64

record cell_tagged_log_policy_stage_attestation =
  psa_signer_id :: u64
  psa_source_sample_epoch :: u64
  psa_signature :: bytes

record cell_tagged_log_policy_stage_certificate =
  psc_statement :: cell_tagged_log_policy_stage_statement
  psc_attestations :: "cell_tagged_log_policy_stage_attestation list"

record cell_policy_activation_statement =
  acs_format_version :: u16
  acs_cell_id :: bytes
  acs_tenant_id :: bytes
  acs_generation :: u64
  acs_transition_id :: u64
  acs_log_set_id :: u16
  acs_next_policy_epoch :: u64
  acs_next_policy_sha256 :: bytes
  acs_successor_stage_sha256 :: bytes
  acs_authority_commit_index :: u64

record cell_policy_activation_attestation =
  aca_signer_id :: u64
  aca_signature :: bytes

record cell_policy_activation_certificate =
  acc_statement :: cell_policy_activation_statement
  acc_attestations :: "cell_policy_activation_attestation list"

section \<open>Staged commands\<close>

datatype cell_staged_transaction_action =
    InstallLogSetPolicies "cell_log_set_policy list"
  | PrepareLogSetPolicyTransition cell_log_set_policy_transition cell_tagged_log_repair_certificate
  | CommitLogSetPolicyTransition u64 cell_tagged_log_policy_stage_certificate
  | ReserveCapacity cell_transaction_command "cell_tagged_log_capacity_certificate list"
  | Stage cell_transaction_command
  | RecordLogReceipt cell_tagged_log_receipt
  | RecordLogCertificate cell_tagged_log_certificate
  | PublishStaged
  | TakeoverPublish (previous_generation: u64) (recovery_id: u64) (expected_commit_sequence: u64) (expected_envelope_sha256: bytes)
  | TakeoverAbort (previous_generation: u64) (recovery_id: u64) (expected_commit_sequence: u64) (expected_envelope_sha256: bytes)
      "cell_tagged_log_fence_certificate list"
  | TakeoverRecoverPrefix (previous_generation: u64) (recovery_id: u64) cell_staged_window "cell_tagged_log_prefix_fence_certificate list"

record cell_staged_transaction_command =
  sc_identity :: request_identity
  sc_credential :: "generation_credential option"
  sc_cell_id :: bytes
  sc_tenant_id :: bytes
  sc_generation :: u64
  sc_transaction_identity :: request_identity
  sc_action :: cell_staged_transaction_action

datatype cell_staged_transaction_status =
    LogSetPoliciesInstalled | PolicyTransitionPrepared | PolicyTransitionCommitted | AlreadyPolicyTransitionCommitted
  | InvalidPolicyTransition | CapacityReserved | RateLimited | InvalidCapacityCertificate | RatekeepingRequired
  | Staged | LogReceiptRecorded | LogCertificateRecorded | StagedCommitted | AlreadyCommitted | StagedConflict | StagedInvalidRequest
  | InvalidLogReceipt | ConflictingLogReceipt | InvalidLogCertificate | ConflictingLogCertificate | InvalidLogSetPolicy
  | MissingLogReceipt | InvalidGenerationTakeover | Aborted | AlreadyAborted | PrefixRecovered | AlreadyPrefixRecovered
  | InvalidStagedPrefix

record cell_staged_transaction_response =
  sr_status :: cell_staged_transaction_status
  sr_transaction_identity :: request_identity
  sr_generation :: u64
  sr_commit_sequence :: "u64 option"
  sr_envelope :: "bytes option"
  sr_durable_log_sets :: "u16 list"
  sr_visible :: bool
  sr_aborted :: bool
  sr_row_count :: u64
  sr_recovered_records :: u64
  sr_aborted_records :: u64
  sr_capacity_retry_token :: "bytes option"
  sr_capacity_reservation_epoch :: "u64 option"

section \<open>Parameters\<close>

text \<open>The values the code serialises; a constructor with several arguments is the tuple of them.\<close>

datatype cell_json =
    JRanges "cell_key_range list"
  | JMutations "cell_mutation list"
  | JCommand cell_transaction_command
  | JPartitions "cell_resolver_partition list"
  | JResolverStatement cell_resolver_decision_statement
  | JLogStatement cell_tagged_log_statement
  | JFenceStatement cell_tagged_log_fence_statement
  | JWindow u16 u64 u64 u64 "cell_staged_window_record list"
  | JPrefixFence cell_tagged_log_prefix_fence_statement "cell_tagged_log_prefix_observation list"
  | JCapacity cell_tagged_log_capacity_statement u64 u64 u64 u64 u64 u64
  | JPop cell_tagged_log_pop_statement u64 u64 u64 u64 u64
  | JRepair cell_tagged_log_repair_statement u64 u64
  | JPolicyStage cell_tagged_log_policy_stage_statement u64 u64
  | JActivation cell_policy_activation_statement
  | JPolicy cell_log_set_policy
  | JTransition cell_log_set_policy_transition
  | JRepairCertificate cell_tagged_log_repair_certificate
  | JPolicyStageCertificate cell_tagged_log_policy_stage_certificate
  | JStagedCommand cell_staged_transaction_command

text \<open>
  \<open>cv_json\<close> is \<open>serde_json::to_vec\<close>, \<open>cv_public_key\<close> the public key of an Ed25519 seed, \<open>cv_sign\<close> the
  signature under a seed and \<open>cv_verify\<close> the verification under a public key.
\<close>

record cell_env =
  cv_sha :: "bytes \<Rightarrow> bytes"
  cv_json :: "cell_json \<Rightarrow> bytes option"
  cv_public_key :: "bytes \<Rightarrow> bytes option"
  cv_sign :: "bytes \<Rightarrow> bytes \<Rightarrow> bytes"
  cv_verify :: "bytes \<Rightarrow> bytes \<Rightarrow> bytes \<Rightarrow> bool"
end
