(* ===== verification/Cell_Transaction.thy ===== *)
theory Cell_Transaction
  imports Cell_Types
begin

text \<open>
  The direct transaction path of a cell (\<open>okv-consensus/src/cell_transaction.rs\<close>): canonical commands,
  the resolver map and the verification of resolver evidence, admission and commit of a transaction,
  the committed-envelope feed and the snapshots. A panic is the value None.
\<close>

section \<open>Canonical commands\<close>

definition sort_dedup :: "'a::linorder list \<Rightarrow> 'a list" where
  "sort_dedup xs = remdups_adj (sort xs)"

definition canonicalize_transaction :: "cell_transaction_command \<Rightarrow> cell_transaction_command" where
  "canonicalize_transaction c =
     c\<lparr>ct_read_conflicts := sort_dedup (ct_read_conflicts c), ct_write_conflicts := sort_dedup (ct_write_conflicts c),
       ct_mutations := sort_dedup (ct_mutations c),
       ct_partitioned_resolution := map_option (\<lambda>r. r\<lparr>pn_attestations :=
         sort_key (\<lambda>a. ds_resolver_id (da_statement a)) (pn_attestations r)\<rparr>) (ct_partitioned_resolution c),
       ct_accepted_resolvers := sort_dedup (ct_accepted_resolvers c),
       ct_durable_log_tags := sort_dedup (ct_durable_log_tags c)\<rparr>"

definition TRANSACTION_COMMAND_MAGIC :: bytes where "TRANSACTION_COMMAND_MAGIC = ascii ''OKVT1''"

definition command_encode :: "cell_env \<Rightarrow> cell_transaction_command \<Rightarrow> bytes option" where
  "command_encode env c = map_option (\<lambda>j. TRANSACTION_COMMAND_MAGIC @ j) (cv_json env (JCommand (canonicalize_transaction c)))"

definition cell_contains_all :: "u16 list \<Rightarrow> u16 list \<Rightarrow> bool" where
  "cell_contains_all actual required \<longleftrightarrow> list_all (\<lambda>item. item \<in> set actual) required"

definition valid_request :: "cell_transaction_command \<Rightarrow> bool" where
  "valid_request c \<longleftrightarrow>
     (if ct_mutations c = [] \<or> list_ex (\<lambda>range. \<not> range_valid range) (ct_read_conflicts c @ ct_write_conflicts c) then False
      else card (cell_mutation_key ` set (ct_mutations c)) = length (ct_mutations c) \<and>
        list_all (\<lambda>m. list_ex (\<lambda>range. cell_range_contains range (cell_mutation_key m)) (ct_write_conflicts c)) (ct_mutations c))"

section \<open>Resolvers\<close>

definition cell_resolver_partitions :: "cell_resolver_partition list" where
  "cell_resolver_partitions =
     [\<lparr>rp_resolver_id = 1, rp_start = [0x00], rp_end = [0x50]\<rparr>,
      \<lparr>rp_resolver_id = 2, rp_start = [0x50], rp_end = [0xa0]\<rparr>,
      \<lparr>rp_resolver_id = 3, rp_start = [0xa0], rp_end = [0xf0]\<rparr>]"

definition cell_resolver_map_sha256 :: "cell_env \<Rightarrow> bytes option" where
  "cell_resolver_map_sha256 env = map_option (cv_sha env) (cv_json env (JPartitions cell_resolver_partitions))"

definition cell_resolver_private_key_seed :: "cell_env \<Rightarrow> u16 \<Rightarrow> bytes \<Rightarrow> bytes" where
  "cell_resolver_private_key_seed env resolver_id incarnation =
     cv_sha env (ascii ''okv-eval-resolver-key-v1'' @ u16_be resolver_id @ incarnation)"

definition cell_resolver_incarnation :: "u16 \<Rightarrow> bytes" where
  "cell_resolver_incarnation resolver_id = u16_be resolver_id @ ascii ''okv-resolver-v''"

definition cell_resolver_public_key :: "cell_env \<Rightarrow> u16 \<Rightarrow> bytes \<Rightarrow> bytes option" where
  "cell_resolver_public_key env resolver_id incarnation =
     cv_public_key env (cell_resolver_private_key_seed env resolver_id incarnation)"

definition RESOLVER_DECISION_MAGIC :: bytes where
  "RESOLVER_DECISION_MAGIC = ascii ''OKV-RESOLVER-DECISION-V1'' @ [0]"

definition decision_signing_bytes :: "cell_env \<Rightarrow> cell_resolver_decision_statement \<Rightarrow> bytes option" where
  "decision_signing_bytes env st = map_option (\<lambda>j. RESOLVER_DECISION_MAGIC @ j) (cv_json env (JResolverStatement st))"

definition sign_cell_resolver_decision ::
  "cell_env \<Rightarrow> cell_resolver_decision_statement \<Rightarrow> cell_resolver_decision_attestation option" where
  "sign_cell_resolver_decision env st =
     (let seed = cell_resolver_private_key_seed env (ds_resolver_id st) (ds_resolver_incarnation st) in
      case cv_public_key env seed of
        None \<Rightarrow> None
      | Some _ \<Rightarrow> map_option (\<lambda>bs. \<lparr>da_statement = st, da_signature = cv_sign env seed bs\<rparr>) (decision_signing_bytes env st))"

definition cell_partitioned_transaction_sha256 :: "cell_env \<Rightarrow> cell_transaction_command \<Rightarrow> bytes option" where
  "cell_partitioned_transaction_sha256 env c =
     map_option (cv_sha env)
       (cv_json env (JCommand (canonicalize_transaction (c\<lparr>ct_partitioned_resolution := None, ct_accepted_resolvers := []\<rparr>))))"

definition clipped_conflicts :: "cell_key_range list \<Rightarrow> cell_resolver_partition \<Rightarrow> cell_key_range list" where
  "clipped_conflicts conflicts part =
     (let owned = CellKeyRange (rp_start part) (rp_end part) in
      sort_dedup (map (\<lambda>range. CellKeyRange (max (kr_start range) (kr_start owned)) (min (kr_end range) (kr_end owned)))
        (filter (\<lambda>range. range_overlaps range owned) conflicts)))"

text \<open>\<open>required\<close>: the clipped conflicts of every partition that the transaction touches.\<close>

definition required_conflicts ::
  "cell_transaction_command \<Rightarrow> (u16, cell_key_range list \<times> cell_key_range list) btree" where
  "required_conflicts c =
     fold (\<lambda>part required.
       let read_conflicts = clipped_conflicts (ct_read_conflicts c) part;
           write_conflicts = clipped_conflicts (ct_write_conflicts c) part in
       if read_conflicts \<noteq> [] \<or> write_conflicts \<noteq> []
       then bt_insert (rp_resolver_id part) (read_conflicts, write_conflicts) required else required)
       cell_resolver_partitions []"

definition resolution_generation :: "cell_transaction_command \<Rightarrow> cell_partitioned_resolution \<Rightarrow> u64" where
  "resolution_generation c r =
     (if pn_transaction_system_generation r = 0 then ct_generation c else pn_transaction_system_generation r)"

definition resolution_read_sequence :: "cell_transaction_command \<Rightarrow> cell_partitioned_resolution \<Rightarrow> u64" where
  "resolution_read_sequence c r =
     (if pn_resolver_read_sequence r = 0 then crv_sequence (ct_read_version c) else pn_resolver_read_sequence r)"

text \<open>One turn of the loop over the attestations: the exact statement is expected, and signed.\<close>

definition decision_matches ::
  "cell_env \<Rightarrow> cell_transaction_command \<Rightarrow> cell_partitioned_resolution \<Rightarrow> bytes \<Rightarrow> bytes \<Rightarrow>
     cell_key_range list \<times> cell_key_range list \<Rightarrow> cell_resolver_decision_attestation \<Rightarrow> bool" where
  "decision_matches env c r transaction_sha256 map_sha256 conflicts a \<longleftrightarrow>
     (let st = da_statement a in
      ds_format_version st = 1 \<and> ds_cell_id st = ct_cell_id c \<and> ds_tenant_id st = ct_tenant_id c
      \<and> ds_generation st = resolution_generation c r \<and> ds_map_epoch st = pn_map_epoch r \<and> ds_map_sha256 st = map_sha256
      \<and> ds_resolver_incarnation st = cell_resolver_incarnation (ds_resolver_id st)
      \<and> ds_transaction_identity st = ct_identity c \<and> ds_candidate_sequence st = pn_candidate_sequence r
      \<and> ds_read_version st = ct_read_version c \<and> ds_resolver_read_sequence st = resolution_read_sequence c r
      \<and> ds_transaction_sha256 st = transaction_sha256
      \<and> ds_read_conflicts st = fst conflicts \<and> ds_write_conflicts st = snd conflicts)"

definition decision_signed :: "cell_env \<Rightarrow> cell_resolver_decision_attestation \<Rightarrow> bool option" where
  "decision_signed env a =
     (let st = da_statement a in
      case decision_signing_bytes env st of
        None \<Rightarrow> Some False
      | Some bs \<Rightarrow> map_option (\<lambda>pk. cv_verify env pk bs (da_signature a))
          (cell_resolver_public_key env (ds_resolver_id st) (ds_resolver_incarnation st)))"

text \<open>The outer option is the panic of the derived public key, \<open>Err ()\<close> the refusal.\<close>

fun check_decisions ::
  "cell_env \<Rightarrow> cell_transaction_command \<Rightarrow> cell_partitioned_resolution \<Rightarrow> bytes \<Rightarrow> bytes \<Rightarrow>
     (u16, cell_key_range list \<times> cell_key_range list) btree \<Rightarrow> cell_resolver_decision_attestation list \<Rightarrow>
     u16 set \<Rightarrow> cell_resolver_decision \<Rightarrow> (u16 set \<times> cell_resolver_decision, unit) result option" where
  "check_decisions env c r tx_sha map_sha required [] seen combined = Some (Ok (seen, combined))"
| "check_decisions env c r tx_sha map_sha required (a # as) seen combined =
     (case bt_get required (ds_resolver_id (da_statement a)) of
        None \<Rightarrow> Some (Err ())
      | Some conflicts \<Rightarrow>
          if ds_resolver_id (da_statement a) \<in> seen \<or> \<not> decision_matches env c r tx_sha map_sha conflicts a then Some (Err ())
          else case decision_signed env a of
            None \<Rightarrow> None
          | Some False \<Rightarrow> Some (Err ())
          | Some True \<Rightarrow>
              check_decisions env c r tx_sha map_sha required as (insert (ds_resolver_id (da_statement a)) seen)
                (if ds_decision (da_statement a) = Conflict then Conflict else combined))"

definition verify_partitioned_resolution ::
  "cell_env \<Rightarrow> cell_transaction_command \<Rightarrow> cell_partitioned_resolution \<Rightarrow> (cell_resolver_decision, unit) result option" where
  "verify_partitioned_resolution env c r =
     (if pn_map_epoch r \<noteq> 1 \<or> pn_candidate_sequence r = 0 then Some (Err ())
      else case cell_partitioned_transaction_sha256 env c of
        None \<Rightarrow> Some (Err ())
      | Some tx_sha \<Rightarrow>
         (case cell_resolver_map_sha256 env of
            None \<Rightarrow> None
          | Some map_sha \<Rightarrow>
              let required = required_conflicts c in
              if required = [] \<or> length (pn_attestations r) \<noteq> length required then Some (Err ())
              else case check_decisions env c r tx_sha map_sha required (pn_attestations r) {} Accept of
                None \<Rightarrow> None
              | Some (Err e) \<Rightarrow> Some (Err e)
              | Some (Ok (seen, combined)) \<Rightarrow> Some (if card seen \<noteq> length required then Err () else Ok combined)))"

text \<open>The order of candidates, and the evidence a transaction needs. An error is the status it is rejected with.\<close>

definition candidate_order_valid :: "cell_transaction_command \<Rightarrow> cell_partitioned_resolution \<Rightarrow> cell_domain_state \<Rightarrow> bool" where
  "candidate_order_valid c r d \<longleftrightarrow>
     (if resolution_generation c r = cd_last_resolver_generation d
      then pn_candidate_sequence r = saturating_add (cd_last_resolver_candidate d) 1
      else resolution_generation c r > cd_last_resolver_generation d \<and> pn_candidate_sequence r > cd_last_resolver_candidate d)"

section \<open>Commit\<close>

fun apply_cell_mutation :: "cell_mutation \<Rightarrow> (bytes, bytes) btree \<Rightarrow> (bytes, bytes) btree" where
  "apply_cell_mutation (CellClear key) rows = bt_remove key rows"
| "apply_cell_mutation (CellSet key value) rows = bt_insert key value rows"

text \<open>\<open>CommitEnvelope::from_parts(..).encode()\<close> for a transaction.\<close>

definition cell_envelope_parts ::
  "cell_transaction_command \<Rightarrow> u64 \<Rightarrow> u64 \<Rightarrow> u16 list \<Rightarrow> bytes \<Rightarrow> bytes \<Rightarrow> bytes \<Rightarrow> bytes \<Rightarrow> commit_envelope_parts" where
  "cell_envelope_parts c commit_sequence log_index log_tags previous_log_chain read_conflicts write_conflicts mutations =
     \<lparr>cp_cell_id = ct_cell_id c, cp_tenant_id = ct_tenant_id c, cp_generation = ct_generation c,
      cp_version = from_parts (ct_generation c) commit_sequence, cp_log_index = log_index,
      cp_client_id = replicate 8 0 @ u64_be (fst (ct_identity c)), cp_request_id = snd (ct_identity c),
      cp_resolver_set_id = RESOLVER_SET_ID, cp_read_conflicts = read_conflicts, cp_write_conflicts = write_conflicts,
      cp_canonical_mutations = mutations,
      cp_required_resolvers = (case ct_partitioned_resolution c of
          None \<Rightarrow> REQUIRED_RESOLVERS
        | Some r \<Rightarrow> map (\<lambda>a. ds_resolver_id (da_statement a)) (pn_attestations r)),
      cp_required_log_tags = log_tags, cp_previous_log_chain = previous_log_chain\<rparr>"

definition cell_envelope ::
  "cell_env \<Rightarrow> cell_transaction_command \<Rightarrow> u64 \<Rightarrow> u64 \<Rightarrow> u16 list \<Rightarrow> bytes \<Rightarrow> bytes option" where
  "cell_envelope env c commit_sequence log_index log_tags previous_log_chain =
     (case (cv_json env (JRanges (ct_read_conflicts c)), cv_json env (JRanges (ct_write_conflicts c)),
            cv_json env (JMutations (ct_mutations c))) of
        (Some read_conflicts, Some write_conflicts, Some mutations) \<Rightarrow>
          Option.bind (envelope_from_parts (cv_sha env)
            (cell_envelope_parts c commit_sequence log_index log_tags previous_log_chain read_conflicts write_conflicts mutations))
            envelope_encode
      | _ \<Rightarrow> None)"

definition reject :: "cell_transaction_command \<Rightarrow> cell_transaction_status \<Rightarrow> cell_domain_state \<Rightarrow> cell_transaction_response" where
  "reject c status d = \<lparr>cr_status = status, cr_response_generation = ct_generation c, cr_commit_sequence = None,
     cr_envelope = None, cr_row_count = word_of_nat (length (cd_rows d))\<rparr>"

definition unresolved_staged :: "cell_domain_state \<Rightarrow> bool" where
  "unresolved_staged d \<longleftrightarrow> list_ex (\<lambda>staged. \<not> sg_visible staged \<and> \<not> sg_aborted staged) (cd_staged d)"

definition read_conflict :: "cell_transaction_command \<Rightarrow> cell_domain_state \<Rightarrow> bool" where
  "read_conflict c d \<longleftrightarrow>
     list_ex (\<lambda>read. list_ex (\<lambda>w. cw_sequence w > crv_sequence (ct_read_version c) \<and> range_overlaps read (cw_range w))
       (cd_committed_writes d)) (ct_read_conflicts c)"

definition commit_domain ::
  "cell_env \<Rightarrow> cell_transaction_command \<Rightarrow> u64 \<Rightarrow> cell_domain_state \<Rightarrow> (cell_transaction_response \<times> cell_domain_state) option" where
  "commit_domain env c log_index d =
     (case cell_envelope env c log_index log_index REQUIRED_LOG_TAGS (cd_previous_log_chain d) of
        None \<Rightarrow> None
      | Some encoded_envelope \<Rightarrow>
          let d = d\<lparr>cd_rows := fold apply_cell_mutation (ct_mutations c) (cd_rows d)\<rparr>;
              d = d\<lparr>cd_committed_writes := cd_committed_writes d @
                    map (\<lambda>range. \<lparr>cw_sequence = log_index, cw_range = range\<rparr>) (ct_write_conflicts c),
                  cd_generation := ct_generation c, cd_latest_sequence := log_index,
                  cd_previous_log_chain := cv_sha env encoded_envelope,
                  cd_committed_envelopes := cd_committed_envelopes d @ [encoded_envelope]\<rparr> in
          Some (\<lparr>cr_status = Committed, cr_response_generation = ct_generation c, cr_commit_sequence = Some log_index,
             cr_envelope = Some encoded_envelope, cr_row_count = word_of_nat (length (cd_rows d))\<rparr>, d))"

text \<open>The checks before the evidence: the status a command is rejected with, if any.\<close>

definition admission :: "cell_transaction_command \<Rightarrow> cell_domain_state \<Rightarrow> cell_transaction_status option" where
  "admission c d =
     (if ct_generation c = 0 \<or> cd_generation d \<noteq> ct_generation c
        \<or> (crv_sequence (ct_read_version c) \<noteq> 0 \<and> crv_generation (ct_read_version c) \<noteq> ct_generation c)
      then Some InvalidReadVersion
      else if crv_sequence (ct_read_version c) > cd_latest_sequence d then Some FutureReadVersion
      else if \<not> cell_contains_all (ct_durable_log_tags c) REQUIRED_LOG_TAGS then Some MissingLogTag
      else if \<not> valid_request c then Some TxInvalidRequest
      else None)"

definition skip_staged_head :: "cell_transaction_command \<Rightarrow> generation_fence_faults \<Rightarrow> cell_domain_state \<Rightarrow> cell_domain_state" where
  "skip_staged_head c faults d =
     (if allow_successor_to_skip_staged_head faults \<and> ct_generation c = saturating_add (cd_generation d) 1 \<and> unresolved_staged d
      then d\<lparr>cd_generation := ct_generation c\<rparr> else d)"

definition apply_domain ::
  "cell_env \<Rightarrow> cell_transaction_command \<Rightarrow> u64 \<Rightarrow> generation_fence_faults \<Rightarrow> cell_domain_state \<Rightarrow>
     (cell_transaction_response \<times> cell_domain_state) option" where
  "apply_domain env c log_index faults d0 =
     (let d = skip_staged_head c faults d0 in
      case admission c d of
        Some status \<Rightarrow> Some (reject c status d, d)
      | None \<Rightarrow>
         (case ct_partitioned_resolution c of
            Some r \<Rightarrow>
              if \<not> candidate_order_valid c r d then Some (reject c TxInvalidRequest d, d)
              else (case verify_partitioned_resolution env c r of
                None \<Rightarrow> None
              | Some (Err _) \<Rightarrow> Some (reject c MissingResolver d, d)
              | Some (Ok decision) \<Rightarrow>
                  let d = d\<lparr>cd_last_resolver_candidate := pn_candidate_sequence r,
                            cd_last_resolver_generation := resolution_generation c r\<rparr> in
                  if decision = Conflict then Some (reject c TxConflict d, d) else commit_domain env c log_index d)
          | None \<Rightarrow>
              if \<not> cell_contains_all (ct_accepted_resolvers c) REQUIRED_RESOLVERS then Some (reject c MissingResolver d, d)
              else if read_conflict c d then Some (reject c TxConflict d, d)
              else commit_domain env c log_index d))"

text \<open>\<open>position(..).unwrap_or_else(push)\<close>: the index of the domain, created when it is new.\<close>

definition locate_domain :: "bytes \<Rightarrow> bytes \<Rightarrow> u64 \<Rightarrow> cell_transaction_state \<Rightarrow> nat \<times> cell_transaction_state" where
  "locate_domain cell_id tenant_id g st =
     (let i = length (takeWhile (\<lambda>d. \<not> (cd_cell_id d = cell_id \<and> cd_tenant_id d = tenant_id)) st) in
      if i < length st then (i, st) else (length st, st @ [domain_new cell_id tenant_id g]))"

text \<open>\<open>let domain = &mut self.domains[domain_index]\<close>: an operation on the domain of a command.\<close>

definition at_domain ::
  "bytes \<Rightarrow> bytes \<Rightarrow> u64 \<Rightarrow> (cell_domain_state \<Rightarrow> ('r \<times> cell_domain_state) option) \<Rightarrow> cell_transaction_state \<Rightarrow>
     ('r \<times> cell_transaction_state) option" where
  "at_domain cell_id tenant_id g f st =
     (let (i, st') = locate_domain cell_id tenant_id g st in
      map_option (\<lambda>(response, d). (response, st'[i := d])) (f (st' ! i)))"

definition cell_apply ::
  "cell_env \<Rightarrow> cell_transaction_command \<Rightarrow> u64 \<Rightarrow> generation_fence_faults \<Rightarrow> cell_transaction_state \<Rightarrow>
     (cell_transaction_response \<times> cell_transaction_state) option" where
  "cell_apply env c log_index faults st =
     at_domain (ct_cell_id c) (ct_tenant_id c) (ct_generation c) (apply_domain env c log_index faults) st"

section \<open>Feed and snapshots\<close>

record cell_state_snapshot =
  cs_cell_id :: bytes
  cs_tenant_id :: bytes
  cs_generation :: u64
  cs_latest_sequence :: u64
  cs_rows :: "(bytes \<times> bytes) list"
  cs_committed_envelopes :: "bytes list"
  cs_log_set_policies :: "cell_log_set_policy list"
  cs_pending_transition :: "cell_log_set_policy_transition option"
  cs_completed_transitions :: "completed_policy_transition list"

definition snapshots :: "cell_transaction_state \<Rightarrow> cell_state_snapshot list" where
  "snapshots st = map (\<lambda>d. \<lparr>cs_cell_id = cd_cell_id d, cs_tenant_id = cd_tenant_id d, cs_generation = cd_generation d,
     cs_latest_sequence = cd_latest_sequence d, cs_rows = cd_rows d, cs_committed_envelopes = cd_committed_envelopes d,
     cs_log_set_policies = bt_values (cd_log_set_policies d), cs_pending_transition = cd_pending_transition d,
     cs_completed_transitions = bt_values (cd_completed_transitions d)\<rparr>) st"

record cell_feed_request =
  fr_cell_id :: bytes
  fr_tenant_id :: bytes
  fr_generation :: u64
  fr_after_version :: u64
  fr_through_version :: u64

record cell_feed =
  fd_authority_position :: recovery_log_position
  fd_cell_id :: bytes
  fd_tenant_id :: bytes
  fd_generation :: u64
  fd_after_version :: u64
  fd_through_version :: u64
  fd_latest_commit_version :: u64
  fd_envelopes :: "bytes list"

datatype feed_error =
    InvalidVersionBound | UnknownDomain | StaleFeedGeneration | TargetExceedsLatest u64 u64
  | UndecodableEnvelope commit_codec_error | EmptySuffix | SuffixEndsAt u64 u64

fun feed_envelopes :: "(bytes \<Rightarrow> bytes) \<Rightarrow> u64 \<Rightarrow> u64 \<Rightarrow> bytes list \<Rightarrow> (bytes list, feed_error) result" where
  "feed_envelopes sha after through [] = Ok []"
| "feed_envelopes sha after through (encoded # rest) =
     (case envelope_decode sha encoded of
        Err e \<Rightarrow> Err (UndecodableEnvelope e)
      | Ok envelope \<Rightarrow>
          let ver = sequence (ce_version envelope) in
          try_bind (feed_envelopes sha after through rest)
            (\<lambda>es. Ok (if after < ver \<and> ver \<le> through then encoded # es else es)))"

definition committed_envelope_feed ::
  "(bytes \<Rightarrow> bytes) \<Rightarrow> cell_feed_request \<Rightarrow> recovery_log_position \<Rightarrow> cell_transaction_state \<Rightarrow> (cell_feed, feed_error) result" where
  "committed_envelope_feed sha q position st =
     (if fr_generation q = 0 \<or> fr_after_version q \<ge> fr_through_version q \<or> fr_through_version q > lp_index position
      then Err InvalidVersionBound
      else case find (\<lambda>d. cd_cell_id d = fr_cell_id q \<and> cd_tenant_id d = fr_tenant_id q) st of
        None \<Rightarrow> Err UnknownDomain
      | Some d \<Rightarrow>
          if cd_generation d \<noteq> fr_generation q then Err StaleFeedGeneration
          else if fr_through_version q > cd_latest_sequence d
          then Err (TargetExceedsLatest (fr_through_version q) (cd_latest_sequence d))
          else
            try_bind (feed_envelopes sha (fr_after_version q) (fr_through_version q) (cd_committed_envelopes d)) (\<lambda>envelopes.
            try_bind (if envelopes = [] then Err EmptySuffix
                      else case envelope_decode sha (last envelopes) of
                        Err e \<Rightarrow> Err (UndecodableEnvelope e) | Ok envelope \<Rightarrow> Ok (sequence (ce_version envelope))) (\<lambda>last_version.
            if last_version \<noteq> fr_through_version q then Err (SuffixEndsAt last_version (fr_through_version q))
            else Ok \<lparr>fd_authority_position = position, fd_cell_id = fr_cell_id q, fd_tenant_id = fr_tenant_id q,
              fd_generation = fr_generation q, fd_after_version = fr_after_version q, fd_through_version = fr_through_version q,
              fd_latest_commit_version = cd_latest_sequence d, fd_envelopes = envelopes\<rparr>)))"
end
