(* ===== verification/Cell_Safety.thy ===== *)
theory Cell_Safety
  imports Cell_Transaction
begin

text \<open>
  Properties of the direct transaction path: committed transactions are serializable in commit
  order, the rows are what the committed transactions wrote, and a domain keeps the generation of
  the first command that named it.
\<close>

section \<open>Ranges\<close>

lemma overlaps_common: "cell_range_contains r key \<Longrightarrow> cell_range_contains r' key \<Longrightarrow> range_overlaps r r'"
  by (auto simp: cell_range_contains_def range_overlaps_def intro: order.strict_trans1)

lemma overlaps_iff_common:
  "range_valid r \<Longrightarrow> range_valid r' \<Longrightarrow> range_overlaps r r' \<longleftrightarrow> (\<exists>key. cell_range_contains r key \<and> cell_range_contains r' key)"
  by (auto simp: range_valid_def cell_range_contains_def range_overlaps_def intro!: exI[of _ "max (kr_start r) (kr_start r')"]
      intro: order.strict_trans1)

lemma point_contains: "cell_range_contains (range_point key) k \<longleftrightarrow> k = key"
proof -
  have "key \<le> k \<and> k < key @ [0] \<Longrightarrow> k = key" for k :: bytes
  proof (induction key arbitrary: k)
    case Nil
    then show ?case by (cases k) auto
  next
    case (Cons a key)
    then show ?case by (cases k) auto
  qed
  moreover have "key < key @ [0 :: u8]" by (induction key) auto
  ultimately show ?thesis by (auto simp: cell_range_contains_def range_point_def)
qed

section \<open>Domains\<close>

abbreviation domain_of :: "cell_transaction_state \<Rightarrow> bytes \<times> bytes \<Rightarrow> cell_domain_state option" where
  "domain_of st k \<equiv> find (\<lambda>d. cd_cell_id d = fst k \<and> cd_tenant_id d = snd k) st"

abbreviation command_domain :: "cell_transaction_command \<Rightarrow> bytes \<times> bytes" where
  "command_domain c \<equiv> (ct_cell_id c, ct_tenant_id c)"

definition domain_at :: "cell_transaction_state \<Rightarrow> bytes \<times> bytes \<Rightarrow> u64 \<Rightarrow> cell_domain_state" where
  "domain_at st k g = (case domain_of st k of None \<Rightarrow> domain_new (fst k) (snd k) g | Some d \<Rightarrow> d)"

abbreviation domain_or_new :: "cell_transaction_command \<Rightarrow> cell_transaction_state \<Rightarrow> cell_domain_state" where
  "domain_or_new c st \<equiv> domain_at st (command_domain c) (ct_generation c)"

lemma find_takeWhile:
  "find P xs = (let i = length (takeWhile (\<lambda>x. \<not> P x) xs) in if i < length xs then Some (xs ! i) else None)"
  by (induction xs) (auto simp: Let_def)

lemma find_update:
  "i = length (takeWhile (\<lambda>x. \<not> P x) xs) \<Longrightarrow> i < length xs \<Longrightarrow> P x \<Longrightarrow> find P (xs[i := x]) = Some x"
  by (induction xs arbitrary: i) auto

lemma find_update_other:
  "i < length xs \<Longrightarrow> \<not> P (xs ! i) \<Longrightarrow> \<not> P x \<Longrightarrow> find P (xs[i := x]) = find P xs"
  by (induction xs arbitrary: i) (auto simp: nth_Cons split: nat.splits)

lemma commit_domain_result:
  "commit_domain env c i d = Some (resp, d') \<Longrightarrow> \<exists>e. cell_envelope env c i i REQUIRED_LOG_TAGS (cd_previous_log_chain d) = Some e \<and>
     cr_status resp = Committed \<and> cr_commit_sequence resp = Some i \<and> cr_envelope resp = Some e \<and>
     d' = d\<lparr>cd_rows := fold apply_cell_mutation (ct_mutations c) (cd_rows d),
       cd_committed_writes := cd_committed_writes d @ map (\<lambda>range. \<lparr>cw_sequence = i, cw_range = range\<rparr>) (ct_write_conflicts c),
       cd_generation := ct_generation c, cd_latest_sequence := i, cd_previous_log_chain := cv_sha env e,
       cd_committed_envelopes := cd_committed_envelopes d @ [e]\<rparr>"
  by (auto simp: commit_domain_def Let_def split: option.splits)

abbreviation resolver_progress :: "u64 \<Rightarrow> u64 \<Rightarrow> cell_domain_state \<Rightarrow> cell_domain_state" where
  "resolver_progress a b d \<equiv> d\<lparr>cd_last_resolver_candidate := a, cd_last_resolver_generation := b\<rparr>"

lemma no_progress: "\<exists>a b. d = resolver_progress a b d"
  by (intro exI[of _ "cd_last_resolver_candidate d"] exI[of _ "cd_last_resolver_generation d"]) simp

lemma decision_Accept: "decision \<noteq> Conflict \<longleftrightarrow> decision = Accept"
  by (cases decision) simp_all

text \<open>What a command does to its domain: it commits, or at most the resolver candidate advances.\<close>

lemma apply_domain_result:
  assumes "apply_domain env c i no_fence_faults d = Some (resp, d')"
  shows "(cr_status resp \<noteq> Committed \<and> (\<exists>a b. d' = resolver_progress a b d)) \<or>
    (ct_generation c \<noteq> 0 \<and> cd_generation d = ct_generation c \<and> crv_sequence (ct_read_version c) \<le> cd_latest_sequence d \<and>
      valid_request c \<and> (ct_partitioned_resolution c = None \<longrightarrow> \<not> read_conflict c d) \<and>
      (\<forall>r. ct_partitioned_resolution c = Some r \<longrightarrow> verify_partitioned_resolution env c r = Some (Ok Accept)) \<and>
      (\<exists>a b. commit_domain env c i (resolver_progress a b d) = Some (resp, d')))" (is ?result)
proof -
  define R where "R = ?result"
  have refused: R if "Some (reject c status d1, d1) = Some (resp, d')" "status \<noteq> Committed" "\<exists>a b. d1 = resolver_progress a b d" for status d1
    using that unfolding R_def by (auto simp: reject_def)
  have commits: R if "admission c d = None" "ct_partitioned_resolution c = None \<longrightarrow> \<not> read_conflict c d"
    "\<forall>r. ct_partitioned_resolution c = Some r \<longrightarrow> verify_partitioned_resolution env c r = Some (Ok Accept)"
    "commit_domain env c i d1 = Some (resp, d')" "\<exists>a b. d1 = resolver_progress a b d" for d1
    using that unfolding admission_def R_def by (auto split: if_split_asm)
  have skip: "skip_staged_head c no_fence_faults d = d" by (simp add: skip_staged_head_def no_fence_faults_def)
  have R
  proof (cases "admission c d")
    case (Some status)
    then have "status \<noteq> Committed" by (auto simp: admission_def split: if_split_asm)
    with Some show ?thesis
      using assms refused[OF _ _ no_progress] by (simp add: apply_domain_def skip del: prod.inject)
  next
    case None
    show ?thesis
    proof (cases "ct_partitioned_resolution c")
      case direct: None
      with None assms commits[OF _ _ _ _ no_progress] refused[OF _ _ no_progress] show ?thesis
        by (simp add: apply_domain_def skip del: prod.inject split: if_split_asm)
    next
      case (Some r)
      have "\<exists>a b. resolver_progress x y d = resolver_progress a b d" for x y by blast
      note progress = commits[OF _ _ _ _ this] refused[OF _ _ this]
      from None Some assms progress refused[OF _ _ no_progress] show ?thesis
        by (simp add: apply_domain_def skip Let_def decision_Accept del: prod.inject split: if_split_asm option.split_asm result.split_asm)
    qed
  qed
  then show ?result unfolding R_def .
qed

lemma apply_domain_identity:
  "apply_domain env c i no_fence_faults d = Some (resp, d') \<Longrightarrow> cd_cell_id d' = cd_cell_id d \<and> cd_tenant_id d' = cd_tenant_id d"
  by (drule apply_domain_result) (auto dest!: commit_domain_result)

text \<open>An operation on a domain that keeps its identity changes that domain and no other.\<close>

lemma at_domain_result:
  assumes "at_domain cell_id tenant_id g f st = Some (resp, st')"
    and keeps: "\<And>d r d'. f d = Some (r, d') \<Longrightarrow> cd_cell_id d' = cd_cell_id d \<and> cd_tenant_id d' = cd_tenant_id d"
  shows "\<exists>d'. f (domain_at st (cell_id, tenant_id) g) = Some (resp, d') \<and> domain_of st' (cell_id, tenant_id) = Some d'"
    and "k \<noteq> (cell_id, tenant_id) \<Longrightarrow> domain_of st' k = domain_of st k"
proof -
  let ?P = "\<lambda>d. cd_cell_id d = cell_id \<and> cd_tenant_id d = tenant_id"
  define n where "n = length (takeWhile (\<lambda>d. \<not> ?P d) st)"
  define st1 where "st1 = (if n < length st then st else st @ [domain_new cell_id tenant_id g])"
  have le: "n \<le> length st" unfolding n_def by (rule length_takeWhile_le)
  have all: "takeWhile (\<lambda>d. \<not> ?P d) st = st" if "\<not> n < length st"
    using that unfolding n_def by (metis (no_types, lifting) not_less take_all takeWhile_eq_take)
  have n: "n = length (takeWhile (\<lambda>d. \<not> ?P d) st1)"
  proof (cases "n < length st")
    case False
    have new: "takeWhile (\<lambda>d. \<not> ?P d) [domain_new cell_id tenant_id g] = []"
      by (simp add: domain_new_def)
    have "takeWhile (\<lambda>d. \<not> ?P d) (st @ xs) = st @ takeWhile (\<lambda>d. \<not> ?P d) xs" for xs
      using all[OF False] by (metis (no_types, lifting) takeWhile_append2 takeWhile_eq_all_conv)
    then show ?thesis using False le new by (simp add: st1_def)
  qed (simp add: st1_def n_def)
  have lt: "n < length st1" using le by (simp add: st1_def)
  have nth: "st1 ! n = domain_at st (cell_id, tenant_id) g"
    using le unfolding domain_at_def find_takeWhile fst_conv snd_conv n_def[symmetric] st1_def by (simp add: Let_def)
  have loc: "locate_domain cell_id tenant_id g st = (n, st1)"
    using le unfolding locate_domain_def n_def[symmetric] st1_def by (simp add: Let_def)
  obtain d' where d': "f (st1 ! n) = Some (resp, d')" "st' = st1[n := d']"
    using assms(1) by (auto simp: at_domain_def loc)
  have P: "?P (st1 ! n)"
    using nth_length_takeWhile[of "\<lambda>d. \<not> ?P d" st1] n lt by simp
  then have P': "?P d'" using keeps[OF d'(1)] by simp
  show "\<exists>d'. f (domain_at st (cell_id, tenant_id) g) = Some (resp, d') \<and> domain_of st' (cell_id, tenant_id) = Some d'"
    using d'(1) find_update[OF n lt P'] unfolding d'(2) nth by simp
  show "domain_of st' k = domain_of st k" if "k \<noteq> (cell_id, tenant_id)"
  proof -
    have other: "\<not> (cd_cell_id d = fst k \<and> cd_tenant_id d = snd k)" if "?P d" for d
      using \<open>k \<noteq> (cell_id, tenant_id)\<close> that by (auto simp: prod_eq_iff)
    have "domain_of st' k = domain_of st1 k"
      unfolding d'(2) using lt other[OF P] other[OF P'] by (rule find_update_other)
    also have "\<dots> = domain_of st k"
      using that by (auto simp: st1_def find_append domain_new_def prod_eq_iff split: option.split)
    finally show ?thesis .
  qed
qed

text \<open>A command changes its own domain, as \<open>apply_domain\<close> does, and no other.\<close>

lemma cell_apply_domain:
  assumes "cell_apply env c i no_fence_faults st = Some (resp, st')"
  shows "\<exists>d'. apply_domain env c i no_fence_faults (domain_or_new c st) = Some (resp, d') \<and> domain_of st' (command_domain c) = Some d'"
    and "k \<noteq> command_domain c \<Longrightarrow> domain_of st' k = domain_of st k"
  by (rule at_domain_result[OF assms[unfolded cell_apply_def]]; (erule apply_domain_identity | assumption))+

section \<open>Runs\<close>

text \<open>A log is a list of commands with their log indices; a run collects the responses.\<close>

fun cell_run ::
  "cell_env \<Rightarrow> (cell_transaction_command \<times> u64) list \<Rightarrow> cell_transaction_state \<Rightarrow>
     (cell_transaction_response list \<times> cell_transaction_state) option" where
  "cell_run env [] st = Some ([], st)"
| "cell_run env ((c, i) # cs) st =
     (case cell_apply env c i no_fence_faults st of
        None \<Rightarrow> None
      | Some (r, st') \<Rightarrow> map_option (\<lambda>(rs, st''). (r # rs, st'')) (cell_run env cs st'))"

lemma cell_run_append:
  "cell_run env (as @ bs) st = (case cell_run env as st of None \<Rightarrow> None
     | Some (rs, st') \<Rightarrow> map_option (\<lambda>(rs', st''). (rs @ rs', st'')) (cell_run env bs st'))"
  by (induction env as st rule: cell_run.induct)
     (auto simp: option.map_id option.map_comp comp_def case_prod_beta split: option.split)

lemma cell_run_snoc:
  "cell_run env (cs @ [(c, i)]) st = Some (rs', st') \<longleftrightarrow>
     (\<exists>rs st1 r. cell_run env cs st = Some (rs, st1) \<and> cell_apply env c i no_fence_faults st1 = Some (r, st') \<and> rs' = rs @ [r])"
  by (auto simp: cell_run_append split: option.splits)

lemma cell_run_length: "cell_run env cs st = Some (rs, st') \<Longrightarrow> length rs = length cs"
  by (induction env cs st arbitrary: rs rule: cell_run.induct) (auto split: option.splits)

lemma run_split:
  assumes "cell_run env cs st0 = Some (rs, st)" "n < length cs" "cs ! n = (c, i)"
  obtains st1 st2 where "cell_run env (take n cs) st0 = Some (take n rs, st1)" "cell_apply env c i no_fence_faults st1 = Some (rs ! n, st2)"
    and "cell_run env (drop (Suc n) cs) st2 = Some (drop (Suc n) rs, st)"
proof -
  have "cs = take n cs @ (c, i) # drop (Suc n) cs" using assms(2,3) by (metis id_take_nth_drop)
  then obtain rs1 st1 r st2 rs2 where run: "cell_run env (take n cs) st0 = Some (rs1, st1)" "cell_apply env c i no_fence_faults st1 = Some (r, st2)"
    "cell_run env (drop (Suc n) cs) st2 = Some (rs2, st)" "rs = rs1 @ r # rs2"
    using assms(1) cell_run_append[of env "take n cs" "(c, i) # drop (Suc n) cs" st0] by (fastforce split: option.splits simp: map_option_case)
  moreover have "length rs1 = n" using cell_run_length[OF run(1)] assms(2) by simp
  ultimately show thesis using that by (auto simp: nth_append)
qed

text \<open>The specification: the mutations of the committed transactions of a domain, in log order.\<close>

type_synonym cell_history = "((cell_transaction_command \<times> u64) \<times> cell_transaction_response) list"

definition commits_in :: "bytes \<times> bytes \<Rightarrow> cell_history \<Rightarrow> (cell_transaction_command \<times> u64) list" where
  "commits_in k h = map fst (filter (\<lambda>((c, _), r). cr_status r = Committed \<and> command_domain c = k) h)"

definition serial_rows :: "bytes \<times> bytes \<Rightarrow> cell_history \<Rightarrow> (bytes, bytes) btree" where
  "serial_rows k h = fold (\<lambda>(c, _). fold apply_cell_mutation (ct_mutations c)) (commits_in k h) []"

lemma commits_in_append [simp]: "commits_in k (h @ h') = commits_in k h @ commits_in k h'"
  by (simp add: commits_in_def)

definition domain_rows :: "cell_transaction_state \<Rightarrow> bytes \<times> bytes \<Rightarrow> (bytes, bytes) btree" where
  "domain_rows st k = (case domain_of st k of None \<Rightarrow> [] | Some d \<Rightarrow> cd_rows d)"

definition domain_writes :: "cell_transaction_state \<Rightarrow> bytes \<times> bytes \<Rightarrow> committed_write list" where
  "domain_writes st k = (case domain_of st k of None \<Rightarrow> [] | Some d \<Rightarrow> cd_committed_writes d)"

text \<open>One step of a run, seen from the rows and the committed writes of a domain.\<close>

lemma cell_apply_effect:
  assumes "cell_apply env c i no_fence_faults st = Some (r, st')"
  shows "domain_rows st' k = (if cr_status r = Committed \<and> command_domain c = k
       then fold apply_cell_mutation (ct_mutations c) (domain_rows st k) else domain_rows st k)"
    and "domain_writes st' k = (if cr_status r = Committed \<and> command_domain c = k
       then domain_writes st k @ map (\<lambda>range. \<lparr>cw_sequence = i, cw_range = range\<rparr>) (ct_write_conflicts c) else domain_writes st k)"
    and "cr_status r = Committed \<Longrightarrow> valid_request c"
    and "cr_status r = Committed \<Longrightarrow> ct_partitioned_resolution c = None \<Longrightarrow>
      \<not> (\<exists>read \<in> set (ct_read_conflicts c). \<exists>w \<in> set (domain_writes st (command_domain c)).
          cw_sequence w > crv_sequence (ct_read_version c) \<and> range_overlaps read (cw_range w))"
proof -
  obtain d' where d': "apply_domain env c i no_fence_faults (domain_or_new c st) = Some (r, d')" "domain_of st' (command_domain c) = Some d'"
    using cell_apply_domain(1)[OF assms] by blast
  have old: "cd_rows (domain_or_new c st) = domain_rows st (command_domain c)"
    "cd_committed_writes (domain_or_new c st) = domain_writes st (command_domain c)"
    by (auto simp: domain_at_def domain_rows_def domain_writes_def domain_new_def split: option.split)
  note other = cell_apply_domain(2)[OF assms, of k]
  from apply_domain_result[OF d'(1)] show "domain_rows st' k = (if cr_status r = Committed \<and> command_domain c = k
       then fold apply_cell_mutation (ct_mutations c) (domain_rows st k) else domain_rows st k)"
    by (cases "command_domain c = k")
       (use other old d'(2) in \<open>auto dest!: commit_domain_result simp: domain_rows_def[of st'], simp_all add: domain_rows_def\<close>)
  from apply_domain_result[OF d'(1)] show "domain_writes st' k = (if cr_status r = Committed \<and> command_domain c = k
       then domain_writes st k @ map (\<lambda>range. \<lparr>cw_sequence = i, cw_range = range\<rparr>) (ct_write_conflicts c) else domain_writes st k)"
    by (cases "command_domain c = k")
       (use other old d'(2) in \<open>auto dest!: commit_domain_result simp: domain_writes_def[of st'], simp_all add: domain_writes_def\<close>)
  show "valid_request c" if "cr_status r = Committed"
    using apply_domain_result[OF d'(1)] that by blast
  show "\<not> (\<exists>read \<in> set (ct_read_conflicts c). \<exists>w \<in> set (domain_writes st (command_domain c)).
          cw_sequence w > crv_sequence (ct_read_version c) \<and> range_overlaps read (cw_range w))"
    if "cr_status r = Committed" "ct_partitioned_resolution c = None"
    using apply_domain_result[OF d'(1)] that unfolding read_conflict_def old list_ex_iff by blast
qed

lemma run_effect:
  assumes "cell_run env cs [] = Some (rs, st)"
  shows "domain_rows st k = serial_rows k (zip cs rs) \<and>
    domain_writes st k = concat (map (\<lambda>(c, i). map (\<lambda>range. \<lparr>cw_sequence = i, cw_range = range\<rparr>) (ct_write_conflicts c)) (commits_in k (zip cs rs))) \<and>
    (\<forall>(c, i) \<in> set (commits_in k (zip cs rs)). valid_request c)"
  using assms
proof (induction cs arbitrary: rs st rule: rev_induct)
  case Nil
  then show ?case by (simp add: domain_rows_def domain_writes_def serial_rows_def commits_in_def)
next
  case (snoc ci cs)
  obtain c i where ci: "ci = (c, i)" by (cases ci)
  obtain rs1 st1 r where run: "cell_run env cs [] = Some (rs1, st1)" "cell_apply env c i no_fence_faults st1 = Some (r, st)" "rs = rs1 @ [r]"
    using snoc.prems by (auto simp: ci cell_run_snoc)
  have zip: "zip (cs @ [ci]) rs = zip cs rs1 @ [((c, i), r)]"
    using cell_run_length[OF run(1)] by (simp add: run(3) ci)
  show ?case
    using snoc.IH[OF run(1)] cell_apply_effect(1-3)[OF run(2)]
    by (auto simp: zip serial_rows_def) (auto simp: commits_in_def)
qed

text \<open>A key depends only on the mutations that name it.\<close>

lemma get_mutation: "bt_get (apply_cell_mutation m rows) key =
    (if cell_mutation_key m = key then (case m of CellClear _ \<Rightarrow> None | CellSet _ v \<Rightarrow> Some v) else bt_get rows key)"
  by (cases m) auto

lemma get_mutations_filter:
  "bt_get (fold apply_cell_mutation ms rows) key =
     bt_get (fold apply_cell_mutation (filter (\<lambda>m. cell_mutation_key m = key) ms) rows) key"
  by (induction ms rule: rev_induct) (auto simp: get_mutation split: cell_mutation.split)

lemma fold_commits:
  "fold (\<lambda>(c, _). fold apply_cell_mutation (ct_mutations c)) commits rows =
     fold apply_cell_mutation (concat (map (\<lambda>(c, _). ct_mutations c) commits)) rows"
  by (induction commits arbitrary: rows) auto

lemma serial_rows_get:
  "bt_get (serial_rows k h) key = bt_get (fold apply_cell_mutation
     (concat (map (\<lambda>(c, _). filter (\<lambda>m. cell_mutation_key m = key) (ct_mutations c)) (commits_in k h))) []) key"
  unfolding serial_rows_def fold_commits
  by (subst get_mutations_filter) (simp add: filter_concat comp_def case_prod_unfold)

lemma commits_in_filter:
  "commits_in k (filter (\<lambda>((_, j), _). P j) h) = filter (\<lambda>(_, j). P j) (commits_in k h)"
  by (induction h) (auto simp: commits_in_def)

lemma concat_map_filter: "(\<And>x. x \<in> set xs \<Longrightarrow> \<not> P x \<Longrightarrow> f x = []) \<Longrightarrow> concat (map f (filter P xs)) = concat (map f xs)"
  by (induction xs) auto

section \<open>Properties\<close>

text \<open>C6. Committed transactions are serializable in log order. After any run the rows of a domain are
  the mutations of its committed transactions applied one after the other, and every committed
  transaction that the authority resolved itself has read current values: for each key of its read
  ranges the value among the earlier commits up to its read version is the value among all earlier
  commits.\<close>

theorem transactions_are_serializable:
  assumes run: "cell_run env cs [] = Some (rs, st)" and n: "n < length cs" "cs ! n = (c, i)"
    and committed: "cr_status (rs ! n) = Committed" and direct: "ct_partitioned_resolution c = None"
    and key: "read \<in> set (ct_read_conflicts c)" "cell_range_contains read key"
  shows "domain_rows st k = serial_rows k (zip cs rs) \<and>
    bt_get (serial_rows (command_domain c) (take n (zip cs rs))) key =
    bt_get (serial_rows (command_domain c) (filter (\<lambda>((_, j), _). j \<le> crv_sequence (ct_read_version c)) (take n (zip cs rs)))) key"
proof -
  let ?k = "command_domain c" and ?h = "take n (zip cs rs)" and ?v = "crv_sequence (ct_read_version c)"
  obtain st1 st2 where run1: "cell_run env (take n cs) [] = Some (take n rs, st1)" "cell_apply env c i no_fence_faults st1 = Some (rs ! n, st2)"
    using run_split[OF run n] by blast
  have h: "?h = zip (take n cs) (take n rs)" by (simp add: take_zip)
  note old = run_effect[OF run1(1), of ?k]
  have unwritten: "filter (\<lambda>m. cell_mutation_key m = key) (ct_mutations c') = []" if "(c', j) \<in> set (commits_in ?k ?h)" "\<not> j \<le> ?v" for c' j
  proof (rule ccontr)
    assume "filter (\<lambda>m. cell_mutation_key m = key) (ct_mutations c') \<noteq> []"
    then obtain m where m: "m \<in> set (ct_mutations c')" "cell_mutation_key m = key" by (auto simp: filter_empty_conv)
    have "valid_request c'" using old that(1) h by auto
    then obtain w where w: "w \<in> set (ct_write_conflicts c')" "cell_range_contains w key"
      using m by (auto simp: valid_request_def list_all_iff list_ex_iff split: if_splits)
    have "\<lparr>cw_sequence = j, cw_range = w\<rparr> \<in> set (domain_writes st1 ?k)"
      using old that(1) w(1) unfolding h by force
    moreover have "range_overlaps read w" using key(2) w(2) by (rule overlaps_common)
    ultimately show False
      using cell_apply_effect(4)[OF run1(2)] committed direct key(1) that(2) by force
  qed
  have "bt_get (serial_rows ?k ?h) key = bt_get (serial_rows ?k (filter (\<lambda>((_, j), _). j \<le> ?v) ?h)) key"
    unfolding serial_rows_get commits_in_filter by (subst concat_map_filter) (auto dest: unwritten)
  with run_effect[OF run, of k] show ?thesis by simp
qed

lemma apply_domain_refused:
  "admission c d = Some status \<Longrightarrow> apply_domain env c i no_fence_faults d = Some (reject c status d, d)"
  by (simp add: apply_domain_def skip_staged_head_def no_fence_faults_def)

text \<open>A domain never leaves the generation of the first command that named it.\<close>

lemma apply_domain_generation:
  "apply_domain env c i no_fence_faults d = Some (resp, d') \<Longrightarrow> cd_generation d' = cd_generation d"
  by (auto dest!: apply_domain_result commit_domain_result)

lemma run_keeps_generation:
  assumes "cell_run env cs st = Some (rs, st')" "domain_of st k = Some d"
  shows "\<exists>d'. domain_of st' k = Some d' \<and> cd_generation d' = cd_generation d"
  using assms
proof (induction env cs st arbitrary: rs d rule: cell_run.induct)
  case (2 env c i cs st)
  obtain r st1 rs' where step: "cell_apply env c i no_fence_faults st = Some (r, st1)" and rest: "cell_run env cs st1 = Some (rs', st')"
    using "2.prems"(1) by (auto split: option.splits)
  have "\<exists>d1. domain_of st1 k = Some d1 \<and> cd_generation d1 = cd_generation d"
  proof (cases "k = command_domain c")
    case True
    then show ?thesis
      using cell_apply_domain(1)[OF step] "2.prems"(2) by (auto simp: domain_at_def dest!: apply_domain_generation)
  next
    case False
    then show ?thesis using cell_apply_domain(2)[OF step False] "2.prems"(2) by simp
  qed
  then show ?case using "2.IH"[OF step refl rest] by fastforce
qed simp


text \<open>Witnesses: a write, then a read of what it wrote; and a first command of generation zero.\<close>

definition demo_cell_env :: cell_env where
  "demo_cell_env = \<lparr>cv_sha = demo_sha, cv_json = (\<lambda>_. Some [0]), cv_public_key = Some, cv_sign = (\<lambda>k bs. k @ bs),
     cv_verify = (\<lambda>k bs s. s = k @ bs)\<rparr>"

definition demo_command :: "u64 \<Rightarrow> u64 \<Rightarrow> cell_key_range list \<Rightarrow> u8 \<Rightarrow> cell_transaction_command" where
  "demo_command g v reads key =
     \<lparr>ct_identity = (1, 1), ct_credential = None, ct_cell_id = CELL_ID, ct_tenant_id = TENANT_ID, ct_generation = g,
      ct_read_version = \<lparr>crv_generation = g, crv_sequence = v\<rparr>, ct_read_conflicts = reads,
      ct_write_conflicts = [range_point [key]], ct_mutations = [CellSet [key] [9]], ct_partitioned_resolution = None,
      ct_accepted_resolvers = [1, 2], ct_durable_log_tags = [10, 20]\<rparr>"

lemma demo_command_fields [simp]:
  "ct_cell_id (demo_command g v reads key) = CELL_ID" "ct_tenant_id (demo_command g v reads key) = TENANT_ID"
  "ct_generation (demo_command g v reads key) = g" "ct_partitioned_resolution (demo_command g v reads key) = None"
  "ct_read_conflicts (demo_command g v reads key) = reads"
  by (simp_all add: demo_command_def)

lemma demo_envelope:
  assumes "g \<noteq> 0" "length chain = 32"
  shows "\<exists>e. cell_envelope demo_cell_env (demo_command g v reads key) i i REQUIRED_LOG_TAGS chain = Some e"
proof -
  have "parts_ok (cell_envelope_parts (demo_command g v reads key) i i REQUIRED_LOG_TAGS chain [0] [0] [0])"
    using assms by (simp add: parts_ok_def cell_envelope_parts_def CELL_ID_def TENANT_ID_def RESOLVER_SET_ID_def REQUIRED_LOG_TAGS_def
        REQUIRED_RESOLVERS_def from_parts_def ZERO_def word_less_nat_alt)
  from from_parts_decodes[OF demo_sha_digest32 this] show ?thesis by (auto simp: cell_envelope_def demo_cell_env_def)
qed

definition demo_domain :: "u64 \<Rightarrow> u64 \<Rightarrow> committed_write list \<Rightarrow> cell_domain_state \<Rightarrow> bool" where
  "demo_domain g latest ws d \<longleftrightarrow> cd_cell_id d = CELL_ID \<and> cd_tenant_id d = TENANT_ID \<and> cd_generation d = g \<and> cd_latest_sequence d = latest \<and>
     cd_committed_writes d = ws \<and> length (cd_previous_log_chain d) = 32"

lemma demo_commits:
  assumes "demo_domain g latest ws d" "g \<noteq> 0" "v \<le> latest" "list_all range_valid reads"
    and "\<not> read_conflict (demo_command g v reads key) d"
  obtains r d' where "cell_apply demo_cell_env (demo_command g v reads key) i no_fence_faults [d] = Some (r, [d'])"
    and "cr_status r = Committed" and "demo_domain g i (ws @ [\<lparr>cw_sequence = i, cw_range = range_point [key]\<rparr>]) d'"
proof -
  let ?c = "demo_command g v reads key"
  have "range_valid (range_point [key])" by (simp add: range_valid_def range_point_def)
  moreover have "cell_range_contains (range_point [key]) [key]" by (simp add: point_contains)
  ultimately have ok: "admission ?c d = None" "cell_contains_all (ct_accepted_resolvers ?c) REQUIRED_RESOLVERS"
    using assms(1-4) unfolding demo_domain_def
    by (simp_all add: admission_def demo_command_def valid_request_def cell_contains_all_def REQUIRED_LOG_TAGS_def REQUIRED_RESOLVERS_def list_all_iff list_ex_iff not_less)
  obtain e where e: "cell_envelope demo_cell_env ?c i i REQUIRED_LOG_TAGS (cd_previous_log_chain d) = Some e"
    using demo_envelope[OF assms(2), of "cd_previous_log_chain d" v reads key i] assms(1) by (auto simp: demo_domain_def)
  have applied: "apply_domain demo_cell_env ?c i no_fence_faults d = commit_domain demo_cell_env ?c i d"
    using ok assms(5) by (simp add: apply_domain_def skip_staged_head_def no_fence_faults_def)
  obtain r d' where rd: "commit_domain demo_cell_env ?c i d = Some (r, d')" using e by (auto simp: commit_domain_def Let_def)
  have "demo_domain g i (ws @ [\<lparr>cw_sequence = i, cw_range = range_point [key]\<rparr>]) d' \<and> cr_status r = Committed"
    using commit_domain_result[OF rd] assms(1) by (auto simp: demo_domain_def demo_cell_env_def demo_sha_def) (simp_all add: demo_command_def)
  moreover have "cell_apply demo_cell_env ?c i no_fence_faults [d] = Some (r, [d'])"
    using assms(1) applied rd by (simp add: cell_apply_def at_domain_def locate_domain_def demo_domain_def)
  ultimately show thesis using that by blast
qed

lemma cell_apply_first:
  "cell_apply env c i faults [] = cell_apply env c i faults [domain_new (ct_cell_id c) (ct_tenant_id c) (ct_generation c)]"
  by (simp add: cell_apply_def at_domain_def locate_domain_def domain_new_def)

lemma demo_domain_new: "demo_domain g 0 [] (domain_new CELL_ID TENANT_ID g)"
  by (simp add: demo_domain_def domain_new_def)

lemma demo_run:
  obtains r0 r1 d where "cell_run demo_cell_env [(demo_command 1 0 [] 5, 1), (demo_command 1 1 [range_point [5]] 6, 2)] [] = Some ([r0, r1], [d])"
    and "cr_status r0 = Committed" "cr_status r1 = Committed" "cd_generation d = 1" "cd_latest_sequence d = 2"
proof -
  have clean: "\<not> read_conflict (demo_command 1 0 [] 5) (domain_new CELL_ID TENANT_ID 1)" by (simp add: read_conflict_def)
  obtain r0 d0 where first: "cell_apply demo_cell_env (demo_command 1 0 [] 5) 1 no_fence_faults [domain_new CELL_ID TENANT_ID 1] = Some (r0, [d0])"
    "cr_status r0 = Committed" "demo_domain 1 1 ([] @ [\<lparr>cw_sequence = 1, cw_range = range_point [5]\<rparr>]) d0"
    by (rule demo_commits[OF demo_domain_new, of 1 0 "[]" 5 1]) (use clean in simp_all)
  have clean: "\<not> read_conflict (demo_command 1 1 [range_point [5]] 6) d0"
    using first(3) by (simp add: read_conflict_def demo_domain_def demo_command_def)
  obtain r1 d1 where "cell_apply demo_cell_env (demo_command 1 1 [range_point [5]] 6) 2 no_fence_faults [d0] = Some (r1, [d1])"
    "cr_status r1 = Committed" "demo_domain 1 2 ([\<lparr>cw_sequence = 1, cw_range = range_point [5]\<rparr>] @ [\<lparr>cw_sequence = 2, cw_range = range_point [6]\<rparr>]) d1"
    by (rule demo_commits[OF first(3), of 1 "[range_point [5]]" 6 2]) (use clean in \<open>simp_all add: range_valid_def range_point_def\<close>)
  with first show thesis by (intro that[of r0 r1 d1]) (simp_all add: cell_apply_first demo_domain_def)
qed

theorem transactions_are_serializable_witness:
  "\<exists>rs st. cell_run demo_cell_env [(demo_command 1 0 [] 5, 1), (demo_command 1 1 [range_point [5]] 6, 2)] [] = Some (rs, st) \<and>
     domain_rows st (CELL_ID, TENANT_ID) = serial_rows (CELL_ID, TENANT_ID) (zip [(demo_command 1 0 [] 5, 1), (demo_command 1 1 [range_point [5]] 6, 2)] rs)"
  by (rule demo_run)
     (use transactions_are_serializable[of demo_cell_env "[(demo_command 1 0 [] 5, 1), (demo_command 1 1 [range_point [5]] 6, 2)]" _ _ 1
        "demo_command 1 1 [range_point [5]] 6" 2 "range_point [5]" "[5]" "(CELL_ID, TENANT_ID)"] in \<open>fastforce simp: point_contains\<close>)

end
