(* ===== verification/Cell_Feed.thy ===== *)
theory Cell_Feed
  imports Cell_Safety
begin

text \<open>
  Properties of the evidence a commit leaves: a transaction resolved by the partitioned resolvers
  commits only with one signed acceptance of every resolver it touches, the committed envelopes of a
  domain form one hash chain in log order, and the feed returns exactly the envelopes of a version
  interval.
\<close>

section \<open>Resolver evidence\<close>

abbreviation attested_ids :: "cell_resolver_decision_attestation list \<Rightarrow> u16 list" where
  "attested_ids as \<equiv> map (\<lambda>a. ds_resolver_id (da_statement a)) as"

lemma check_decisions_ok:
  assumes "check_decisions env c r tx_sha map_sha required as seen combined = Some (Ok (seen', combined'))"
  shows "seen' = seen \<union> set (attested_ids as) \<and> distinct (attested_ids as) \<and> set (attested_ids as) \<inter> seen = {} \<and>
    (\<forall>a \<in> set as. \<exists>conflicts. bt_get required (ds_resolver_id (da_statement a)) = Some conflicts \<and>
       decision_matches env c r tx_sha map_sha conflicts a \<and> decision_signed env a = Some True) \<and>
    (combined' = Accept \<longrightarrow> combined = Accept \<and> (\<forall>a \<in> set as. ds_decision (da_statement a) = Accept))"
  using assms
proof (induction env c r tx_sha map_sha required as seen combined rule: check_decisions.induct)
  case (2 env c r tx_sha map_sha required a as seen combined)
  let ?id = "ds_resolver_id (da_statement a)"
  obtain conflicts where here: "bt_get required ?id = Some conflicts" "?id \<notin> seen" "decision_matches env c r tx_sha map_sha conflicts a"
    "decision_signed env a = Some True"
    and rest: "check_decisions env c r tx_sha map_sha required as (insert ?id seen)
      (if ds_decision (da_statement a) = Conflict then Conflict else combined) = Some (Ok (seen', combined'))"
    using "2.prems" by (auto split: option.splits if_splits bool.splits)
  have "\<not> (?id \<in> seen \<or> \<not> decision_matches env c r tx_sha map_sha conflicts a)" using here by simp
  note IH = "2.IH"[OF here(1) this here(4) _ rest]
  have "ds_decision (da_statement a) \<noteq> Conflict \<longleftrightarrow> ds_decision (da_statement a) = Accept" by (rule decision_Accept)
  with IH here show ?case by (cases conflicts) (auto split: if_splits)
qed simp

text \<open>The resolvers a transaction touches: those whose partition overlaps one of its ranges.\<close>

definition touched_resolvers :: "cell_transaction_command \<Rightarrow> u16 list" where
  "touched_resolvers c = map rp_resolver_id (filter (\<lambda>part.
     list_ex (\<lambda>range. range_overlaps range (CellKeyRange (rp_start part) (rp_end part))) (ct_read_conflicts c @ ct_write_conflicts c))
     cell_resolver_partitions)"

lemma sort_dedup_set [simp]: "set (sort_dedup xs) = set xs"
  by (simp add: sort_dedup_def)

lemma sort_dedup_empty [simp]: "sort_dedup xs = [] \<longleftrightarrow> xs = []"
  using sort_dedup_set[of xs] by (metis set_empty)

lemma clipped_empty:
  "clipped_conflicts conflicts part = [] \<longleftrightarrow> \<not> list_ex (\<lambda>range. range_overlaps range (CellKeyRange (rp_start part) (rp_end part))) conflicts"
  by (auto simp: clipped_conflicts_def Let_def filter_empty_conv list_ex_iff)

lemma required_conflicts_eq:
  "required_conflicts c = map (\<lambda>part. (rp_resolver_id part, clipped_conflicts (ct_read_conflicts c) part, clipped_conflicts (ct_write_conflicts c) part))
     (filter (\<lambda>part. clipped_conflicts (ct_read_conflicts c) part \<noteq> [] \<or> clipped_conflicts (ct_write_conflicts c) part \<noteq> []) cell_resolver_partitions)"
  by (auto simp: required_conflicts_def cell_resolver_partitions_def Let_def)

lemma required_keys: "map fst (required_conflicts c) = touched_resolvers c"
  by (simp add: required_conflicts_eq touched_resolvers_def comp_def clipped_empty list_ex_iff bex_Un)

lemma touched_distinct: "distinct (touched_resolvers c)"
  by (simp add: touched_resolvers_def cell_resolver_partitions_def)

lemma verified_resolution:
  assumes "verify_partitioned_resolution env c r = Some (Ok decision)"
  shows "pn_attestations r \<noteq> [] \<and> distinct (attested_ids (pn_attestations r)) \<and> set (attested_ids (pn_attestations r)) = set (touched_resolvers c) \<and>
    (\<forall>a \<in> set (pn_attestations r). decision_signed env a = Some True \<and> ds_transaction_identity (da_statement a) = ct_identity c \<and>
       ds_candidate_sequence (da_statement a) = pn_candidate_sequence r \<and>
       Some (ds_transaction_sha256 (da_statement a)) = cell_partitioned_transaction_sha256 env c \<and>
       (decision = Accept \<longrightarrow> ds_decision (da_statement a) = Accept))"
proof -
  obtain tx_sha map_sha seen where tx: "cell_partitioned_transaction_sha256 env c = Some tx_sha"
    and len: "required_conflicts c \<noteq> []" "length (pn_attestations r) = length (required_conflicts c)"
    and check: "check_decisions env c r tx_sha map_sha (required_conflicts c) (pn_attestations r) {} Accept = Some (Ok (seen, decision))"
    and card: "card seen = length (required_conflicts c)"
    using assms by (auto simp: verify_partitioned_resolution_def Let_def split: if_splits option.splits result.splits)
  note ok = check_decisions_ok[OF check]
  have "set (attested_ids (pn_attestations r)) \<subseteq> fst ` set (required_conflicts c)"
  proof
    fix x assume "x \<in> set (attested_ids (pn_attestations r))"
    then obtain conflicts where "bt_get (required_conflicts c) x = Some conflicts" using ok by auto
    then show "x \<in> fst ` set (required_conflicts c)" by (rule image_eqI[OF _ bt_get_entry, rotated]) simp
  qed
  also have "fst ` set (required_conflicts c) = set (touched_resolvers c)" by (simp flip: required_keys)
  finally have "set (attested_ids (pn_attestations r)) = set (touched_resolvers c)"
    using ok card distinct_card[OF touched_distinct[of c]] arg_cong[OF required_keys[of c], of length]
    by (intro card_subset_eq) auto
  with ok len tx show ?thesis by (auto simp: decision_matches_def Let_def)
qed

section \<open>Envelopes\<close>

definition domain_envelopes :: "cell_transaction_state \<Rightarrow> bytes \<times> bytes \<Rightarrow> bytes list" where
  "domain_envelopes st k = (case domain_of st k of None \<Rightarrow> [] | Some d \<Rightarrow> cd_committed_envelopes d)"

definition domain_chain :: "cell_transaction_state \<Rightarrow> bytes \<times> bytes \<Rightarrow> bytes" where
  "domain_chain st k = (case domain_of st k of None \<Rightarrow> replicate 32 0 | Some d \<Rightarrow> cd_previous_log_chain d)"

definition domain_latest :: "cell_transaction_state \<Rightarrow> bytes \<times> bytes \<Rightarrow> u64" where
  "domain_latest st k = (case domain_of st k of None \<Rightarrow> 0 | Some d \<Rightarrow> cd_latest_sequence d)"

lemma cell_apply_envelope:
  assumes "cell_apply env c i no_fence_faults st = Some (r, st')"
  shows "domain_envelopes st' k = domain_envelopes st k @ (if cr_status r = Committed \<and> command_domain c = k then [the (cr_envelope r)] else [])"
    and "domain_chain st' k = (if cr_status r = Committed \<and> command_domain c = k then cv_sha env (the (cr_envelope r)) else domain_chain st k)"
    and "cr_status r = Committed \<Longrightarrow> cell_envelope env c i i REQUIRED_LOG_TAGS (domain_chain st (command_domain c)) = cr_envelope r \<and>
      cr_envelope r \<noteq> None \<and> ct_generation c \<noteq> 0 \<and>
      (\<forall>q. ct_partitioned_resolution c = Some q \<longrightarrow> verify_partitioned_resolution env c q = Some (Ok Accept))"
    and "domain_latest st' k = (if cr_status r = Committed \<and> command_domain c = k then i else domain_latest st k)"
proof -
  obtain d' where d': "apply_domain env c i no_fence_faults (domain_or_new c st) = Some (r, d')" "domain_of st' (command_domain c) = Some d'"
    using cell_apply_domain(1)[OF assms] by blast
  have old: "cd_committed_envelopes (domain_or_new c st) = domain_envelopes st (command_domain c)"
    "cd_previous_log_chain (domain_or_new c st) = domain_chain st (command_domain c)"
    "cd_latest_sequence (domain_or_new c st) = domain_latest st (command_domain c)"
    by (auto simp: domain_at_def domain_envelopes_def domain_chain_def domain_latest_def domain_new_def split: option.split)
  note other = cell_apply_domain(2)[OF assms, of k]
  from apply_domain_result[OF d'(1)] show "domain_envelopes st' k = domain_envelopes st k @ (if cr_status r = Committed \<and> command_domain c = k then [the (cr_envelope r)] else [])"
    by (cases "command_domain c = k")
       (use other old d'(2) in \<open>auto dest!: commit_domain_result simp: domain_envelopes_def[of st'], simp_all add: domain_envelopes_def\<close>)
  from apply_domain_result[OF d'(1)] show "domain_chain st' k = (if cr_status r = Committed \<and> command_domain c = k then cv_sha env (the (cr_envelope r)) else domain_chain st k)"
    by (cases "command_domain c = k")
       (use other old d'(2) in \<open>auto dest!: commit_domain_result simp: domain_chain_def[of st'], simp_all add: domain_chain_def\<close>)
  from apply_domain_result[OF d'(1)] show "domain_latest st' k = (if cr_status r = Committed \<and> command_domain c = k then i else domain_latest st k)"
    by (cases "command_domain c = k")
       (use other old d'(2) in \<open>auto dest!: commit_domain_result simp: domain_latest_def[of st'], simp_all add: domain_latest_def\<close>)
  show "cell_envelope env c i i REQUIRED_LOG_TAGS (domain_chain st (command_domain c)) = cr_envelope r \<and>
      cr_envelope r \<noteq> None \<and> ct_generation c \<noteq> 0 \<and>
      (\<forall>q. ct_partitioned_resolution c = Some q \<longrightarrow> verify_partitioned_resolution env c q = Some (Ok Accept))" if "cr_status r = Committed"
    using apply_domain_result[OF d'(1)] that by (auto dest!: commit_domain_result simp: old(2))
qed

text \<open>The size of arrays, and the order of attestations that encoding a command establishes.\<close>

definition command_shape :: "cell_transaction_command \<Rightarrow> bool" where
  "command_shape c \<longleftrightarrow> length (ct_cell_id c) = 16 \<and> length (ct_tenant_id c) = 16 \<and>
     (\<forall>r. ct_partitioned_resolution c = Some r \<longrightarrow> sorted (attested_ids (pn_attestations r)))"

lemma canonical_shape:
  "length (ct_cell_id c) = 16 \<Longrightarrow> length (ct_tenant_id c) = 16 \<Longrightarrow> command_shape (canonicalize_transaction c)"
  by (auto simp: command_shape_def canonicalize_transaction_def)

lemma strictly_sorted_eq: "strictly_sorted vs \<longleftrightarrow> sorted vs \<and> distinct vs"
  by (induction vs rule: strictly_sorted.induct) (auto simp: le_less)

lemma committed_envelope_decodes:
  assumes sha: "digest32 (cv_sha env)" and shape: "command_shape c" "length (domain_chain st (command_domain c)) = 32"
    and step: "cell_apply env c i no_fence_faults st = Some (r, st')" and committed: "cr_status r = Committed"
  shows "\<exists>bs e. cr_envelope r = Some bs \<and> envelope_decode (cv_sha env) bs = Ok e \<and> ce_version e = from_parts (ct_generation c) i \<and>
    ce_log_index e = i \<and> ce_previous_log_chain e = domain_chain st (command_domain c)"
proof -
  note facts = cell_apply_envelope(3)[OF step committed]
  obtain rs ws ms e bs where parts: "envelope_from_parts (cv_sha env) (cell_envelope_parts c i i REQUIRED_LOG_TAGS (domain_chain st (command_domain c)) rs ws ms) = Some e"
    and bs: "envelope_encode e = Some bs" "cr_envelope r = Some bs"
    using facts by (auto simp: cell_envelope_def split: option.splits bind_splits)
  have resolvers: "pn_attestations q \<noteq> [] \<and> strictly_sorted (attested_ids (pn_attestations q))" if "ct_partitioned_resolution c = Some q" for q
    using verified_resolution[of env c q Accept] facts that shape(1) by (simp add: strictly_sorted_eq command_shape_def)
  have "parts_shape (cell_envelope_parts c i i REQUIRED_LOG_TAGS (domain_chain st (command_domain c)) rs ws ms)"
    using shape facts resolvers
    by (auto simp: parts_shape_def cell_envelope_parts_def command_shape_def RESOLVER_SET_ID_def REQUIRED_LOG_TAGS_def REQUIRED_RESOLVERS_def
        from_parts_def ZERO_def word_less_nat_alt split: option.splits)
  from from_parts_decodes[OF sha from_parts_fits[OF sha this parts]] parts bs show ?thesis
    by (auto simp: cell_envelope_parts_def)
qed

section \<open>The committed log of a domain\<close>

definition committed_log :: "bytes \<times> bytes \<Rightarrow> cell_history \<Rightarrow> (u64 \<times> bytes) list" where
  "committed_log k h = map (\<lambda>((_, i), r). (i, the (cr_envelope r))) (filter (\<lambda>((c, _), r). cr_status r = Committed \<and> command_domain c = k) h)"

definition envelope_at :: "(bytes \<Rightarrow> bytes) \<Rightarrow> bytes \<Rightarrow> u64 \<Rightarrow> bytes \<Rightarrow> bool" where
  "envelope_at sha prev i bs \<longleftrightarrow> (case envelope_decode sha bs of Err _ \<Rightarrow> False
     | Ok e \<Rightarrow> sequence (ce_version e) = i \<and> ce_log_index e = i \<and> ce_previous_log_chain e = prev)"

fun chained :: "(bytes \<Rightarrow> bytes) \<Rightarrow> bytes \<Rightarrow> (u64 \<times> bytes) list \<Rightarrow> bool" where
  "chained sha prev [] \<longleftrightarrow> True"
| "chained sha prev ((i, bs) # log) \<longleftrightarrow> envelope_at sha prev i bs \<and> chained sha (sha bs) log"

definition chain_end :: "(bytes \<Rightarrow> bytes) \<Rightarrow> (u64 \<times> bytes) list \<Rightarrow> bytes" where
  "chain_end sha log = (if log = [] then replicate 32 0 else sha (snd (last log)))"

lemma chained_append:
  "chained sha prev (log @ [(i, bs)]) \<longleftrightarrow> chained sha prev log \<and> envelope_at sha (if log = [] then prev else sha (snd (last log))) i bs"
  by (induction sha prev log rule: chained.induct) auto

lemma chained_all: "chained sha prev log \<Longrightarrow> (i, bs) \<in> set log \<Longrightarrow> \<exists>prev. envelope_at sha prev i bs"
  by (induction sha prev log rule: chained.induct) auto

lemma run_log:
  assumes sha: "digest32 (cv_sha env)" and "cell_run env cs [] = Some (rs, st)" "\<forall>(c, i) \<in> set cs. command_shape c"
  shows "domain_envelopes st k = map snd (committed_log k (zip cs rs)) \<and> domain_chain st k = chain_end (cv_sha env) (committed_log k (zip cs rs)) \<and>
    chained (cv_sha env) (replicate 32 0) (committed_log k (zip cs rs)) \<and>
    domain_latest st k = (if committed_log k (zip cs rs) = [] then 0 else fst (last (committed_log k (zip cs rs))))"
  using assms(2,3)
proof (induction cs arbitrary: rs st k rule: rev_induct)
  case Nil
  then show ?case by (simp add: domain_envelopes_def domain_chain_def domain_latest_def chain_end_def committed_log_def)
next
  case (snoc ci cs)
  obtain c i where ci: "ci = (c, i)" by (cases ci)
  obtain rs1 st1 r where run: "cell_run env cs [] = Some (rs1, st1)" "cell_apply env c i no_fence_faults st1 = Some (r, st)" "rs = rs1 @ [r]"
    using snoc.prems(1) by (auto simp: ci cell_run_snoc)
  have shape: "command_shape c" "\<forall>(c, i) \<in> set cs. command_shape c" using snoc.prems(2) by (auto simp: ci)
  have zip: "zip (cs @ [ci]) rs = zip cs rs1 @ [((c, i), r)]"
    using cell_run_length[OF run(1)] by (simp add: run(3) ci)
  have "length (domain_chain st1 (command_domain c)) = 32"
    using snoc.IH[OF run(1) shape(2)] sha by (simp add: chain_end_def digest32_def)
  note new = committed_envelope_decodes[OF sha shape(1) this run(2)]
  have "envelope_at (cv_sha env) (chain_end (cv_sha env) (committed_log (command_domain c) (zip cs rs1))) i (the (cr_envelope r))"
    if "cr_status r = Committed"
    using new[OF that] snoc.IH[OF run(1) shape(2), of "command_domain c"] by (auto simp: envelope_at_def from_parts_def)
  then show ?case
    using snoc.IH[OF run(1) shape(2), of k] cell_apply_envelope(1,2,4)[OF run(2), of k]
    by (auto simp: zip committed_log_def chained_append chain_end_def)
qed

section \<open>The feed\<close>

lemma feed_envelopes_exact:
  "\<forall>(i, bs) \<in> set log. \<exists>prev. envelope_at sha prev i bs \<Longrightarrow>
     feed_envelopes sha after through (map snd log) = Ok (map snd (filter (\<lambda>(i, _). after < i \<and> i \<le> through) log))"
  by (induction log) (auto simp: envelope_at_def Let_def split: result.splits)

lemma last_filter_upto:
  assumes "sorted_wrt (<) (map fst log)" "(through :: u64, bs) \<in> set log" "after < through"
  shows "\<exists>xs. filter (\<lambda>(i, _). after < i \<and> i \<le> through) log = xs @ [(through, bs)]"
proof -
  obtain xs ys where log: "log = xs @ (through, bs) # ys" using assms(2) by (auto simp: in_set_conv_decomp)
  have "filter (\<lambda>(i, _). after < i \<and> i \<le> through) ys = []"
    using assms(1) by (fastforce simp: log filter_empty_conv sorted_wrt_append)
  with assms(3) show ?thesis by (simp add: log)
qed

lemma sorted_le_last:
  assumes "sorted_wrt (<) (map fst log)" "(i, bs) \<in> set log"
  shows "(i :: u64) \<le> fst (last log)"
proof (cases log rule: rev_cases)
  case (snoc xs x)
  then show ?thesis using assms by (fastforce simp: sorted_wrt_append)
qed (use assms in simp)

lemma committed_log_sorted:
  "sorted_wrt (<) (map snd cs) \<Longrightarrow> sorted_wrt (<) (map fst (committed_log k (zip cs rs)))"
proof (induction cs arbitrary: rs)
  case (Cons a cs)
  then show ?case
    by (cases rs) (auto simp: committed_log_def image_iff dest!: set_zip_leftD)
qed (simp add: committed_log_def)

lemma committed_generation:
  assumes "cell_run env cs [] = Some (rs, st)" "n < length cs" "cs ! n = (c, i)" "cr_status (rs ! n) = Committed"
  shows "\<exists>d. domain_of st (command_domain c) = Some d \<and> cd_generation d = ct_generation c \<and> ct_generation c \<noteq> 0"
proof -
  obtain st1 st2 where step: "cell_apply env c i no_fence_faults st1 = Some (rs ! n, st2)"
    and rest: "cell_run env (drop (Suc n) cs) st2 = Some (drop (Suc n) rs, st)"
    using run_split[OF assms(1-3)] by blast
  obtain d where d: "apply_domain env c i no_fence_faults (domain_or_new c st1) = Some (rs ! n, d)" "domain_of st2 (command_domain c) = Some d"
    using cell_apply_domain(1)[OF step] by blast
  have "cd_generation d = ct_generation c" "ct_generation c \<noteq> 0"
    using apply_domain_result[OF d(1)] apply_domain_generation[OF d(1)] assms(4) by auto
  with run_keeps_generation[OF rest d(2)] show ?thesis by simp
qed

text \<open>C25. The envelopes of the committed transactions of a domain form one hash chain in log order: each
  decodes, carries its log index as version and names the digest of its predecessor.\<close>

theorem committed_envelopes_form_chain:
  assumes "digest32 (cv_sha env)" "cell_run env cs [] = Some (rs, st)" "\<forall>(c, i) \<in> set cs. command_shape c"
  shows "domain_envelopes st k = map snd (committed_log k (zip cs rs)) \<and> chained (cv_sha env) (replicate 32 0) (committed_log k (zip cs rs))"
  using run_log[OF assms] by simp

text \<open>C21. The feed is exact. For a request that ends at a committed version of its domain, with its generation, the
  feed succeeds and returns the envelopes of precisely the transactions committed in the requested interval, in log order.\<close>

theorem feed_is_exact:
  assumes sha: "digest32 (cv_sha env)" and run: "cell_run env cs [] = Some (rs, st)" "\<forall>(c, i) \<in> set cs. command_shape c"
    and order: "sorted_wrt (<) (map snd cs)" and n: "n < length cs" "cs ! n = (c, fr_through_version q)" "cr_status (rs ! n) = Committed"
    and request: "command_domain c = (fr_cell_id q, fr_tenant_id q)" "fr_generation q = ct_generation c"
      "fr_after_version q < fr_through_version q" "fr_through_version q \<le> lp_index position"
  shows "\<exists>f. committed_envelope_feed (cv_sha env) q position st = Ok f \<and>
    fd_envelopes f = map snd (filter (\<lambda>(i, _). fr_after_version q < i \<and> i \<le> fr_through_version q) (committed_log (command_domain c) (zip cs rs)))"
proof -
  let ?k = "command_domain c" and ?log = "committed_log (command_domain c) (zip cs rs)"
  have len: "length rs = length cs" by (rule cell_run_length[OF run(1)])
  have "((c, fr_through_version q), rs ! n) \<in> set (zip cs rs)" using n len by (metis in_set_zip fst_conv snd_conv)
  then obtain bs where last: "(fr_through_version q, bs) \<in> set ?log" using n(3) by (force simp: committed_log_def)
  note log = run_log[OF sha run, of ?k] and sorted = committed_log_sorted[OF order, of ?k rs]
  have upto: "fr_through_version q \<le> domain_latest st ?k"
    using sorted_le_last[OF sorted last] log last by auto
  obtain d where d: "domain_of st ?k = Some d" "cd_generation d = ct_generation c" "ct_generation c \<noteq> 0"
    using committed_generation[OF run(1) n] by blast
  obtain xs where xs: "filter (\<lambda>(i, _). fr_after_version q < i \<and> i \<le> fr_through_version q) ?log = xs @ [(fr_through_version q, bs)]"
    using last_filter_upto[OF sorted last request(3)] by blast
  have feed: "feed_envelopes (cv_sha env) (fr_after_version q) (fr_through_version q) (cd_committed_envelopes d) = Ok (map snd (xs @ [(fr_through_version q, bs)]))"
    using feed_envelopes_exact[of ?log "cv_sha env" "fr_after_version q" "fr_through_version q"] log chained_all d(1)
    by (fastforce simp: xs domain_envelopes_def)
  obtain e where e: "envelope_decode (cv_sha env) bs = Ok e" "sequence (ce_version e) = fr_through_version q"
    using chained_all[OF _ last] log by (fastforce simp: envelope_at_def split: result.splits)
  show ?thesis
    using d upto request feed e xs by (auto simp: committed_envelope_feed_def domain_latest_def)
qed

text \<open>C22. A transaction that names partitioned resolution commits only with one acceptance of every
  resolver whose partition it touches: the attesting resolvers are distinct and are exactly those, each
  attestation carries a verified signature, accepts, and binds the identity, the candidate and the digest
  of this transaction.\<close>

theorem partitioned_commit_needs_every_resolver:
  assumes run: "cell_run env cs [] = Some (rs, st)" "n < length cs" "cs ! n = (c, i)"
    and committed: "cr_status (rs ! n) = Committed" and r: "ct_partitioned_resolution c = Some r"
  shows "distinct (attested_ids (pn_attestations r)) \<and> set (attested_ids (pn_attestations r)) = set (touched_resolvers c) \<and>
    (\<forall>a \<in> set (pn_attestations r). decision_signed env a = Some True \<and> ds_decision (da_statement a) = Accept \<and>
       ds_transaction_identity (da_statement a) = ct_identity c \<and> ds_candidate_sequence (da_statement a) = pn_candidate_sequence r \<and>
       Some (ds_transaction_sha256 (da_statement a)) = cell_partitioned_transaction_sha256 env c)"
proof -
  obtain st1 st2 where "cell_apply env c i no_fence_faults st1 = Some (rs ! n, st2)"
    using run_split[OF run] by blast
  then have "verify_partitioned_resolution env c r = Some (Ok Accept)"
    using cell_apply_envelope(3) committed r by blast
  from verified_resolution[OF this] show ?thesis by simp
qed

text \<open>Witnesses.\<close>

lemma demo_shape: "command_shape (demo_command g v reads key)"
  by (simp add: command_shape_def CELL_ID_def TENANT_ID_def)

abbreviation demo_log :: "(cell_transaction_command \<times> u64) list" where
  "demo_log \<equiv> [(demo_command 1 0 [] 5, 1), (demo_command 1 1 [range_point [5]] 6, 2)]"

theorem committed_envelopes_form_chain_witness:
  "\<exists>rs st. cell_run demo_cell_env demo_log [] = Some (rs, st) \<and>
     chained (cv_sha demo_cell_env) (replicate 32 0) (committed_log (CELL_ID, TENANT_ID) (zip demo_log rs))"
proof (rule demo_run)
  fix r0 r1 d assume run: "cell_run demo_cell_env demo_log [] = Some ([r0, r1], [d])"
  have "digest32 (cv_sha demo_cell_env)" by (simp add: demo_cell_env_def)
  from committed_envelopes_form_chain[OF this run, of "(CELL_ID, TENANT_ID)"] run show ?thesis by (auto simp: demo_shape)
qed

theorem feed_is_exact_witness:
  "\<exists>rs st f. cell_run demo_cell_env demo_log [] = Some (rs, st) \<and>
     committed_envelope_feed (cv_sha demo_cell_env) \<lparr>fr_cell_id = CELL_ID, fr_tenant_id = TENANT_ID, fr_generation = 1, fr_after_version = 0, fr_through_version = 2\<rparr>
       \<lparr>lp_term = 1, lp_index = 2\<rparr> st = Ok f \<and> length (fd_envelopes f) = 2"
proof (rule demo_run)
  let ?q = "\<lparr>fr_cell_id = CELL_ID, fr_tenant_id = TENANT_ID, fr_generation = 1, fr_after_version = 0, fr_through_version = 2\<rparr>"
  fix r0 r1 d assume run: "cell_run demo_cell_env demo_log [] = Some ([r0, r1], [d])" and "cr_status r0 = Committed" "cr_status r1 = Committed"
  moreover have "digest32 (cv_sha demo_cell_env)" by (simp add: demo_cell_env_def)
  ultimately show ?thesis
    using feed_is_exact[OF _ run, of 1 "demo_command 1 1 [range_point [5]] 6" ?q "\<lparr>lp_term = 1, lp_index = 2\<rparr>"]
    by (auto simp: demo_shape committed_log_def word_less_nat_alt word_le_nat_alt)
qed

text \<open>A write of the key 5, which only the first partition owns, with the acceptance of its resolver.\<close>

definition demo_statement :: cell_resolver_decision_statement where
  "demo_statement = \<lparr>ds_format_version = 1, ds_cell_id = CELL_ID, ds_tenant_id = TENANT_ID, ds_generation = 1, ds_map_epoch = 1,
     ds_map_sha256 = replicate 32 0, ds_resolver_id = 1, ds_resolver_incarnation = cell_resolver_incarnation 1,
     ds_transaction_identity = (1, 1), ds_candidate_sequence = 1, ds_read_version = \<lparr>crv_generation = 1, crv_sequence = 0\<rparr>,
     ds_resolver_read_sequence = 0, ds_transaction_sha256 = replicate 32 0, ds_read_conflicts = [],
     ds_write_conflicts = [range_point [5]], ds_decision = Accept\<rparr>"

definition demo_resolution :: cell_partitioned_resolution where
  "demo_resolution = \<lparr>pn_transaction_system_generation = 0, pn_resolver_read_sequence = 0, pn_map_epoch = 1, pn_candidate_sequence = 1,
     pn_attestations = [the (sign_cell_resolver_decision demo_cell_env demo_statement)]\<rparr>"

definition demo_resolved :: cell_transaction_command where
  "demo_resolved = (demo_command 1 0 [] 5)\<lparr>ct_partitioned_resolution := Some demo_resolution\<rparr>"

lemma demo_required: "required_conflicts demo_resolved = [(1, [], [range_point [5]])]"
  by (simp add: required_conflicts_eq cell_resolver_partitions_def clipped_conflicts_def demo_resolved_def demo_command_def range_point_def
      range_overlaps_def sort_dedup_def Let_def word_less_nat_alt max_def min_def)

lemma demo_resolution_fields [simp]:
  "pn_transaction_system_generation demo_resolution = 0" "pn_resolver_read_sequence demo_resolution = 0" "pn_map_epoch demo_resolution = 1"
  "pn_candidate_sequence demo_resolution = 1" "pn_attestations demo_resolution = [the (sign_cell_resolver_decision demo_cell_env demo_statement)]"
  by (simp_all add: demo_resolution_def)

lemma demo_signed:
  "decision_signed demo_cell_env (the (sign_cell_resolver_decision demo_cell_env demo_statement)) = Some True"
  "da_statement (the (sign_cell_resolver_decision demo_cell_env demo_statement)) = demo_statement"
  by (simp_all add: decision_signed_def sign_cell_resolver_decision_def decision_signing_bytes_def demo_cell_env_def cell_resolver_public_key_def Let_def)

lemma demo_digests:
  "cell_partitioned_transaction_sha256 demo_cell_env c = Some (replicate 32 0)" "cell_resolver_map_sha256 demo_cell_env = Some (replicate 32 0)"
  by (simp_all add: cell_partitioned_transaction_sha256_def cell_resolver_map_sha256_def demo_cell_env_def demo_sha_def)

lemma demo_matches:
  "decision_matches demo_cell_env demo_resolved demo_resolution (replicate 32 0) (replicate 32 0) ([], [range_point [5]])
     (the (sign_cell_resolver_decision demo_cell_env demo_statement))"
  by (simp add: decision_matches_def demo_signed resolution_generation_def resolution_read_sequence_def)
     (simp add: demo_statement_def demo_resolved_def demo_command_def)

lemma demo_verified: "verify_partitioned_resolution demo_cell_env demo_resolved demo_resolution = Some (Ok Accept)"
  by (simp add: verify_partitioned_resolution_def demo_digests demo_required bt_get_Cons demo_matches demo_signed)
     (simp add: demo_statement_def bt_get_Cons demo_matches)

lemma demo_resolved_commits:
  "\<exists>r st. cell_run demo_cell_env [(demo_resolved, 1)] [] = Some ([r], st) \<and> cr_status r = Committed"
proof -
  let ?d = "domain_new CELL_ID TENANT_ID 1"
  have c: "ct_cell_id demo_resolved = CELL_ID" "ct_tenant_id demo_resolved = TENANT_ID" "ct_generation demo_resolved = 1"
    "ct_partitioned_resolution demo_resolved = Some demo_resolution" by (simp_all add: demo_resolved_def)
  have "parts_ok (cell_envelope_parts demo_resolved 1 1 REQUIRED_LOG_TAGS (replicate 32 0) [0] [0] [0])"
    by (simp add: parts_ok_def cell_envelope_parts_def c CELL_ID_def TENANT_ID_def RESOLVER_SET_ID_def REQUIRED_LOG_TAGS_def
        from_parts_def ZERO_def word_less_nat_alt)
  then obtain e where "cell_envelope demo_cell_env demo_resolved 1 1 REQUIRED_LOG_TAGS (replicate 32 0) = Some e"
    using from_parts_decodes[OF demo_sha_digest32, of "cell_envelope_parts demo_resolved 1 1 REQUIRED_LOG_TAGS (replicate 32 0) [0] [0] [0]"]
    by (auto simp: cell_envelope_def demo_cell_env_def)
  then have commit: "\<exists>r d'. commit_domain demo_cell_env demo_resolved 1 (resolver_progress 1 1 ?d) = Some (r, d') \<and> cr_status r = Committed"
    by (simp add: commit_domain_def domain_new_def Let_def)
  have "range_valid (range_point [5])" "cell_range_contains (range_point [5]) [5]" by (simp_all add: range_valid_def point_contains, simp add: range_point_def)
  then have "admission demo_resolved ?d = None"
    by (simp add: admission_def demo_resolved_def demo_command_def domain_new_def valid_request_def cell_contains_all_def REQUIRED_LOG_TAGS_def)
  moreover have "candidate_order_valid demo_resolved demo_resolution ?d" "resolution_generation demo_resolved demo_resolution = 1"
    by (simp_all add: candidate_order_valid_def resolution_generation_def c domain_new_def)
  ultimately have "apply_domain demo_cell_env demo_resolved 1 no_fence_faults ?d = commit_domain demo_cell_env demo_resolved 1 (resolver_progress 1 1 ?d)"
    by (simp add: apply_domain_def skip_staged_head_def no_fence_faults_def c demo_verified Let_def)
  with commit show ?thesis by (auto simp: cell_apply_first c cell_apply_def at_domain_def locate_domain_def domain_new_def)
qed

theorem partitioned_commit_needs_every_resolver_witness:
  "\<exists>r st. cell_run demo_cell_env [(demo_resolved, 1)] [] = Some ([r], st) \<and> cr_status r = Committed \<and>
     set (attested_ids (pn_attestations demo_resolution)) = set (touched_resolvers demo_resolved)"
proof -
  obtain r st where run: "cell_run demo_cell_env [(demo_resolved, 1)] [] = Some ([r], st)" "cr_status r = Committed"
    using demo_resolved_commits by blast
  then show ?thesis
    using partitioned_commit_needs_every_resolver[OF run(1), of 0 demo_resolved 1 demo_resolution] by (auto simp: demo_resolved_def)
qed
end
