(* ===== verification/Cell_Certificates.thy ===== *)
theory Cell_Certificates
  imports Cell_Transaction
begin

text \<open>
  The signed statements of the tagged logs (\<open>okv-consensus/src/cell_transaction.rs\<close>): their signing bytes
  and signing functions, the digests of policies and certificates, the staged window, and the verification of
  every certificate against the policy of its log set. The verifiers share one loop over attestations.
\<close>

section \<open>Signing bytes\<close>

definition STAGED_COMMAND_MAGIC :: bytes where "STAGED_COMMAND_MAGIC = ascii ''OKVT2''"
definition TAGGED_LOG_CERTIFICATE_MAGIC :: bytes where
  "TAGGED_LOG_CERTIFICATE_MAGIC = ascii ''OKV-TAGGED-LOG-CERTIFICATE-V1'' @ [0]"
definition TAGGED_LOG_FENCE_CERTIFICATE_MAGIC :: bytes where
  "TAGGED_LOG_FENCE_CERTIFICATE_MAGIC = ascii ''OKV-TAGGED-LOG-FENCE-CERTIFICATE-V1'' @ [0]"
definition TAGGED_LOG_PREFIX_FENCE_CERTIFICATE_MAGIC :: bytes where
  "TAGGED_LOG_PREFIX_FENCE_CERTIFICATE_MAGIC = ascii ''OKV-TAGGED-LOG-PREFIX-FENCE-CERTIFICATE-V1'' @ [0]"
definition TAGGED_LOG_CAPACITY_CERTIFICATE_MAGIC :: bytes where
  "TAGGED_LOG_CAPACITY_CERTIFICATE_MAGIC = ascii ''OKV-TAGGED-LOG-CAPACITY-CERTIFICATE-V1'' @ [0]"
definition TAGGED_LOG_POP_CERTIFICATE_MAGIC :: bytes where
  "TAGGED_LOG_POP_CERTIFICATE_MAGIC = ascii ''OKV-TAGGED-LOG-POP-CERTIFICATE-V1'' @ [0]"
definition TAGGED_LOG_REPAIR_CERTIFICATE_MAGIC :: bytes where
  "TAGGED_LOG_REPAIR_CERTIFICATE_MAGIC = ascii ''OKV-TAGGED-LOG-REPAIR-CERTIFICATE-V1'' @ [0]"
definition TAGGED_LOG_POLICY_STAGE_CERTIFICATE_MAGIC :: bytes where
  "TAGGED_LOG_POLICY_STAGE_CERTIFICATE_MAGIC = ascii ''OKV-TAGGED-LOG-POLICY-STAGE-CERTIFICATE-V1'' @ [0]"
definition LOG_SET_POLICY_ACTIVATION_CERTIFICATE_MAGIC :: bytes where
  "LOG_SET_POLICY_ACTIVATION_CERTIFICATE_MAGIC = ascii ''OKV-LOG-SET-POLICY-ACTIVATION-CERTIFICATE-V1'' @ [0]"
definition STAGED_WINDOW_MAGIC :: bytes where
  "STAGED_WINDOW_MAGIC = ascii ''OKV-STAGED-WINDOW-V1'' @ [0]"

definition log_signing_bytes :: "cell_env \<Rightarrow> cell_tagged_log_statement \<Rightarrow> bytes option" where
  "log_signing_bytes env st = map_option (\<lambda>j. TAGGED_LOG_CERTIFICATE_MAGIC @ j) (cv_json env (JLogStatement st))"

definition fence_signing_bytes :: "cell_env \<Rightarrow> cell_tagged_log_fence_statement \<Rightarrow> bool \<Rightarrow> bytes option" where
  "fence_signing_bytes env st record_present =
     map_option (\<lambda>j. TAGGED_LOG_FENCE_CERTIFICATE_MAGIC @ j @ [of_bool record_present]) (cv_json env (JFenceStatement st))"

definition prefix_fence_signing_bytes ::
  "cell_env \<Rightarrow> cell_tagged_log_prefix_fence_statement \<Rightarrow> cell_tagged_log_prefix_observation list \<Rightarrow> bytes option" where
  "prefix_fence_signing_bytes env st observations =
     map_option (\<lambda>j. TAGGED_LOG_PREFIX_FENCE_CERTIFICATE_MAGIC @ j) (cv_json env (JPrefixFence st observations))"

definition capacity_signing_bytes ::
  "cell_env \<Rightarrow> cell_tagged_log_capacity_statement \<Rightarrow> cell_tagged_log_capacity_attestation \<Rightarrow> bytes option" where
  "capacity_signing_bytes env st a = map_option (\<lambda>j. TAGGED_LOG_CAPACITY_CERTIFICATE_MAGIC @ j)
     (cv_json env (JCapacity st (cpa_signer_id a) (cpa_last_position a) (cpa_popped_through a) (cpa_retained_bytes a)
        (cpa_hard_limit_bytes a) (cpa_sample_epoch a)))"

definition pop_signing_bytes ::
  "cell_env \<Rightarrow> cell_tagged_log_pop_statement \<Rightarrow> cell_tagged_log_pop_attestation \<Rightarrow> bytes option" where
  "pop_signing_bytes env st a = map_option (\<lambda>j. TAGGED_LOG_POP_CERTIFICATE_MAGIC @ j)
     (cv_json env (JPop st (ppa_signer_id a) (ppa_last_position a) (ppa_popped_through a) (ppa_retained_bytes a) (ppa_sample_epoch a)))"

definition repair_signing_bytes ::
  "cell_env \<Rightarrow> cell_tagged_log_repair_statement \<Rightarrow> cell_tagged_log_repair_attestation \<Rightarrow> bytes option" where
  "repair_signing_bytes env st a = map_option (\<lambda>j. TAGGED_LOG_REPAIR_CERTIFICATE_MAGIC @ j)
     (cv_json env (JRepair st (rpa_signer_id a) (rpa_source_sample_epoch a)))"

definition policy_stage_signing_bytes ::
  "cell_env \<Rightarrow> cell_tagged_log_policy_stage_statement \<Rightarrow> cell_tagged_log_policy_stage_attestation \<Rightarrow> bytes option" where
  "policy_stage_signing_bytes env st a = map_option (\<lambda>j. TAGGED_LOG_POLICY_STAGE_CERTIFICATE_MAGIC @ j)
     (cv_json env (JPolicyStage st (psa_signer_id a) (psa_source_sample_epoch a)))"

definition activation_signing_bytes :: "cell_env \<Rightarrow> cell_policy_activation_statement \<Rightarrow> bytes option" where
  "activation_signing_bytes env st =
     map_option (\<lambda>j. LOG_SET_POLICY_ACTIVATION_CERTIFICATE_MAGIC @ j) (cv_json env (JActivation st))"

section \<open>Signing\<close>

text \<open>\<open>Ed25519KeyPair::from_seed_unchecked\<close> succeeds if the seed has a public key; the error is \<open>None\<close>.\<close>

definition tagged_log_public_key :: "cell_env \<Rightarrow> bytes \<Rightarrow> bytes option" where
  "tagged_log_public_key env seed = cv_public_key env seed"

definition seed_sign :: "cell_env \<Rightarrow> bytes \<Rightarrow> bytes option \<Rightarrow> bytes option" where
  "seed_sign env seed bs = (case cv_public_key env seed of None \<Rightarrow> None | Some _ \<Rightarrow> map_option (cv_sign env seed) bs)"

definition sign_tagged_log_statement ::
  "cell_env \<Rightarrow> u64 \<Rightarrow> bytes \<Rightarrow> cell_tagged_log_statement \<Rightarrow> cell_tagged_log_attestation option" where
  "sign_tagged_log_statement env signer seed st =
     map_option (\<lambda>sig. \<lparr>ta_signer_id = signer, ta_signature = sig\<rparr>) (seed_sign env seed (log_signing_bytes env st))"

definition sign_tagged_log_fence_statement ::
  "cell_env \<Rightarrow> u64 \<Rightarrow> bytes \<Rightarrow> cell_tagged_log_fence_statement \<Rightarrow> bool \<Rightarrow> cell_tagged_log_fence_attestation option" where
  "sign_tagged_log_fence_statement env signer seed st present =
     map_option (\<lambda>sig. \<lparr>tfa_signer_id = signer, tfa_record_present = present, tfa_signature = sig\<rparr>)
       (seed_sign env seed (fence_signing_bytes env st present))"

definition sign_tagged_log_prefix_fence_statement ::
  "cell_env \<Rightarrow> u64 \<Rightarrow> bytes \<Rightarrow> cell_tagged_log_prefix_fence_statement \<Rightarrow> cell_tagged_log_prefix_observation list \<Rightarrow>
     cell_tagged_log_prefix_fence_attestation option" where
  "sign_tagged_log_prefix_fence_statement env signer seed st observations =
     map_option (\<lambda>sig. \<lparr>pfa_signer_id = signer, pfa_observations = observations, pfa_signature = sig\<rparr>)
       (seed_sign env seed (prefix_fence_signing_bytes env st observations))"

definition sign_tagged_log_capacity_statement ::
  "cell_env \<Rightarrow> bytes \<Rightarrow> cell_tagged_log_capacity_statement \<Rightarrow> cell_tagged_log_capacity_attestation \<Rightarrow>
     cell_tagged_log_capacity_attestation option" where
  "sign_tagged_log_capacity_statement env seed st a =
     map_option (\<lambda>sig. a\<lparr>cpa_signature := sig\<rparr>) (seed_sign env seed (capacity_signing_bytes env st (a\<lparr>cpa_signature := []\<rparr>)))"

definition sign_tagged_log_pop_statement ::
  "cell_env \<Rightarrow> bytes \<Rightarrow> cell_tagged_log_pop_statement \<Rightarrow> cell_tagged_log_pop_attestation \<Rightarrow> cell_tagged_log_pop_attestation option" where
  "sign_tagged_log_pop_statement env seed st a =
     map_option (\<lambda>sig. a\<lparr>ppa_signature := sig\<rparr>) (seed_sign env seed (pop_signing_bytes env st (a\<lparr>ppa_signature := []\<rparr>)))"

definition sign_tagged_log_repair_statement ::
  "cell_env \<Rightarrow> bytes \<Rightarrow> cell_tagged_log_repair_statement \<Rightarrow> cell_tagged_log_repair_attestation \<Rightarrow>
     cell_tagged_log_repair_attestation option" where
  "sign_tagged_log_repair_statement env seed st a =
     map_option (\<lambda>sig. a\<lparr>rpa_signature := sig\<rparr>) (seed_sign env seed (repair_signing_bytes env st (a\<lparr>rpa_signature := []\<rparr>)))"

definition sign_tagged_log_policy_stage_statement ::
  "cell_env \<Rightarrow> bytes \<Rightarrow> cell_tagged_log_policy_stage_statement \<Rightarrow> cell_tagged_log_policy_stage_attestation \<Rightarrow>
     cell_tagged_log_policy_stage_attestation option" where
  "sign_tagged_log_policy_stage_statement env seed st a =
     map_option (\<lambda>sig. a\<lparr>psa_signature := sig\<rparr>) (seed_sign env seed (policy_stage_signing_bytes env st (a\<lparr>psa_signature := []\<rparr>)))"

definition cell_log_set_policy_authority_seed :: "cell_env \<Rightarrow> bytes \<Rightarrow> u64 \<Rightarrow> bytes" where
  "cell_log_set_policy_authority_seed env base_seed node_id =
     cv_sha env (ascii ''okv-cell-log-set-policy-authority-seed-v1'' @ base_seed @ u64_be node_id)"

definition sign_policy_activation_statement ::
  "cell_env \<Rightarrow> u64 \<Rightarrow> bytes \<Rightarrow> cell_policy_activation_statement \<Rightarrow> cell_policy_activation_attestation option" where
  "sign_policy_activation_statement env signer seed st =
     map_option (\<lambda>sig. \<lparr>aca_signer_id = signer, aca_signature = sig\<rparr>) (seed_sign env seed (activation_signing_bytes env st))"

section \<open>Digests\<close>

text \<open>\<open>Sha256::digest(serde_json::to_vec(..).unwrap_or_default())\<close>\<close>

definition json_sha256 :: "cell_env \<Rightarrow> cell_json \<Rightarrow> bytes" where
  "json_sha256 env j = cv_sha env (case cv_json env j of None \<Rightarrow> [] | Some bs \<Rightarrow> bs)"

definition sort_members :: "cell_log_set_policy \<Rightarrow> cell_log_set_policy" where
  "sort_members p = p\<lparr>lsp_members := sort_key (\<lambda>m. (lm_node_id m, lm_public_key m)) (lsp_members p)\<rparr>"

definition cell_log_set_policy_sha256 :: "cell_env \<Rightarrow> cell_log_set_policy \<Rightarrow> bytes" where
  "cell_log_set_policy_sha256 env p = json_sha256 env (JPolicy (sort_members p))"

definition cell_log_set_policy_transition_sha256 :: "cell_env \<Rightarrow> cell_log_set_policy_transition \<Rightarrow> bytes" where
  "cell_log_set_policy_transition_sha256 env t =
     json_sha256 env (JTransition (t\<lparr>pt_old_policy := sort_members (pt_old_policy t), pt_next_policy := sort_members (pt_next_policy t)\<rparr>))"

definition cell_tagged_log_repair_certificate_sha256 :: "cell_env \<Rightarrow> cell_tagged_log_repair_certificate \<Rightarrow> bytes" where
  "cell_tagged_log_repair_certificate_sha256 env c =
     json_sha256 env (JRepairCertificate (c\<lparr>rpc_attestations := sort_key rpa_signer_id (rpc_attestations c)\<rparr>))"

definition cell_tagged_log_policy_stage_certificate_sha256 :: "cell_env \<Rightarrow> cell_tagged_log_policy_stage_certificate \<Rightarrow> bytes" where
  "cell_tagged_log_policy_stage_certificate_sha256 env c =
     json_sha256 env (JPolicyStageCertificate (c\<lparr>psc_attestations := sort_key psa_signer_id (psc_attestations c)\<rparr>))"

definition ratekeeper_transaction_sha256 :: "cell_env \<Rightarrow> cell_transaction_command \<Rightarrow> bytes option" where
  "ratekeeper_transaction_sha256 env c =
     map_option (\<lambda>bs. cv_sha env (ascii ''okv-ratekeeper-transaction-v1'' @ bs)) (cv_json env (JCommand (canonicalize_transaction c)))"

definition activation_statement_new :: "cell_env \<Rightarrow> completed_policy_transition \<Rightarrow> cell_policy_activation_statement" where
  "activation_statement_new env completed =
     (let t = cpt_transition completed in
      \<lparr>acs_format_version = 1, acs_cell_id = pt_cell_id t, acs_tenant_id = pt_tenant_id t, acs_generation = pt_generation t,
       acs_transition_id = pt_transition_id t, acs_log_set_id = pt_log_set_id t,
       acs_next_policy_epoch = lsp_policy_epoch (pt_next_policy t), acs_next_policy_sha256 = cell_log_set_policy_sha256 env (pt_next_policy t),
       acs_successor_stage_sha256 = cpt_successor_stage_sha256 completed,
       acs_authority_commit_index = cpt_authority_commit_index completed\<rparr>)"

section \<open>The staged window\<close>

text \<open>\<open>windows(2).all(|pair| pair[1] == pair[0].saturating_add(1))\<close>\<close>

fun consecutive :: "u64 list \<Rightarrow> bool" where
  "consecutive (a # b # ss) \<longleftrightarrow> b = saturating_add a 1 \<and> consecutive (b # ss)"
| "consecutive _ \<longleftrightarrow> True"

definition window_canonical_sha256 :: "cell_env \<Rightarrow> cell_staged_window \<Rightarrow> bytes option" where
  "window_canonical_sha256 env w = map_option (\<lambda>j. cv_sha env (STAGED_WINDOW_MAGIC @ j))
     (cv_json env (JWindow (sw_format_version w) (sw_first_sequence w) (sw_last_sequence w) (sw_encoded_bytes w) (sw_records w)))"

definition window_new :: "cell_env \<Rightarrow> cell_staged_window_record list \<Rightarrow> u64 \<Rightarrow> cell_staged_window option" where
  "window_new env records encoded_bytes =
     (if records = [] then None
      else if encoded_bytes = 0 \<or> list_ex (\<lambda>r. swr_commit_sequence r = 0) records \<or> \<not> consecutive (map swr_commit_sequence records)
      then None
      else let w = \<lparr>sw_format_version = 1, sw_first_sequence = swr_commit_sequence (hd records),
                    sw_last_sequence = swr_commit_sequence (last records), sw_encoded_bytes = encoded_bytes,
                    sw_records = records, sw_window_sha256 = replicate 32 0\<rparr> in
           map_option (\<lambda>d. w\<lparr>sw_window_sha256 := d\<rparr>) (window_canonical_sha256 env w))"

definition window_valid_identity :: "cell_env \<Rightarrow> cell_staged_window \<Rightarrow> bool" where
  "window_valid_identity env w \<longleftrightarrow> sw_format_version w = 1 \<and> sw_records w \<noteq> []
     \<and> sw_first_sequence w = swr_commit_sequence (hd (sw_records w)) \<and> sw_last_sequence w = swr_commit_sequence (last (sw_records w))
     \<and> consecutive (map swr_commit_sequence (sw_records w)) \<and> window_canonical_sha256 env w = Some (sw_window_sha256 w)"

section \<open>Verification\<close>

definition member_map :: "cell_log_set_policy \<Rightarrow> (u64, bytes) btree" where
  "member_map p = fold (\<lambda>m acc. bt_insert (lm_node_id m) (lm_public_key m) acc) (lsp_members p) []"

text \<open>
  The loop of the verifiers: distinct signers, the extra check of the certificate kind, a member of the
  policy, signing bytes and a valid signature. The result is the set of signers.
\<close>

fun verify_signers ::
  "cell_env \<Rightarrow> (u64, bytes) btree \<Rightarrow> ('a \<Rightarrow> u64) \<Rightarrow> ('a \<Rightarrow> bool) \<Rightarrow> ('a \<Rightarrow> bytes option) \<Rightarrow> ('a \<Rightarrow> bytes) \<Rightarrow>
     'a list \<Rightarrow> u64 set \<Rightarrow> u64 set option" where
  "verify_signers env members signer ok bs sig [] seen = Some seen"
| "verify_signers env members signer ok bs sig (a # as) seen =
     (if signer a \<in> seen \<or> \<not> ok a then None
      else case bt_get members (signer a) of None \<Rightarrow> None
      | Some public_key \<Rightarrow>
         (case bs a of None \<Rightarrow> None
          | Some payload \<Rightarrow>
              if cv_verify env public_key payload (sig a)
              then verify_signers env members signer ok bs sig as (insert (signer a) seen) else None))"

definition quorum_reached :: "u16 \<Rightarrow> u64 set option \<Rightarrow> bool" where
  "quorum_reached quorum signers \<longleftrightarrow> (case signers of None \<Rightarrow> False | Some seen \<Rightarrow> unat quorum \<le> card seen)"

definition verify_tagged_log_envelope_certificate ::
  "cell_env \<Rightarrow> cell_tagged_log_certificate \<Rightarrow> cell_log_set_policy \<Rightarrow> bytes \<Rightarrow> bool" where
  "verify_tagged_log_envelope_certificate env c p encoded =
     (case envelope_decode (cv_sha env) encoded of
        Err _ \<Rightarrow> False
      | Ok envelope \<Rightarrow>
          if take 8 (ce_client_id envelope) \<noteq> replicate 8 0 then False
          else
            let st = tc_statement c in
            if lsp_format_version p \<noteq> 1 \<or> lsp_generation p \<noteq> ce_generation envelope \<or> lsp_policy_epoch p = 0
              \<or> lsp_log_set_id p = 0 \<or> lsp_quorum_size p = 0 \<or> unat (lsp_quorum_size p) > length (lsp_members p)
              \<or> card (lm_node_id ` set (lsp_members p)) \<noteq> length (lsp_members p)
              \<or> ts_format_version st \<noteq> 1 \<or> ts_cell_id st \<noteq> ce_cell_id envelope \<or> ts_tenant_id st \<noteq> ce_tenant_id envelope
              \<or> ts_generation st \<noteq> ce_generation envelope
              \<or> ts_transaction_identity st \<noteq> (u64_of_be (drop 8 (ce_client_id envelope)), ce_request_id envelope)
              \<or> ts_commit_sequence st \<noteq> sequence (ce_version envelope) \<or> ts_log_set_id st \<noteq> lsp_log_set_id p
              \<or> ts_policy_epoch st \<noteq> lsp_policy_epoch p \<or> ts_envelope_sha256 st \<noteq> cv_sha env encoded
              \<or> ts_durable_position st = 0 \<or> ts_log_set_id st \<notin> set (ce_required_log_tags envelope)
            then False
            else case log_signing_bytes env st of None \<Rightarrow> False
            | Some bs \<Rightarrow> quorum_reached (lsp_quorum_size p)
                (verify_signers env (member_map p) ta_signer_id (\<lambda>_. True) (\<lambda>_. Some bs) ta_signature (tc_attestations c) {}))"

definition verify_policy_activation_certificate ::
  "cell_env \<Rightarrow> cell_policy_activation_certificate \<Rightarrow> (u64, bytes) btree \<Rightarrow> u16 \<Rightarrow> bool" where
  "verify_policy_activation_certificate env c authority_members quorum =
     (let st = acc_statement c in
      if acs_format_version st \<noteq> 1 \<or> acs_generation st = 0 \<or> acs_transition_id st = 0 \<or> acs_log_set_id st = 0
        \<or> acs_next_policy_epoch st = 0 \<or> acs_next_policy_sha256 st = replicate 32 0 \<or> acs_successor_stage_sha256 st = replicate 32 0
        \<or> acs_authority_commit_index st = 0 \<or> quorum = 0 \<or> unat quorum > length authority_members
      then False
      else case activation_signing_bytes env st of None \<Rightarrow> False
      | Some bs \<Rightarrow> quorum_reached quorum
          (verify_signers env authority_members aca_signer_id (\<lambda>_. True) (\<lambda>_. Some bs) aca_signature (acc_attestations c) {}))"

definition verify_tagged_log_policy_stage_certificate ::
  "cell_env \<Rightarrow> cell_tagged_log_policy_stage_certificate \<Rightarrow> cell_log_set_policy_transition \<Rightarrow> bool" where
  "verify_tagged_log_policy_stage_certificate env c t =
     (let st = psc_statement c in
      if pss_format_version st \<noteq> 1 \<or> pss_cell_id st \<noteq> pt_cell_id t \<or> pss_tenant_id st \<noteq> pt_tenant_id t
        \<or> pss_generation st \<noteq> pt_generation t \<or> pss_transition_id st \<noteq> pt_transition_id t \<or> pss_log_set_id st \<noteq> pt_log_set_id t
        \<or> pss_old_policy_epoch st \<noteq> lsp_policy_epoch (pt_old_policy t) \<or> pss_next_policy_epoch st \<noteq> lsp_policy_epoch (pt_next_policy t)
        \<or> pss_transition_sha256 st \<noteq> cell_log_set_policy_transition_sha256 env t
        \<or> pss_retained_root_sha256 st \<noteq> pt_retained_root_sha256 t \<or> pss_retained_last_position st \<noteq> pt_retained_last_position t
      then False
      else quorum_reached (lsp_quorum_size (pt_next_policy t))
        (verify_signers env (member_map (pt_next_policy t)) psa_signer_id (\<lambda>a. psa_source_sample_epoch a \<noteq> 0)
           (policy_stage_signing_bytes env st) psa_signature (psc_attestations c) {}))"

definition verify_tagged_log_capacity_certificate ::
  "cell_env \<Rightarrow> cell_tagged_log_capacity_certificate \<Rightarrow> cell_log_set_policy \<Rightarrow> bool" where
  "verify_tagged_log_capacity_certificate env c p =
     (let st = cpc_statement c in
      if cps_format_version st \<noteq> 1 \<or> cps_generation st \<noteq> lsp_generation p \<or> cps_log_set_id st \<noteq> lsp_log_set_id p
        \<or> cps_policy_epoch st \<noteq> lsp_policy_epoch p \<or> cps_projected_frame_bytes st = 0 \<or> cps_soft_limit_bytes st = 0
        \<or> cps_reservation_epoch st = 0
      then False
      else quorum_reached (lsp_quorum_size p)
        (verify_signers env (member_map p) cpa_signer_id (\<lambda>a. cpa_sample_epoch a \<noteq> 0 \<and> \<not> cpa_hard_limit_bytes a < cps_soft_limit_bytes st)
           (capacity_signing_bytes env st) cpa_signature (cpc_attestations c) {}))"

definition verify_tagged_log_pop_certificate ::
  "cell_env \<Rightarrow> cell_tagged_log_pop_certificate \<Rightarrow> cell_log_set_policy \<Rightarrow> bool" where
  "verify_tagged_log_pop_certificate env c p =
     (let st = ppc_statement c in
      if pps_format_version st \<noteq> 1 \<or> pps_generation st \<noteq> lsp_generation p \<or> pps_log_set_id st \<noteq> lsp_log_set_id p
        \<or> pps_policy_epoch st \<noteq> lsp_policy_epoch p \<or> pps_object_frontier st = 0 \<or> pps_pop_epoch st = 0
        \<or> pps_publication_root_sha256 st = replicate 32 0
      then False
      else quorum_reached (lsp_quorum_size p)
        (verify_signers env (member_map p) ppa_signer_id (\<lambda>a. ppa_sample_epoch a \<noteq> 0 \<and> ppa_popped_through a = pps_object_frontier st)
           (pop_signing_bytes env st) ppa_signature (ppc_attestations c) {}))"

definition verify_tagged_log_repair_certificate ::
  "cell_env \<Rightarrow> cell_tagged_log_repair_certificate \<Rightarrow> cell_log_set_policy \<Rightarrow> bool" where
  "verify_tagged_log_repair_certificate env c p =
     (let st = rpc_statement c in
      if rps_format_version st \<noteq> 1 \<or> rps_generation st \<noteq> lsp_generation p \<or> rps_log_set_id st \<noteq> lsp_log_set_id p
        \<or> rps_policy_epoch st \<noteq> lsp_policy_epoch p \<or> rps_repair_id st = 0 \<or> rps_failed_node_id st = 0 \<or> rps_learner_node_id st = 0
        \<or> rps_failed_node_id st = rps_learner_node_id st \<or> rps_learner_incarnation st = replicate 16 0
        \<or> length (rps_learner_public_key st) \<noteq> 32 \<or> rps_last_position st = 0 \<or> rps_popped_through st = 0
        \<or> rps_snapshot_length st = 0 \<or> rps_snapshot_sha256 st = replicate 32 0
        \<or> \<not> list_ex (\<lambda>m. lm_node_id m = rps_failed_node_id st) (lsp_members p)
        \<or> list_ex (\<lambda>m. lm_node_id m = rps_learner_node_id st) (lsp_members p)
      then False
      else quorum_reached (lsp_quorum_size p)
        (verify_signers env (member_map p) rpa_signer_id (\<lambda>a. rpa_source_sample_epoch a \<noteq> 0)
           (repair_signing_bytes env st) rpa_signature (rpc_attestations c) {}))"

definition verify_tagged_log_certificate ::
  "cell_env \<Rightarrow> cell_tagged_log_certificate \<Rightarrow> cell_log_set_policy \<Rightarrow> staged_transaction \<Rightarrow> bytes \<Rightarrow> bytes \<Rightarrow> u64 \<Rightarrow> bool" where
  "verify_tagged_log_certificate env c p staged cell_id tenant_id g =
     (let st = tc_statement c in
      if ts_cell_id st \<noteq> cell_id \<or> ts_tenant_id st \<noteq> tenant_id \<or> ts_generation st \<noteq> g
        \<or> ts_transaction_identity st \<noteq> sg_identity staged \<or> ts_commit_sequence st \<noteq> sg_commit_sequence staged
        \<or> ts_log_set_id st \<notin> set (ct_durable_log_tags (sg_transaction staged))
      then False
      else verify_tagged_log_envelope_certificate env c p (sg_envelope staged))"

definition verify_tagged_log_fence_certificate ::
  "cell_env \<Rightarrow> cell_tagged_log_fence_certificate \<Rightarrow> cell_log_set_policy \<Rightarrow> staged_transaction \<Rightarrow> bytes \<Rightarrow> bytes \<Rightarrow> u64 \<Rightarrow> u64 \<Rightarrow> bool" where
  "verify_tagged_log_fence_certificate env c p staged cell_id tenant_id g recovery =
     (let st = tfc_statement c in
      if tfs_format_version st \<noteq> 1 \<or> tfs_cell_id st \<noteq> cell_id \<or> tfs_tenant_id st \<noteq> tenant_id \<or> tfs_generation st \<noteq> g
        \<or> tfs_recovery_id st \<noteq> recovery \<or> tfs_transaction_identity st \<noteq> sg_identity staged
        \<or> tfs_commit_sequence st \<noteq> sg_commit_sequence staged \<or> tfs_log_set_id st \<noteq> lsp_log_set_id p
        \<or> tfs_policy_epoch st \<noteq> lsp_policy_epoch p \<or> tfs_envelope_sha256 st \<noteq> cv_sha env (sg_envelope staged)
        \<or> tfs_log_set_id st \<notin> set (ct_durable_log_tags (sg_transaction staged))
      then False
      else quorum_reached (lsp_quorum_size p)
        (verify_signers env (member_map p) tfa_signer_id (\<lambda>_. True) (\<lambda>a. fence_signing_bytes env st (tfa_record_present a))
           tfa_signature (tfc_attestations c) {}))"

definition observes :: "cell_staged_window \<Rightarrow> cell_tagged_log_prefix_observation list \<Rightarrow> bool" where
  "observes w observations \<longleftrightarrow>
     map (\<lambda>ob. (pob_transaction_identity ob, pob_commit_sequence ob, pob_envelope_sha256 ob)) observations =
     map (\<lambda>r. (swr_transaction_identity r, swr_commit_sequence r, swr_envelope_sha256 r)) (sw_records w)"

definition verify_tagged_log_prefix_fence_certificate ::
  "cell_env \<Rightarrow> cell_tagged_log_prefix_fence_certificate \<Rightarrow> cell_log_set_policy \<Rightarrow> cell_staged_window \<Rightarrow> bytes \<Rightarrow> bytes \<Rightarrow> u64 \<Rightarrow> u64 \<Rightarrow> bool" where
  "verify_tagged_log_prefix_fence_certificate env c p w cell_id tenant_id g recovery =
     (let st = pfc_statement c in
      if pfs_format_version st \<noteq> 1 \<or> pfs_cell_id st \<noteq> cell_id \<or> pfs_tenant_id st \<noteq> tenant_id \<or> pfs_generation st \<noteq> g
        \<or> pfs_recovery_id st \<noteq> recovery \<or> pfs_log_set_id st \<noteq> lsp_log_set_id p \<or> pfs_policy_epoch st \<noteq> lsp_policy_epoch p
        \<or> pfs_window st \<noteq> w \<or> \<not> window_valid_identity env (pfs_window st)
      then False
      else quorum_reached (lsp_quorum_size p)
        (verify_signers env (member_map p) pfa_signer_id (\<lambda>a. observes w (pfa_observations a))
           (\<lambda>a. prefix_fence_signing_bytes env st (pfa_observations a)) pfa_signature (pfc_attestations c) {}))"

definition valid_log_set_policy :: "cell_log_set_policy \<Rightarrow> u64 \<Rightarrow> bool" where
  "valid_log_set_policy p g \<longleftrightarrow> lsp_format_version p = 1 \<and> lsp_generation p = g \<and> lsp_policy_epoch p > 0 \<and> lsp_log_set_id p > 0
     \<and> lsp_quorum_size p > 0 \<and> (lsp_ratekeeper_soft_limit_bytes p = 0 \<or> lsp_ratekeeper_soft_limit_bytes p \<ge> 1024)
     \<and> unat (lsp_quorum_size p) \<le> length (lsp_members p)
     \<and> card (lm_node_id ` set (lsp_members p)) = length (lsp_members p)
     \<and> list_all (\<lambda>m. lm_node_id m > 0 \<and> length (lm_public_key m) = 32) (lsp_members p)"

definition valid_log_set_policy_transition ::
  "cell_env \<Rightarrow> cell_log_set_policy_transition \<Rightarrow> cell_tagged_log_repair_certificate \<Rightarrow> cell_log_set_policy \<Rightarrow> bytes \<Rightarrow> bytes \<Rightarrow> u64 \<Rightarrow> bool" where
  "valid_log_set_policy_transition env t readiness current cell_id tenant_id g =
     (let old_members = member_map (pt_old_policy t); next_members = member_map (pt_next_policy t);
          removed = filter (\<lambda>node. \<not> bt_contains next_members node) (map fst old_members);
          added = filter (\<lambda>node. \<not> bt_contains old_members node) (map fst next_members);
          unchanged_exact = list_all (\<lambda>(node, key). node = pt_failed_node_id t \<or> bt_get next_members node = Some key) old_members;
          repair = rpc_statement readiness in
      pt_format_version t = 1 \<and> pt_cell_id t = cell_id \<and> pt_tenant_id t = tenant_id \<and> pt_generation t = g
      \<and> pt_transition_id t > 0 \<and> pt_log_set_id t = lsp_log_set_id current \<and> pt_old_policy t = current
      \<and> valid_log_set_policy (pt_next_policy t) g \<and> lsp_log_set_id (pt_next_policy t) = lsp_log_set_id current
      \<and> lsp_policy_epoch (pt_next_policy t) = saturating_add (lsp_policy_epoch current) 1
      \<and> lsp_quorum_size (pt_next_policy t) = lsp_quorum_size current
      \<and> lsp_ratekeeper_soft_limit_bytes (pt_next_policy t) = lsp_ratekeeper_soft_limit_bytes current
      \<and> length (lsp_members (pt_next_policy t)) = length (lsp_members current)
      \<and> removed = [pt_failed_node_id t] \<and> added = [pt_learner_node_id t] \<and> unchanged_exact
      \<and> bt_get next_members (pt_learner_node_id t) = Some (pt_learner_public_key t)
      \<and> pt_learner_incarnation t \<noteq> replicate 16 0 \<and> length (pt_learner_public_key t) = 32
      \<and> rps_phase repair = RepairLearnerReady \<and> rps_cell_id repair = cell_id \<and> rps_tenant_id repair = tenant_id
      \<and> rps_generation repair = g \<and> rps_log_set_id repair = pt_log_set_id t \<and> rps_policy_epoch repair = lsp_policy_epoch current
      \<and> rps_failed_node_id repair = pt_failed_node_id t \<and> rps_learner_node_id repair = pt_learner_node_id t
      \<and> rps_learner_incarnation repair = pt_learner_incarnation t \<and> rps_learner_public_key repair = pt_learner_public_key t
      \<and> rps_snapshot_sha256 repair = pt_retained_root_sha256 t \<and> rps_last_position repair = pt_retained_last_position t
      \<and> cell_tagged_log_repair_certificate_sha256 env readiness = pt_repair_readiness_sha256 t
      \<and> verify_tagged_log_repair_certificate env readiness current)"
end
