(* ===== verification/Cell_Staged.thy ===== *)
theory Cell_Staged
  imports Cell_Certificates
begin

text \<open>
  The staged transaction path of a cell (\<open>CellTransactionState::apply_staged\<close> in
  \<open>okv-consensus/src/cell_transaction.rs\<close>): log-set policies and their transitions, capacity reservation,
  staging, durability receipts and certificates, publication, and the takeover of staged transactions by the
  next generation. Every action returns its response with the new state of the domain; a panic is None.
\<close>

section \<open>Encoding\<close>

definition canonical_action :: "cell_staged_transaction_action \<Rightarrow> cell_staged_transaction_action" where
  "canonical_action action =
     (case action of
        InstallLogSetPolicies policies \<Rightarrow> InstallLogSetPolicies (sort_key lsp_log_set_id (map sort_members policies))
      | PrepareLogSetPolicyTransition t readiness \<Rightarrow>
          PrepareLogSetPolicyTransition
            (t\<lparr>pt_old_policy := sort_members (pt_old_policy t), pt_next_policy := sort_members (pt_next_policy t)\<rparr>)
            (readiness\<lparr>rpc_attestations := sort_key rpa_signer_id (rpc_attestations readiness)\<rparr>)
      | CommitLogSetPolicyTransition transition_id c \<Rightarrow>
          CommitLogSetPolicyTransition transition_id (c\<lparr>psc_attestations := sort_key psa_signer_id (psc_attestations c)\<rparr>)
      | ReserveCapacity tx cs \<Rightarrow>
          ReserveCapacity (canonicalize_transaction tx)
            (sort_key (\<lambda>c. cps_log_set_id (cpc_statement c))
               (map (\<lambda>c. c\<lparr>cpc_attestations := sort_key cpa_signer_id (cpc_attestations c)\<rparr>) cs))
      | Stage tx \<Rightarrow> Stage (canonicalize_transaction tx)
      | RecordLogReceipt receipt \<Rightarrow> RecordLogReceipt (receipt\<lparr>tr_quorum_node_ids := sort_dedup (tr_quorum_node_ids receipt)\<rparr>)
      | RecordLogCertificate c \<Rightarrow> RecordLogCertificate (c\<lparr>tc_attestations := sort_key ta_signer_id (tc_attestations c)\<rparr>)
      | PublishStaged \<Rightarrow> PublishStaged
      | TakeoverPublish g r n h \<Rightarrow> TakeoverPublish g r n h
      | TakeoverAbort g r n h fences \<Rightarrow>
          TakeoverAbort g r n h (sort_key (\<lambda>c. tfs_log_set_id (tfc_statement c))
            (map (\<lambda>c. c\<lparr>tfc_attestations := sort_key tfa_signer_id (tfc_attestations c)\<rparr>) fences))
      | TakeoverRecoverPrefix g r w inventories \<Rightarrow>
          TakeoverRecoverPrefix g r w (sort_key (\<lambda>c. pfs_log_set_id (pfc_statement c))
            (map (\<lambda>c. c\<lparr>pfc_attestations := sort_key pfa_signer_id (pfc_attestations c)\<rparr>) inventories)))"

definition staged_command_encode :: "cell_env \<Rightarrow> cell_staged_transaction_command \<Rightarrow> bytes option" where
  "staged_command_encode env c =
     map_option (\<lambda>j. STAGED_COMMAND_MAGIC @ j) (cv_json env (JStagedCommand (c\<lparr>sc_action := canonical_action (sc_action c)\<rparr>)))"

section \<open>Responses\<close>

definition hex_char :: "nat \<Rightarrow> char" where
  "hex_char n = ''0123456789abcdef'' ! n"

text \<open>\<open>{:016x}\<close>\<close>

definition hex16 :: "u64 \<Rightarrow> string" where
  "hex16 w = map (\<lambda>i. hex_char (unat w div 16 ^ i mod 16)) (rev [0..<16])"

definition capacity_identity_key :: "request_identity \<Rightarrow> string" where
  "capacity_identity_key identity = hex16 (fst identity) @ '':'' @ hex16 (snd identity)"

definition capacity_retry_token :: "cell_env \<Rightarrow> request_identity \<Rightarrow> bytes" where
  "capacity_retry_token env identity =
     cv_sha env (ascii ''okv-ratekeeper-retry-token-v1'' @ u64_be (fst identity) @ u64_be (snd identity))"

abbreviation find_staged :: "request_identity \<Rightarrow> cell_domain_state \<Rightarrow> staged_transaction option" where
  "find_staged identity d \<equiv> find (\<lambda>s. sg_identity s = identity) (cd_staged d)"

definition staged_position :: "request_identity \<Rightarrow> cell_domain_state \<Rightarrow> nat option" where
  "staged_position identity d =
     (let i = length (takeWhile (\<lambda>s. sg_identity s \<noteq> identity) (cd_staged d)) in
      if i < length (cd_staged d) then Some i else None)"

definition staged_response ::
  "cell_domain_state \<Rightarrow> request_identity \<Rightarrow> cell_staged_transaction_status \<Rightarrow> bytes option \<Rightarrow> cell_staged_transaction_response" where
  "staged_response d identity status envelope =
     (let key = capacity_identity_key identity; staged = find_staged identity d in
      \<lparr>sr_status = status, sr_transaction_identity = identity, sr_generation = cd_generation d,
       sr_commit_sequence = map_option sg_commit_sequence staged,
       sr_envelope = (case envelope of Some e \<Rightarrow> Some e | None \<Rightarrow> map_option sg_envelope staged),
       sr_durable_log_sets = (case staged of None \<Rightarrow> []
         | Some s \<Rightarrow> sort_dedup (map fst (sg_receipts s) @ map fst (sg_certificates s))),
       sr_visible = (case staged of None \<Rightarrow> False | Some s \<Rightarrow> sg_visible s),
       sr_aborted = (case staged of None \<Rightarrow> False | Some s \<Rightarrow> sg_aborted s),
       sr_row_count = word_of_nat (length (cd_rows d)), sr_recovered_records = 0, sr_aborted_records = 0,
       sr_capacity_retry_token = bt_get (cd_capacity_retry_tokens d) key,
       sr_capacity_reservation_epoch = (case bt_get (cd_capacity_reservations d) key of
           Some reservation \<Rightarrow> Some (cx_reservation_epoch reservation)
         | None \<Rightarrow> bt_get (cd_capacity_attempt_epochs d) key)\<rparr>)"

definition staged_prefix_response ::
  "cell_domain_state \<Rightarrow> request_identity \<Rightarrow> cell_staged_transaction_status \<Rightarrow> nat \<Rightarrow> nat \<Rightarrow> cell_staged_transaction_response" where
  "staged_prefix_response d identity status recovered aborted =
     (staged_response d identity status None)\<lparr>sr_recovered_records := to_u64 recovered, sr_aborted_records := to_u64 aborted\<rparr>"

text \<open>\<open>return staged_response(domain, command.transaction_identity, status, None)\<close>\<close>

abbreviation staged_return ::
  "cell_staged_transaction_command \<Rightarrow> cell_staged_transaction_status \<Rightarrow> cell_domain_state \<Rightarrow>
     cell_staged_transaction_response \<times> cell_domain_state" where
  "staged_return c status d \<equiv> (staged_response d (sc_transaction_identity c) status None, d)"

section \<open>Policies\<close>

definition install_log_set_policies ::
  "cell_staged_transaction_command \<Rightarrow> cell_log_set_policy list \<Rightarrow> cell_domain_state \<Rightarrow>
     cell_staged_transaction_response \<times> cell_domain_state" where
  "install_log_set_policies c policies d =
     (if policies = [] \<or> unresolved_staged d
        \<or> list_ex (\<lambda>p. \<not> valid_log_set_policy p (sc_generation c)
             \<or> (case bt_get (cd_log_set_policies d) (lsp_log_set_id p) of None \<Rightarrow> False
                | Some existing \<Rightarrow> existing \<noteq> p \<and> lsp_generation existing = lsp_generation p)) policies
        \<or> card (lsp_log_set_id ` set policies) \<noteq> length policies
      then staged_return c InvalidLogSetPolicy d
      else staged_return c LogSetPoliciesInstalled
        (d\<lparr>cd_log_set_policies := fold (\<lambda>p. bt_insert (lsp_log_set_id p) p) policies (cd_log_set_policies d)\<rparr>))"

definition prepare_policy_transition ::
  "cell_env \<Rightarrow> cell_staged_transaction_command \<Rightarrow> generation_fence_faults \<Rightarrow> cell_log_set_policy_transition \<Rightarrow>
     cell_tagged_log_repair_certificate \<Rightarrow> cell_domain_state \<Rightarrow> cell_staged_transaction_response \<times> cell_domain_state" where
  "prepare_policy_transition env c faults t readiness d =
     (case bt_get (cd_completed_transitions d) (pt_transition_id t) of
        Some completed \<Rightarrow>
          staged_return c (if cpt_transition completed = t then AlreadyPolicyTransitionCommitted else InvalidPolicyTransition) d
      | None \<Rightarrow>
         (case cd_pending_transition d of
            Some pending \<Rightarrow> staged_return c (if pending = t then PolicyTransitionPrepared else InvalidPolicyTransition) d
          | None \<Rightarrow>
              let valid = (case bt_get (cd_log_set_policies d) (pt_log_set_id t) of None \<Rightarrow> False
                    | Some current \<Rightarrow> valid_log_set_policy_transition env t readiness current (sc_cell_id c) (sc_tenant_id c) (sc_generation c));
                  readiness_missing = (pt_repair_readiness_sha256 t = replicate 32 0);
                  accepts_invalid = (policy_transition_accept_invalid_next_policy faults
                    \<or> (readiness_missing \<and> policy_transition_accept_missing_readiness faults)) in
              if (unresolved_staged d \<and> \<not> policy_transition_accept_unresolved_stage faults) \<or> (\<not> valid \<and> \<not> accepts_invalid)
              then staged_return c InvalidPolicyTransition d
              else staged_return c PolicyTransitionPrepared
                (d\<lparr>cd_pending_transition := Some t, cd_latest_sequence := saturating_add (cd_latest_sequence d) 1\<rparr>)))"

definition commit_policy_transition ::
  "cell_env \<Rightarrow> cell_staged_transaction_command \<Rightarrow> u64 \<Rightarrow> generation_fence_faults \<Rightarrow> u64 \<Rightarrow> cell_tagged_log_policy_stage_certificate \<Rightarrow>
     cell_domain_state \<Rightarrow> cell_staged_transaction_response \<times> cell_domain_state" where
  "commit_policy_transition env c log_index faults transition_id stage d =
     (case bt_get (cd_completed_transitions d) transition_id of
        Some completed \<Rightarrow>
          staged_return c (if policy_transition_double_apply faults then PolicyTransitionCommitted
            else if cpt_successor_stage_sha256 completed = cell_tagged_log_policy_stage_certificate_sha256 env stage
            then AlreadyPolicyTransitionCommitted else InvalidPolicyTransition) d
      | None \<Rightarrow>
         (case cd_pending_transition d of
            None \<Rightarrow> staged_return c InvalidPolicyTransition d
          | Some t \<Rightarrow>
              if pt_transition_id t \<noteq> transition_id
                \<or> (unresolved_staged d \<and> \<not> policy_transition_accept_unresolved_stage faults)
                \<or> (\<not> verify_tagged_log_policy_stage_certificate env stage t \<and> \<not> policy_transition_accept_mixed_stage_quorum faults)
              then staged_return c InvalidPolicyTransition d
              else staged_return c PolicyTransitionCommitted
                (d\<lparr>cd_log_set_policies := bt_insert (pt_log_set_id t) (pt_next_policy t) (cd_log_set_policies d),
                   cd_completed_transitions := bt_insert transition_id
                     \<lparr>cpt_transition = t, cpt_successor_stage_sha256 = cell_tagged_log_policy_stage_certificate_sha256 env stage,
                      cpt_authority_commit_index = log_index\<rparr> (cd_completed_transitions d),
                   cd_pending_transition := None, cd_latest_sequence := saturating_add (cd_latest_sequence d) 1\<rparr>)))"

section \<open>Capacity\<close>

text \<open>\<open>pending_log_set_policy_transition.is_some_and(..)\<close>: the transaction uses the log set in transition.\<close>

definition uses_pending_log_set :: "cell_transaction_command \<Rightarrow> cell_domain_state \<Rightarrow> bool" where
  "uses_pending_log_set tx d \<longleftrightarrow>
     (case cd_pending_transition d of None \<Rightarrow> False | Some pending \<Rightarrow> pt_log_set_id pending \<in> set (ct_durable_log_tags tx))"

definition existing_status :: "staged_transaction \<Rightarrow> cell_transaction_command \<Rightarrow> cell_staged_transaction_status" where
  "existing_status existing tx =
     (if sg_transaction existing \<noteq> tx then StagedInvalidRequest else if sg_visible existing then AlreadyCommitted
      else if sg_aborted existing then AlreadyAborted else Staged)"

definition sample_fresh :: "cell_domain_state \<Rightarrow> u16 \<Rightarrow> cell_tagged_log_capacity_attestation \<Rightarrow> bool" where
  "sample_fresh d log_set a \<longleftrightarrow> cpa_sample_epoch a >
     (case Option.bind (bt_get (cd_capacity_sample_epochs d) log_set) (\<lambda>epochs. bt_get epochs (cpa_signer_id a)) of None \<Rightarrow> 0 | Some e \<Rightarrow> e)"

definition configured_policies :: "cell_transaction_command \<Rightarrow> cell_domain_state \<Rightarrow> cell_log_set_policy list" where
  "configured_policies tx d = filter (\<lambda>p. lsp_ratekeeper_soft_limit_bytes p > 0)
     (List.map_filter (bt_get (cd_log_set_policies d)) (ct_durable_log_tags tx))"

definition capacity_certificates_valid ::
  "cell_env \<Rightarrow> generation_fence_faults \<Rightarrow> cell_transaction_command \<Rightarrow> cell_tagged_log_capacity_certificate list \<Rightarrow> u64 \<Rightarrow> u64 \<Rightarrow>
     cell_domain_state \<Rightarrow> bool" where
  "capacity_certificates_valid env faults tx certificates epoch previous_epoch d \<longleftrightarrow>
     configured_policies tx d \<noteq> [] \<and> length (configured_policies tx d) = length certificates
     \<and> card ((\<lambda>c. cps_log_set_id (cpc_statement c)) ` set certificates) = length certificates \<and> epoch > previous_epoch
     \<and> list_all (\<lambda>certificate.
          let st = cpc_statement certificate in
          case bt_get (cd_log_set_policies d) (cps_log_set_id st) of None \<Rightarrow> False
          | Some p \<Rightarrow> cps_log_set_id st \<in> set (ct_durable_log_tags tx) \<and> cps_cell_id st = ct_cell_id tx
              \<and> cps_tenant_id st = ct_tenant_id tx \<and> cps_generation st = ct_generation tx
              \<and> cps_transaction_identity st = ct_identity tx \<and> Some (cps_transaction_sha256 st) = ratekeeper_transaction_sha256 env tx
              \<and> cps_soft_limit_bytes st = lsp_ratekeeper_soft_limit_bytes p \<and> cps_reservation_epoch st = epoch
              \<and> (ratekeeper_accept_stale_sample faults
                 \<or> list_all (sample_fresh d (cps_log_set_id st)) (cpc_attestations certificate))
              \<and> verify_tagged_log_capacity_certificate env certificate p) certificates"

definition has_capacity ::
  "generation_fence_faults \<Rightarrow> cell_transaction_command \<Rightarrow> cell_tagged_log_capacity_certificate list \<Rightarrow> cell_domain_state \<Rightarrow> bool" where
  "has_capacity faults tx certificates d \<longleftrightarrow>
     list_all (\<lambda>p. case find (\<lambda>c. cps_log_set_id (cpc_statement c) = lsp_log_set_id p) certificates of None \<Rightarrow> False
       | Some c \<Rightarrow>
           (if ratekeeper_accept_best_node_capacity faults then 1 else unat (lsp_quorum_size p)) \<le>
           length (filter (\<lambda>a. saturating_add (cpa_retained_bytes a) (cps_projected_frame_bytes (cpc_statement c))
               \<le> lsp_ratekeeper_soft_limit_bytes p) (cpc_attestations c)))
       (configured_policies tx d)"

text \<open>\<open>collect()\<close> into a map, later entries winning.\<close>

definition bt_collect :: "('k::linorder \<times> 'v) list \<Rightarrow> ('k, 'v) btree" where
  "bt_collect kvs = fold (\<lambda>(k, v). bt_insert k v) kvs []"

definition reserve_capacity ::
  "cell_env \<Rightarrow> cell_staged_transaction_command \<Rightarrow> generation_fence_faults \<Rightarrow> cell_transaction_command \<Rightarrow>
     cell_tagged_log_capacity_certificate list \<Rightarrow> cell_domain_state \<Rightarrow> cell_staged_transaction_response \<times> cell_domain_state" where
  "reserve_capacity env c faults tx certificates d =
     (let key = capacity_identity_key (sc_transaction_identity c);
          existing = find_staged (sc_transaction_identity c) d;
          epoch = (case certificates of [] \<Rightarrow> 0 | certificate # _ \<Rightarrow> cps_reservation_epoch (cpc_statement certificate));
          previous_epoch = (case bt_get (cd_capacity_attempt_epochs d) key of None \<Rightarrow> 0 | Some e \<Rightarrow> e) in
      if ct_identity tx \<noteq> sc_transaction_identity c \<or> ct_cell_id tx \<noteq> sc_cell_id c \<or> ct_tenant_id tx \<noteq> sc_tenant_id c
        \<or> ct_generation tx \<noteq> sc_generation c \<or> ct_credential tx \<noteq> sc_credential c
        \<or> crv_sequence (ct_read_version tx) > cd_latest_sequence d
        \<or> \<not> cell_contains_all (ct_accepted_resolvers tx) REQUIRED_RESOLVERS
        \<or> \<not> cell_contains_all (ct_durable_log_tags tx) REQUIRED_LOG_TAGS \<or> \<not> valid_request tx
      then staged_return c StagedInvalidRequest d
      else if uses_pending_log_set tx d then staged_return c InvalidPolicyTransition d
      else if (case existing of None \<Rightarrow> False | Some s \<Rightarrow>
          \<not> (ratekeeper_allow_stage_without_reservation faults \<and> sg_transaction s = tx \<and> \<not> sg_visible s \<and> \<not> sg_aborted s))
      then staged_return c (existing_status (the existing) tx) d
      else if \<not> capacity_certificates_valid env faults tx certificates epoch previous_epoch d
      then staged_return c InvalidCapacityCertificate d
      else
        let d = d\<lparr>cd_capacity_attempt_epochs := bt_insert key epoch (cd_capacity_attempt_epochs d),
              cd_capacity_retry_tokens := (if bt_contains (cd_capacity_retry_tokens d) key then cd_capacity_retry_tokens d
                else bt_insert key (capacity_retry_token env (sc_transaction_identity c)) (cd_capacity_retry_tokens d))\<rparr> in
        if \<not> has_capacity faults tx certificates d
        then staged_return c RateLimited (d\<lparr>cd_capacity_reservations := bt_remove key (cd_capacity_reservations d)\<rparr>)
        else staged_return c CapacityReserved (d\<lparr>cd_capacity_reservations := bt_insert key
          \<lparr>cx_transaction = tx, cx_reservation_epoch = epoch,
           cx_sample_epochs = bt_collect (map (\<lambda>certificate. (cps_log_set_id (cpc_statement certificate),
             bt_collect (map (\<lambda>a. (cpa_signer_id a, cpa_sample_epoch a)) (cpc_attestations certificate)))) certificates)\<rparr>
          (cd_capacity_reservations d)\<rparr>))"

section \<open>Staging\<close>

definition stage_admissible :: "cell_staged_transaction_command \<Rightarrow> cell_transaction_command \<Rightarrow> cell_domain_state \<Rightarrow> bool" where
  "stage_admissible c tx d \<longleftrightarrow>
     (let configured = length (filter (bt_contains (cd_log_set_policies d)) (ct_durable_log_tags tx)) in
      \<not> (ct_identity tx \<noteq> sc_transaction_identity c \<or> ct_cell_id tx \<noteq> sc_cell_id c \<or> ct_tenant_id tx \<noteq> sc_tenant_id c
        \<or> ct_generation tx \<noteq> sc_generation c \<or> ct_credential tx \<noteq> sc_credential c
        \<or> (crv_sequence (ct_read_version tx) \<noteq> 0 \<and> crv_generation (ct_read_version tx) \<noteq> ct_generation tx)
        \<or> crv_sequence (ct_read_version tx) > cd_latest_sequence d
        \<or> (ct_partitioned_resolution tx = None \<and> \<not> cell_contains_all (ct_accepted_resolvers tx) REQUIRED_RESOLVERS)
        \<or> \<not> cell_contains_all (ct_durable_log_tags tx) REQUIRED_LOG_TAGS
        \<or> (configured \<noteq> 0 \<and> configured \<noteq> length (ct_durable_log_tags tx)) \<or> \<not> valid_request tx))"

definition staged_read_conflict :: "cell_transaction_command \<Rightarrow> cell_domain_state \<Rightarrow> bool" where
  "staged_read_conflict tx d \<longleftrightarrow>
     list_ex (\<lambda>read. list_ex (\<lambda>w. cw_sequence w > crv_sequence (ct_read_version tx) \<and> range_overlaps read (cw_range w)) (cd_committed_writes d)
       \<or> list_ex (\<lambda>s. \<not> sg_aborted s \<and> sg_commit_sequence s > crv_sequence (ct_read_version tx)
            \<and> list_ex (range_overlaps read) (ct_write_conflicts (sg_transaction s))) (cd_staged d))
       (ct_read_conflicts tx)"

definition ratekeeping_required :: "cell_transaction_command \<Rightarrow> cell_domain_state \<Rightarrow> bool" where
  "ratekeeping_required tx d \<longleftrightarrow>
     list_ex (\<lambda>log_set. case bt_get (cd_log_set_policies d) log_set of None \<Rightarrow> False | Some p \<Rightarrow> lsp_ratekeeper_soft_limit_bytes p > 0)
       (ct_durable_log_tags tx)"

definition reservation_held :: "cell_staged_transaction_command \<Rightarrow> cell_transaction_command \<Rightarrow> cell_domain_state \<Rightarrow> bool" where
  "reservation_held c tx d \<longleftrightarrow>
     (case bt_get (cd_capacity_reservations d) (capacity_identity_key (sc_transaction_identity c)) of
        None \<Rightarrow> False | Some reservation \<Rightarrow> cx_transaction reservation = tx)"

definition staged_chain :: "cell_env \<Rightarrow> generation_fence_faults \<Rightarrow> cell_domain_state \<Rightarrow> bytes" where
  "staged_chain env faults d =
     (case find (\<lambda>s. reuse_aborted_sequence_or_chain faults \<or> \<not> sg_aborted s) (rev (cd_staged d)) of
        None \<Rightarrow> cd_previous_log_chain d | Some s \<Rightarrow> cv_sha env (sg_envelope s))"

definition staged_sequence :: "generation_fence_faults \<Rightarrow> cell_domain_state \<Rightarrow> u64" where
  "staged_sequence faults d =
     saturating_add (case find (\<lambda>s. \<not> reuse_aborted_sequence_or_chain faults \<or> \<not> sg_aborted s) (rev (cd_staged d)) of
        None \<Rightarrow> cd_latest_sequence d | Some s \<Rightarrow> sg_commit_sequence s) 1"

text \<open>The samples of a consumed reservation raise the retained sample epochs.\<close>

definition retain_samples ::
  "(u16, (u64, u64) btree) btree \<Rightarrow> (u16, (u64, u64) btree) btree \<Rightarrow> (u16, (u64, u64) btree) btree" where
  "retain_samples samples retained =
     fold (\<lambda>(log_set, epochs) acc. bt_insert log_set
       (fold (\<lambda>(signer, epoch) m. bt_insert signer (case bt_get m signer of None \<Rightarrow> epoch | Some current \<Rightarrow> max current epoch) m)
          epochs (case bt_get acc log_set of None \<Rightarrow> [] | Some m \<Rightarrow> m)) acc) samples retained"

definition consume_reservation :: "string \<Rightarrow> cell_domain_state \<Rightarrow> cell_domain_state" where
  "consume_reservation key d =
     (case bt_get (cd_capacity_reservations d) key of
        None \<Rightarrow> d
      | Some reservation \<Rightarrow> d\<lparr>cd_capacity_reservations := bt_remove key (cd_capacity_reservations d),
          cd_capacity_sample_epochs := retain_samples (cx_sample_epochs reservation) (cd_capacity_sample_epochs d)\<rparr>)"

text \<open>The new entry: its sequence, its place in the hash chain and its envelope.\<close>

definition append_staged ::
  "cell_env \<Rightarrow> cell_staged_transaction_command \<Rightarrow> u64 \<Rightarrow> generation_fence_faults \<Rightarrow> cell_transaction_command \<Rightarrow> cell_domain_state \<Rightarrow>
     (cell_staged_transaction_response \<times> cell_domain_state) option" where
  "append_staged env c log_index faults tx d =
     (let commit_sequence = staged_sequence faults d in
      case cell_envelope env tx commit_sequence log_index (ct_durable_log_tags tx) (staged_chain env faults d) of
        None \<Rightarrow> None
      | Some encoded \<Rightarrow>
          let d = d\<lparr>cd_staged := cd_staged d @
                [\<lparr>sg_identity = sc_transaction_identity c, sg_transaction = tx, sg_commit_sequence = commit_sequence, sg_envelope = encoded,
                  sg_receipts = [], sg_certificates = [], sg_visible = False, sg_aborted = False\<rparr>]\<rparr>;
              d = consume_reservation (capacity_identity_key (sc_transaction_identity c)) d in
          Some (staged_response d (sc_transaction_identity c) Staged (Some encoded), d))"

text \<open>The checks behind the resolver evidence.\<close>

definition stage_resolved ::
  "cell_env \<Rightarrow> cell_staged_transaction_command \<Rightarrow> u64 \<Rightarrow> generation_fence_faults \<Rightarrow> cell_transaction_command \<Rightarrow>
     cell_resolver_decision option \<Rightarrow> cell_domain_state \<Rightarrow> (cell_staged_transaction_response \<times> cell_domain_state) option" where
  "stage_resolved env c log_index faults tx decision d =
     (if decision = Some Conflict then Some (staged_return c StagedConflict d)
      else if ratekeeping_required tx d \<and> \<not> ratekeeper_allow_stage_without_reservation faults \<and> \<not> reservation_held c tx d
      then Some (staged_return c RatekeepingRequired d)
      else if decision = None \<and> staged_read_conflict tx d then Some (staged_return c StagedConflict d)
      else append_staged env c log_index faults tx d)"

definition stage ::
  "cell_env \<Rightarrow> cell_staged_transaction_command \<Rightarrow> u64 \<Rightarrow> generation_fence_faults \<Rightarrow> cell_transaction_command \<Rightarrow> cell_domain_state \<Rightarrow>
     (cell_staged_transaction_response \<times> cell_domain_state) option" where
  "stage env c log_index faults tx d =
     (if \<not> stage_admissible c tx d then Some (staged_return c StagedInvalidRequest d)
      else if uses_pending_log_set tx d then Some (staged_return c InvalidPolicyTransition d)
      else case find_staged (sc_transaction_identity c) d of
        Some existing \<Rightarrow> Some (staged_return c (existing_status existing tx) d)
      | None \<Rightarrow>
         (case ct_partitioned_resolution tx of
            None \<Rightarrow> stage_resolved env c log_index faults tx None d
          | Some r \<Rightarrow>
              if \<not> candidate_order_valid tx r d then Some (staged_return c StagedInvalidRequest d)
              else (case verify_partitioned_resolution env tx r of
                None \<Rightarrow> None
              | Some (Err _) \<Rightarrow> Some (staged_return c StagedInvalidRequest d)
              | Some (Ok decision) \<Rightarrow>
                  stage_resolved env c log_index faults tx (Some decision)
                    (d\<lparr>cd_last_resolver_candidate := pn_candidate_sequence r,
                       cd_last_resolver_generation := resolution_generation tx r\<rparr>))))"

section \<open>Durability evidence\<close>

definition update_staged :: "nat \<Rightarrow> (staged_transaction \<Rightarrow> staged_transaction) \<Rightarrow> cell_domain_state \<Rightarrow> cell_domain_state" where
  "update_staged i f d = d\<lparr>cd_staged := (cd_staged d)[i := f (cd_staged d ! i)]\<rparr>"

definition record_log_receipt ::
  "cell_env \<Rightarrow> cell_staged_transaction_command \<Rightarrow> cell_tagged_log_receipt \<Rightarrow> cell_domain_state \<Rightarrow>
     cell_staged_transaction_response \<times> cell_domain_state" where
  "record_log_receipt env c receipt d =
     (case staged_position (sc_transaction_identity c) d of
        None \<Rightarrow> staged_return c StagedInvalidRequest d
      | Some i \<Rightarrow>
          let staged = cd_staged d ! i in
          if sg_aborted staged then staged_return c AlreadyAborted d
          else if bt_contains (cd_log_set_policies d) (tr_log_set_id receipt) then staged_return c InvalidLogReceipt d
          else if tr_format_version receipt \<noteq> 1 \<or> tr_generation receipt \<noteq> sc_generation c
            \<or> sc_credential c \<noteq> ct_credential (sg_transaction staged) \<or> tr_envelope_sha256 receipt \<noteq> cv_sha env (sg_envelope staged)
            \<or> tr_durable_position receipt = 0 \<or> card (set (tr_quorum_node_ids receipt)) < 2
            \<or> card (set (tr_quorum_node_ids receipt)) \<noteq> length (tr_quorum_node_ids receipt)
            \<or> tr_log_set_id receipt \<notin> set (ct_durable_log_tags (sg_transaction staged))
          then staged_return c InvalidLogReceipt d
          else case bt_get (sg_receipts staged) (tr_log_set_id receipt) of
            Some existing \<Rightarrow> staged_return c (if existing = receipt then LogReceiptRecorded else ConflictingLogReceipt) d
          | None \<Rightarrow> staged_return c LogReceiptRecorded
              (update_staged i (\<lambda>s. s\<lparr>sg_receipts := bt_insert (tr_log_set_id receipt) receipt (sg_receipts s)\<rparr>) d))"

definition record_log_certificate ::
  "cell_env \<Rightarrow> cell_staged_transaction_command \<Rightarrow> cell_tagged_log_certificate \<Rightarrow> cell_domain_state \<Rightarrow>
     cell_staged_transaction_response \<times> cell_domain_state" where
  "record_log_certificate env c certificate d =
     (case staged_position (sc_transaction_identity c) d of
        None \<Rightarrow> staged_return c StagedInvalidRequest d
      | Some i \<Rightarrow>
          let staged = cd_staged d ! i; log_set = ts_log_set_id (tc_statement certificate) in
          if sg_aborted staged then staged_return c AlreadyAborted d
          else case bt_get (cd_log_set_policies d) log_set of
            None \<Rightarrow> staged_return c InvalidLogCertificate d
          | Some p \<Rightarrow>
              if sc_credential c \<noteq> ct_credential (sg_transaction staged)
                \<or> \<not> verify_tagged_log_certificate env certificate p staged (sc_cell_id c) (sc_tenant_id c) (sc_generation c)
              then staged_return c InvalidLogCertificate d
              else case bt_get (sg_certificates staged) log_set of
                Some existing \<Rightarrow> staged_return c (if existing = certificate then LogCertificateRecorded else ConflictingLogCertificate) d
              | None \<Rightarrow> staged_return c LogCertificateRecorded
                  (update_staged i (\<lambda>s. s\<lparr>sg_certificates := bt_insert log_set certificate (sg_certificates s)\<rparr>) d))"

section \<open>Publication\<close>

definition publish_staged_transaction :: "cell_env \<Rightarrow> nat \<Rightarrow> u64 option \<Rightarrow> cell_domain_state \<Rightarrow> cell_domain_state" where
  "publish_staged_transaction env i next_generation d =
     (let staged = cd_staged d ! i; tx = sg_transaction staged;
          d = d\<lparr>cd_rows := fold apply_cell_mutation (ct_mutations tx) (cd_rows d),
              cd_committed_writes := cd_committed_writes d @
                map (\<lambda>range. \<lparr>cw_sequence = sg_commit_sequence staged, cw_range = range\<rparr>) (ct_write_conflicts tx),
              cd_generation := (case next_generation of None \<Rightarrow> ct_generation tx | Some g \<Rightarrow> g),
              cd_latest_sequence := sg_commit_sequence staged, cd_previous_log_chain := cv_sha env (sg_envelope staged),
              cd_committed_envelopes := cd_committed_envelopes d @ [sg_envelope staged]\<rparr> in
      update_staged i (\<lambda>s. s\<lparr>sg_visible := True\<rparr>) d)"

definition publish_complete :: "cell_domain_state \<Rightarrow> staged_transaction \<Rightarrow> bool" where
  "publish_complete d staged \<longleftrightarrow>
     list_all (\<lambda>log_set. if bt_contains (cd_log_set_policies d) log_set then bt_contains (sg_certificates staged) log_set
        else bt_contains (sg_receipts staged) log_set) (ct_durable_log_tags (sg_transaction staged))"

definition earlier_pending :: "cell_domain_state \<Rightarrow> staged_transaction \<Rightarrow> bool" where
  "earlier_pending d staged \<longleftrightarrow>
     list_ex (\<lambda>s. \<not> sg_visible s \<and> \<not> sg_aborted s \<and> sg_commit_sequence s < sg_commit_sequence staged) (cd_staged d)"

definition publish_staged ::
  "cell_env \<Rightarrow> cell_staged_transaction_command \<Rightarrow> cell_domain_state \<Rightarrow> cell_staged_transaction_response \<times> cell_domain_state" where
  "publish_staged env c d =
     (case staged_position (sc_transaction_identity c) d of
        None \<Rightarrow> staged_return c StagedInvalidRequest d
      | Some i \<Rightarrow>
          let staged = cd_staged d ! i in
          if sg_visible staged then staged_return c AlreadyCommitted d
          else if sg_aborted staged then staged_return c AlreadyAborted d
          else if sc_credential c \<noteq> ct_credential (sg_transaction staged) then staged_return c StagedInvalidRequest d
          else if \<not> publish_complete d staged \<or> earlier_pending d staged then staged_return c MissingLogReceipt d
          else
            let d' = publish_staged_transaction env i None d in
            (staged_response d' (sc_transaction_identity c) StagedCommitted (Some (sg_envelope staged)), d'))"

section \<open>Takeover\<close>

definition unresolved_count :: "cell_domain_state \<Rightarrow> nat" where
  "unresolved_count d = length (filter (\<lambda>s. \<not> sg_visible s \<and> \<not> sg_aborted s) (cd_staged d))"

definition envelope_exact :: "cell_env \<Rightarrow> staged_transaction \<Rightarrow> u64 \<Rightarrow> u64 \<Rightarrow> bool" where
  "envelope_exact env staged g expected =
     (case envelope_decode (cv_sha env) (sg_envelope staged) of Err _ \<Rightarrow> False
      | Ok e \<Rightarrow> ce_generation e = g \<and> sequence (ce_version e) = expected)"

definition successor_authorized ::
  "cell_staged_transaction_command \<Rightarrow> generation_fence_faults \<Rightarrow> generation_state \<Rightarrow> u64 \<Rightarrow> bool" where
  "successor_authorized c faults authority recovery =
     (case sc_credential c of None \<Rightarrow> False
      | Some credential \<Rightarrow> gc_generation credential = sc_generation c
          \<and> (authorizes authority (gc_generation credential) (gc_transaction_system_id credential)
             \<or> (accept_apply_during_recovery faults
                \<and> authorizes_recovery authority (gc_generation credential) recovery (gc_transaction_system_id credential))))"

definition takeover_publish ::
  "cell_env \<Rightarrow> cell_staged_transaction_command \<Rightarrow> generation_state \<Rightarrow> generation_fence_faults \<Rightarrow> u64 \<Rightarrow> u64 \<Rightarrow> u64 \<Rightarrow> bytes \<Rightarrow>
     cell_domain_state \<Rightarrow> cell_staged_transaction_response \<times> cell_domain_state" where
  "takeover_publish env c authority faults previous recovery expected expected_sha d =
     (case staged_position (sc_transaction_identity c) d of
        None \<Rightarrow> staged_return c InvalidGenerationTakeover d
      | Some i \<Rightarrow>
          let staged = cd_staged d ! i in
          if sg_visible staged \<and> cd_generation d = sc_generation c then staged_return c AlreadyCommitted d
          else if \<not> successor_authorized c faults authority recovery
            \<or> (\<not> accept_apply_during_recovery faults \<and> gs_last_completed_recovery_id authority \<noteq> Some recovery)
            \<or> sc_generation c \<noteq> saturating_add previous 1 \<or> cd_generation d \<noteq> previous
            \<or> ct_generation (sg_transaction staged) \<noteq> previous
            \<or> (\<not> ignore_staged_head_takeover_expectation faults
               \<and> (sg_commit_sequence staged \<noteq> expected \<or> cv_sha env (sg_envelope staged) \<noteq> expected_sha))
            \<or> \<not> envelope_exact env staged previous expected
            \<or> (\<not> accept_incomplete_staged_head faults
               \<and> \<not> list_all (bt_contains (sg_certificates staged)) (ct_durable_log_tags (sg_transaction staged)))
            \<or> unresolved_count d \<noteq> 1
          then staged_return c InvalidGenerationTakeover d
          else
            let d' = publish_staged_transaction env i (Some (sc_generation c)) d in
            (staged_response d' (sc_transaction_identity c) StagedCommitted (Some (sg_envelope staged)), d'))"

text \<open>The proof that a staged transaction did not become durable.\<close>

definition abort_proof_valid ::
  "cell_env \<Rightarrow> cell_staged_transaction_command \<Rightarrow> u64 \<Rightarrow> u64 \<Rightarrow> cell_tagged_log_fence_certificate list \<Rightarrow> staged_transaction \<Rightarrow>
     cell_domain_state \<Rightarrow> bool" where
  "abort_proof_valid env c previous recovery fences staged d =
     (let required = set (ct_durable_log_tags (sg_transaction staged));
          fenced = (\<lambda>f. tfs_log_set_id (tfc_statement f)) ` set fences;
          every_fence_valid = (fenced = required \<and> card fenced = length fences
            \<and> list_all (\<lambda>f. case bt_get (cd_log_set_policies d) (tfs_log_set_id (tfc_statement f)) of None \<Rightarrow> False
                 | Some p \<Rightarrow> verify_tagged_log_fence_certificate env f p staged (sc_cell_id c) (sc_tenant_id c) previous recovery) fences);
          missing = {log_set \<in> required. \<not> bt_contains (sg_certificates staged) log_set};
          absence_quorum = list_ex (\<lambda>f. tfs_log_set_id (tfc_statement f) \<in> missing
            \<and> (case bt_get (cd_log_set_policies d) (tfs_log_set_id (tfc_statement f)) of None \<Rightarrow> False
               | Some p \<Rightarrow> unat (lsp_quorum_size p) \<le> length (filter (\<lambda>a. \<not> tfa_record_present a) (tfc_attestations f)))) fences in
      missing \<noteq> {} \<and> every_fence_valid \<and> absence_quorum)"

definition takeover_abort ::
  "cell_env \<Rightarrow> cell_staged_transaction_command \<Rightarrow> generation_state \<Rightarrow> generation_fence_faults \<Rightarrow> u64 \<Rightarrow> u64 \<Rightarrow> u64 \<Rightarrow> bytes \<Rightarrow>
     cell_tagged_log_fence_certificate list \<Rightarrow> cell_domain_state \<Rightarrow> cell_staged_transaction_response \<times> cell_domain_state" where
  "takeover_abort env c authority faults previous recovery expected expected_sha fences d =
     (case staged_position (sc_transaction_identity c) d of
        None \<Rightarrow> staged_return c InvalidGenerationTakeover d
      | Some i \<Rightarrow>
          let staged = cd_staged d ! i in
          if sg_aborted staged \<and> cd_generation d = sc_generation c then staged_return c AlreadyAborted d
          else if \<not> successor_authorized c faults authority recovery
            \<or> (\<not> accept_apply_during_recovery faults \<and> gs_last_completed_recovery_id authority \<noteq> Some recovery)
            \<or> sc_generation c \<noteq> saturating_add previous 1 \<or> cd_generation d \<noteq> previous
            \<or> ct_generation (sg_transaction staged) \<noteq> previous \<or> sg_visible staged
            \<or> sg_commit_sequence staged \<noteq> expected \<or> cv_sha env (sg_envelope staged) \<noteq> expected_sha
            \<or> \<not> envelope_exact env staged previous expected
            \<or> (\<not> accept_invalid_staged_abort_proof faults \<and> \<not> abort_proof_valid env c previous recovery fences staged d)
            \<or> unresolved_count d \<noteq> 1
          then staged_return c InvalidGenerationTakeover d
          else staged_return c Aborted ((update_staged i (\<lambda>s. s\<lparr>sg_aborted := True\<rparr>) d)\<lparr>cd_generation := sc_generation c\<rparr>))"

section \<open>Prefix recovery\<close>

definition MAX_STAGED_PREFIX_RECORDS :: nat where "MAX_STAGED_PREFIX_RECORDS = 4"
definition MAX_STAGED_PREFIX_BYTES :: u64 where "MAX_STAGED_PREFIX_BYTES = 16 * 1024"

text \<open>The staged transactions of the window, each exactly as the window names it.\<close>

fun window_indexes :: "cell_env \<Rightarrow> u64 \<Rightarrow> cell_domain_state \<Rightarrow> cell_staged_window_record list \<Rightarrow> nat list option" where
  "window_indexes env previous d [] = Some []"
| "window_indexes env previous d (expected # records) =
     (case staged_position (swr_transaction_identity expected) d of
        None \<Rightarrow> None
      | Some i \<Rightarrow>
          let staged = cd_staged d ! i in
          if sg_commit_sequence staged \<noteq> swr_commit_sequence expected \<or> cv_sha env (sg_envelope staged) \<noteq> swr_envelope_sha256 expected
            \<or> ct_generation (sg_transaction staged) \<noteq> previous
          then None else map_option (\<lambda>indexes. i # indexes) (window_indexes env previous d records))"

fun increasing :: "nat list \<Rightarrow> bool" where
  "increasing (a # b # xs) \<longleftrightarrow> a < b \<and> increasing (b # xs)"
| "increasing _ \<longleftrightarrow> True"

definition unresolved_indexes :: "cell_domain_state \<Rightarrow> nat list" where
  "unresolved_indexes d = filter (\<lambda>i. \<not> sg_visible (cd_staged d ! i) \<and> \<not> sg_aborted (cd_staged d ! i)) [0..<length (cd_staged d)]"

text \<open>\<open>chain_exact\<close>: the envelopes of the window follow the chain of the domain, or, on a retry, their own.\<close>

fun chain_exact :: "cell_env \<Rightarrow> u64 \<Rightarrow> bytes option \<Rightarrow> staged_transaction list \<Rightarrow> bool" where
  "chain_exact env previous chain [] \<longleftrightarrow> True"
| "chain_exact env previous chain (staged # rest) \<longleftrightarrow>
     (case envelope_decode (cv_sha env) (sg_envelope staged) of Err _ \<Rightarrow> False
      | Ok e \<Rightarrow> ce_generation e = previous \<and> sequence (ce_version e) = sg_commit_sequence staged
          \<and> (case chain of None \<Rightarrow> True | Some h \<Rightarrow> ce_previous_log_chain e = h))
     \<and> chain_exact env previous (Some (cv_sha env (sg_envelope staged))) rest"

definition observed :: "cell_staged_window_record \<Rightarrow> cell_tagged_log_prefix_fence_attestation \<Rightarrow> bool option" where
  "observed r a = map_option pob_record_present (find (\<lambda>ob. pob_transaction_identity ob = swr_transaction_identity r
     \<and> pob_commit_sequence ob = swr_commit_sequence r \<and> pob_envelope_sha256 ob = swr_envelope_sha256 r) (pfa_observations a))"

definition count_observed :: "cell_staged_window_record \<Rightarrow> bool \<Rightarrow> cell_tagged_log_prefix_fence_certificate \<Rightarrow> nat" where
  "count_observed r present c = length (filter (\<lambda>a. observed r a = Some present) (pfc_attestations c))"

text \<open>One record over the inventories: present by quorum everywhere, absent by quorum somewhere.\<close>

fun inventory_record ::
  "(u16, cell_log_set_policy) btree \<Rightarrow> cell_staged_window_record \<Rightarrow> cell_tagged_log_prefix_fence_certificate list \<Rightarrow> (bool \<times> bool) option" where
  "inventory_record policies r [] = Some (True, False)"
| "inventory_record policies r (c # cs) =
     (case bt_get policies (pfs_log_set_id (pfc_statement c)) of
        None \<Rightarrow> None
      | Some p \<Rightarrow>
          let quorum = unat (lsp_quorum_size p); present = count_observed r True c; absent = count_observed r False c in
          if quorum \<le> present \<and> quorum \<le> absent then None
          else map_option (\<lambda>(everywhere, somewhere). (everywhere \<and> quorum \<le> present, somewhere \<or> quorum \<le> absent))
            (inventory_record policies r cs))"

text \<open>The loop over the window; it stops at the first record that is absent, so a later record is never present behind it.\<close>

fun prefix_scan ::
  "(u16, cell_log_set_policy) btree \<Rightarrow> cell_tagged_log_prefix_fence_certificate list \<Rightarrow> cell_staged_window_record list \<Rightarrow> nat \<Rightarrow> nat \<Rightarrow>
     (nat \<times> nat option) option" where
  "prefix_scan policies inventories [] offset recovered = Some (recovered, None)"
| "prefix_scan policies inventories (r # rs) offset recovered =
     (case inventory_record policies r inventories of
        None \<Rightarrow> None
      | Some (everywhere, somewhere) \<Rightarrow>
          if everywhere then prefix_scan policies inventories rs (offset + 1) (offset + 1)
          else if somewhere then Some (recovered, Some offset) else None)"

fun resolve_window ::
  "cell_env \<Rightarrow> generation_fence_faults \<Rightarrow> u64 \<Rightarrow> nat \<Rightarrow> nat \<Rightarrow> nat list \<Rightarrow> nat \<Rightarrow> cell_domain_state \<Rightarrow> cell_domain_state" where
  "resolve_window env faults g recovered len [] offset d = d"
| "resolve_window env faults g recovered len (i # indexes) offset d =
     resolve_window env faults g recovered len indexes (offset + 1)
       (if offset < recovered
        then if skip_recoverable_staged_prefix faults \<and> offset = 0
             then update_staged i (\<lambda>s. s\<lparr>sg_aborted := True\<rparr>) d else publish_staged_transaction env i (Some g) d
        else if retain_aborted_staged_suffix faults \<and> offset = len - 1
        then publish_staged_transaction env i (Some g) d
        else update_staged i (\<lambda>s. s\<lparr>sg_aborted := True\<rparr>) d)"

definition count_indexes :: "(staged_transaction \<Rightarrow> bool) \<Rightarrow> nat list \<Rightarrow> cell_domain_state \<Rightarrow> nat" where
  "count_indexes P indexes d = length (filter (\<lambda>i. P (cd_staged d ! i)) indexes)"

definition inventories_valid ::
  "cell_env \<Rightarrow> cell_staged_transaction_command \<Rightarrow> generation_fence_faults \<Rightarrow> u64 \<Rightarrow> u64 \<Rightarrow> cell_staged_window \<Rightarrow>
     cell_tagged_log_prefix_fence_certificate list \<Rightarrow> u16 set \<Rightarrow> cell_domain_state \<Rightarrow> bool" where
  "inventories_valid env c faults previous recovery w inventories required d =
     (let supplied = (\<lambda>f. pfs_log_set_id (pfc_statement f)) ` set inventories in
      (if accept_missing_staged_inventory faults then supplied \<noteq> {} \<and> supplied \<subseteq> required else supplied = required)
      \<and> card supplied = length inventories
      \<and> list_all (\<lambda>f. case bt_get (cd_log_set_policies d) (pfs_log_set_id (pfc_statement f)) of None \<Rightarrow> False
           | Some p \<Rightarrow> verify_tagged_log_prefix_fence_certificate env f p w (sc_cell_id c) (sc_tenant_id c) previous recovery) inventories)"

definition adjust_recovered :: "generation_fence_faults \<Rightarrow> nat \<Rightarrow> nat \<Rightarrow> nat" where
  "adjust_recovered faults len recovered =
     (let recovered = (if abort_quorum_present_staged_record faults \<and> recovered > 0 then recovered - 1 else recovered) in
      if publish_beyond_staged_absence faults \<and> recovered < len then recovered + 1 else recovered)"

definition apply_takeover_recover_prefix ::
  "cell_env \<Rightarrow> cell_staged_transaction_command \<Rightarrow> generation_state \<Rightarrow> generation_fence_faults \<Rightarrow> u64 \<Rightarrow> u64 \<Rightarrow> cell_staged_window \<Rightarrow>
     cell_tagged_log_prefix_fence_certificate list \<Rightarrow> cell_domain_state \<Rightarrow> cell_staged_transaction_response \<times> cell_domain_state" where
  "apply_takeover_recover_prefix env c authority faults previous recovery w inventories d =
     (let invalid = staged_return c InvalidStagedPrefix d in
      if \<not> (case sc_credential c of None \<Rightarrow> False | Some credential \<Rightarrow> gc_generation credential = sc_generation c
            \<and> authorizes authority (gc_generation credential) (gc_transaction_system_id credential))
        \<or> gs_last_completed_recovery_id authority \<noteq> Some recovery \<or> sc_generation c \<noteq> saturating_add previous 1
        \<or> \<not> window_valid_identity env w
      then invalid
      else case window_indexes env previous d (sw_records w) of
        None \<Rightarrow> invalid
      | Some indexes \<Rightarrow>
          let encoded_bytes = fold (\<lambda>i total. saturating_add total (to_u64 (length (sg_envelope (cd_staged d ! i))))) indexes 0;
              within_limit = (length (sw_records w) \<le> MAX_STAGED_PREFIX_RECORDS \<and> encoded_bytes \<le> MAX_STAGED_PREFIX_BYTES);
              retry = (cd_generation d = sc_generation c
                \<and> list_all (\<lambda>i. sg_visible (cd_staged d ! i) \<or> sg_aborted (cd_staged d ! i)) indexes);
              staged = map (\<lambda>i. cd_staged d ! i) indexes;
              tags = (\<lambda>s. set (ct_durable_log_tags (sg_transaction s)));
              required = (case staged of [] \<Rightarrow> {} | s # _ \<Rightarrow> tags s) in
          if sw_encoded_bytes w \<noteq> encoded_bytes \<or> (\<not> accept_over_limit_staged_window faults \<and> \<not> within_limit) \<or> \<not> increasing indexes
          then invalid
          else if \<not> retry \<and> (cd_generation d \<noteq> previous \<or> unresolved_indexes d \<noteq> indexes) then invalid
          else if \<not> chain_exact env previous (if retry then None else Some (cd_previous_log_chain d)) staged then invalid
          else if required = {} \<or> list_ex (\<lambda>s. tags s \<noteq> required) staged then invalid
          else if \<not> inventories_valid env c faults previous recovery w inventories required d then invalid
          else case prefix_scan (cd_log_set_policies d) inventories (sw_records w) 0 0 of
            None \<Rightarrow> invalid
          | Some (recovered, boundary) \<Rightarrow>
              if boundary = None \<and> recovered \<noteq> length indexes then invalid
              else if retry then
                (staged_prefix_response d (sc_transaction_identity c) AlreadyPrefixRecovered
                   (count_indexes sg_visible indexes d) (count_indexes sg_aborted indexes d), d)
              else
                let recovered = adjust_recovered faults (length indexes) recovered;
                    d' = (resolve_window env faults (sc_generation c) recovered (length indexes) indexes 0 d)\<lparr>cd_generation := sc_generation c\<rparr> in
                (staged_prefix_response d' (sc_transaction_identity c) PrefixRecovered
                   (count_indexes sg_visible indexes d') (count_indexes sg_aborted indexes d'), d'))"

section \<open>Dispatch\<close>

definition is_takeover :: "cell_staged_transaction_action \<Rightarrow> bool" where
  "is_takeover action = (case action of TakeoverPublish _ _ _ _ \<Rightarrow> True | TakeoverAbort _ _ _ _ _ \<Rightarrow> True
     | TakeoverRecoverPrefix _ _ _ _ \<Rightarrow> True | _ \<Rightarrow> False)"

definition apply_staged_domain ::
  "cell_env \<Rightarrow> cell_staged_transaction_command \<Rightarrow> u64 \<Rightarrow> generation_state \<Rightarrow> generation_fence_faults \<Rightarrow> cell_domain_state \<Rightarrow>
     (cell_staged_transaction_response \<times> cell_domain_state) option" where
  "apply_staged_domain env c log_index authority faults d =
     (if sc_generation c = 0 \<or> (\<not> is_takeover (sc_action c) \<and> cd_generation d \<noteq> sc_generation c)
      then Some (staged_return c StagedInvalidRequest d)
      else case sc_action c of
        InstallLogSetPolicies policies \<Rightarrow> Some (install_log_set_policies c policies d)
      | PrepareLogSetPolicyTransition t readiness \<Rightarrow> Some (prepare_policy_transition env c faults t readiness d)
      | CommitLogSetPolicyTransition transition_id successor_stage \<Rightarrow>
          Some (commit_policy_transition env c log_index faults transition_id successor_stage d)
      | ReserveCapacity tx certificates \<Rightarrow> Some (reserve_capacity env c faults tx certificates d)
      | Stage tx \<Rightarrow> stage env c log_index faults tx d
      | RecordLogReceipt receipt \<Rightarrow> Some (record_log_receipt env c receipt d)
      | RecordLogCertificate certificate \<Rightarrow> Some (record_log_certificate env c certificate d)
      | PublishStaged \<Rightarrow> Some (publish_staged env c d)
      | TakeoverPublish previous recovery expected expected_sha \<Rightarrow>
          Some (takeover_publish env c authority faults previous recovery expected expected_sha d)
      | TakeoverAbort previous recovery expected expected_sha fences \<Rightarrow>
          Some (takeover_abort env c authority faults previous recovery expected expected_sha fences d)
      | TakeoverRecoverPrefix previous recovery w inventories \<Rightarrow>
          Some (apply_takeover_recover_prefix env c authority faults previous recovery w inventories d))"

definition apply_staged ::
  "cell_env \<Rightarrow> cell_staged_transaction_command \<Rightarrow> u64 \<Rightarrow> generation_state \<Rightarrow> generation_fence_faults \<Rightarrow> cell_transaction_state \<Rightarrow>
     (cell_staged_transaction_response \<times> cell_transaction_state) option" where
  "apply_staged env c log_index authority faults st =
     at_domain (sc_cell_id c) (sc_tenant_id c) (sc_generation c) (apply_staged_domain env c log_index authority faults) st"
end
