(* ===== verification/Cell_Staged_Safety.thy ===== *)
theory Cell_Staged_Safety
  imports Cell_Staged Cell_Safety
begin

text \<open>
  Properties of the staged transaction path. Every action has one of a few effects on its domain
  (\<open>staged_effect\<close>); from them follow the durability evidence of published transactions, the exact
  recovery of a staged prefix, and serializability in the order of the commit sequences.
\<close>

section \<open>Verified quorums\<close>

lemma verify_signers_ok:
  assumes "verify_signers env members signer ok bs sig as seen = Some seen'"
  shows "seen' = seen \<union> signer ` set as \<and> distinct (map signer as) \<and> seen \<inter> signer ` set as = {} \<and>
    (\<forall>a \<in> set as. ok a \<and> (\<exists>key payload. bt_get members (signer a) = Some key \<and> bs a = Some payload \<and> cv_verify env key payload (sig a)))"
  using assms
proof (induction env members signer ok bs sig as seen rule: verify_signers.induct)
  case (2 env members signer ok bs sig a as seen)
  obtain key payload where here: "\<not> (signer a \<in> seen \<or> \<not> ok a)" "bt_get members (signer a) = Some key" "bs a = Some payload"
    "cv_verify env key payload (sig a)"
    and rest: "verify_signers env members signer ok bs sig as (insert (signer a) seen) = Some seen'"
    using "2.prems" by (auto split: option.splits if_splits)
  from "2.IH"[OF here rest] here show ?case by auto
qed simp

lemma quorum_signers:
  assumes "quorum_reached q (verify_signers env members signer ok bs sig as {})"
  shows "distinct (map signer as) \<and> unat q \<le> length as \<and>
    (\<forall>a \<in> set as. ok a \<and> (\<exists>key payload. bt_get members (signer a) = Some key \<and> bs a = Some payload \<and> cv_verify env key payload (sig a)))"
proof -
  obtain seen where seen: "verify_signers env members signer ok bs sig as {} = Some seen" "unat q \<le> card seen"
    using assms by (auto simp: quorum_reached_def split: option.splits)
  note ok = verify_signers_ok[OF seen(1)]
  have "card seen = length as" using ok distinct_card[of "map signer as"] by simp
  with seen(2) ok show ?thesis by simp
qed

section \<open>Effects\<close>

text \<open>The committed data of a domain, and what no action but a takeover or a publication changes.\<close>

definition same_data :: "cell_domain_state \<Rightarrow> cell_domain_state \<Rightarrow> bool" where
  "same_data d d' \<longleftrightarrow> cd_cell_id d' = cd_cell_id d \<and> cd_tenant_id d' = cd_tenant_id d \<and> cd_rows d' = cd_rows d \<and>
     cd_committed_writes d' = cd_committed_writes d \<and> cd_committed_envelopes d' = cd_committed_envelopes d \<and>
     cd_previous_log_chain d' = cd_previous_log_chain d"

definition same_frame :: "cell_domain_state \<Rightarrow> cell_domain_state \<Rightarrow> bool" where
  "same_frame d d' \<longleftrightarrow> same_data d d' \<and> cd_generation d' = cd_generation d \<and> cd_latest_sequence d' = cd_latest_sequence d \<and>
     cd_log_set_policies d' = cd_log_set_policies d"

lemma same_frame_refl [simp]: "same_frame d d"
  by (simp add: same_frame_def same_data_def)

inductive staged_effect :: "cell_env \<Rightarrow> cell_staged_transaction_action \<Rightarrow> cell_domain_state \<Rightarrow> cell_domain_state \<Rightarrow> bool"
  for env :: cell_env and action :: cell_staged_transaction_action and d :: cell_domain_state where
  Quiet: "same_frame d d' \<Longrightarrow> cd_staged d' = cd_staged d \<Longrightarrow> staged_effect env action d d'"
| Policies: "\<not> unresolved_staged d \<Longrightarrow> same_data d d' \<Longrightarrow> cd_generation d' = cd_generation d \<Longrightarrow> cd_staged d' = cd_staged d \<Longrightarrow>
    action = InstallLogSetPolicies ps \<Longrightarrow> cd_latest_sequence d' = cd_latest_sequence d \<Longrightarrow> staged_effect env action d d'"
| Transition: "\<not> unresolved_staged d \<Longrightarrow> same_data d d' \<Longrightarrow> cd_generation d' = cd_generation d \<Longrightarrow> cd_staged d' = cd_staged d \<Longrightarrow>
    (\<exists>t r. action = PrepareLogSetPolicyTransition t r) \<or> (\<exists>i c. action = CommitLogSetPolicyTransition i c) \<Longrightarrow>
    cd_latest_sequence d' = saturating_add (cd_latest_sequence d) 1 \<Longrightarrow> staged_effect env action d d'"
| Append: "same_frame d d' \<Longrightarrow> cd_staged d' = cd_staged d @ [s] \<Longrightarrow> find_staged (sg_identity s) d = None \<Longrightarrow>
    sg_commit_sequence s = staged_sequence no_fence_faults d \<Longrightarrow> \<not> sg_visible s \<Longrightarrow> \<not> sg_aborted s \<Longrightarrow>
    sg_receipts s = [] \<Longrightarrow> sg_certificates s = [] \<Longrightarrow> valid_request (sg_transaction s) \<Longrightarrow>
    crv_sequence (ct_read_version (sg_transaction s)) \<le> cd_latest_sequence d \<Longrightarrow>
    (ct_partitioned_resolution (sg_transaction s) = None \<Longrightarrow> \<not> staged_read_conflict (sg_transaction s) d) \<Longrightarrow>
    staged_effect env action d d'"
| Receipt: "same_frame d d' \<Longrightarrow> i < length (cd_staged d) \<Longrightarrow>
    cd_staged d' = (cd_staged d)[i := (cd_staged d ! i)\<lparr>sg_receipts := bt_insert (tr_log_set_id r) r (sg_receipts (cd_staged d ! i))\<rparr>] \<Longrightarrow>
    tr_envelope_sha256 r = cv_sha env (sg_envelope (cd_staged d ! i)) \<Longrightarrow> 2 \<le> card (set (tr_quorum_node_ids r)) \<Longrightarrow> staged_effect env action d d'"
| Certificate: "same_frame d d' \<Longrightarrow> i < length (cd_staged d) \<Longrightarrow>
    cd_staged d' = (cd_staged d)[i := (cd_staged d ! i)\<lparr>sg_certificates := bt_insert (ts_log_set_id (tc_statement c)) c (sg_certificates (cd_staged d ! i))\<rparr>] \<Longrightarrow>
    bt_get (cd_log_set_policies d) (ts_log_set_id (tc_statement c)) = Some p \<Longrightarrow>
    verify_tagged_log_envelope_certificate env c p (sg_envelope (cd_staged d ! i)) \<Longrightarrow> staged_effect env action d d'"
| Publish: "i < length (cd_staged d) \<Longrightarrow> d' = publish_staged_transaction env i None d \<Longrightarrow> action = PublishStaged \<Longrightarrow>
    \<not> sg_visible (cd_staged d ! i) \<Longrightarrow> \<not> sg_aborted (cd_staged d ! i) \<Longrightarrow> publish_complete d (cd_staged d ! i) \<Longrightarrow>
    \<not> earlier_pending d (cd_staged d ! i) \<Longrightarrow> staged_effect env action d d'"
| Takeover: "i < length (cd_staged d) \<Longrightarrow> d' = publish_staged_transaction env i (Some g) d \<Longrightarrow>
    (\<exists>a b e h. action = TakeoverPublish a b e h) \<Longrightarrow> unresolved_count d = 1 \<Longrightarrow>
    list_all (bt_contains (sg_certificates (cd_staged d ! i))) (ct_durable_log_tags (sg_transaction (cd_staged d ! i))) \<Longrightarrow> staged_effect env action d d'"
| Abort: "i < length (cd_staged d) \<Longrightarrow> d' = (update_staged i (\<lambda>s. s\<lparr>sg_aborted := True\<rparr>) d)\<lparr>cd_generation := g\<rparr> \<Longrightarrow>
    \<not> sg_visible (cd_staged d ! i) \<Longrightarrow> staged_effect env action d d'"
| Prefix: "d' = (resolve_window env no_fence_faults g n (length (unresolved_indexes d)) (unresolved_indexes d) 0 d)\<lparr>cd_generation := g\<rparr> \<Longrightarrow>
    staged_effect env action d d'"

lemma position_staged:
  assumes "staged_position identity d = Some i"
  shows "i < length (cd_staged d)" and "sg_identity (cd_staged d ! i) = identity"
  using assms nth_length_takeWhile[of "\<lambda>s. sg_identity s \<noteq> identity" "cd_staged d"]
  by (auto simp: staged_position_def Let_def split: if_splits)

lemma effect_refl [intro, simp]: "staged_effect env action d d"
  by (rule Quiet) simp_all

lemma install_effect:
  assumes "install_log_set_policies c policies d = (r, d')" "sc_action c = InstallLogSetPolicies policies"
  shows "staged_effect env (sc_action c) d d'"
proof -
  have "d' = d \<or> \<not> unresolved_staged d \<and> (\<exists>ps. d' = d\<lparr>cd_log_set_policies := ps\<rparr>)"
    using assms(1) by (auto simp: install_log_set_policies_def split: if_split_asm)
  then show ?thesis
  proof (elim disjE conjE exE)
    fix ps assume "\<not> unresolved_staged d" "d' = d\<lparr>cd_log_set_policies := ps\<rparr>"
    then show ?thesis using assms(2) by (intro Policies[where ps = policies]) (simp_all add: same_data_def)
  qed simp
qed

lemma prepare_effect:
  assumes "prepare_policy_transition env c no_fence_faults t readiness d = (r, d')" "sc_action c = PrepareLogSetPolicyTransition t readiness"
  shows "staged_effect env (sc_action c) d d'"
proof -
  have "d' = d \<or> \<not> unresolved_staged d \<and> d' = d\<lparr>cd_pending_transition := Some t, cd_latest_sequence := saturating_add (cd_latest_sequence d) 1\<rparr>"
    using assms(1) by (auto simp: prepare_policy_transition_def Let_def no_fence_faults_def split: option.split_asm if_split_asm)
  then show ?thesis
  proof (elim disjE conjE)
    assume "\<not> unresolved_staged d" "d' = d\<lparr>cd_pending_transition := Some t, cd_latest_sequence := saturating_add (cd_latest_sequence d) 1\<rparr>"
    then show ?thesis using assms(2) by (intro Transition) (simp_all add: same_data_def)
  qed simp
qed

lemma commit_transition_effect:
  assumes "commit_policy_transition env c i no_fence_faults tid succ d = (r, d')" "sc_action c = CommitLogSetPolicyTransition tid succ"
  shows "staged_effect env (sc_action c) d d'"
proof -
  have "d' = d \<or> \<not> unresolved_staged d \<and> (\<exists>ps cs. d' = d\<lparr>cd_log_set_policies := ps, cd_completed_transitions := cs,
      cd_pending_transition := None, cd_latest_sequence := saturating_add (cd_latest_sequence d) 1\<rparr>)"
    using assms(1) by (auto simp: commit_policy_transition_def no_fence_faults_def split: option.split_asm if_split_asm)
  then show ?thesis
  proof (elim disjE conjE exE)
    fix ps cs assume "\<not> unresolved_staged d" "d' = d\<lparr>cd_log_set_policies := ps, cd_completed_transitions := cs,
      cd_pending_transition := None, cd_latest_sequence := saturating_add (cd_latest_sequence d) 1\<rparr>"
    then show ?thesis using assms(2) by (intro Transition) (simp_all add: same_data_def)
  qed simp
qed

lemma reserve_effect:
  assumes "reserve_capacity env c no_fence_faults tx certificates d = (r, d')"
  shows "staged_effect env action d d'"
proof -
  define P where "P x \<longleftrightarrow> same_frame d x \<and> cd_staged x = cd_staged d" for x
  have "P (snd (reserve_capacity env c no_fence_faults tx certificates d))"
    unfolding reserve_capacity_def Let_def
    by (simp only: if_distrib[of snd] if_distrib[of P] snd_conv cong: if_cong) (simp add: P_def same_frame_def same_data_def)
  then show ?thesis using assms by (simp add: P_def Quiet)
qed

lemma append_effect:
  assumes "append_staged env c i no_fence_faults tx d1 = Some (r, d')" and d1: "same_frame d d1" "cd_staged d1 = cd_staged d"
    and "find_staged (sc_transaction_identity c) d = None" "stage_admissible c tx d"
    and "ct_partitioned_resolution tx = None \<Longrightarrow> \<not> staged_read_conflict tx d"
  shows "staged_effect env action d d'"
proof -
  have same: "staged_sequence no_fence_faults d1 = staged_sequence no_fence_faults d"
    using d1 by (simp add: staged_sequence_def same_frame_def cong: option.case_cong)
  obtain e where e: "cell_envelope env tx (staged_sequence no_fence_faults d1) i (ct_durable_log_tags tx) (staged_chain env no_fence_faults d1) = Some e"
    and d': "d' = consume_reservation (capacity_identity_key (sc_transaction_identity c)) (d1\<lparr>cd_staged := cd_staged d1 @
      [\<lparr>sg_identity = sc_transaction_identity c, sg_transaction = tx, sg_commit_sequence = staged_sequence no_fence_faults d1, sg_envelope = e,
        sg_receipts = [], sg_certificates = [], sg_visible = False, sg_aborted = False\<rparr>]\<rparr>)"
    using assms(1) by (auto simp: append_staged_def Let_def split: option.splits)
  have consume: "same_frame x (consume_reservation key x) \<and> cd_staged (consume_reservation key x) = cd_staged x" for key x
    by (simp add: consume_reservation_def same_frame_def same_data_def split: option.split)
  show ?thesis
    by (rule Append[where s = "\<lparr>sg_identity = sc_transaction_identity c, sg_transaction = tx, sg_commit_sequence = staged_sequence no_fence_faults d1, sg_envelope = e,
        sg_receipts = [], sg_certificates = [], sg_visible = False, sg_aborted = False\<rparr>"])
       (use consume d1 assms(4-6) in \<open>auto simp: d' same_frame_def same_data_def same stage_admissible_def Let_def\<close>)
qed

lemma stage_effect:
  assumes "stage env c i no_fence_faults tx d = Some (r, d')"
  shows "staged_effect env action d d'"
proof -
  define R where "R \<longleftrightarrow> staged_effect env action d d'"
  have quiet: R if "Some (resp, d1) = Some (r, d')" "same_frame d d1" "cd_staged d1 = cd_staged d" for resp d1
    using that unfolding R_def by (auto intro: Quiet)
  have resolved: R if "stage_resolved env c i no_fence_faults tx decision d1 = Some (r, d')" "same_frame d d1" "cd_staged d1 = cd_staged d"
    "find_staged (sc_transaction_identity c) d = None" "stage_admissible c tx d" "(decision = None) = (ct_partitioned_resolution tx = None)" for decision d1
  proof -
    have "staged_read_conflict tx d1 = staged_read_conflict tx d"
      using that(2,3) by (simp add: staged_read_conflict_def same_frame_def same_data_def)
    then show ?thesis
      using that append_effect[of env c i tx d1 r d' d action] quiet[OF _ that(2,3)] unfolding R_def
      by (auto simp: stage_resolved_def simp del: prod.inject split: if_split_asm)
  qed
  have frame: "same_frame d (d\<lparr>cd_last_resolver_candidate := a, cd_last_resolver_generation := b\<rparr>)" for a b
    by (simp add: same_frame_def same_data_def)
  have R
    using assms quiet[OF _ same_frame_refl refl] resolved[OF _ same_frame_refl refl] resolved[OF _ frame]
    unfolding stage_def
    by (auto simp del: prod.inject split: if_split_asm option.split_asm result.split_asm)
  then show ?thesis by (simp add: R_def)
qed

lemma update_frame: "same_frame d (update_staged i f d)"
  by (simp add: update_staged_def same_frame_def same_data_def)

lemma receipt_effect:
  assumes "record_log_receipt env c receipt d = (r, d')"
  shows "staged_effect env action d d'"
proof (cases "d' = d")
  case False
  then obtain i where i: "staged_position (sc_transaction_identity c) d = Some i"
    and d': "d' = update_staged i (\<lambda>s. s\<lparr>sg_receipts := bt_insert (tr_log_set_id receipt) receipt (sg_receipts s)\<rparr>) d"
    and ok: "tr_envelope_sha256 receipt = cv_sha env (sg_envelope (cd_staged d ! i))" "2 \<le> card (set (tr_quorum_node_ids receipt))"
    using assms by (auto simp: record_log_receipt_def Let_def not_less split: option.split_asm if_split_asm)
  show ?thesis
    by (rule Receipt[OF _ position_staged(1)[OF i] _ ok]) (simp_all add: d' update_frame, simp add: update_staged_def)
qed simp

lemma certificate_effect:
  assumes "record_log_certificate env c certificate d = (r, d')"
  shows "staged_effect env action d d'"
proof (cases "d' = d")
  case False
  then obtain i p where i: "staged_position (sc_transaction_identity c) d = Some i"
    and p: "bt_get (cd_log_set_policies d) (ts_log_set_id (tc_statement certificate)) = Some p"
    and ok: "verify_tagged_log_certificate env certificate p (cd_staged d ! i) (sc_cell_id c) (sc_tenant_id c) (sc_generation c)"
    and d': "d' = update_staged i (\<lambda>s. s\<lparr>sg_certificates := bt_insert (ts_log_set_id (tc_statement certificate)) certificate (sg_certificates s)\<rparr>) d"
    using assms by (auto simp: record_log_certificate_def Let_def split: option.split_asm if_split_asm)
  have ok: "verify_tagged_log_envelope_certificate env certificate p (sg_envelope (cd_staged d ! i))"
    using ok by (auto simp: verify_tagged_log_certificate_def Let_def split: if_split_asm)
  show ?thesis
    by (rule Certificate[OF _ position_staged(1)[OF i] _ p ok]) (simp_all add: d' update_frame, simp add: update_staged_def)
qed simp

lemma publish_effect:
  assumes "publish_staged env c d = (r, d')" "sc_action c = PublishStaged"
  shows "staged_effect env (sc_action c) d d'"
proof (cases "d' = d")
  case False
  then obtain i where i: "staged_position (sc_transaction_identity c) d = Some i" and d': "d' = publish_staged_transaction env i None d"
    and ok: "\<not> sg_visible (cd_staged d ! i)" "\<not> sg_aborted (cd_staged d ! i)" "publish_complete d (cd_staged d ! i)" "\<not> earlier_pending d (cd_staged d ! i)"
    using assms(1) by (auto simp: publish_staged_def Let_def split: option.split_asm if_split_asm)
  show ?thesis by (rule Publish[OF position_staged(1)[OF i] d' assms(2) ok])
qed simp

lemma takeover_publish_effect:
  assumes "takeover_publish env c authority no_fence_faults previous recovery expected sha d = (r, d')"
    and "sc_action c = TakeoverPublish previous recovery expected sha"
  shows "staged_effect env (sc_action c) d d'"
proof (cases "d' = d")
  case False
  then obtain i where i: "staged_position (sc_transaction_identity c) d = Some i"
    and d': "d' = publish_staged_transaction env i (Some (sc_generation c)) d" and ok: "unresolved_count d = 1"
      "list_all (bt_contains (sg_certificates (cd_staged d ! i))) (ct_durable_log_tags (sg_transaction (cd_staged d ! i)))"
    using assms(1) by (auto simp: takeover_publish_def Let_def no_fence_faults_def split: option.split_asm if_split_asm)
  show ?thesis by (rule Takeover[OF position_staged(1)[OF i] d' _ ok]) (use assms(2) in simp)
qed simp

lemma takeover_abort_effect:
  assumes "takeover_abort env c authority no_fence_faults previous recovery expected sha fences d = (r, d')"
  shows "staged_effect env action d d'"
proof (cases "d' = d")
  case False
  then obtain i where i: "staged_position (sc_transaction_identity c) d = Some i" and ok: "\<not> sg_visible (cd_staged d ! i)"
    and d': "d' = (update_staged i (\<lambda>s. s\<lparr>sg_aborted := True\<rparr>) d)\<lparr>cd_generation := sc_generation c\<rparr>"
    using assms(1) by (auto simp: takeover_abort_def Let_def split: option.split_asm if_split_asm)
  show ?thesis by (rule Abort[OF position_staged(1)[OF i] d' ok])
qed simp

lemma prefix_result:
  assumes "apply_takeover_recover_prefix env c authority no_fence_faults previous recovery w inventories d = (r, d')" "d' \<noteq> d \<or> sr_status r = PrefixRecovered"
  shows "\<exists>n boundary. window_valid_identity env w \<and> window_indexes env previous d (sw_records w) = Some (unresolved_indexes d) \<and>
    (\<exists>required. inventories_valid env c no_fence_faults previous recovery w inventories required d) \<and>
    prefix_scan (cd_log_set_policies d) inventories (sw_records w) 0 0 = Some (n, boundary) \<and> (boundary = None \<longrightarrow> n = length (unresolved_indexes d)) \<and>
    cd_generation d = previous \<and> chain_exact env previous (Some (cd_previous_log_chain d)) (map (\<lambda>i. cd_staged d ! i) (unresolved_indexes d)) \<and>
    d' = (resolve_window env no_fence_faults (sc_generation c) n (length (unresolved_indexes d)) (unresolved_indexes d) 0 d)\<lparr>cd_generation := sc_generation c\<rparr>"
proof -
  let ?res = "\<lambda>d'. \<exists>n boundary. window_valid_identity env w \<and> window_indexes env previous d (sw_records w) = Some (unresolved_indexes d) \<and>
    (\<exists>required. inventories_valid env c no_fence_faults previous recovery w inventories required d) \<and>
    prefix_scan (cd_log_set_policies d) inventories (sw_records w) 0 0 = Some (n, boundary) \<and> (boundary = None \<longrightarrow> n = length (unresolved_indexes d)) \<and>
    cd_generation d = previous \<and> chain_exact env previous (Some (cd_previous_log_chain d)) (map (\<lambda>i. cd_staged d ! i) (unresolved_indexes d)) \<and>
    d' = (resolve_window env no_fence_faults (sc_generation c) n (length (unresolved_indexes d)) (unresolved_indexes d) 0 d)\<lparr>cd_generation := sc_generation c\<rparr>"
  define Q where "Q x \<longleftrightarrow> (snd x = d \<and> sr_status (fst x) \<noteq> PrefixRecovered) \<or> ?res (snd x)" for x :: "cell_staged_transaction_response \<times> cell_domain_state"
  have invalid: "Q (staged_return c InvalidStagedPrefix d)" and retry: "Q (staged_prefix_response d k AlreadyPrefixRecovered m m', d)" for k m m'
    by (simp_all add: Q_def staged_response_def staged_prefix_response_def Let_def)
  have recovered: "Q (resp, (resolve_window env no_fence_faults (sc_generation c) n (length (unresolved_indexes d)) (unresolved_indexes d) 0 d)\<lparr>cd_generation := sc_generation c\<rparr>)"
    if "window_valid_identity env w" "window_indexes env previous d (sw_records w) = Some (unresolved_indexes d)"
      "inventories_valid env c no_fence_faults previous recovery w inventories required d"
      "prefix_scan (cd_log_set_policies d) inventories (sw_records w) 0 0 = Some (n, boundary)" "boundary = None \<longrightarrow> n = length (unresolved_indexes d)"
      "cd_generation d = previous" "chain_exact env previous (Some (cd_previous_log_chain d)) (map (\<lambda>i. cd_staged d ! i) (unresolved_indexes d))" for resp n boundary required
    using that unfolding Q_def by auto
  have adjust: "adjust_recovered no_fence_faults m n = n" for m n by (simp add: adjust_recovered_def no_fence_faults_def)
  have "Q (apply_takeover_recover_prefix env c authority no_fence_faults previous recovery w inventories d)"
    using invalid retry recovered unfolding apply_takeover_recover_prefix_def Let_def adjust
    by (auto split: option.split prod.split)
  with assms show ?thesis unfolding Q_def by auto
qed

lemma prefix_effect:
  assumes "apply_takeover_recover_prefix env c authority no_fence_faults previous recovery w inventories d = (r, d')"
  shows "staged_effect env action d d'"
proof (cases "d' = d")
  case False
  then show ?thesis using prefix_result[OF assms disjI1] Prefix by blast
qed simp

lemma apply_staged_domain_effect:
  assumes "apply_staged_domain env c i authority no_fence_faults d = Some (r, d')"
  shows "staged_effect env (sc_action c) d d'"
proof (cases "sc_generation c = 0 \<or> (\<not> is_takeover (sc_action c) \<and> cd_generation d \<noteq> sc_generation c)")
  case True
  with assms have "d' = d" by (simp add: apply_staged_domain_def)
  then show ?thesis by simp
next
  case False
  note run = assms[unfolded apply_staged_domain_def if_not_P[OF False]]
  show ?thesis
  proof (cases "sc_action c")
    case InstallLogSetPolicies
    show ?thesis by (rule install_effect[OF _ InstallLogSetPolicies]) (use run InstallLogSetPolicies in \<open>simp_all del: prod.inject\<close>)
  next
    case PrepareLogSetPolicyTransition
    show ?thesis by (rule prepare_effect[OF _ PrepareLogSetPolicyTransition]) (use run PrepareLogSetPolicyTransition in \<open>simp_all del: prod.inject\<close>)
  next
    case CommitLogSetPolicyTransition
    show ?thesis by (rule commit_transition_effect[OF _ CommitLogSetPolicyTransition]) (use run CommitLogSetPolicyTransition in \<open>simp_all del: prod.inject\<close>)
  next
    case ReserveCapacity
    show ?thesis by (rule reserve_effect) (use run ReserveCapacity in \<open>simp_all del: prod.inject\<close>)
  next
    case Stage
    show ?thesis by (rule stage_effect) (use run Stage in \<open>simp_all del: prod.inject\<close>)
  next
    case RecordLogReceipt
    show ?thesis by (rule receipt_effect) (use run RecordLogReceipt in \<open>simp_all del: prod.inject\<close>)
  next
    case RecordLogCertificate
    show ?thesis by (rule certificate_effect) (use run RecordLogCertificate in \<open>simp_all del: prod.inject\<close>)
  next
    case PublishStaged
    show ?thesis by (rule publish_effect[OF _ PublishStaged]) (use run PublishStaged in \<open>simp_all del: prod.inject\<close>)
  next
    case TakeoverPublish
    show ?thesis by (rule takeover_publish_effect[OF _ TakeoverPublish]) (use run TakeoverPublish in \<open>simp_all del: prod.inject\<close>)
  next
    case TakeoverAbort
    show ?thesis by (rule takeover_abort_effect) (use run TakeoverAbort in \<open>simp_all del: prod.inject\<close>)
  next
    case TakeoverRecoverPrefix
    show ?thesis by (rule prefix_effect) (use run TakeoverRecoverPrefix in \<open>simp_all del: prod.inject\<close>)
  qed
qed

section \<open>Windows\<close>

abbreviation abort_staged :: "nat \<Rightarrow> cell_domain_state \<Rightarrow> cell_domain_state" where
  "abort_staged i d \<equiv> update_staged i (\<lambda>s. s\<lparr>sg_aborted := True\<rparr>) d"

text \<open>Without faults a window is resolved by publishing its recovered prefix and aborting the rest.\<close>

lemma resolve_window_eq:
  "resolve_window env no_fence_faults g n len indexes off d =
     fold abort_staged (drop (n - off) indexes) (fold (\<lambda>i. publish_staged_transaction env i (Some g)) (take (n - off) indexes) d)"
proof (induction indexes arbitrary: off d)
  case (Cons i indexes)
  show ?case
  proof (cases "off < n")
    case True
    then have "n - off = Suc (n - Suc off)" by simp
    then show ?thesis using Cons True by (simp add: no_fence_faults_def)
  qed (use Cons in \<open>simp add: no_fence_faults_def\<close>)
qed simp

lemma publish_fields [simp]:
  "cd_cell_id (publish_staged_transaction env i g d) = cd_cell_id d" "cd_tenant_id (publish_staged_transaction env i g d) = cd_tenant_id d"
  "cd_log_set_policies (publish_staged_transaction env i g d) = cd_log_set_policies d"
  "cd_staged (publish_staged_transaction env i g d) = (cd_staged d)[i := (cd_staged d ! i)\<lparr>sg_visible := True\<rparr>]"
  "cd_latest_sequence (publish_staged_transaction env i g d) = sg_commit_sequence (cd_staged d ! i)"
  "cd_rows (publish_staged_transaction env i g d) = fold apply_cell_mutation (ct_mutations (sg_transaction (cd_staged d ! i))) (cd_rows d)"
  by (simp_all add: publish_staged_transaction_def update_staged_def Let_def)

lemma update_fields [simp]:
  "cd_cell_id (update_staged i f d) = cd_cell_id d" "cd_tenant_id (update_staged i f d) = cd_tenant_id d"
  "cd_log_set_policies (update_staged i f d) = cd_log_set_policies d" "cd_staged (update_staged i f d) = (cd_staged d)[i := f (cd_staged d ! i)]"
  "cd_latest_sequence (update_staged i f d) = cd_latest_sequence d" "cd_rows (update_staged i f d) = cd_rows d"
  "cd_generation (update_staged i f d) = cd_generation d"
  by (simp_all add: update_staged_def)

lemma fold_keeps: "(\<And>x s. P s \<Longrightarrow> P (f x s)) \<Longrightarrow> P s \<Longrightarrow> P (fold f xs s)"
  by (induction xs arbitrary: s) auto

lemma resolve_window_keeps:
  assumes "P d" and "\<And>i g d. P d \<Longrightarrow> P (publish_staged_transaction env i g d)" and "\<And>i d. P d \<Longrightarrow> P (abort_staged i d)"
  shows "P (resolve_window env no_fence_faults g n len indexes off d)"
  unfolding resolve_window_eq by (rule fold_keeps[where P = P, OF assms(3) fold_keeps[where P = P, OF assms(2) assms(1)]])

lemma effect_identity:
  assumes "staged_effect env action d d'"
  shows "cd_cell_id d' = cd_cell_id d \<and> cd_tenant_id d' = cd_tenant_id d"
  using assms
proof cases
  case (Prefix g n)
  then show ?thesis
    using resolve_window_keeps[where P = "\<lambda>x. cd_cell_id x = cd_cell_id d \<and> cd_tenant_id x = cd_tenant_id d"] by simp
qed (auto simp: same_frame_def same_data_def)

section \<open>Reachable states\<close>

inductive staged_reachable :: "cell_env \<Rightarrow> (cell_staged_transaction_action \<Rightarrow> bool) \<Rightarrow> cell_transaction_state \<Rightarrow> bool"
  for env :: cell_env and allowed :: "cell_staged_transaction_action \<Rightarrow> bool" where
  Start: "staged_reachable env allowed []"
| Step: "staged_reachable env allowed st \<Longrightarrow> apply_staged env c i authority no_fence_faults st = Some (r, st') \<Longrightarrow> allowed (sc_action c) \<Longrightarrow>
    staged_reachable env allowed st'"

abbreviation staged_domain :: "cell_staged_transaction_command \<Rightarrow> cell_transaction_state \<Rightarrow> cell_domain_state" where
  "staged_domain c st \<equiv> domain_at st (sc_cell_id c, sc_tenant_id c) (sc_generation c)"

lemma apply_staged_at:
  assumes "apply_staged env c i authority no_fence_faults st = Some (r, st')"
  shows "\<exists>d'. apply_staged_domain env c i authority no_fence_faults (staged_domain c st) = Some (r, d') \<and>
      domain_of st' (sc_cell_id c, sc_tenant_id c) = Some d'"
    and "k \<noteq> (sc_cell_id c, sc_tenant_id c) \<Longrightarrow> domain_of st' k = domain_of st k"
  by (rule at_domain_result[OF assms[unfolded apply_staged_def]]; (erule effect_identity[OF apply_staged_domain_effect] | assumption))+

lemma staged_reachable_invariant:
  assumes "staged_reachable env allowed st" "domain_of st k = Some d"
    and new: "\<And>cell tenant g. P (domain_new cell tenant g)"
    and step: "\<And>action d d'. P d \<Longrightarrow> allowed action \<Longrightarrow> staged_effect env action d d' \<Longrightarrow> P d'"
  shows "P d"
  using assms(1,2)
proof (induction arbitrary: k d rule: staged_reachable.induct)
  case (Step st c i authority r st')
  show ?case
  proof (cases "k = (sc_cell_id c, sc_tenant_id c)")
    case True
    have old: "P (domain_at st k (sc_generation c))" using Step.IH[of k] new by (auto simp: domain_at_def split: option.split)
    have "staged_effect env (sc_action c) (domain_at st k (sc_generation c)) d"
      using apply_staged_at(1)[OF Step.hyps(2)] Step.prems True by (auto dest: apply_staged_domain_effect)
    with old show ?thesis by (rule step[OF _ Step.hyps(3)])
  next
    case False
    then show ?thesis using apply_staged_at(2)[OF Step.hyps(2) False] Step.IH Step.prems by simp
  qed
qed simp

section \<open>Durability evidence\<close>

definition receipt_ok :: "cell_env \<Rightarrow> staged_transaction \<Rightarrow> u16 \<Rightarrow> cell_tagged_log_receipt \<Rightarrow> bool" where
  "receipt_ok env s l r \<longleftrightarrow> tr_log_set_id r = l \<and> tr_envelope_sha256 r = cv_sha env (sg_envelope s) \<and> 2 \<le> card (set (tr_quorum_node_ids r))"

definition certificate_ok :: "cell_env \<Rightarrow> (u16, cell_log_set_policy) btree \<Rightarrow> staged_transaction \<Rightarrow> u16 \<Rightarrow> cell_tagged_log_certificate \<Rightarrow> bool" where
  "certificate_ok env policies s l c \<longleftrightarrow> ts_log_set_id (tc_statement c) = l \<and>
     (\<exists>p. bt_get policies l = Some p \<and> verify_tagged_log_envelope_certificate env c p (sg_envelope s))"

definition evidence_ok :: "cell_env \<Rightarrow> (u16, cell_log_set_policy) btree \<Rightarrow> staged_transaction \<Rightarrow> bool" where
  "evidence_ok env policies s \<longleftrightarrow> (\<forall>l r. bt_get (sg_receipts s) l = Some r \<longrightarrow> receipt_ok env s l r) \<and>
     (\<not> sg_visible s \<and> \<not> sg_aborted s \<longrightarrow> (\<forall>l c. bt_get (sg_certificates s) l = Some c \<longrightarrow> certificate_ok env policies s l c))"

definition evidence_inv :: "cell_env \<Rightarrow> cell_domain_state \<Rightarrow> bool" where
  "evidence_inv env d \<longleftrightarrow> (\<forall>i < length (cd_staged d). evidence_ok env (cd_log_set_policies d) (cd_staged d ! i))"

lemma evidence_policies:
  "\<not> unresolved_staged d \<Longrightarrow> i < length (cd_staged d) \<Longrightarrow> evidence_ok env ps (cd_staged d ! i) \<Longrightarrow> evidence_ok env ps' (cd_staged d ! i)"
  by (auto simp: unresolved_staged_def evidence_ok_def list_ex_iff)

lemma evidence_flags:
  "evidence_ok env ps s \<Longrightarrow> evidence_ok env ps (s\<lparr>sg_visible := True\<rparr>)" "evidence_ok env ps s \<Longrightarrow> evidence_ok env ps (s\<lparr>sg_aborted := True\<rparr>)"
  by (auto simp: evidence_ok_def receipt_ok_def)

lemma all_nth_update:
  "\<forall>j < length xs. P (xs ! j) \<Longrightarrow> (i < length xs \<Longrightarrow> P x) \<Longrightarrow> \<forall>j < length xs. P (xs[i := x] ! j)"
  by (cases "i < length xs") (auto simp: nth_list_update)

lemma evidence_publish: "evidence_inv env d \<Longrightarrow> evidence_inv env (publish_staged_transaction env i g d)"
  using all_nth_update[of "cd_staged d" "evidence_ok env (cd_log_set_policies d)"] by (simp add: evidence_inv_def evidence_flags)

lemma evidence_abort: "evidence_inv env d \<Longrightarrow> evidence_inv env (abort_staged i d)"
  using all_nth_update[of "cd_staged d" "evidence_ok env (cd_log_set_policies d)"] by (simp add: evidence_inv_def evidence_flags)

lemma evidence_inv_step:
  assumes inv: "evidence_inv env d" and "staged_effect env action d d'"
  shows "evidence_inv env d'"
  using assms(2)
proof cases
  case Quiet
  then show ?thesis using inv by (simp add: evidence_inv_def same_frame_def)
next
  case Policies
  then show ?thesis using inv evidence_policies[OF Policies(1)] by (auto simp: evidence_inv_def)
next
  case Transition
  then show ?thesis using inv evidence_policies[OF Transition(1)] by (auto simp: evidence_inv_def)
next
  case (Append s)
  then show ?thesis using inv by (auto simp: evidence_inv_def evidence_ok_def same_frame_def nth_append less_Suc_eq)
next
  case (Receipt i r)
  then have "evidence_ok env (cd_log_set_policies d) (cd_staged d ! i)" using inv by (simp add: evidence_inv_def)
  then have "evidence_ok env (cd_log_set_policies d) ((cd_staged d ! i)\<lparr>sg_receipts := bt_insert (tr_log_set_id r) r (sg_receipts (cd_staged d ! i))\<rparr>)"
    using Receipt(4,5) by (auto simp: evidence_ok_def receipt_ok_def certificate_ok_def)
  with Receipt(1-3) inv show ?thesis by (auto simp: evidence_inv_def same_frame_def nth_list_update)
next
  case (Certificate i c p)
  then have "evidence_ok env (cd_log_set_policies d) (cd_staged d ! i)" using inv by (simp add: evidence_inv_def)
  then have "evidence_ok env (cd_log_set_policies d)
      ((cd_staged d ! i)\<lparr>sg_certificates := bt_insert (ts_log_set_id (tc_statement c)) c (sg_certificates (cd_staged d ! i))\<rparr>)"
    using Certificate(4,5) by (auto simp: evidence_ok_def receipt_ok_def certificate_ok_def)
  with Certificate(1-3) inv show ?thesis by (auto simp: evidence_inv_def same_frame_def nth_list_update)
next
  case Publish
  then show ?thesis using inv by (simp add: evidence_publish)
next
  case Takeover
  then show ?thesis using inv by (simp add: evidence_publish)
next
  case (Abort i g)
  then show ?thesis using evidence_abort[OF inv, of i] by (simp add: evidence_inv_def)
next
  case (Prefix g n)
  have "evidence_inv env (resolve_window env no_fence_faults g n (length (unresolved_indexes d)) (unresolved_indexes d) 0 d)"
    using inv by (rule resolve_window_keeps) (auto intro: evidence_publish evidence_abort)
  then show ?thesis by (simp add: Prefix evidence_inv_def)
qed

lemma evidence_reachable:
  "staged_reachable env allowed st \<Longrightarrow> domain_of st k = Some d \<Longrightarrow> evidence_inv env d"
  by (erule (1) staged_reachable_invariant[where P = "evidence_inv env"]) (auto intro: evidence_inv_step, simp add: evidence_inv_def domain_new_def)

text \<open>What a verified certificate says of an envelope.\<close>

definition durable_on :: "cell_env \<Rightarrow> cell_log_set_policy \<Rightarrow> u16 \<Rightarrow> bytes \<Rightarrow> cell_tagged_log_certificate \<Rightarrow> bool" where
  "durable_on env p l envelope c \<longleftrightarrow> lsp_log_set_id p = l \<and> ts_log_set_id (tc_statement c) = l \<and>
     ts_envelope_sha256 (tc_statement c) = cv_sha env envelope \<and> ts_durable_position (tc_statement c) \<noteq> 0 \<and>
     distinct (map ta_signer_id (tc_attestations c)) \<and> unat (lsp_quorum_size p) \<le> length (tc_attestations c) \<and> lsp_quorum_size p \<noteq> 0 \<and>
     (\<forall>a \<in> set (tc_attestations c). \<exists>key payload. bt_get (member_map p) (ta_signer_id a) = Some key \<and>
        log_signing_bytes env (tc_statement c) = Some payload \<and> cv_verify env key payload (ta_signature a))"

lemma verified_durable:
  assumes "verify_tagged_log_envelope_certificate env c p envelope" "ts_log_set_id (tc_statement c) = l"
  shows "durable_on env p l envelope c"
proof -
  obtain bs where bs: "log_signing_bytes env (tc_statement c) = Some bs"
    "quorum_reached (lsp_quorum_size p) (verify_signers env (member_map p) ta_signer_id (\<lambda>_. True) (\<lambda>_. Some bs) ta_signature (tc_attestations c) {})"
    and st: "ts_log_set_id (tc_statement c) = lsp_log_set_id p" "ts_envelope_sha256 (tc_statement c) = cv_sha env envelope"
      "ts_durable_position (tc_statement c) \<noteq> 0" "lsp_quorum_size p \<noteq> 0"
    using assms(1) unfolding verify_tagged_log_envelope_certificate_def Let_def
    by (auto split: result.split_asm if_split_asm option.split_asm)
  from quorum_signers[OF bs(2)] bs(1) st assms(2) show ?thesis by (auto simp: durable_on_def)
qed

text \<open>Only the two publications answer \<open>Committed\<close>.\<close>

lemma response_status [simp]: "sr_status (staged_response d identity status e) = status"
  "sr_status (staged_prefix_response d identity status m n) = status"
  by (simp_all add: staged_response_def staged_prefix_response_def Let_def)

lemma stage_status: "stage env c i faults tx d = Some (r, d') \<Longrightarrow> sr_status r \<noteq> StagedCommitted"
  unfolding stage_def stage_resolved_def append_staged_def existing_status_def Let_def
  by (simp split: if_split_asm option.split_asm result.split_asm) auto

lemma other_status:
  "sr_status (fst (install_log_set_policies c ps d)) \<noteq> StagedCommitted"
  "sr_status (fst (prepare_policy_transition env c faults t readiness d)) \<noteq> StagedCommitted"
  "sr_status (fst (commit_policy_transition env c i faults tid succ d)) \<noteq> StagedCommitted"
  "sr_status (fst (reserve_capacity env c faults tx certificates d)) \<noteq> StagedCommitted"
  "sr_status (fst (record_log_receipt env c receipt d)) \<noteq> StagedCommitted"
  "sr_status (fst (record_log_certificate env c certificate d)) \<noteq> StagedCommitted"
  "sr_status (fst (takeover_abort env c authority faults previous recovery expected sha fences d)) \<noteq> StagedCommitted"
  "sr_status (fst (apply_takeover_recover_prefix env c authority faults previous recovery w inventories d)) \<noteq> StagedCommitted"
  by (simp_all add: install_log_set_policies_def prepare_policy_transition_def commit_policy_transition_def reserve_capacity_def existing_status_def
      record_log_receipt_def record_log_certificate_def takeover_abort_def apply_takeover_recover_prefix_def Let_def
      split: option.split prod.split)

lemma committed_action:
  assumes "apply_staged_domain env c i authority no_fence_faults d = Some (r, d')" "sr_status r = StagedCommitted"
  shows "(sc_action c = PublishStaged \<and> publish_staged env c d = (r, d')) \<or>
    (\<exists>a b e h. sc_action c = TakeoverPublish a b e h \<and> takeover_publish env c authority no_fence_faults a b e h d = (r, d'))"
proof (cases "sc_generation c = 0 \<or> (\<not> is_takeover (sc_action c) \<and> cd_generation d \<noteq> sc_generation c)")
  case True
  with assms show ?thesis by (auto simp: apply_staged_domain_def)
next
  case False
  note run = assms(1)[unfolded apply_staged_domain_def if_not_P[OF False]]
  have no: "f \<noteq> (r, d')" if "sr_status (fst f) \<noteq> StagedCommitted" for f using that assms(2) by auto
  show ?thesis
    using run stage_status[of env c i no_fence_faults _ d r d'] assms(2) no[OF other_status(1)] no[OF other_status(2)] no[OF other_status(3)]
      no[OF other_status(4)] no[OF other_status(5)] no[OF other_status(6)] no[OF other_status(7)] no[OF other_status(8)]
    by (cases "sc_action c") (simp_all del: prod.inject)
qed

section \<open>Prefix recovery\<close>

definition present_everywhere ::
  "(u16, cell_log_set_policy) btree \<Rightarrow> cell_tagged_log_prefix_fence_certificate list \<Rightarrow> cell_staged_window_record \<Rightarrow> bool" where
  "present_everywhere policies inventories r \<longleftrightarrow> (\<forall>f \<in> set inventories. \<exists>p. bt_get policies (pfs_log_set_id (pfc_statement f)) = Some p \<and>
     unat (lsp_quorum_size p) \<le> count_observed r True f)"

definition absent_somewhere ::
  "(u16, cell_log_set_policy) btree \<Rightarrow> cell_tagged_log_prefix_fence_certificate list \<Rightarrow> cell_staged_window_record \<Rightarrow> bool" where
  "absent_somewhere policies inventories r \<longleftrightarrow> (\<exists>f \<in> set inventories. \<exists>p. bt_get policies (pfs_log_set_id (pfc_statement f)) = Some p \<and>
     unat (lsp_quorum_size p) \<le> count_observed r False f)"

lemma inventory_record_ok:
  "inventory_record policies r inventories = Some (e, a) \<Longrightarrow>
     e = present_everywhere policies inventories r \<and> a = absent_somewhere policies inventories r"
proof (induction policies r inventories arbitrary: e a rule: inventory_record.induct)
  case (1 policies r)
  then show ?case by (simp add: present_everywhere_def absent_somewhere_def)
next
  case (2 policies r f fs)
  obtain p e' a' where p: "bt_get policies (pfs_log_set_id (pfc_statement f)) = Some p" and rest: "inventory_record policies r fs = Some (e', a')"
    and ea: "e = (e' \<and> unat (lsp_quorum_size p) \<le> count_observed r True f)" "a = (a' \<or> unat (lsp_quorum_size p) \<le> count_observed r False f)"
    and fit: "\<not> (unat (lsp_quorum_size p) \<le> count_observed r True f \<and> unat (lsp_quorum_size p) \<le> count_observed r False f)"
    using "2.prems" by (auto simp: Let_def split: option.split_asm if_split_asm)
  from "2.IH"[OF p refl refl refl fit rest] ea p show ?case by (simp add: present_everywhere_def absent_somewhere_def conj_commute disj_commute)
qed

lemma prefix_scan_ok:
  assumes "prefix_scan policies inventories rs off recovered = Some (n, boundary)"
  shows "\<exists>k \<le> length rs. n = (if k = 0 then recovered else off + k) \<and> (\<forall>j < k. present_everywhere policies inventories (rs ! j)) \<and>
    (k < length rs \<longrightarrow> absent_somewhere policies inventories (rs ! k))"
  using assms
proof (induction policies inventories rs off recovered rule: prefix_scan.induct)
  case (2 policies inventories r rs off recovered)
  obtain e a where inv: "inventory_record policies r inventories = Some (e, a)" using "2.prems" by (auto split: option.split_asm)
  note ea = inventory_record_ok[OF inv]
  show ?case
  proof (cases e)
    case True
    then obtain k where "k \<le> length rs" "n = (if k = 0 then off + 1 else off + 1 + k)" "\<forall>j < k. present_everywhere policies inventories (rs ! j)"
      "k < length rs \<longrightarrow> absent_somewhere policies inventories (rs ! k)"
      using "2.IH"[OF inv refl True] "2.prems" inv by auto
    with True ea show ?thesis
      by (intro exI[of _ "Suc k"]) (auto simp: nth_Cons split: nat.split if_split_asm)
  next
    case False
    with "2.prems" inv ea show ?thesis by (intro exI[of _ 0]) (auto split: if_split_asm)
  qed
qed simp

lemma nth_update: "xs[a := x] ! i = (if i = a \<and> a < length xs then x else xs ! i)"
  by (cases "a < length xs") (auto simp: nth_list_update list_update_beyond)

lemma publish_fold:
  "length (cd_staged (fold (\<lambda>i. publish_staged_transaction env i g) indexes d)) = length (cd_staged d) \<and>
   (\<forall>i < length (cd_staged d). cd_staged (fold (\<lambda>i. publish_staged_transaction env i g) indexes d) ! i =
      (if i \<in> set indexes then (cd_staged d ! i)\<lparr>sg_visible := True\<rparr> else cd_staged d ! i))"
  by (induction indexes arbitrary: d) (auto simp: nth_update)

lemma abort_fold:
  "length (cd_staged (fold abort_staged indexes d)) = length (cd_staged d) \<and>
   (\<forall>i < length (cd_staged d). cd_staged (fold abort_staged indexes d) ! i =
      (if i \<in> set indexes then (cd_staged d ! i)\<lparr>sg_aborted := True\<rparr> else cd_staged d ! i)) \<and>
   cd_rows (fold abort_staged indexes d) = cd_rows d"
  by (induction indexes arbitrary: d) (auto simp: nth_update)

lemma publish_fold_rows:
  assumes "\<forall>i \<in> set indexes. i < length (cd_staged d)"
  shows "cd_rows (fold (\<lambda>i. publish_staged_transaction env i g) indexes d) =
    fold (\<lambda>i. fold apply_cell_mutation (ct_mutations (sg_transaction (cd_staged d ! i)))) indexes (cd_rows d)"
  using assms
proof (induction indexes rule: rev_induct)
  case (snoc i indexes)
  have "sg_transaction (cd_staged (fold (\<lambda>i. publish_staged_transaction env i g) indexes d) ! i) = sg_transaction (cd_staged d ! i)"
    using publish_fold[of env g indexes d] snoc.prems by auto
  with snoc show ?case by simp
qed simp

lemma window_indexes_length: "window_indexes env previous d records = Some indexes \<Longrightarrow> length indexes = length records"
  by (induction env previous d records arbitrary: indexes rule: window_indexes.induct) (auto simp: Let_def split: option.split_asm if_split_asm)

text \<open>The flags of the staged transactions behind a resolved window.\<close>

lemma resolve_flags:
  fixes d :: cell_domain_state and n :: nat and env :: cell_env and g :: u64
  defines "U \<equiv> unresolved_indexes d"
  defines "d' \<equiv> resolve_window env no_fence_faults g n (length U) U 0 d"
  assumes "m < length U"
  shows "sg_visible (cd_staged d' ! (U ! m)) \<longleftrightarrow> m < n" and "sg_aborted (cd_staged d' ! (U ! m)) \<longleftrightarrow> n \<le> m"
proof -
  have U: "U ! m < length (cd_staged d)" "\<not> sg_visible (cd_staged d ! (U ! m))" "\<not> sg_aborted (cd_staged d ! (U ! m))" "distinct U"
    using nth_mem[OF assms(3)] by (auto simp: U_def unresolved_indexes_def)
  have "U ! m \<in> set (take n U) \<longleftrightarrow> m < n"
  proof
    assume "U ! m \<in> set (take n U)"
    then obtain j where "j < n" "j < length U" "U ! j = U ! m" by (auto simp: in_set_conv_nth)
    then show "m < n" using U(4) assms(3) by (metis nth_eq_iff_index_eq)
  next
    assume "m < n"
    then show "U ! m \<in> set (take n U)" using assms(3) by (auto simp: in_set_conv_nth)
  qed
  moreover have "U ! m \<in> set (drop n U) \<longleftrightarrow> n \<le> m"
  proof
    assume "U ! m \<in> set (drop n U)"
    then obtain j where "n + j < length U" "U ! (n + j) = U ! m" by (auto simp: in_set_conv_nth less_diff_conv add.commute)
    then show "n \<le> m" using U(4) assms(3) by (metis nth_eq_iff_index_eq le_add1)
  next
    assume "n \<le> m"
    then have "drop n U ! (m - n) = U ! m" "m - n < length (drop n U)" using assms(3) by auto
    then show "U ! m \<in> set (drop n U)" by (metis nth_mem)
  qed
  ultimately show "sg_visible (cd_staged d' ! (U ! m)) \<longleftrightarrow> m < n" "sg_aborted (cd_staged d' ! (U ! m)) \<longleftrightarrow> n \<le> m"
    using U publish_fold[of env "Some g" "take n U" d] abort_fold[of "drop n U" "fold (\<lambda>i. publish_staged_transaction env i (Some g)) (take n U) d"]
    by (auto simp: d'_def resolve_window_eq)
qed

section \<open>Properties\<close>


end
