(* ===== verification/Cell_Staged_Order.thy ===== *)
theory Cell_Staged_Order
  imports Cell_Staged_Safety
begin

text \<open>
  The order of staged transactions. While a domain is driven only by staged commands without policy
  transitions and without single takeovers, commit sequences increase along the staged list, publication
  follows them, and the published transactions are serializable. The excluded actions break this order.
\<close>

section \<open>Sequences and lists\<close>

lemma saturating_succ_above:
  fixes a :: u64
  assumes "saturating_add a 1 \<noteq> - 1"
  shows "a < saturating_add a 1"
proof -
  have "unat a + 1 < 2 ^ 64" using assms by (auto simp: saturating_add_def split: if_split_asm)
  then show ?thesis unfolding word_less_nat_alt unat_saturating_add by simp
qed

lemma filter_update_same:
  "P x = P (xs ! i) \<Longrightarrow> f x = f (xs ! i) \<Longrightarrow> fold (\<lambda>s. g (f s)) (filter P (xs[i := x])) a = fold (\<lambda>s. g (f s)) (filter P xs) a"
  by (induction xs arbitrary: i a) (auto split: nat.split)

section \<open>The invariant\<close>

definition serial_staged :: "staged_transaction list \<Rightarrow> (bytes, bytes) btree" where
  "serial_staged ss = fold (\<lambda>s. fold apply_cell_mutation (ct_mutations (sg_transaction s))) ss []"

abbreviation unresolved :: "staged_transaction \<Rightarrow> bool" where
  "unresolved s \<equiv> \<not> sg_visible s \<and> \<not> sg_aborted s"

abbreviation read_sequence :: "staged_transaction \<Rightarrow> u64" where
  "read_sequence s \<equiv> crv_sequence (ct_read_version (sg_transaction s))"

text \<open>A later transaction has not read what an earlier one above its read version writes.\<close>

definition reads_behind :: "staged_transaction \<Rightarrow> staged_transaction \<Rightarrow> bool" where
  "reads_behind u s \<longleftrightarrow> sg_aborted u \<or> sg_commit_sequence u \<le> read_sequence s \<or>
     (\<forall>read \<in> set (ct_read_conflicts (sg_transaction s)). \<forall>w \<in> set (ct_write_conflicts (sg_transaction u)). \<not> range_overlaps read w)"

text \<open>What holds of the staged transactions apart from their state of resolution.\<close>

definition static_ok :: "staged_transaction list \<Rightarrow> bool" where
  "static_ok ss \<longleftrightarrow> (\<forall>j < length ss. \<forall>i < j. sg_commit_sequence (ss ! i) < sg_commit_sequence (ss ! j)) \<and>
     (\<forall>j < length ss. \<forall>i < j. ct_partitioned_resolution (sg_transaction (ss ! j)) = None \<longrightarrow> reads_behind (ss ! i) (ss ! j)) \<and>
     (\<forall>i < length ss. read_sequence (ss ! i) < sg_commit_sequence (ss ! i) \<and> valid_request (sg_transaction (ss ! i)))"

definition resolved_ok :: "u64 \<Rightarrow> staged_transaction list \<Rightarrow> bool" where
  "resolved_ok latest ss \<longleftrightarrow> (\<forall>j < length ss. \<forall>i < j. sg_visible (ss ! j) \<longrightarrow> \<not> unresolved (ss ! i)) \<and>
     (\<forall>i < length ss. \<not> (sg_visible (ss ! i) \<and> sg_aborted (ss ! i)) \<and>
        (unresolved (ss ! i) \<longrightarrow> latest < sg_commit_sequence (ss ! i)) \<and> (sg_visible (ss ! i) \<longrightarrow> sg_commit_sequence (ss ! i) \<le> latest)) \<and>
     (ss \<noteq> [] \<longrightarrow> latest \<le> sg_commit_sequence (last ss))"

definition order_inv :: "cell_domain_state \<Rightarrow> bool" where
  "order_inv d \<longleftrightarrow> static_ok (cd_staged d) \<and> resolved_ok (cd_latest_sequence d) (cd_staged d) \<and>
     cd_rows d = serial_staged (filter sg_visible (cd_staged d))"

text \<open>No commit sequence has reached the largest value.\<close>

definition unsaturated :: "cell_domain_state \<Rightarrow> bool" where
  "unsaturated d \<longleftrightarrow> (\<forall>s \<in> set (cd_staged d). sg_commit_sequence s \<noteq> - 1)"

definition plain_action :: "cell_staged_transaction_action \<Rightarrow> bool" where
  "plain_action action = (case action of PrepareLogSetPolicyTransition _ _ \<Rightarrow> False | CommitLogSetPolicyTransition _ _ \<Rightarrow> False
     | TakeoverPublish _ _ _ _ \<Rightarrow> False | _ \<Rightarrow> True)"

text \<open>Resolution changes only the flags.\<close>

definition same_shape :: "staged_transaction list \<Rightarrow> staged_transaction list \<Rightarrow> bool" where
  "same_shape ss ss' \<longleftrightarrow> length ss' = length ss \<and> (\<forall>i < length ss. sg_commit_sequence (ss' ! i) = sg_commit_sequence (ss ! i) \<and>
     sg_transaction (ss' ! i) = sg_transaction (ss ! i) \<and> (sg_aborted (ss ! i) \<longrightarrow> sg_aborted (ss' ! i)))"

lemma reads_behind_shape:
  "reads_behind u s \<Longrightarrow> sg_commit_sequence u' = sg_commit_sequence u \<Longrightarrow> sg_transaction u' = sg_transaction u \<Longrightarrow> sg_transaction s' = sg_transaction s \<Longrightarrow>
     (sg_aborted u \<longrightarrow> sg_aborted u') \<Longrightarrow> reads_behind u' s'"
  by (auto simp: reads_behind_def)

lemma same_shapeD:
  assumes "same_shape ss ss'"
  shows "length ss' = length ss"
    and "i < length ss \<Longrightarrow> sg_commit_sequence (ss' ! i) = sg_commit_sequence (ss ! i)"
    and "i < length ss \<Longrightarrow> sg_transaction (ss' ! i) = sg_transaction (ss ! i)"
    and "i < length ss \<Longrightarrow> sg_aborted (ss ! i) \<Longrightarrow> sg_aborted (ss' ! i)"
  using assms by (simp_all add: same_shape_def)

lemma static_shape:
  assumes ok: "static_ok ss" and shape: "same_shape ss ss'"
  shows "static_ok ss'"
  unfolding static_ok_def
proof (intro conjI allI impI)
  note D = same_shapeD[OF shape]
  fix j assume "j < length ss'"
  then have j: "j < length ss" by (simp add: D(1))
  show "read_sequence (ss' ! j) < sg_commit_sequence (ss' ! j)" "valid_request (sg_transaction (ss' ! j))"
    using ok j by (simp_all add: static_ok_def D(2,3)[OF j])
  fix i assume "i < j"
  then have i: "i < length ss" using j by simp
  show "sg_commit_sequence (ss' ! i) < sg_commit_sequence (ss' ! j)"
    using ok j \<open>i < j\<close> by (simp add: static_ok_def D(2)[OF i] D(2)[OF j])
  assume "ct_partitioned_resolution (sg_transaction (ss' ! j)) = None"
  then have "reads_behind (ss ! i) (ss ! j)" using ok j \<open>i < j\<close> by (simp add: static_ok_def D(3)[OF j])
  then show "reads_behind (ss' ! i) (ss' ! j)"
    by (rule reads_behind_shape) (use D(2-4)[OF i] D(3)[OF j] in simp_all)
qed

lemma shape_update:
  "sg_commit_sequence x = sg_commit_sequence (ss ! i) \<Longrightarrow> sg_transaction x = sg_transaction (ss ! i) \<Longrightarrow>
     (sg_aborted (ss ! i) \<Longrightarrow> sg_aborted x) \<Longrightarrow> same_shape ss (ss[i := x])"
  by (auto simp: same_shape_def nth_update)

lemma shape_last: "same_shape ss ss' \<Longrightarrow> ss \<noteq> [] \<Longrightarrow> sg_commit_sequence (last ss') = sg_commit_sequence (last ss)"
  by (cases "ss' = []") (auto simp: same_shape_def last_conv_nth)

lemma sequence_mono:
  "order_inv d \<Longrightarrow> i < j \<Longrightarrow> j < length (cd_staged d) \<Longrightarrow> sg_commit_sequence (cd_staged d ! i) < sg_commit_sequence (cd_staged d ! j)"
  by (auto simp: order_inv_def static_ok_def)

lemma sequence_last:
  assumes "order_inv d" "i < length (cd_staged d)"
  shows "sg_commit_sequence (cd_staged d ! i) \<le> sg_commit_sequence (last (cd_staged d))"
proof (cases "i = length (cd_staged d) - 1")
  case True
  then have "last (cd_staged d) = cd_staged d ! i" using assms(2) by (subst last_conv_nth) auto
  then show ?thesis by simp
next
  case False
  then have "i < length (cd_staged d) - 1" "cd_staged d \<noteq> []" using assms(2) by auto
  then show ?thesis using sequence_mono[OF assms(1), of i "length (cd_staged d) - 1"] by (simp add: last_conv_nth)
qed

lemma filter_update_last:
  assumes "i < length xs" "\<not> P (xs ! i)" "P x" "\<forall>j < length xs. i < j \<longrightarrow> \<not> P (xs ! j)"
  shows "filter P (xs[i := x]) = filter P xs @ [x]"
proof -
  have "filter P (drop (Suc i) xs) = []"
    using assms(4) by (auto simp: filter_empty_conv in_set_conv_nth)
  moreover have "xs[i := x] = take i xs @ x # drop (Suc i) xs" "xs = take i xs @ xs ! i # drop (Suc i) xs"
    using assms(1) by (simp_all add: upd_conv_take_nth_drop id_take_nth_drop)
  ultimately show ?thesis using assms(2,3)
    by (metis append.right_neutral filter.simps(2) filter_append)
qed

lemma filter_update_off: "\<not> P x \<Longrightarrow> (i < length xs \<Longrightarrow> \<not> P (xs ! i)) \<Longrightarrow> filter P (xs[i := x]) = filter P xs"
  by (induction xs arbitrary: i) (auto split: nat.split)

lemma serial_snoc: "serial_staged (ss @ [s]) = fold apply_cell_mutation (ct_mutations (sg_transaction s)) (serial_staged ss)"
  by (simp add: serial_staged_def)

lemma order_publish:
  assumes inv: "order_inv d" and i: "i < length (cd_staged d)" "unresolved (cd_staged d ! i)" "\<not> earlier_pending d (cd_staged d ! i)"
  shows "order_inv (publish_staged_transaction env i g d)"
proof -
  let ?ss = "cd_staged d"
  let ?ss' = "?ss[i := (?ss ! i)\<lparr>sg_visible := True\<rparr>]"
  have shape: "same_shape ?ss ?ss'" by (rule shape_update) simp_all
  have later: "\<not> sg_visible (?ss ! j)" if "i < j" "j < length ?ss" for j
    using inv i(2) that by (auto simp: order_inv_def resolved_ok_def)
  have earlier: "\<not> unresolved (?ss ! j)" if "j < i" for j
    using i(1,3) sequence_mono[OF inv that i(1)] that by (auto simp: earlier_pending_def list_ex_iff)
  have serial: "serial_staged (filter sg_visible ?ss') = fold apply_cell_mutation (ct_mutations (sg_transaction (?ss ! i))) (cd_rows d)"
    using filter_update_last[of i ?ss sg_visible "(?ss ! i)\<lparr>sg_visible := True\<rparr>"] i(1,2) later inv by (simp add: serial_snoc order_inv_def)
  have "resolved_ok (sg_commit_sequence (?ss ! i)) ?ss'"
    unfolding resolved_ok_def
  proof (intro conjI allI impI)
    fix j k assume "j < length ?ss'" "k < j" "sg_visible (?ss' ! j)"
    then show "\<not> unresolved (?ss' ! k)" using earlier later i inv by (auto simp: nth_update order_inv_def resolved_ok_def split: if_split_asm)
  next
    fix j assume j: "j < length ?ss'"
    then show "\<not> (sg_visible (?ss' ! j) \<and> sg_aborted (?ss' ! j))" using i inv by (auto simp: nth_update order_inv_def resolved_ok_def split: if_split_asm)
    show "sg_commit_sequence (?ss ! i) < sg_commit_sequence (?ss' ! j)" if "unresolved (?ss' ! j)"
      using that j i earlier[of j] sequence_mono[OF inv, of i j] by (auto simp: nth_update linorder_neq_iff split: if_split_asm)
    show "sg_commit_sequence (?ss' ! j) \<le> sg_commit_sequence (?ss ! i)" if "sg_visible (?ss' ! j)"
      using that j i later[of j] sequence_mono[OF inv, of j i] by (auto simp: nth_update linorder_neq_iff split: if_split_asm)
  next
    show "sg_commit_sequence (?ss ! i) \<le> sg_commit_sequence (last ?ss')" if "?ss' \<noteq> []"
      using shape_last[OF shape] that sequence_last[OF inv i(1)] by auto
  qed
  then show ?thesis using inv static_shape[OF _ shape] serial by (simp add: order_inv_def)
qed

lemma order_abort:
  assumes inv: "order_inv d" and i: "i < length (cd_staged d) \<Longrightarrow> \<not> sg_visible (cd_staged d ! i)"
  shows "order_inv (abort_staged i d)"
proof -
  let ?ss = "cd_staged d"
  let ?ss' = "?ss[i := (?ss ! i)\<lparr>sg_aborted := True\<rparr>]"
  have shape: "same_shape ?ss ?ss'" by (rule shape_update) simp_all
  show ?thesis
  proof (cases "i < length ?ss")
    case True
    have "filter sg_visible ?ss' = filter sg_visible ?ss" using i True by (intro filter_update_off) auto
    moreover have "resolved_ok (cd_latest_sequence d) ?ss'"
      using inv shape_last[OF shape] i[OF True] True unfolding order_inv_def resolved_ok_def
      by (auto simp: nth_update split: if_split_asm)
    ultimately show ?thesis using inv static_shape[OF _ shape] by (simp add: order_inv_def)
  qed (use inv in \<open>simp add: order_inv_def list_update_beyond\<close>)
qed

lemma unresolved_Cons:
  assumes "unresolved_indexes d = i # U"
  shows "i < length (cd_staged d)" "unresolved (cd_staged d ! i)" "\<And>j. j < length (cd_staged d) \<Longrightarrow> unresolved (cd_staged d ! j) \<Longrightarrow> i \<le> j"
    and "unresolved_indexes (publish_staged_transaction env i g d) = U"
proof -
  have mem: "j \<in> set (i # U) \<longleftrightarrow> j < length (cd_staged d) \<and> unresolved (cd_staged d ! j)" for j
    unfolding assms[symmetric] by (auto simp: unresolved_indexes_def)
  have "sorted (i # U)" "distinct (i # U)" unfolding assms[symmetric] by (simp_all add: unresolved_indexes_def sorted_wrt_filter)
  then show "i < length (cd_staged d)" "unresolved (cd_staged d ! i)" "\<And>j. j < length (cd_staged d) \<Longrightarrow> unresolved (cd_staged d ! j) \<Longrightarrow> i \<le> j"
    using mem by (auto, metis mem nat_le_linear set_ConsD)
  then have "unresolved_indexes (publish_staged_transaction env i g d) = filter (\<lambda>j. j \<noteq> i) (unresolved_indexes d)"
    unfolding unresolved_indexes_def filter_filter by (auto simp: nth_update intro!: filter_cong)
  then show "unresolved_indexes (publish_staged_transaction env i g d) = U"
    using \<open>distinct (i # U)\<close> by (auto simp: assms filter_id_conv)
qed

lemma order_publish_prefix:
  assumes "order_inv d"
  shows "order_inv (fold (\<lambda>i. publish_staged_transaction env i g) (take n (unresolved_indexes d)) d) \<and>
    unresolved_indexes (fold (\<lambda>i. publish_staged_transaction env i g) (take n (unresolved_indexes d)) d) = drop n (unresolved_indexes d)"
  using assms
proof (induction n arbitrary: d)
  case (Suc n)
  show ?case
  proof (cases "unresolved_indexes d")
    case (Cons i U)
    note facts = unresolved_Cons[OF Cons]
    have "\<not> sg_commit_sequence (cd_staged d ! j) < sg_commit_sequence (cd_staged d ! i)"
      if "j < length (cd_staged d)" "unresolved (cd_staged d ! j)" for j
      using facts(3)[OF that] sequence_mono[OF Suc.prems, of i j] that(1) by (cases "i = j") auto
    then have "\<not> earlier_pending d (cd_staged d ! i)" by (auto simp: earlier_pending_def list_ex_iff in_set_conv_nth)
    then have "order_inv (publish_staged_transaction env i g d)" using order_publish[OF Suc.prems facts(1,2)] by simp
    from Suc.IH[OF this] show ?thesis by (simp add: Cons facts(4))
  qed (use Suc in simp)
qed simp

lemma order_abort_all:
  assumes "order_inv d" "\<forall>i \<in> set xs. i < length (cd_staged d) \<longrightarrow> \<not> sg_visible (cd_staged d ! i)"
  shows "order_inv (fold abort_staged xs d)"
  using assms
proof (induction xs arbitrary: d)
  case (Cons i xs)
  have "order_inv (abort_staged i d)" using Cons.prems by (intro order_abort) auto
  then show ?case using Cons.prems by (auto simp: nth_update intro!: Cons.IH split: if_split_asm)
qed simp

lemma sequence_above:
  assumes "order_inv d" "staged_sequence no_fence_faults d \<noteq> - 1"
  shows "cd_latest_sequence d < staged_sequence no_fence_faults d"
    and "i < length (cd_staged d) \<Longrightarrow> sg_commit_sequence (cd_staged d ! i) < staged_sequence no_fence_faults d"
proof -
  define base where "base = (if cd_staged d = [] then cd_latest_sequence d else sg_commit_sequence (last (cd_staged d)))"
  have seq: "staged_sequence no_fence_faults d = saturating_add base 1"
    by (cases "cd_staged d" rule: rev_cases) (simp_all add: staged_sequence_def no_fence_faults_def base_def)
  have "base < staged_sequence no_fence_faults d" using assms(2) unfolding seq by (rule saturating_succ_above)
  moreover have "cd_latest_sequence d \<le> base" using assms(1) by (auto simp: base_def order_inv_def resolved_ok_def)
  moreover have "sg_commit_sequence (cd_staged d ! i) \<le> base" if "i < length (cd_staged d)"
    using sequence_last[OF assms(1) that] that by (auto simp: base_def)
  ultimately show "cd_latest_sequence d < staged_sequence no_fence_faults d"
    and "i < length (cd_staged d) \<Longrightarrow> sg_commit_sequence (cd_staged d ! i) < staged_sequence no_fence_faults d"
    by (meson le_less_trans)+
qed

lemma static_append:
  assumes ok: "static_ok ss" and new: "\<And>i. i < length ss \<Longrightarrow> sg_commit_sequence (ss ! i) < sg_commit_sequence s"
    "\<And>i. i < length ss \<Longrightarrow> ct_partitioned_resolution (sg_transaction s) = None \<Longrightarrow> reads_behind (ss ! i) s"
    "read_sequence s < sg_commit_sequence s" "valid_request (sg_transaction s)"
  shows "static_ok (ss @ [s])"
  unfolding static_ok_def
proof (intro conjI allI impI)
  fix j assume j: "j < length (ss @ [s])"
  show "read_sequence ((ss @ [s]) ! j) < sg_commit_sequence ((ss @ [s]) ! j)" "valid_request (sg_transaction ((ss @ [s]) ! j))"
    using ok new(3,4) j by (cases "j < length ss"; simp add: static_ok_def nth_append)+
  fix i assume "i < j"
  then have i: "i < length ss" using j by simp
  show "sg_commit_sequence ((ss @ [s]) ! i) < sg_commit_sequence ((ss @ [s]) ! j)"
    using ok new(1)[OF i] i j \<open>i < j\<close> by (cases "j < length ss"; simp add: static_ok_def nth_append)
  assume "ct_partitioned_resolution (sg_transaction ((ss @ [s]) ! j)) = None"
  then show "reads_behind ((ss @ [s]) ! i) ((ss @ [s]) ! j)"
    using ok new(2)[OF i] i j \<open>i < j\<close> by (cases "j < length ss"; simp add: static_ok_def nth_append)
qed

lemma order_append:
  assumes inv: "order_inv d" and d': "cd_staged d' = cd_staged d @ [s]" "cd_latest_sequence d' = cd_latest_sequence d" "cd_rows d' = cd_rows d"
    and seq: "sg_commit_sequence s = staged_sequence no_fence_faults d" "sg_commit_sequence s \<noteq> - 1" and flags: "unresolved s"
    and ok: "valid_request (sg_transaction s)" "read_sequence s \<le> cd_latest_sequence d"
      "ct_partitioned_resolution (sg_transaction s) = None \<Longrightarrow> \<not> staged_read_conflict (sg_transaction s) d"
  shows "order_inv d'"
proof -
  let ?ss = "cd_staged d"
  note above = sequence_above[OF inv seq(2)[unfolded seq(1)], folded seq(1)]
  have reads: "reads_behind (?ss ! i) s" if "i < length ?ss" "ct_partitioned_resolution (sg_transaction s) = None" for i
    using ok(3)[OF that(2)] nth_mem[OF that(1)] by (fastforce simp: reads_behind_def staged_read_conflict_def list_ex_iff not_le)
  have "static_ok (?ss @ [s])"
    using inv by (intro static_append above reads ok(1) le_less_trans[OF ok(2)]) (simp_all add: order_inv_def)
  moreover have "resolved_ok (cd_latest_sequence d) (?ss @ [s])"
    using inv above(1) flags unfolding order_inv_def resolved_ok_def
    by (auto simp: nth_append less_Suc_eq intro: less_imp_le)
  ultimately show ?thesis using inv d' flags by (simp add: order_inv_def)
qed

section \<open>Preservation\<close>

lemma effect_sequences:
  assumes "staged_effect env action d d'"
  shows "set (map sg_commit_sequence (cd_staged d)) \<subseteq> set (map sg_commit_sequence (cd_staged d'))"
proof -
  have upd: "map sg_commit_sequence (ss[i := x]) = map sg_commit_sequence ss" if "sg_commit_sequence x = sg_commit_sequence (ss ! i)" for ss i x
    by (cases "i < length ss") (simp_all add: map_update that list_update_beyond list_update_same_conv)
  from assms show ?thesis
  proof cases
    case (Prefix g n)
    have "map sg_commit_sequence (cd_staged (resolve_window env no_fence_faults g n (length (unresolved_indexes d)) (unresolved_indexes d) 0 d)) =
        map sg_commit_sequence (cd_staged d)"
      by (rule resolve_window_keeps[where P = "\<lambda>x. map sg_commit_sequence (cd_staged x) = map sg_commit_sequence (cd_staged d)"]) (simp_all add: upd)
    then show ?thesis by (simp add: Prefix)
  next
    case (Append s)
    then show ?thesis by auto
  qed (simp_all add: upd del: set_map)
qed

lemma order_resolve:
  assumes "order_inv d"
  shows "order_inv (resolve_window env no_fence_faults g n len (unresolved_indexes d) 0 d)"
proof -
  let ?d = "fold (\<lambda>i. publish_staged_transaction env i (Some g)) (take n (unresolved_indexes d)) d"
  have "order_inv ?d" and rest: "unresolved_indexes ?d = drop n (unresolved_indexes d)"
    using order_publish_prefix[OF assms, of env "Some g" n] by auto
  moreover have "\<forall>i \<in> set (drop n (unresolved_indexes d)). i < length (cd_staged ?d) \<longrightarrow> \<not> sg_visible (cd_staged ?d ! i)"
    unfolding rest[symmetric] by (simp add: unresolved_indexes_def)
  ultimately show ?thesis unfolding resolve_window_eq using order_abort_all by simp
qed

lemma order_evidence:
  assumes "order_inv d" "same_frame d d'" "cd_staged d' = (cd_staged d)[i := x]"
    and "sg_commit_sequence x = sg_commit_sequence (cd_staged d ! i)" "sg_transaction x = sg_transaction (cd_staged d ! i)"
      "sg_visible x = sg_visible (cd_staged d ! i)" "sg_aborted x = sg_aborted (cd_staged d ! i)"
  shows "order_inv d'"
proof -
  let ?ss = "cd_staged d"
  have shape: "same_shape ?ss (?ss[i := x])" using assms(4,5,7) by (intro shape_update) simp_all
  have flags: "sg_visible (?ss[i := x] ! j) = sg_visible (?ss ! j)" "sg_aborted (?ss[i := x] ! j) = sg_aborted (?ss ! j)"
    "sg_commit_sequence (?ss[i := x] ! j) = sg_commit_sequence (?ss ! j)" for j using assms(4-7) by (auto simp: nth_update)
  have "resolved_ok (cd_latest_sequence d) (?ss[i := x])"
    using assms(1) shape_last[OF shape] by (simp add: order_inv_def resolved_ok_def flags)
  moreover have "serial_staged (filter sg_visible (?ss[i := x])) = serial_staged (filter sg_visible ?ss)"
    unfolding serial_staged_def
    by (intro filter_update_same[where f = sg_transaction and g = "\<lambda>t. fold apply_cell_mutation (ct_mutations t)"] assms(5,6))
  ultimately show ?thesis using assms(1-3) static_shape[OF _ shape] by (simp add: order_inv_def same_frame_def same_data_def)
qed

lemma order_inv_step:
  assumes old: "unsaturated d \<longrightarrow> order_inv d" and plain: "plain_action action" and effect: "staged_effect env action d d'"
  shows "unsaturated d' \<longrightarrow> order_inv d'"
proof
  assume new: "unsaturated d'"
  then have "unsaturated d" using effect_sequences[OF effect] by (auto simp: unsaturated_def)
  then have inv: "order_inv d" using old by simp
  from effect show "order_inv d'"
  proof cases
    case Quiet
    then show ?thesis using inv by (simp add: order_inv_def same_frame_def same_data_def)
  next
    case Policies
    then show ?thesis using inv by (simp add: order_inv_def same_data_def)
  next
    case Transition
    then show ?thesis using plain by (auto simp: plain_action_def)
  next
    case (Append s)
    then show ?thesis using new
      by (intro order_append[OF inv, of d' s]) (simp_all add: same_frame_def same_data_def unsaturated_def)
  next
    case (Receipt i r)
    show ?thesis by (rule order_evidence[OF inv Receipt(1,3)]) simp_all
  next
    case (Certificate i c p)
    show ?thesis by (rule order_evidence[OF inv Certificate(1,3)]) simp_all
  next
    case (Publish i)
    then show ?thesis using order_publish[OF inv] by simp
  next
    case Takeover
    then show ?thesis using plain by (auto simp: plain_action_def)
  next
    case (Abort i g)
    then show ?thesis using order_abort[OF inv, of i] by (simp add: order_inv_def)
  next
    case (Prefix g n)
    then show ?thesis using order_resolve[OF inv, of env g n "length (unresolved_indexes d)"] by (simp add: order_inv_def)
  qed
qed

lemma order_reachable:
  assumes "staged_reachable env plain_action st" "domain_of st k = Some d" "unsaturated d"
  shows "order_inv d"
proof -
  have "unsaturated d \<longrightarrow> order_inv d"
    using assms(1,2)
    by (rule staged_reachable_invariant[where P = "\<lambda>d. unsaturated d \<longrightarrow> order_inv d"])
       (simp add: order_inv_def static_ok_def resolved_ok_def serial_staged_def domain_new_def, rule order_inv_step)
  with assms(3) show ?thesis by simp
qed

section \<open>Serializability\<close>

lemma serial_staged_get:
  "bt_get (serial_staged ss) key = bt_get (fold apply_cell_mutation
     (concat (map (\<lambda>s. filter (\<lambda>m. cell_mutation_key m = key) (ct_mutations (sg_transaction s))) ss)) []) key"
proof -
  have "fold (\<lambda>s. fold apply_cell_mutation (ct_mutations (sg_transaction s))) ss rows =
      fold apply_cell_mutation (concat (map (\<lambda>s. ct_mutations (sg_transaction s)) ss)) rows" for rows
    by (induction ss arbitrary: rows) auto
  note this[of "[]"]
  then show ?thesis unfolding serial_staged_def
    by (simp only:) (subst get_mutations_filter, simp add: filter_concat comp_def)
qed

end
