(* ===== verification/Cell_Staged_Runs.thy ===== *)
theory Cell_Staged_Runs
  imports Cell_Staged_Order
begin

text \<open>
  Concrete runs of the staged transaction path: two transactions staged, acknowledged and published one
  after the other, and a takeover that recovers the first of two staged transactions.
\<close>

section \<open>Staged transactions\<close>

definition demo_tx :: "u64 \<Rightarrow> u64 \<Rightarrow> cell_key_range list \<Rightarrow> u8 \<Rightarrow> cell_transaction_command" where
  "demo_tx n v reads key = (demo_command 1 v reads key)\<lparr>ct_identity := (1, n)\<rparr>"

definition demo_staged :: "u64 \<Rightarrow> cell_staged_transaction_action \<Rightarrow> cell_staged_transaction_command" where
  "demo_staged n action = \<lparr>sc_identity = (2, n), sc_credential = None, sc_cell_id = CELL_ID, sc_tenant_id = TENANT_ID, sc_generation = 1,
     sc_transaction_identity = (1, n), sc_action = action\<rparr>"

definition demo_receipt :: "u16 \<Rightarrow> cell_tagged_log_receipt" where
  "demo_receipt l = \<lparr>tr_format_version = 1, tr_log_set_id = l, tr_generation = 1, tr_envelope_sha256 = replicate 32 0, tr_durable_position = 1,
     tr_quorum_node_ids = [1, 2]\<rparr>"

lemma demo_receipt_fields:
  "tr_format_version (demo_receipt l) = 1" "tr_log_set_id (demo_receipt l) = l" "tr_generation (demo_receipt l) = 1"
  "tr_envelope_sha256 (demo_receipt l) = replicate 32 0" "tr_durable_position (demo_receipt l) = 1" "tr_quorum_node_ids (demo_receipt l) = [1, 2]"
  by (simp_all add: demo_receipt_def)

definition demo_entry :: "u64 \<Rightarrow> cell_transaction_command \<Rightarrow> u64 \<Rightarrow> bytes \<Rightarrow> staged_transaction" where
  "demo_entry n tx seq e = \<lparr>sg_identity = (1, n), sg_transaction = tx, sg_commit_sequence = seq, sg_envelope = e, sg_receipts = [],
     sg_certificates = [], sg_visible = False, sg_aborted = False\<rparr>"

lemma demo_tx_fields [simp]:
  "ct_identity (demo_tx n v reads key) = (1, n)" "ct_credential (demo_tx n v reads key) = None" "ct_cell_id (demo_tx n v reads key) = CELL_ID"
  "ct_tenant_id (demo_tx n v reads key) = TENANT_ID" "ct_generation (demo_tx n v reads key) = 1"
  "ct_read_version (demo_tx n v reads key) = \<lparr>crv_generation = 1, crv_sequence = v\<rparr>" "ct_read_conflicts (demo_tx n v reads key) = reads"
  "ct_write_conflicts (demo_tx n v reads key) = [range_point [key]]" "ct_mutations (demo_tx n v reads key) = [CellSet [key] [9]]"
  "ct_partitioned_resolution (demo_tx n v reads key) = None" "ct_accepted_resolvers (demo_tx n v reads key) = [1, 2]"
  "ct_durable_log_tags (demo_tx n v reads key) = [10, 20]"
  by (simp_all add: demo_tx_def demo_command_def)

lemma demo_tx_valid: "list_all range_valid reads \<Longrightarrow> valid_request (demo_tx n v reads key)"
  by (simp add: valid_request_def point_contains list_all_iff list_ex_iff) (simp add: range_valid_def range_point_def)

lemma demo_tx_envelope:
  assumes "length chain = 32"
  shows "\<exists>bs e. cell_envelope demo_cell_env (demo_tx n v reads key) i j [10, 20] chain = Some bs \<and> envelope_decode demo_sha bs = Ok e \<and>
    ce_generation e = 1 \<and> sequence (ce_version e) = i \<and> ce_previous_log_chain e = chain \<and> length bs = 237"
proof -
  let ?p = "cell_envelope_parts (demo_tx n v reads key) i j [10, 20] chain [0] [0] [0]"
  have "parts_ok ?p"
    using assms by (simp add: parts_ok_def cell_envelope_parts_def CELL_ID_def TENANT_ID_def RESOLVER_SET_ID_def
        REQUIRED_RESOLVERS_def from_parts_def ZERO_def word_less_nat_alt)
  from from_parts_decodes[OF demo_sha_digest32 this] show ?thesis
    by (fastforce simp: cell_envelope_def demo_cell_env_def cell_envelope_parts_def REQUIRED_RESOLVERS_def from_parts_def)
qed

section \<open>A published transaction\<close>

text \<open>A reachable state and its domain, without policies and with the given staged transactions.\<close>

definition demo_ready :: "cell_transaction_state \<Rightarrow> staged_transaction list \<Rightarrow> cell_domain_state \<Rightarrow> bool" where
  "demo_ready st ss d \<longleftrightarrow> staged_reachable demo_cell_env plain_action st \<and> domain_at st (CELL_ID, TENANT_ID) 1 = d \<and> cd_generation d = 1 \<and>
     cd_log_set_policies d = [] \<and> cd_pending_transition d = None \<and> cd_capacity_reservations d = [] \<and> cd_staged d = ss \<and>
     length (cd_previous_log_chain d) = 32 \<and> cd_committed_writes d =
       map (\<lambda>s. \<lparr>cw_sequence = sg_commit_sequence s, cw_range = hd (ct_write_conflicts (sg_transaction s))\<rparr>) (filter sg_visible ss)"

lemma at_domain_ok:
  "f (domain_at st (cell, tenant) g) = Some (r, d') \<Longrightarrow> \<exists>st'. at_domain cell tenant g f st = Some (r, st')"
  by (auto simp: at_domain_def domain_at_def locate_domain_def find_takeWhile Let_def split: if_splits)

lemma demo_step:
  assumes "demo_ready st ss d" "plain_action action"
    and "apply_staged_domain demo_cell_env (demo_staged n action) i generation_default no_fence_faults d = Some (r, d')"
  obtains st' where "apply_staged demo_cell_env (demo_staged n action) i generation_default no_fence_faults st = Some (r, st')"
    and "staged_reachable demo_cell_env plain_action st'" and "domain_at st' (CELL_ID, TENANT_ID) 1 = d'"
proof -
  let ?c = "demo_staged n action"
  have fields: "sc_cell_id ?c = CELL_ID" "sc_tenant_id ?c = TENANT_ID" "sc_generation ?c = 1" "sc_action ?c = action" by (simp_all add: demo_staged_def)
  obtain st' where st': "apply_staged demo_cell_env ?c i generation_default no_fence_faults st = Some (r, st')"
    using at_domain_ok[of "apply_staged_domain demo_cell_env ?c i generation_default no_fence_faults" st] assms(1,3)
    by (fastforce simp: apply_staged_def fields demo_ready_def)
  have "domain_of st' (CELL_ID, TENANT_ID) = Some d'"
    using apply_staged_at(1)[OF st'] assms(1,3) by (simp add: fields demo_ready_def)
  then have "domain_at st' (CELL_ID, TENANT_ID) 1 = d'" by (simp add: domain_at_def)
  moreover have "staged_reachable demo_cell_env plain_action st'"
    using assms(1,2) by (intro staged_reachable.Step[OF _ st']) (simp_all add: fields demo_ready_def)
  ultimately show thesis using st' by (intro that)
qed

lemma demo_stage:
  assumes ready: "demo_ready st ss d" and "list_all range_valid reads" "v \<le> cd_latest_sequence d" "find_staged (1, n) d = None"
    and "\<not> staged_read_conflict (demo_tx n v reads key) d"
  obtains st' d' bs where "demo_ready st' (ss @ [demo_entry n (demo_tx n v reads key) (staged_sequence no_fence_faults d) bs]) d'"
proof -
  let ?tx = "demo_tx n v reads key" and ?c = "demo_staged n (Stage (demo_tx n v reads key))"
  have "length (staged_chain demo_cell_env no_fence_faults d) = 32"
    using ready by (auto simp: staged_chain_def demo_ready_def demo_cell_env_def demo_sha_def split: option.split)
  then obtain bs where bs: "cell_envelope demo_cell_env ?tx (staged_sequence no_fence_faults d) 7 [10, 20]
      (staged_chain demo_cell_env no_fence_faults d) = Some bs"
    using demo_tx_envelope by blast
  let ?d = "d\<lparr>cd_staged := ss @ [demo_entry n ?tx (staged_sequence no_fence_faults d) bs]\<rparr>"
  have fields: "sc_transaction_identity ?c = (1, n)" "sc_cell_id ?c = CELL_ID" "sc_tenant_id ?c = TENANT_ID" "sc_generation ?c = 1" "sc_credential ?c = None"
    "sc_action ?c = Stage ?tx" by (simp_all add: demo_staged_def)
  have "stage_admissible ?c ?tx d"
    using assms demo_tx_valid[OF assms(2)]
    by (simp add: stage_admissible_def fields demo_ready_def cell_contains_all_def REQUIRED_RESOLVERS_def REQUIRED_LOG_TAGS_def not_less bt_contains_def bt_get_def Let_def)
  moreover have "\<not> uses_pending_log_set ?tx d" "\<not> ratekeeping_required ?tx d"
    using ready by (simp_all add: uses_pending_log_set_def ratekeeping_required_def demo_ready_def bt_get_def)
  moreover have "append_staged demo_cell_env ?c 7 no_fence_faults ?tx d = Some (staged_response ?d (1, n) Staged (Some bs), ?d)"
    using ready bs by (simp add: append_staged_def fields consume_reservation_def demo_ready_def demo_entry_def bt_get_def Let_def)
  ultimately have "apply_staged_domain demo_cell_env ?c 7 generation_default no_fence_faults d = Some (staged_response ?d (1, n) Staged (Some bs), ?d)"
    using assms by (simp add: apply_staged_domain_def fields is_takeover_def demo_ready_def stage_def stage_resolved_def)
  from demo_step[OF ready _ this] obtain st' where "staged_reachable demo_cell_env plain_action st'" "domain_at st' (CELL_ID, TENANT_ID) 1 = ?d"
    by (auto simp: plain_action_def)
  with ready show thesis by (intro that[of st' bs ?d]) (simp add: demo_ready_def demo_entry_def)
qed

lemma demo_acknowledge:
  assumes ready: "demo_ready st (ss @ [s]) d" and "sg_identity s = (1, n)" "sg_transaction s = demo_tx n v reads key" "unresolved s"
    and "\<forall>s \<in> set ss. sg_identity s \<noteq> (1, n)" "l \<in> {10, 20}" "\<not> bt_contains (sg_receipts s) l"
  obtains st' d' where "demo_ready st' (ss @ [s\<lparr>sg_receipts := bt_insert l (demo_receipt l) (sg_receipts s)\<rparr>]) d'"
proof -
  let ?c = "demo_staged n (RecordLogReceipt (demo_receipt l))"
  let ?d = "d\<lparr>cd_staged := ss @ [s\<lparr>sg_receipts := bt_insert l (demo_receipt l) (sg_receipts s)\<rparr>]\<rparr>"
  have fields: "sc_transaction_identity ?c = (1, n)" "sc_cell_id ?c = CELL_ID" "sc_tenant_id ?c = TENANT_ID" "sc_generation ?c = 1" "sc_credential ?c = None"
    "sc_action ?c = RecordLogReceipt (demo_receipt l)" by (simp_all add: demo_staged_def)
  have "takeWhile (\<lambda>s. sg_identity s \<noteq> (1, n)) (ss @ [s]) = ss" using assms(2,5) by (subst takeWhile_append2) auto
  then have pos: "staged_position (1, n) d = Some (length ss)" using ready by (simp add: staged_position_def demo_ready_def)
  have d: "cd_staged d = ss @ [s]" "cd_log_set_policies d = []" using ready by (simp_all add: demo_ready_def)
  have none: "bt_get (sg_receipts s) l = None" using assms(7) by (simp add: bt_contains_def)
  have "cv_sha demo_cell_env (sg_envelope s) = replicate 32 0" by (simp add: demo_cell_env_def demo_sha_def)
  then have "record_log_receipt demo_cell_env ?c (demo_receipt l) d = (staged_response ?d (1, n) LogReceiptRecorded None, ?d)"
    using assms(3,4,6) none by (simp add: record_log_receipt_def fields pos d demo_receipt_fields update_staged_def bt_contains_def)
  then have "apply_staged_domain demo_cell_env ?c 7 generation_default no_fence_faults d = Some (staged_response ?d (1, n) LogReceiptRecorded None, ?d)"
    using ready by (simp add: apply_staged_domain_def fields is_takeover_def demo_ready_def)
  from demo_step[OF ready _ this] obtain st' where "staged_reachable demo_cell_env plain_action st'" "domain_at st' (CELL_ID, TENANT_ID) 1 = ?d"
    by (auto simp: plain_action_def)
  with ready assms(4) show thesis by (intro that[of st' ?d]) (simp add: demo_ready_def)
qed

text \<open>A staged transaction with both receipts.\<close>

abbreviation demo_receipts :: "(u16, cell_tagged_log_receipt) btree" where
  "demo_receipts \<equiv> [(10, demo_receipt 10), (20, demo_receipt 20)]"

lemma demo_acknowledged:
  assumes "demo_ready st ss d" "list_all range_valid reads" "v \<le> cd_latest_sequence d" "\<forall>s \<in> set ss. sg_identity s \<noteq> (1, n)"
    and "\<not> staged_read_conflict (demo_tx n v reads key) d"
  obtains st' d' bs where "demo_ready st' (ss @ [(demo_entry n (demo_tx n v reads key) (staged_sequence no_fence_faults d) bs)\<lparr>sg_receipts := demo_receipts\<rparr>]) d'"
proof -
  let ?e = "demo_entry n (demo_tx n v reads key) (staged_sequence no_fence_faults d)"
  have "find_staged (1, n) d = None" using assms(1,4) by (simp add: find_None_iff demo_ready_def)
  then obtain st1 d1 bs where one: "demo_ready st1 (ss @ [?e bs]) d1" using demo_stage[OF assms(1-3) _ assms(5)] by blast
  obtain st2 d2 where two: "demo_ready st2 (ss @ [(?e bs)\<lparr>sg_receipts := [(10, demo_receipt 10)]\<rparr>]) d2"
    by (rule demo_acknowledge[OF one, where n = n and l = 10]) (use assms(4) in \<open>simp_all add: demo_entry_def bt_contains_def bt_get_def\<close>)
  obtain st3 d3 where three: "demo_ready st3 (ss @ [(?e bs)\<lparr>sg_receipts := demo_receipts\<rparr>]) d3"
    by (rule demo_acknowledge[OF two, where n = n and l = 20]) (use assms(4) in \<open>simp_all add: demo_entry_def bt_contains_def bt_get_def\<close>)
  show thesis by (rule that[OF three])
qed

lemma demo_publish:
  assumes ready: "demo_ready st (ss @ [s]) d" and s: "s = (demo_entry n (demo_tx n v reads key) i bs)\<lparr>sg_receipts := demo_receipts\<rparr>"
    and "\<forall>s \<in> set ss. sg_identity s \<noteq> (1, n) \<and> \<not> unresolved s"
  obtains r st' d' where "apply_staged demo_cell_env (demo_staged n PublishStaged) 7 generation_default no_fence_faults st = Some (r, st')"
    and "sr_status r = StagedCommitted" and "demo_ready st' (ss @ [s\<lparr>sg_visible := True\<rparr>]) d'" "cd_latest_sequence d' = i"
proof -
  let ?c = "demo_staged n PublishStaged" and ?d = "publish_staged_transaction demo_cell_env (length ss) None d"
  have fields: "sc_transaction_identity ?c = (1, n)" "sc_generation ?c = 1" "sc_credential ?c = None" "sc_action ?c = PublishStaged"
    by (simp_all add: demo_staged_def)
  have staged: "cd_staged d = ss @ [s]" using ready by (simp add: demo_ready_def)
  have "takeWhile (\<lambda>s. sg_identity s \<noteq> (1, n)) (ss @ [s]) = ss" using assms(3) by (subst takeWhile_append2) (auto simp: s demo_entry_def)
  then have pos: "staged_position (1, n) d = Some (length ss)" by (simp add: staged_position_def staged)
  have "publish_complete d s" "\<not> earlier_pending d s"
    using ready assms(3) by (auto simp: publish_complete_def earlier_pending_def staged s demo_entry_def bt_contains_def bt_get_def demo_ready_def list_ex_iff)
  then have "publish_staged demo_cell_env ?c d = (staged_response ?d (1, n) StagedCommitted (Some bs), ?d)"
    by (simp add: publish_staged_def fields pos staged) (simp add: s demo_entry_def Let_def)
  then have "apply_staged_domain demo_cell_env ?c 7 generation_default no_fence_faults d = Some (staged_response ?d (1, n) StagedCommitted (Some bs), ?d)"
    using ready by (simp add: apply_staged_domain_def fields is_takeover_def demo_ready_def)
  from demo_step[OF ready _ this] obtain st' where st': "apply_staged demo_cell_env ?c 7 generation_default no_fence_faults st =
      Some (staged_response ?d (1, n) StagedCommitted (Some bs), st')"
    "staged_reachable demo_cell_env plain_action st'" "domain_at st' (CELL_ID, TENANT_ID) 1 = ?d"
    by (auto simp: plain_action_def)
  have d: "cd_generation ?d = 1" "cd_log_set_policies ?d = []" "cd_pending_transition ?d = None" "cd_capacity_reservations ?d = []"
    "length (cd_previous_log_chain ?d) = 32" "cd_committed_writes ?d = cd_committed_writes d @ [\<lparr>cw_sequence = i, cw_range = range_point [key]\<rparr>]"
    using ready by (simp_all add: publish_staged_transaction_def update_staged_def Let_def staged demo_ready_def s demo_entry_def demo_cell_env_def demo_sha_def)
  have "demo_ready st' (ss @ [s\<lparr>sg_visible := True\<rparr>]) ?d" using st' d ready by (simp add: demo_ready_def staged) (simp add: s demo_entry_def)
  moreover have "cd_latest_sequence ?d = i" by (simp add: staged) (simp add: s demo_entry_def)
  ultimately show thesis using st'(1) response_status(1) by (intro that)
qed

lemma demo_start: "demo_ready [] [] (domain_new CELL_ID TENANT_ID 1)"
  by (simp add: demo_ready_def domain_at_def domain_new_def staged_reachable.Start)

section \<open>Witnesses\<close>



text \<open>The takeover: two staged transactions, of which two log sets of two nodes hold the first only.\<close>

definition demo_policy :: "u16 \<Rightarrow> cell_log_set_policy" where
  "demo_policy l = \<lparr>lsp_format_version = 1, lsp_generation = 1, lsp_policy_epoch = 1, lsp_log_set_id = l, lsp_quorum_size = 2,
     lsp_ratekeeper_soft_limit_bytes = 0, lsp_members = [\<lparr>lm_node_id = 1, lm_public_key = replicate 32 1\<rparr>, \<lparr>lm_node_id = 2, lm_public_key = replicate 32 2\<rparr>]\<rparr>"

definition demo_record :: "u64 \<Rightarrow> cell_staged_window_record" where
  "demo_record n = \<lparr>swr_transaction_identity = (1, n), swr_commit_sequence = n, swr_envelope_sha256 = replicate 32 0\<rparr>"

definition demo_window :: cell_staged_window where
  "demo_window = \<lparr>sw_format_version = 1, sw_first_sequence = 1, sw_last_sequence = 2, sw_encoded_bytes = 474,
     sw_records = [demo_record 1, demo_record 2], sw_window_sha256 = replicate 32 0\<rparr>"

definition demo_observation :: "u64 \<Rightarrow> bool \<Rightarrow> cell_tagged_log_prefix_observation" where
  "demo_observation n present = \<lparr>pob_transaction_identity = (1, n), pob_commit_sequence = n, pob_envelope_sha256 = replicate 32 0, pob_record_present = present\<rparr>"

definition demo_attestation :: "u64 \<Rightarrow> u8 \<Rightarrow> cell_tagged_log_prefix_fence_attestation" where
  "demo_attestation node key = \<lparr>pfa_signer_id = node, pfa_observations = [demo_observation 1 True, demo_observation 2 False],
     pfa_signature = replicate 32 key @ TAGGED_LOG_PREFIX_FENCE_CERTIFICATE_MAGIC @ [0]\<rparr>"

definition demo_inventory :: "u16 \<Rightarrow> cell_tagged_log_prefix_fence_certificate" where
  "demo_inventory l = \<lparr>pfc_statement = \<lparr>pfs_format_version = 1, pfs_cell_id = CELL_ID, pfs_tenant_id = TENANT_ID, pfs_generation = 1, pfs_recovery_id = 5,
     pfs_log_set_id = l, pfs_policy_epoch = 1, pfs_window = demo_window\<rparr>, pfc_attestations = [demo_attestation 1 1, demo_attestation 2 2]\<rparr>"

definition demo_takeover :: cell_staged_transaction_command where
  "demo_takeover = \<lparr>sc_identity = (3, 1), sc_credential = Some \<lparr>gc_generation = 2, gc_transaction_system_id = ''b''\<rparr>, sc_cell_id = CELL_ID,
     sc_tenant_id = TENANT_ID, sc_generation = 2, sc_transaction_identity = (1, 1),
     sc_action = TakeoverRecoverPrefix 1 5 demo_window [demo_inventory 10, demo_inventory 20]\<rparr>"

definition demo_authority :: generation_state where
  "demo_authority = generation_default\<lparr>gs_generation := 2, gs_phase := Active, gs_transaction_system_id := Some ''b'', gs_last_completed_recovery_id := Some 5\<rparr>"

definition demo_fenced :: "bytes \<Rightarrow> bytes \<Rightarrow> cell_domain_state" where
  "demo_fenced a b = (domain_new CELL_ID TENANT_ID 1)\<lparr>cd_log_set_policies := [(10, demo_policy 10), (20, demo_policy 20)],
     cd_staged := [demo_entry 1 (demo_tx 1 0 [] 5) 1 a, demo_entry 2 (demo_tx 2 0 [] 6) 2 b]\<rparr>"

lemma demo_window_valid: "window_valid_identity demo_cell_env demo_window"
  by (simp add: window_valid_identity_def demo_window_def demo_record_def window_canonical_sha256_def demo_cell_env_def demo_sha_def saturating_add_def)

lemma demo_inventory_valid:
  "verify_tagged_log_prefix_fence_certificate demo_cell_env (demo_inventory l) (demo_policy l) demo_window CELL_ID TENANT_ID 1 5"
proof -
  have "bt_get (member_map (demo_policy l)) 1 = Some (replicate 32 1)" "bt_get (member_map (demo_policy l)) 2 = Some (replicate 32 2)"
    by (simp_all add: demo_policy_def member_map_def bt_get_def)
  moreover have "observes demo_window [demo_observation 1 True, demo_observation 2 False]"
    by (simp add: observes_def demo_window_def demo_observation_def demo_record_def)
  moreover have "prefix_fence_signing_bytes demo_cell_env st obs = Some (TAGGED_LOG_PREFIX_FENCE_CERTIFICATE_MAGIC @ [0])" for st obs
    by (simp add: prefix_fence_signing_bytes_def demo_cell_env_def)
  ultimately show ?thesis
    using demo_window_valid
    by (simp add: verify_tagged_log_prefix_fence_certificate_def demo_inventory_def demo_attestation_def quorum_reached_def)
       (simp add: demo_policy_def demo_cell_env_def)
qed

lemma demo_scan:
  "prefix_scan [(10, demo_policy 10), (20, demo_policy 20)] [demo_inventory 10, demo_inventory 20] [demo_record 1, demo_record 2] 0 0 = Some (1, Some 1)"
  by (simp add: demo_inventory_def bt_get_def demo_policy_def count_observed_def observed_def demo_attestation_def demo_observation_def demo_record_def)

lemma demo_recovers:
  assumes "length a = 237" "envelope_decode demo_sha a = Ok x" "ce_generation x = 1" "sequence (ce_version x) = 1" "ce_previous_log_chain x = replicate 32 0"
    and "length b = 237" "envelope_decode demo_sha b = Ok y" "ce_generation y = 1" "sequence (ce_version y) = 2" "ce_previous_log_chain y = replicate 32 0"
  shows "\<exists>r d'. apply_staged_domain demo_cell_env demo_takeover 9 demo_authority no_fence_faults (demo_fenced a b) = Some (r, d') \<and> sr_status r = PrefixRecovered"
proof -
  let ?d = "demo_fenced a b"
  have sha: "cv_sha demo_cell_env = demo_sha" "demo_sha bs = replicate 32 0" for bs by (simp_all add: demo_cell_env_def demo_sha_def)
  have staged: "cd_staged ?d = [demo_entry 1 (demo_tx 1 0 [] 5) 1 a, demo_entry 2 (demo_tx 2 0 [] 6) 2 b]" "cd_generation ?d = 1"
    "cd_log_set_policies ?d = [(10, demo_policy 10), (20, demo_policy 20)]" "cd_previous_log_chain ?d = replicate 32 0"
    by (simp_all add: demo_fenced_def domain_new_def)
  have idx: "window_indexes demo_cell_env 1 ?d (sw_records demo_window) = Some [0, 1]"
    by (simp add: demo_window_def demo_record_def staged_position_def staged demo_entry_def sha)
  have chain: "chain_exact demo_cell_env 1 (Some (replicate 32 0)) (map (\<lambda>i. cd_staged ?d ! i) [0, 1])"
    using assms by (simp add: staged demo_entry_def sha)
  have inv: "inventories_valid demo_cell_env demo_takeover no_fence_faults 1 5 demo_window [demo_inventory 10, demo_inventory 20] {10, 20} ?d"
    using demo_inventory_valid[of 10] demo_inventory_valid[of 20]
    by (auto simp: inventories_valid_def staged bt_get_def demo_takeover_def no_fence_faults_def) (simp_all add: demo_inventory_def)
  have bytes: "sw_encoded_bytes demo_window = 474" "length (sw_records demo_window) = 2" "sw_records demo_window = [demo_record 1, demo_record 2]"
    by (simp_all add: demo_window_def)
  have unresolved: "unresolved_indexes ?d = [0, 1]" by (simp add: unresolved_indexes_def staged demo_entry_def)
  have fields: "sc_credential demo_takeover = Some \<lparr>gc_generation = 2, gc_transaction_system_id = ''b''\<rparr>" "sc_generation demo_takeover = 2"
    "sc_action demo_takeover = TakeoverRecoverPrefix 1 5 demo_window [demo_inventory 10, demo_inventory 20]"
    "authorizes demo_authority 2 ''b''" "gs_last_completed_recovery_id demo_authority = Some 5"
    by (simp_all add: demo_takeover_def demo_authority_def authorizes_def)
  have size: "fold (\<lambda>i total. saturating_add total (to_u64 (length (sg_envelope (cd_staged ?d ! i))))) [0, 1] 0 = 474"
    using assms(1,6) by (simp add: staged demo_entry_def to_u64_def saturating_add_def)
  have next_generation: "saturating_add (1 :: u64) 1 = 2" by (simp add: saturating_add_def)
  have tag_set: "set (ct_durable_log_tags (sg_transaction (demo_entry n (demo_tx m v reads key) i e))) = {10, 20}" for n m v reads key i e
    by (simp add: demo_entry_def)
  have tags: "map (\<lambda>i. cd_staged ?d ! i) [0, 1] = [demo_entry 1 (demo_tx 1 0 [] 5) 1 a, demo_entry 2 (demo_tx 2 0 [] 6) 2 b]" by (simp add: staged)
  have "sr_status (fst (apply_takeover_recover_prefix demo_cell_env demo_takeover demo_authority no_fence_faults 1 5 demo_window
      [demo_inventory 10, demo_inventory 20] ?d)) = PrefixRecovered"
    unfolding apply_takeover_recover_prefix_def Let_def idx option.case size
    using chain inv unfolding tags
    by (simp add: demo_window_valid fields bytes unresolved next_generation staged(2-4) size tags demo_scan MAX_STAGED_PREFIX_RECORDS_def
          MAX_STAGED_PREFIX_BYTES_def adjust_recovered_def tag_set
        del: prefix_scan.simps chain_exact.simps list.map fold_simps resolve_window.simps)
  then show ?thesis by (simp add: apply_staged_domain_def fields is_takeover_def prod_eq_iff)
qed

end
