(* ===== verification/State_Machine.thy ===== *)
theory State_Machine
  imports Cell_Staged Publication
begin

text \<open>
  The replicated state machine of a cell (\<open>okv-consensus/src/state_machine.rs\<close>) and the command
  envelopes it decodes: the generation authority, the publication authority and the transaction authority
  behind one log, with the durable outcomes of the requests, and the snapshots with their file. The JSON
  readers and writers and the text of a snapshot identifier are fields of the parameter \<open>machine_env\<close>; the
  membership of openraft is the type variable; a panic is None.
\<close>

section \<open>Commands\<close>

record generation_command =
  gcm_identity :: request_identity
  gcm_action :: generation_action

record publication_command =
  pcm_identity :: request_identity
  pcm_credential :: generation_credential
  pcm_action :: publication_action

record client_command =
  ccm_identity :: request_identity
  ccm_credential :: "generation_credential option"
  ccm_payload :: bytes

definition GENERATION_COMMAND_MAGIC :: bytes where "GENERATION_COMMAND_MAGIC = ascii ''OKVG1''"
definition PUBLICATION_COMMAND_MAGIC :: bytes where "PUBLICATION_COMMAND_MAGIC = ascii ''OKVP1''"
definition CLIENT_COMMAND_MAGIC :: bytes where "CLIENT_COMMAND_MAGIC = ascii ''OKVQ1''"

section \<open>Responses and state\<close>

record log_id =
  li_term :: u64
  li_node_id :: u64
  li_index :: u64

definition from_log_id :: "log_id \<Rightarrow> recovery_log_position" where
  "from_log_id l = \<lparr>lp_term = li_term l, lp_index = li_index l\<rparr>"

datatype apply_error = ConflictingRequestIdentity | ApplyGenerationFenced | UnknownCommandVersion

record generation_apply_response =
  gar_status :: generation_command_status
  gar_state :: generation_state
  gar_applied_log_index :: u64
  gar_applied_log_position :: recovery_log_position

record publication_apply_response =
  par_status :: publication_command_status
  par_outcome :: "publication_outcome option"
  par_state :: publication_state
  par_applied_log_position :: recovery_log_position

record apply_response =
  ar_applied_log_index :: u64
  ar_identity :: "request_identity option"
  ar_error :: "apply_error option"
  ar_generation :: "generation_apply_response option"
  ar_publication :: "publication_apply_response option"
  ar_cell_transaction :: "cell_transaction_response option"
  ar_cell_staged_transaction :: "cell_staged_transaction_response option"

record 'm stored_membership =
  mb_log_id :: "log_id option"
  mb_membership :: 'm

record 'm state_machine_data =
  sm_last_applied_log :: "log_id option"
  sm_last_membership :: "'m stored_membership"
  sm_applied_payloads :: "bytes list"
  sm_durable_outcomes :: "(request_identity, apply_response) btree"
  sm_request_fingerprints :: "(request_identity, bytes) btree"
  sm_generation_authority :: generation_state
  sm_publication_authority :: publication_state
  sm_cell_transactions :: cell_transaction_state
  sm_last_generation_transition_log :: "log_id option"

definition machine_default :: "'m \<Rightarrow> 'm state_machine_data" where
  "machine_default m =
     \<lparr>sm_last_applied_log = None, sm_last_membership = \<lparr>mb_log_id = None, mb_membership = m\<rparr>, sm_applied_payloads = [],
      sm_durable_outcomes = [], sm_request_fingerprints = [], sm_generation_authority = generation_default,
      sm_publication_authority = publication_default, sm_cell_transactions = [], sm_last_generation_transition_log = None\<rparr>"

record publication_fence_faults =
  bypass_generation_fence :: bool
  local_stale_outcome_read :: bool
  prepare_as_previous_generation :: bool

definition no_publication_fence_faults :: publication_fence_faults where
  "no_publication_fence_faults = \<lparr>bypass_generation_fence = False, local_stale_outcome_read = False, prepare_as_previous_generation = False\<rparr>"

record store_config =
  so_deduplicate_requests :: bool
  so_generation_faults :: generation_faults
  so_generation_fence_faults :: generation_fence_faults
  so_publication_faults :: publication_faults
  so_publication_fence_faults :: publication_fence_faults

definition store_config_new :: "bool \<Rightarrow> store_config" where
  "store_config_new deduplicate = \<lparr>so_deduplicate_requests = deduplicate, so_generation_faults = no_generation_faults,
     so_generation_fence_faults = no_fence_faults, so_publication_faults = no_faults, so_publication_fence_faults = no_publication_fence_faults\<rparr>"

record 'm snapshot_meta =
  sn_last_log_id :: "log_id option"
  sn_last_membership :: "'m stored_membership"
  sn_snapshot_id :: string

text \<open>\<open>me_parse_*\<close> are \<open>serde_json::from_slice\<close> and \<open>me_json_*\<close> are \<open>serde_json::to_vec\<close> at their types.\<close>

record 'm machine_env =
  me_generation :: generation_env
  me_cell :: cell_env
  me_parse_generation :: "bytes \<Rightarrow> generation_command option"
  me_parse_publication :: "bytes \<Rightarrow> publication_command option"
  me_parse_staged :: "bytes \<Rightarrow> cell_staged_transaction_command option"
  me_parse_transaction :: "bytes \<Rightarrow> cell_transaction_command option"
  me_parse_client :: "bytes \<Rightarrow> client_command option"
  me_json_meta :: "'m snapshot_meta \<Rightarrow> bytes option"
  me_parse_meta :: "bytes \<Rightarrow> 'm snapshot_meta option"
  me_json_data :: "'m state_machine_data \<Rightarrow> bytes option"
  me_parse_data :: "bytes \<Rightarrow> 'm state_machine_data option"
  me_snapshot_id :: "log_id option \<Rightarrow> u64 \<Rightarrow> string"

section \<open>Decoding\<close>

text \<open>\<open>bytes.strip_prefix(MAGIC).map(serde_json::from_slice).transpose()\<close>\<close>

definition decode_command :: "bytes \<Rightarrow> (bytes \<Rightarrow> 'c option) \<Rightarrow> bytes \<Rightarrow> ('c option, unit) result" where
  "decode_command magic parse bs =
     (if take (length magic) bs = magic
      then case parse (drop (length magic) bs) of None \<Rightarrow> Err () | Some c \<Rightarrow> Ok (Some c)
      else Ok None)"

definition generation_decode :: "'m machine_env \<Rightarrow> bytes \<Rightarrow> (generation_command option, unit) result" where
  "generation_decode env = decode_command GENERATION_COMMAND_MAGIC (me_parse_generation env)"
definition publication_decode :: "'m machine_env \<Rightarrow> bytes \<Rightarrow> (publication_command option, unit) result" where
  "publication_decode env = decode_command PUBLICATION_COMMAND_MAGIC (me_parse_publication env)"
definition staged_decode :: "'m machine_env \<Rightarrow> bytes \<Rightarrow> (cell_staged_transaction_command option, unit) result" where
  "staged_decode env = decode_command STAGED_COMMAND_MAGIC (me_parse_staged env)"
definition transaction_decode :: "'m machine_env \<Rightarrow> bytes \<Rightarrow> (cell_transaction_command option, unit) result" where
  "transaction_decode env = decode_command TRANSACTION_COMMAND_MAGIC (me_parse_transaction env)"
definition client_decode :: "'m machine_env \<Rightarrow> bytes \<Rightarrow> (client_command option, unit) result" where
  "client_decode env = decode_command CLIENT_COMMAND_MAGIC (me_parse_client env)"

section \<open>Requests\<close>

definition request_fingerprint_of :: "'m machine_env \<Rightarrow> bytes \<Rightarrow> bytes" where
  "request_fingerprint_of env payload = cv_sha (me_cell env) payload"

definition response_new :: "log_id \<Rightarrow> apply_response" where
  "response_new l = \<lparr>ar_applied_log_index = li_index l, ar_identity = None, ar_error = None, ar_generation = None, ar_publication = None,
     ar_cell_transaction = None, ar_cell_staged_transaction = None\<rparr>"

text \<open>The answer to a request with a recorded outcome, if outcomes are consulted.\<close>

definition recovered_outcome :: "bool \<Rightarrow> request_identity \<Rightarrow> bytes \<Rightarrow> apply_response \<Rightarrow> 'm state_machine_data \<Rightarrow> apply_response option" where
  "recovered_outcome deduplicate identity digest response s =
     (if deduplicate
      then map_option (\<lambda>recovered. if bt_get (sm_request_fingerprints s) identity = Some digest then recovered
             else response\<lparr>ar_identity := Some identity, ar_error := Some ConflictingRequestIdentity\<rparr>)
           (bt_get (sm_durable_outcomes s) identity)
      else None)"

definition record_outcome :: "request_identity \<Rightarrow> bytes \<Rightarrow> apply_response \<Rightarrow> 'm state_machine_data \<Rightarrow> 'm state_machine_data" where
  "record_outcome identity digest response s =
     s\<lparr>sm_request_fingerprints := bt_insert identity digest (sm_request_fingerprints s),
       sm_durable_outcomes := bt_insert identity response (sm_durable_outcomes s)\<rparr>"

definition generation_fenced :: "generation_fence_faults \<Rightarrow> generation_credential option \<Rightarrow> generation_state \<Rightarrow> bool" where
  "generation_fenced faults credential authority =
     (let authorized = (case credential of None \<Rightarrow> False
        | Some c \<Rightarrow> authorizes authority (gc_generation c) (gc_transaction_system_id c)
            \<or> (accept_apply_during_recovery faults \<and> (case gs_recovery_id authority of None \<Rightarrow> False
               | Some recovery \<Rightarrow> authorizes_recovery authority (gc_generation c) recovery (gc_transaction_system_id c)))) in
      gs_phase authority \<noteq> Uninitialized \<and> \<not> bypass_apply_fence faults \<and> \<not> authorized)"

section \<open>The commands\<close>

definition apply_generation_command ::
  "'m machine_env \<Rightarrow> store_config \<Rightarrow> log_id \<Rightarrow> bytes \<Rightarrow> generation_command \<Rightarrow> 'm state_machine_data \<Rightarrow>
     (apply_response \<times> 'm state_machine_data) option" where
  "apply_generation_command env cfg l payload c s =
     (let digest = request_fingerprint_of env payload in
      case recovered_outcome True (gcm_identity c) digest (response_new l) s of
        Some response \<Rightarrow> Some (response, s)
      | None \<Rightarrow>
          (case generation_apply (me_generation env) (so_generation_faults cfg) (gcm_action c) (sm_generation_authority s) of
             None \<Rightarrow> None
           | Some (status, authority) \<Rightarrow>
               let s = s\<lparr>sm_generation_authority := authority\<rparr>;
                   s = (if status = generation_command_status.Accepted then s\<lparr>sm_last_generation_transition_log := Some l\<rparr> else s);
                   response = (response_new l)\<lparr>ar_identity := Some (gcm_identity c),
                     ar_generation := Some \<lparr>gar_status = status, gar_state = authority, gar_applied_log_index = li_index l,
                       gar_applied_log_position = from_log_id l\<rparr>\<rparr> in
               Some (response, record_outcome (gcm_identity c) digest response s)))"

definition publication_context :: "store_config \<Rightarrow> log_id \<Rightarrow> publication_command \<Rightarrow> authority_context" where
  "publication_context cfg l c =
     \<lparr>ac_generation = (if prepare_as_previous_generation (so_publication_fence_faults cfg)
           \<and> (case pcm_action c of publication_action.Prepare _ _ \<Rightarrow> True | _ \<Rightarrow> False)
         then saturating_sub (gc_generation (pcm_credential c)) 1 else gc_generation (pcm_credential c)),
      ac_position = \<lparr>ap_term = lp_term (from_log_id l), ap_index = lp_index (from_log_id l)\<rparr>\<rparr>"

definition apply_publication_command ::
  "'m machine_env \<Rightarrow> store_config \<Rightarrow> log_id \<Rightarrow> bytes \<Rightarrow> publication_command \<Rightarrow> 'm state_machine_data \<Rightarrow>
     apply_response \<times> 'm state_machine_data" where
  "apply_publication_command env cfg l payload c s =
     (let digest = request_fingerprint_of env payload in
      case recovered_outcome (so_deduplicate_requests cfg) (pcm_identity c) digest (response_new l) s of
        Some response \<Rightarrow> (response, s)
      | None \<Rightarrow>
          let authorized = (bypass_generation_fence (so_publication_fence_faults cfg)
                \<or> authorizes (sm_generation_authority s) (gc_generation (pcm_credential c)) (gc_transaction_system_id (pcm_credential c)));
              (transition, authority) = (if authorized
                then publication_apply (pcm_action c) (publication_context cfg l c) (so_publication_faults cfg) (sm_publication_authority s)
                else (rejected GenerationFenced, sm_publication_authority s));
              s = s\<lparr>sm_publication_authority := authority\<rparr>;
              response = (response_new l)\<lparr>ar_identity := Some (pcm_identity c),
                ar_publication := Some \<lparr>par_status = pt_status transition, par_outcome = pt_outcome transition, par_state = authority,
                  par_applied_log_position = from_log_id l\<rparr>\<rparr> in
          (response, if so_deduplicate_requests cfg then record_outcome (pcm_identity c) digest response s else s))"

text \<open>The shape the three transaction commands share: recovery, the generation fence, the effect, the outcome.\<close>

definition apply_fenced ::
  "store_config \<Rightarrow> log_id \<Rightarrow> request_identity \<Rightarrow> bytes \<Rightarrow> generation_credential option \<Rightarrow>
     (apply_response \<Rightarrow> 'm state_machine_data \<Rightarrow> (apply_response \<times> 'm state_machine_data) option) \<Rightarrow> 'm state_machine_data \<Rightarrow>
     (apply_response \<times> 'm state_machine_data) option" where
  "apply_fenced cfg l identity digest credential effect s =
     (case recovered_outcome (so_deduplicate_requests cfg) identity digest (response_new l) s of
        Some response \<Rightarrow> Some (response, s)
      | None \<Rightarrow>
          let response = (response_new l)\<lparr>ar_identity := Some identity\<rparr> in
          map_option (\<lambda>(response, s). (response, record_outcome identity digest response s))
            (if generation_fenced (so_generation_fence_faults cfg) credential (sm_generation_authority s)
             then Some (response\<lparr>ar_error := Some ApplyGenerationFenced\<rparr>, s) else effect response s))"

definition apply_staged_command ::
  "'m machine_env \<Rightarrow> store_config \<Rightarrow> log_id \<Rightarrow> bytes \<Rightarrow> cell_staged_transaction_command \<Rightarrow> 'm state_machine_data \<Rightarrow>
     (apply_response \<times> 'm state_machine_data) option" where
  "apply_staged_command env cfg l payload c =
     apply_fenced cfg l (sc_identity c) (request_fingerprint_of env payload) (sc_credential c)
       (\<lambda>response s. map_option (\<lambda>(r, cells). (response\<lparr>ar_cell_staged_transaction := Some r\<rparr>, s\<lparr>sm_cell_transactions := cells\<rparr>))
          (apply_staged (me_cell env) c (li_index l) (sm_generation_authority s) (so_generation_fence_faults cfg) (sm_cell_transactions s)))"

definition apply_transaction_command ::
  "'m machine_env \<Rightarrow> store_config \<Rightarrow> log_id \<Rightarrow> bytes \<Rightarrow> cell_transaction_command \<Rightarrow> 'm state_machine_data \<Rightarrow>
     (apply_response \<times> 'm state_machine_data) option" where
  "apply_transaction_command env cfg l payload c =
     apply_fenced cfg l (ct_identity c) (request_fingerprint_of env payload) (ct_credential c)
       (\<lambda>response s. map_option (\<lambda>(r, cells). (response\<lparr>ar_cell_transaction := Some r\<rparr>, s\<lparr>sm_cell_transactions := cells\<rparr>))
          (cell_apply (me_cell env) c (li_index l) (so_generation_fence_faults cfg) (sm_cell_transactions s)))"

definition apply_client_command ::
  "'m machine_env \<Rightarrow> store_config \<Rightarrow> log_id \<Rightarrow> bytes \<Rightarrow> client_command \<Rightarrow> 'm state_machine_data \<Rightarrow>
     (apply_response \<times> 'm state_machine_data) option" where
  "apply_client_command env cfg l payload c =
     apply_fenced cfg l (ccm_identity c) (request_fingerprint_of env payload) (ccm_credential c)
       (\<lambda>response s. Some (response, s\<lparr>sm_applied_payloads := sm_applied_payloads s @ [ccm_payload c]\<rparr>))"

section \<open>Applying the log\<close>

text \<open>The outcome of an entry: a panic, a storage error, or a response; the state is kept in the last two.\<close>

type_synonym 'm entry_outcome = "((apply_response, unit) result \<times> 'm state_machine_data) option"

definition respond :: "(apply_response \<times> 'm state_machine_data) option \<Rightarrow> 'm entry_outcome" where
  "respond = map_option (\<lambda>(response, s). (Ok response, s))"

definition apply_payload :: "'m machine_env \<Rightarrow> store_config \<Rightarrow> log_id \<Rightarrow> bytes \<Rightarrow> 'm state_machine_data \<Rightarrow> 'm entry_outcome" where
  "apply_payload env cfg l payload s =
     (case generation_decode env payload of
        Err _ \<Rightarrow> Some (Err (), s)
      | Ok (Some c) \<Rightarrow> respond (apply_generation_command env cfg l payload c s)
      | Ok None \<Rightarrow>
     (case publication_decode env payload of
        Err _ \<Rightarrow> Some (Err (), s)
      | Ok (Some c) \<Rightarrow> respond (Some (apply_publication_command env cfg l payload c s))
      | Ok None \<Rightarrow>
     (case staged_decode env payload of
        Err _ \<Rightarrow> Some (Err (), s)
      | Ok (Some c) \<Rightarrow> respond (apply_staged_command env cfg l payload c s)
      | Ok None \<Rightarrow>
     (case transaction_decode env payload of
        Err _ \<Rightarrow> Some (Err (), s)
      | Ok (Some c) \<Rightarrow> respond (apply_transaction_command env cfg l payload c s)
      | Ok None \<Rightarrow>
     (case client_decode env payload of
        Err _ \<Rightarrow> Some (Err (), s)
      | Ok (Some c) \<Rightarrow> respond (apply_client_command env cfg l payload c s)
      | Ok None \<Rightarrow>
          if take 3 payload = ascii ''OKV''
          then Some (Ok ((response_new l)\<lparr>ar_error := Some UnknownCommandVersion\<rparr>), s)
          else Some (Ok (response_new l), s\<lparr>sm_applied_payloads := sm_applied_payloads s @ [payload]\<rparr>))))))"

datatype 'm entry_payload = Blank | Normal bytes | Membership 'm

record 'm log_entry =
  en_log_id :: log_id
  en_payload :: "'m entry_payload"

definition apply_entry :: "'m machine_env \<Rightarrow> store_config \<Rightarrow> 'm log_entry \<Rightarrow> 'm state_machine_data \<Rightarrow> 'm entry_outcome" where
  "apply_entry env cfg e s =
     (let l = en_log_id e; s = s\<lparr>sm_last_applied_log := Some l\<rparr> in
      case en_payload e of
        Blank \<Rightarrow> Some (Ok (response_new l), s)
      | Normal payload \<Rightarrow> apply_payload env cfg l payload s
      | Membership m \<Rightarrow> Some (Ok (response_new l), s\<lparr>sm_last_membership := \<lparr>mb_log_id = Some l, mb_membership = m\<rparr>\<rparr>))"

fun apply_entries ::
  "'m machine_env \<Rightarrow> store_config \<Rightarrow> 'm log_entry list \<Rightarrow> 'm state_machine_data \<Rightarrow>
     ((apply_response list, unit) result \<times> 'm state_machine_data) option" where
  "apply_entries env cfg [] s = Some (Ok [], s)"
| "apply_entries env cfg (e # es) s =
     (case apply_entry env cfg e s of
        None \<Rightarrow> None
      | Some (Err _, s) \<Rightarrow> Some (Err (), s)
      | Some (Ok response, s) \<Rightarrow>
          (case apply_entries env cfg es s of
             None \<Rightarrow> None
           | Some (Err _, s) \<Rightarrow> Some (Err (), s)
           | Some (Ok responses, s) \<Rightarrow> Some (Ok (response # responses), s)))"

section \<open>Reads\<close>

text \<open>The committed envelopes behind the applied position; the error is None without one.\<close>

definition machine_feed :: "'m machine_env \<Rightarrow> cell_feed_request \<Rightarrow> 'm state_machine_data \<Rightarrow> (cell_feed, feed_error option) result" where
  "machine_feed env q s =
     (case sm_last_applied_log s of
        None \<Rightarrow> Err None
      | Some l \<Rightarrow>
          (case committed_envelope_feed (cv_sha (me_cell env)) q (from_log_id l) (sm_cell_transactions s) of
             Err e \<Rightarrow> Err (Some e) | Ok feed \<Rightarrow> Ok feed))"

definition generation_transition_position :: "'m state_machine_data \<Rightarrow> recovery_log_position option" where
  "generation_transition_position s = map_option from_log_id (sm_last_generation_transition_log s)"

definition membership_position :: "'m state_machine_data \<Rightarrow> recovery_log_position option" where
  "membership_position s = map_option from_log_id (mb_log_id (sm_last_membership s))"

definition last_applied_position :: "'m state_machine_data \<Rightarrow> recovery_log_position option" where
  "last_applied_position s = map_option from_log_id (sm_last_applied_log s)"
end
