(* ===== verification/State_Machine_Safety.thy ===== *)
theory State_Machine_Safety
  imports State_Machine Generation_Safety
begin

text \<open>
  Properties of the replicated state machine: a request takes effect once and is answered alike ever after,
  and only the transaction system of the current generation acts on the transaction and publication state.
\<close>

section \<open>Requests\<close>

text \<open>The identity of the request a payload carries.\<close>

definition request_of :: "'m machine_env \<Rightarrow> bytes \<Rightarrow> request_identity option" where
  "request_of env p =
     (case generation_decode env p of Err _ \<Rightarrow> None | Ok (Some c) \<Rightarrow> Some (gcm_identity c) | Ok None \<Rightarrow>
     (case publication_decode env p of Err _ \<Rightarrow> None | Ok (Some c) \<Rightarrow> Some (pcm_identity c) | Ok None \<Rightarrow>
     (case staged_decode env p of Err _ \<Rightarrow> None | Ok (Some c) \<Rightarrow> Some (sc_identity c) | Ok None \<Rightarrow>
     (case transaction_decode env p of Err _ \<Rightarrow> None | Ok (Some c) \<Rightarrow> Some (ct_identity c) | Ok None \<Rightarrow>
     (case client_decode env p of Err _ \<Rightarrow> None | Ok (Some c) \<Rightarrow> Some (ccm_identity c) | Ok None \<Rightarrow> None)))))"

definition same_outcomes :: "'m state_machine_data \<Rightarrow> 'm state_machine_data \<Rightarrow> bool" where
  "same_outcomes s t \<longleftrightarrow> sm_durable_outcomes t = sm_durable_outcomes s \<and> sm_request_fingerprints t = sm_request_fingerprints s"

text \<open>The answer to a request whose outcome is recorded.\<close>

definition repeated :: "'m machine_env \<Rightarrow> log_id \<Rightarrow> bytes \<Rightarrow> request_identity \<Rightarrow> apply_response \<Rightarrow> bytes option \<Rightarrow> apply_response" where
  "repeated env l p identity outcome digest =
     (if digest = Some (request_fingerprint_of env p) then outcome
      else (response_new l)\<lparr>ar_identity := Some identity, ar_error := Some ConflictingRequestIdentity\<rparr>)"

definition request_effect :: "'m machine_env \<Rightarrow> log_id \<Rightarrow> bytes \<Rightarrow> request_identity \<Rightarrow> 'm state_machine_data \<Rightarrow> apply_response \<Rightarrow> 'm state_machine_data \<Rightarrow> bool" where
  "request_effect env l p identity s r s' \<longleftrightarrow>
     (case bt_get (sm_durable_outcomes s) identity of
        Some outcome \<Rightarrow> s' = s \<and> r = repeated env l p identity outcome (bt_get (sm_request_fingerprints s) identity)
      | None \<Rightarrow> \<exists>t. same_outcomes s t \<and> s' = record_outcome identity (request_fingerprint_of env p) r t)"

lemma recovered_iff:
  "recovered_outcome True identity (request_fingerprint_of env p) (response_new l) s = map_option
     (\<lambda>outcome. repeated env l p identity outcome (bt_get (sm_request_fingerprints s) identity)) (bt_get (sm_durable_outcomes s) identity)"
  by (simp add: recovered_outcome_def repeated_def)

lemma request_new:
  "bt_get (sm_durable_outcomes s) identity = None \<Longrightarrow> s' = record_outcome identity (request_fingerprint_of env p) r t \<Longrightarrow> same_outcomes s t \<Longrightarrow>
     request_effect env l p identity s r s'"
  by (auto simp: request_effect_def)

lemma generation_command_effect:
  assumes "apply_generation_command env cfg l p c s = Some (r, s')"
  shows "request_effect env l p (gcm_identity c) s r s'"
proof (cases "bt_get (sm_durable_outcomes s) (gcm_identity c)")
  case None
  then obtain status authority where "generation_apply (me_generation env) (so_generation_faults cfg) (gcm_action c) (sm_generation_authority s) = Some (status, authority)"
    using assms by (auto simp: apply_generation_command_def recovered_iff Let_def split: option.split_asm prod.split_asm)
  with assms None show ?thesis
    by (auto simp: apply_generation_command_def recovered_iff Let_def same_outcomes_def split: if_split_asm intro!: request_new)
qed (use assms in \<open>auto simp: apply_generation_command_def recovered_iff request_effect_def\<close>)

lemma publication_command_effect:
  assumes "apply_publication_command env cfg l p c s = (r, s')" "so_deduplicate_requests cfg"
  shows "request_effect env l p (pcm_identity c) s r s'"
proof (cases "bt_get (sm_durable_outcomes s) (pcm_identity c)")
  case None
  with assms show ?thesis
    by (auto simp: apply_publication_command_def recovered_iff same_outcomes_def Let_def split: prod.split_asm intro!: request_new)
qed (use assms in \<open>auto simp: apply_publication_command_def recovered_iff request_effect_def\<close>)

lemma fenced_effect:
  assumes "apply_fenced cfg l identity (request_fingerprint_of env p) credential effect s = Some (r, s')" "so_deduplicate_requests cfg"
    and "\<And>r0 r1 s1. effect r0 s = Some (r1, s1) \<Longrightarrow> same_outcomes s s1"
  shows "request_effect env l p identity s r s'"
proof (cases "bt_get (sm_durable_outcomes s) identity")
  case None
  have refl: "same_outcomes s s" by (simp add: same_outcomes_def)
  from None show ?thesis using assms refl
    by (auto simp: apply_fenced_def recovered_iff Let_def split: if_split_asm intro!: request_new)
qed (use assms in \<open>auto simp: apply_fenced_def recovered_iff request_effect_def\<close>)

lemma payload_effect:
  assumes "apply_payload env cfg l p s = Some (Ok r, s')" "so_deduplicate_requests cfg"
  shows "case request_of env p of Some identity \<Rightarrow> request_effect env l p identity s r s' | None \<Rightarrow> same_outcomes s s'"
proof -
  have staged: "request_effect env l p (sc_identity c) s r s'" if "apply_staged_command env cfg l p c s = Some (r, s')" for c
    by (rule fenced_effect[OF that[unfolded apply_staged_command_def] assms(2)]) (auto simp: same_outcomes_def)
  have transaction: "request_effect env l p (ct_identity c) s r s'" if "apply_transaction_command env cfg l p c s = Some (r, s')" for c
    by (rule fenced_effect[OF that[unfolded apply_transaction_command_def] assms(2)]) (auto simp: same_outcomes_def)
  have client: "request_effect env l p (ccm_identity c) s r s'" if "apply_client_command env cfg l p c s = Some (r, s')" for c
    by (rule fenced_effect[OF that[unfolded apply_client_command_def] assms(2)]) (auto simp: same_outcomes_def)
  show ?thesis
    using assms(1) staged transaction client generation_command_effect publication_command_effect[OF _ assms(2)]
    unfolding apply_payload_def request_of_def respond_def
    by (fastforce simp: same_outcomes_def split: result.split_asm option.split_asm if_split_asm prod.split_asm)
qed

section \<open>Runs\<close>

lemma apply_entries_append:
  assumes "apply_entries env cfg (xs @ ys) s = Some (Ok rs, s')"
  obtains s1 where "apply_entries env cfg xs s = Some (Ok (take (length xs) rs), s1)" "apply_entries env cfg ys s1 = Some (Ok (drop (length xs) rs), s')"
  using assms
proof (induction xs arbitrary: s rs thesis)
  case (Cons x xs)
  obtain r s1 rs' where first: "apply_entry env cfg x s = Some (Ok r, s1)" and rest: "apply_entries env cfg (xs @ ys) s1 = Some (Ok rs', s')" and rs: "rs = r # rs'"
    using Cons.prems(2) by (auto split: option.split_asm prod.split_asm result.split_asm)
  obtain s2 where "apply_entries env cfg xs s1 = Some (Ok (take (length xs) rs'), s2)" "apply_entries env cfg ys s2 = Some (Ok (drop (length xs) rs'), s')"
    using Cons.IH[OF _ rest] by blast
  with first rs show ?case by (intro Cons.prems(1)) simp_all
qed simp

lemma apply_entries_Cons:
  assumes "apply_entries env cfg (e # es) s = Some (Ok rs, s')"
  obtains r s1 where "apply_entry env cfg e s = Some (Ok r, s1)" "apply_entries env cfg es s1 = Some (Ok (tl rs), s')" "rs ! 0 = r"
  using assms by (auto split: option.split_asm prod.split_asm result.split_asm)

lemma apply_entries_length: "apply_entries env cfg es s = Some (Ok rs, s') \<Longrightarrow> length rs = length es"
  by (induction es arbitrary: s rs) (auto split: option.split_asm prod.split_asm result.split_asm)

lemma apply_entries_invariant:
  assumes "apply_entries env cfg es s = Some (Ok rs, s')" "P s"
    and "\<And>e s r s'. e \<in> set es \<Longrightarrow> P s \<Longrightarrow> apply_entry env cfg e s = Some (Ok r, s') \<Longrightarrow> P s'"
  shows "P s'"
  using assms
proof (induction es arbitrary: s rs)
  case (Cons e es)
  obtain r s1 where "apply_entry env cfg e s = Some (Ok r, s1)" "apply_entries env cfg es s1 = Some (Ok (tl rs), s')"
    using Cons.prems(1) by (rule apply_entries_Cons)
  with Cons show ?case by (metis list.set_intros)
qed simp

definition entry_request :: "'m machine_env \<Rightarrow> 'm log_entry \<Rightarrow> request_identity option" where
  "entry_request env e = (case en_payload e of Normal p \<Rightarrow> request_of env p | _ \<Rightarrow> None)"

abbreviation advance :: "'m log_entry \<Rightarrow> 'm state_machine_data \<Rightarrow> 'm state_machine_data" where
  "advance e s \<equiv> s\<lparr>sm_last_applied_log := Some (en_log_id e)\<rparr>"

lemma entry_effect:
  assumes "apply_entry env cfg e s = Some (Ok r, s')" "so_deduplicate_requests cfg"
  shows "case entry_request env e of None \<Rightarrow> same_outcomes s s'
    | Some identity \<Rightarrow> \<exists>p. en_payload e = Normal p \<and> request_effect env (en_log_id e) p identity (advance e s) r s'"
proof (cases "en_payload e")
  case (Normal p)
  with assms payload_effect[of env cfg "en_log_id e" p "advance e s" r s'] show ?thesis
    by (auto simp: apply_entry_def entry_request_def same_outcomes_def Let_def split: option.split)
qed (use assms in \<open>auto simp: apply_entry_def entry_request_def same_outcomes_def Let_def\<close>)

text \<open>A recorded outcome stays; a new one is that of the entry.\<close>

lemma outcome_stays:
  assumes "apply_entry env cfg e s = Some (Ok r, s')" "so_deduplicate_requests cfg" "bt_get (sm_durable_outcomes s) identity = Some outcome"
  shows "bt_get (sm_durable_outcomes s') identity = Some outcome \<and> bt_get (sm_request_fingerprints s') identity = bt_get (sm_request_fingerprints s) identity"
  using entry_effect[OF assms(1,2)] assms(3)
  by (auto simp: request_effect_def same_outcomes_def record_outcome_def split: option.split_asm)

lemma outcome_absent:
  assumes "apply_entry env cfg e s = Some (Ok r, s')" "so_deduplicate_requests cfg" "bt_get (sm_durable_outcomes s) identity = None"
    "entry_request env e \<noteq> Some identity"
  shows "bt_get (sm_durable_outcomes s') identity = None"
  using entry_effect[OF assms(1,2)] assms(3,4)
  by (auto simp: request_effect_def same_outcomes_def record_outcome_def split: option.split_asm)

lemma outcome_new:
  assumes "apply_entry env cfg e s = Some (Ok r, s')" "so_deduplicate_requests cfg" "bt_get (sm_durable_outcomes s) identity = None"
    "en_payload e = Normal p" "request_of env p = Some identity"
  shows "bt_get (sm_durable_outcomes s') identity = Some r \<and> bt_get (sm_request_fingerprints s') identity = Some (request_fingerprint_of env p)"
  using entry_effect[OF assms(1,2)] assms(3-5)
  by (auto simp: entry_request_def request_effect_def same_outcomes_def record_outcome_def split: option.split_asm)

section \<open>Properties\<close>

text \<open>C1. A request takes effect once. When entries of the log carry the same request identity, the first one is applied; every later one
  leaves the state as it was but for the applied position, and is answered with the very response of the first when its payload has
  the same digest, and with \<open>ConflictingRequestIdentity\<close> otherwise.\<close>

theorem requests_take_effect_once:
  assumes run: "apply_entries env cfg (xs @ e # ys @ e' # zs) (machine_default m) = Some (Ok rs, s)" and dedup: "so_deduplicate_requests cfg"
    and e: "en_payload e = Normal p" "request_of env p = Some identity" and e': "en_payload e' = Normal p'" "request_of env p' = Some identity"
    and first: "\<forall>x \<in> set xs. entry_request env x \<noteq> Some identity"
  shows "\<exists>s'. apply_entries env cfg (xs @ e # ys) (machine_default m) = Some (Ok (take (Suc (length (xs @ ys))) rs), s') \<and>
    apply_entry env cfg e' s' = Some (Ok (rs ! Suc (length (xs @ ys))), advance e' s') \<and>
    rs ! Suc (length (xs @ ys)) = (if request_fingerprint_of env p' = request_fingerprint_of env p then rs ! length xs
      else (response_new (en_log_id e'))\<lparr>ar_identity := Some identity, ar_error := Some ConflictingRequestIdentity\<rparr>)"
proof -
  let ?n = "Suc (length (xs @ ys))"
  obtain s2 where two: "apply_entries env cfg (xs @ e # ys) (machine_default m) = Some (Ok (take ?n rs), s2)"
    "apply_entries env cfg (e' # zs) s2 = Some (Ok (drop ?n rs), s)"
    using apply_entries_append[of env cfg "xs @ e # ys" "e' # zs"] run by force
  obtain s3 where three: "apply_entry env cfg e' s2 = Some (Ok (rs ! ?n), s3)"
    by (rule apply_entries_Cons[OF two(2)]) (use apply_entries_length[OF run] in \<open>auto simp: nth_drop\<close>)
  obtain s0 where zero: "apply_entries env cfg xs (machine_default m) = Some (Ok (take (length xs) (take ?n rs)), s0)"
    "apply_entries env cfg (e # ys) s0 = Some (Ok (drop (length xs) (take ?n rs)), s2)"
    using apply_entries_append[OF two(1)] by blast
  obtain s1 where one: "apply_entry env cfg e s0 = Some (Ok (rs ! length xs), s1)" "apply_entries env cfg ys s1 = Some (Ok (tl (drop (length xs) (take ?n rs))), s2)"
    by (rule apply_entries_Cons[OF zero(2)]) (use apply_entries_length[OF run] in \<open>auto simp: nth_drop\<close>)
  have "bt_get (sm_durable_outcomes s0) identity = None"
  proof (rule apply_entries_invariant[OF zero(1), where P = "\<lambda>s. bt_get (sm_durable_outcomes s) identity = None"])
    fix x s r s' assume "x \<in> set xs" "bt_get (sm_durable_outcomes s) identity = None" "apply_entry env cfg x s = Some (Ok r, s')"
    with first show "bt_get (sm_durable_outcomes s') identity = None" using outcome_absent[OF _ dedup] by blast
  qed (simp add: machine_default_def)
  note new = outcome_new[OF one(1) dedup this e]
  have old: "bt_get (sm_durable_outcomes s2) identity = Some (rs ! length xs) \<and> bt_get (sm_request_fingerprints s2) identity = Some (request_fingerprint_of env p)"
  proof (rule apply_entries_invariant[OF one(2), where P = "\<lambda>s. bt_get (sm_durable_outcomes s) identity = Some (rs ! length xs) \<and>
      bt_get (sm_request_fingerprints s) identity = Some (request_fingerprint_of env p)", OF new])
    fix x s r s' assume "bt_get (sm_durable_outcomes s) identity = Some (rs ! length xs) \<and> bt_get (sm_request_fingerprints s) identity = Some (request_fingerprint_of env p)"
      and step: "apply_entry env cfg x s = Some (Ok r, s')"
    then show "bt_get (sm_durable_outcomes s') identity = Some (rs ! length xs) \<and> bt_get (sm_request_fingerprints s') identity = Some (request_fingerprint_of env p)"
      using outcome_stays[OF step dedup, of identity] by simp
  qed
  then have "s3 = advance e' s2 \<and> rs ! ?n = repeated env (en_log_id e') p' identity (rs ! length xs) (Some (request_fingerprint_of env p))"
    using entry_effect[OF three dedup] e' by (simp add: entry_request_def request_effect_def)
  with two(1) three show ?thesis by (intro exI[of _ s2]) (simp add: repeated_def eq_commute)
qed

text \<open>What an entry of a store without faults does to the three authorities.\<close>

definition entry_credential :: "'m machine_env \<Rightarrow> bytes \<Rightarrow> generation_credential option" where
  "entry_credential env p =
     (case generation_decode env p of Ok None \<Rightarrow>
     (case publication_decode env p of Err _ \<Rightarrow> None | Ok (Some c) \<Rightarrow> Some (pcm_credential c) | Ok None \<Rightarrow>
     (case staged_decode env p of Err _ \<Rightarrow> None | Ok (Some c) \<Rightarrow> sc_credential c | Ok None \<Rightarrow>
     (case transaction_decode env p of Err _ \<Rightarrow> None | Ok (Some c) \<Rightarrow> ct_credential c | Ok None \<Rightarrow> None))) | _ \<Rightarrow> None)"

definition acts :: "'m state_machine_data \<Rightarrow> 'm state_machine_data \<Rightarrow> bool" where
  "acts s s' \<longleftrightarrow> sm_cell_transactions s' \<noteq> sm_cell_transactions s \<or> sm_publication_authority s' \<noteq> sm_publication_authority s"

definition authority_effect :: "'m machine_env \<Rightarrow> generation_credential option \<Rightarrow> 'm state_machine_data \<Rightarrow> 'm state_machine_data \<Rightarrow> bool" where
  "authority_effect env credential s s' \<longleftrightarrow>
     (\<exists>as. sm_generation_authority s' = fold (generation_step (me_generation env)) as (sm_generation_authority s)) \<and>
     (acts s s' \<longrightarrow> gs_phase (sm_generation_authority s) = Uninitialized \<or>
        (\<exists>c. credential = Some c \<and> authorizes (sm_generation_authority s) (gc_generation c) (gc_transaction_system_id c)))"

lemma authority_quiet:
  "sm_generation_authority s' = sm_generation_authority s \<Longrightarrow> \<not> acts s s' \<Longrightarrow> authority_effect env credential s s'"
  by (auto simp: authority_effect_def intro: exI[of _ "[]"])

lemma authority_allowed:
  "sm_generation_authority s' = sm_generation_authority s \<Longrightarrow>
     gs_phase (sm_generation_authority s) = Uninitialized \<or> authorizes (sm_generation_authority s) (gc_generation c) (gc_transaction_system_id c) \<Longrightarrow>
     authority_effect env (Some c) s s'"
  by (auto simp: authority_effect_def intro: exI[of _ "[]"])

lemma record_fields [simp]:
  "sm_generation_authority (record_outcome i d r s) = sm_generation_authority s" "sm_cell_transactions (record_outcome i d r s) = sm_cell_transactions s"
  "sm_publication_authority (record_outcome i d r s) = sm_publication_authority s"
  by (simp_all add: record_outcome_def)

lemma generation_command_authority:
  assumes "apply_generation_command env (store_config_new dedup) l p c s = Some (r, s')"
  shows "authority_effect env credential s s'"
proof (cases "bt_get (sm_durable_outcomes s) (gcm_identity c)")
  case None
  then obtain status authority where run: "generation_apply (me_generation env) no_generation_faults (gcm_action c) (sm_generation_authority s) = Some (status, authority)"
    using assms by (auto simp: apply_generation_command_def recovered_iff store_config_new_def Let_def split: option.split_asm prod.split_asm)
  then have "generation_step (me_generation env) (gcm_action c) (sm_generation_authority s) = authority" by (simp add: generation_step_def)
  moreover have "sm_generation_authority s' = authority" "\<not> acts s s'"
    using assms None run by (auto simp: apply_generation_command_def recovered_iff store_config_new_def Let_def acts_def split: if_split_asm)
  ultimately show ?thesis by (auto simp: authority_effect_def intro: exI[of _ "[gcm_action c]"])
next
  case Some
  then have "s' = s" using assms by (simp add: apply_generation_command_def recovered_iff Let_def)
  then show ?thesis by (simp add: authority_quiet acts_def)
qed

lemma publication_command_authority:
  assumes "apply_publication_command env (store_config_new dedup) l p c s = (r, s')"
  shows "authority_effect env (Some (pcm_credential c)) s s'"
proof (cases "authorizes (sm_generation_authority s) (gc_generation (pcm_credential c)) (gc_transaction_system_id (pcm_credential c))")
  case True
  have "sm_generation_authority s' = sm_generation_authority s"
    using assms by (auto simp: apply_publication_command_def Let_def split: option.split_asm prod.split_asm if_split_asm)
  then show ?thesis using True by (intro authority_allowed) simp_all
next
  case False
  then have "sm_generation_authority s' = sm_generation_authority s \<and> \<not> acts s s'"
    using assms by (auto simp: apply_publication_command_def store_config_new_def no_publication_fence_faults_def acts_def Let_def split: option.split_asm if_split_asm)
  then show ?thesis by (simp add: authority_quiet)
qed

lemma fenced_authority:
  assumes "apply_fenced (store_config_new dedup) l identity digest credential effect s = Some (r, s')"
    and "\<And>r0 r1 s1. effect r0 s = Some (r1, s1) \<Longrightarrow> sm_generation_authority s1 = sm_generation_authority s"
  shows "authority_effect env credential s s'"
proof (cases "generation_fenced no_fence_faults credential (sm_generation_authority s)")
  case True
  then have "sm_generation_authority s' = sm_generation_authority s \<and> \<not> acts s s'"
    using assms by (auto simp: apply_fenced_def store_config_new_def acts_def Let_def split: option.split_asm if_split_asm)
  then show ?thesis by (simp add: authority_quiet)
next
  case False
  have same: "sm_generation_authority s' = sm_generation_authority s"
    using assms by (auto simp: apply_fenced_def Let_def split: option.split_asm if_split_asm)
  from False have "gs_phase (sm_generation_authority s) = Uninitialized \<or>
      (\<exists>c. credential = Some c \<and> authorizes (sm_generation_authority s) (gc_generation c) (gc_transaction_system_id c))"
    by (auto simp: generation_fenced_def no_fence_faults_def Let_def split: option.split_asm)
  with same show ?thesis by (auto simp: authority_effect_def intro: exI[of _ "[]"])
qed

lemma payload_authority:
  assumes "apply_payload env (store_config_new dedup) l p s = Some (Ok r, s')"
  shows "authority_effect env (entry_credential env p) s s'"
proof -
  have staged: "authority_effect env (sc_credential c) s s'" if "apply_staged_command env (store_config_new dedup) l p c s = Some (r, s')" for c
    by (rule fenced_authority[OF that[unfolded apply_staged_command_def]]) auto
  have transaction: "authority_effect env (ct_credential c) s s'" if "apply_transaction_command env (store_config_new dedup) l p c s = Some (r, s')" for c
    by (rule fenced_authority[OF that[unfolded apply_transaction_command_def]]) auto
  have client: "authority_effect env credential s s'" if "apply_client_command env (store_config_new dedup) l p c s = Some (r, s')" for c credential
    by (rule authority_quiet) (use that in \<open>auto simp: apply_client_command_def apply_fenced_def acts_def Let_def split: option.split_asm if_split_asm\<close>)
  have quiet: "authority_effect env credential s s" "authority_effect env credential s (s\<lparr>sm_applied_payloads := ps\<rparr>)" for credential ps
    by (simp_all add: authority_quiet acts_def)
  show ?thesis
    using assms staged transaction client generation_command_authority publication_command_authority quiet
    unfolding apply_payload_def entry_credential_def respond_def
    by (fastforce split: result.split_asm option.split_asm if_split_asm prod.split_asm)
qed

definition log_credential :: "'m machine_env \<Rightarrow> 'm log_entry \<Rightarrow> generation_credential option" where
  "log_credential env e = (case en_payload e of Normal p \<Rightarrow> entry_credential env p | _ \<Rightarrow> None)"

lemma entry_authority:
  assumes "apply_entry env (store_config_new dedup) e s = Some (Ok r, s')"
  shows "authority_effect env (log_credential env e) s s'"
proof (cases "en_payload e")
  case (Normal p)
  then have "authority_effect env (entry_credential env p) (advance e s) s'"
    using assms by (intro payload_authority) (simp add: apply_entry_def Let_def)
  then show ?thesis using Normal by (simp add: authority_effect_def log_credential_def acts_def)
qed (use assms in \<open>auto simp: apply_entry_def Let_def acts_def intro!: authority_quiet\<close>)

lemma run_authority:
  assumes "apply_entries env (store_config_new dedup) es s = Some (Ok rs, s')"
  shows "\<exists>as. sm_generation_authority s' = fold (generation_step (me_generation env)) as (sm_generation_authority s)"
proof (rule apply_entries_invariant[OF assms, where P = "\<lambda>t. \<exists>as. sm_generation_authority t = fold (generation_step (me_generation env)) as (sm_generation_authority s)"])
  fix e t r t' assume "\<exists>as. sm_generation_authority t = fold (generation_step (me_generation env)) as (sm_generation_authority s)"
    and "apply_entry env (store_config_new dedup) e t = Some (Ok r, t')"
  then obtain as bs where "sm_generation_authority t = fold (generation_step (me_generation env)) as (sm_generation_authority s)"
    "sm_generation_authority t' = fold (generation_step (me_generation env)) bs (sm_generation_authority t)"
    using entry_authority unfolding authority_effect_def by blast
  then show "\<exists>as. sm_generation_authority t' = fold (generation_step (me_generation env)) as (sm_generation_authority s)"
    by (intro exI[of _ "as @ bs"]) simp
qed (rule exI[of _ "[]"], simp)

text \<open>C2. One transaction system acts in a generation. In a store without faults an entry changes the transaction or the publication state of an
  initialised cell only with the credential of the transaction system that the generation authority authorises at that point; and when two
  entries of a run do so with credentials of one generation below the last representable one, they name the same system.\<close>

theorem one_system_acts_per_generation:
  assumes first: "apply_entry env (store_config_new dedup) e s = Some (Ok r, s1)" "acts s s1" "gs_phase (sm_generation_authority s) \<noteq> Uninitialized"
    and run: "apply_entries env (store_config_new dedup) es s1 = Some (Ok rs, s2)"
    and second: "apply_entry env (store_config_new dedup) e' s2 = Some (Ok r', s3)" "acts s2 s3"
    and last: "- 1 \<noteq> gs_generation (sm_generation_authority s)"
  shows "\<exists>c c'. log_credential env e = Some c \<and> authorizes (sm_generation_authority s) (gc_generation c) (gc_transaction_system_id c) \<and>
    log_credential env e' = Some c' \<and> authorizes (sm_generation_authority s2) (gc_generation c') (gc_transaction_system_id c') \<and>
    (gc_generation c' = gc_generation c \<longrightarrow> gc_transaction_system_id c' = gc_transaction_system_id c)"
proof -
  obtain c where c: "log_credential env e = Some c" "authorizes (sm_generation_authority s) (gc_generation c) (gc_transaction_system_id c)"
    using entry_authority[OF first(1)] first(2,3) by (auto simp: authority_effect_def)
  obtain as where as: "sm_generation_authority s2 = fold (generation_step (me_generation env)) as (sm_generation_authority s)"
    using entry_authority[OF first(1)] run_authority[OF run] unfolding authority_effect_def by (metis fold_append comp_apply)
  have "gc_generation c \<noteq> - 1" using c(2) last by (auto simp: authorizes_def)
  note kept = system_kept[OF c(2) this, of "me_generation env" as, folded as]
  then obtain c' where c': "log_credential env e' = Some c'" "authorizes (sm_generation_authority s2) (gc_generation c') (gc_transaction_system_id c')"
    using entry_authority[OF second(1)] second(2) by (auto simp: authority_effect_def)
  with kept have "gc_generation c' = gc_generation c \<Longrightarrow> gc_transaction_system_id c' = gc_transaction_system_id c"
    by (auto simp: authorizes_def)
  with c c' show ?thesis by blast
qed
end
