(* ===== verification/Machine_Snapshot.thy ===== *)
theory Machine_Snapshot
  imports State_Machine
begin

text \<open>
  The snapshots of the state machine (\<open>okv-consensus/src/state_machine.rs\<close>): building, installing, the
  checksummed snapshot file and the restart from it. The file is replaced by a rename; an interrupted write
  leaves the old content, an interrupted directory synchronisation the new one.
\<close>

section \<open>The file format\<close>

record 'm stored_snapshot =
  ss_meta :: "'m snapshot_meta"
  ss_data :: bytes

datatype snapshot_file_error =
    SnapshotIo | MetadataNotEncoded | MetadataTooLong | FrameOverflow | FrameTruncated | MagicInvalid | FormatUnsupported
  | LengthMismatch | FrameChecksumMismatch | MetadataNotDecoded | DataNotDecoded | PositionMismatch | MembershipMismatch

definition SNAPSHOT_MAGIC :: bytes where "SNAPSHOT_MAGIC = ascii ''OKVS''"
definition SNAPSHOT_FORMAT_VERSION :: u16 where "SNAPSHOT_FORMAT_VERSION = 1"
definition SNAPSHOT_HEADER_BYTES :: nat where "SNAPSHOT_HEADER_BYTES = 4 + 2 + 4 + 8 + 32"

definition snapshot_prefix :: "bytes \<Rightarrow> bytes \<Rightarrow> bytes" where
  "snapshot_prefix meta data = SNAPSHOT_MAGIC @ u16_be SNAPSHOT_FORMAT_VERSION @ u32_be (word_of_nat (length meta)) @ u64_be (word_of_nat (length data))"

definition snapshot_frame :: "(bytes \<Rightarrow> bytes) \<Rightarrow> bytes \<Rightarrow> bytes \<Rightarrow> bytes" where
  "snapshot_frame sha meta data = snapshot_prefix meta data @ sha (snapshot_prefix meta data @ meta @ data) @ meta @ data"

definition encode_durable_snapshot :: "'m machine_env \<Rightarrow> 'm stored_snapshot \<Rightarrow> (bytes, snapshot_file_error) result" where
  "encode_durable_snapshot env s =
     (case me_json_meta env (ss_meta s) of
        None \<Rightarrow> Err MetadataNotEncoded
      | Some meta \<Rightarrow>
          if length meta \<ge> 2 ^ 32 then Err MetadataTooLong
          else if SNAPSHOT_HEADER_BYTES + length meta + length (ss_data s) \<ge> 2 ^ 64 then Err FrameOverflow
          else Ok (snapshot_frame (cv_sha (me_cell env)) meta (ss_data s)))"

definition decode_durable_snapshot :: "'m machine_env \<Rightarrow> bytes \<Rightarrow> ('m stored_snapshot, snapshot_file_error) result" where
  "decode_durable_snapshot env bs =
     (if length bs < SNAPSHOT_HEADER_BYTES then Err FrameTruncated
      else if take 4 bs \<noteq> SNAPSHOT_MAGIC then Err MagicInvalid
      else if u16_of_be (take 2 (drop 4 bs)) \<noteq> SNAPSHOT_FORMAT_VERSION then Err FormatUnsupported
      else
        let meta_length = unat (u32_of_be (take 4 (drop 6 bs))); data_length = unat (u64_of_be (take 8 (drop 10 bs)));
            expected_length = SNAPSHOT_HEADER_BYTES + meta_length + data_length in
        if expected_length \<ge> 2 ^ 64 then Err FrameOverflow
        else if length bs \<noteq> expected_length then Err LengthMismatch
        else if cv_sha (me_cell env) (take 18 bs @ drop SNAPSHOT_HEADER_BYTES bs) \<noteq> take 32 (drop 18 bs) then Err FrameChecksumMismatch
        else case me_parse_meta env (take meta_length (drop SNAPSHOT_HEADER_BYTES bs)) of
          None \<Rightarrow> Err MetadataNotDecoded
        | Some meta \<Rightarrow> Ok \<lparr>ss_meta = meta, ss_data = drop (SNAPSHOT_HEADER_BYTES + meta_length) bs\<rparr>)"

definition validate_snapshot_state :: "'m stored_snapshot \<Rightarrow> 'm state_machine_data \<Rightarrow> (unit, snapshot_file_error) result" where
  "validate_snapshot_state s data =
     (if sn_last_log_id (ss_meta s) \<noteq> sm_last_applied_log data then Err PositionMismatch
      else if sn_last_membership (ss_meta s) \<noteq> sm_last_membership data then Err MembershipMismatch
      else Ok ())"

definition decode_and_validate_snapshot ::
  "'m machine_env \<Rightarrow> 'm stored_snapshot \<Rightarrow> ('m state_machine_data, snapshot_file_error) result" where
  "decode_and_validate_snapshot env s =
     (case me_parse_data env (ss_data s) of
        None \<Rightarrow> Err DataNotDecoded
      | Some data \<Rightarrow> try_bind (validate_snapshot_state s data) (\<lambda>_. Ok data))"

section \<open>The store\<close>

text \<open>\<open>mc_file\<close> is None without a snapshot path, and otherwise the content of the file, if there is one.\<close>

record 'm machine_store =
  mc_data :: "'m state_machine_data"
  mc_snapshot_sequence :: u64
  mc_current_snapshot :: "'m stored_snapshot option"
  mc_file :: "bytes option option"

definition store_new :: "'m \<Rightarrow> 'm machine_store" where
  "store_new m = \<lparr>mc_data = machine_default m, mc_snapshot_sequence = 0, mc_current_snapshot = None, mc_file = None\<rparr>"

definition persist_snapshot ::
  "'m machine_env \<Rightarrow> publish_outcome \<Rightarrow> 'm stored_snapshot \<Rightarrow> 'm machine_store \<Rightarrow> (unit, snapshot_file_error) result \<times> 'm machine_store" where
  "persist_snapshot env disk s store =
     (case mc_file store of
        None \<Rightarrow> (Ok (), store)
      | Some file \<Rightarrow>
          (case encode_durable_snapshot env s of
             Err e \<Rightarrow> (Err e, store)
           | Ok frame \<Rightarrow>
               (case replace_file disk frame file of
                  (Err _, file) \<Rightarrow> (Err SnapshotIo, store\<lparr>mc_file := Some file\<rparr>)
                | (Ok _, file) \<Rightarrow> (Ok (), store\<lparr>mc_file := Some file\<rparr>))))"

definition build_snapshot ::
  "'m machine_env \<Rightarrow> publish_outcome \<Rightarrow> 'm machine_store \<Rightarrow> ('m stored_snapshot, snapshot_file_error) result \<times> 'm machine_store" where
  "build_snapshot env disk store =
     (case me_json_data env (mc_data store) of
        None \<Rightarrow> (Err SnapshotIo, store)
      | Some data \<Rightarrow>
          let sequence = mc_snapshot_sequence store + 1; state = mc_data store;
              stored = \<lparr>ss_meta = \<lparr>sn_last_log_id = sm_last_applied_log state, sn_last_membership = sm_last_membership state,
                sn_snapshot_id = me_snapshot_id env (sm_last_applied_log state) sequence\<rparr>, ss_data = data\<rparr> in
          (case persist_snapshot env disk stored (store\<lparr>mc_snapshot_sequence := sequence\<rparr>) of
             (Err e, store) \<Rightarrow> (Err e, store)
           | (Ok _, store) \<Rightarrow> (Ok stored, store\<lparr>mc_current_snapshot := Some stored\<rparr>)))"

definition install_snapshot ::
  "'m machine_env \<Rightarrow> publish_outcome \<Rightarrow> 'm snapshot_meta \<Rightarrow> bytes \<Rightarrow> 'm machine_store \<Rightarrow> (unit, snapshot_file_error) result \<times> 'm machine_store" where
  "install_snapshot env disk meta data store =
     (let stored = \<lparr>ss_meta = meta, ss_data = data\<rparr> in
      case me_parse_data env data of
        None \<Rightarrow> (Err DataNotDecoded, store)
      | Some decoded \<Rightarrow>
          (case validate_snapshot_state stored decoded of
             Err e \<Rightarrow> (Err e, store)
           | Ok _ \<Rightarrow>
               (case persist_snapshot env disk stored store of
                  (Err e, store) \<Rightarrow> (Err e, store)
                | (Ok _, store) \<Rightarrow> (Ok (), store\<lparr>mc_data := decoded, mc_current_snapshot := Some stored\<rparr>))))"

text \<open>\<open>fs::read\<close> of the snapshot path is the argument: an error, no file, or its content.\<close>

definition load_snapshot ::
  "'m machine_env \<Rightarrow> (bytes option, unit) result \<Rightarrow> ('m stored_snapshot option, snapshot_file_error) result" where
  "load_snapshot env file =
     (case file of
        Err _ \<Rightarrow> Err SnapshotIo
      | Ok None \<Rightarrow> Ok None
      | Ok (Some bs) \<Rightarrow>
          try_bind (decode_durable_snapshot env bs) (\<lambda>s. try_bind (decode_and_validate_snapshot env s) (\<lambda>_. Ok (Some s))))"

definition open_store ::
  "'m machine_env \<Rightarrow> 'm \<Rightarrow> (bytes option, unit) result \<Rightarrow> ('m machine_store, snapshot_file_error) result" where
  "open_store env m file =
     try_bind (load_snapshot env file) (\<lambda>restored.
     try_bind (case restored of None \<Rightarrow> Ok (machine_default m) | Some s \<Rightarrow> decode_and_validate_snapshot env s) (\<lambda>data.
     Ok \<lparr>mc_data = data, mc_snapshot_sequence = 0, mc_current_snapshot = restored,
       mc_file = Some (case file of Ok content \<Rightarrow> content | Err _ \<Rightarrow> None)\<rparr>))"

definition snapshot_log_position :: "'m machine_store \<Rightarrow> recovery_log_position option" where
  "snapshot_log_position store = Option.bind (mc_current_snapshot store) (\<lambda>s. map_option from_log_id (sn_last_log_id (ss_meta s)))"

section \<open>The codec\<close>

lemma length_snapshot_prefix [simp]: "length (snapshot_prefix meta data) = 18"
  by (simp add: snapshot_prefix_def SNAPSHOT_MAGIC_def ascii_def)

lemma header_bytes: "SNAPSHOT_HEADER_BYTES = 50"
  by (simp add: SNAPSHOT_HEADER_BYTES_def)

lemma frame_head:
  assumes "take 18 bs = snapshot_prefix meta data" "length meta < 2 ^ 32" "length data < 2 ^ 64"
  shows "take 4 bs = SNAPSHOT_MAGIC" "take 2 (drop 4 bs) = u16_be SNAPSHOT_FORMAT_VERSION"
    "unat (u32_of_be (take 4 (drop 6 bs))) = length meta" "unat (u64_of_be (take 8 (drop 10 bs))) = length data"
proof -
  have part: "take n (drop m bs) = take n (drop m (snapshot_prefix meta data))" if "m + n \<le> 18" for m n
    using that by (simp add: assms(1)[symmetric] take_drop min_def add.commute)
  have words: "take 4 (drop 0 bs) = SNAPSHOT_MAGIC" "take 2 (drop 4 bs) = u16_be SNAPSHOT_FORMAT_VERSION"
    "take 4 (drop 6 bs) = u32_be (word_of_nat (length meta))" "take 8 (drop 10 bs) = u64_be (word_of_nat (length data))"
    by (subst part; simp add: snapshot_prefix_def SNAPSHOT_MAGIC_def ascii_def)+
  then show "take 4 bs = SNAPSHOT_MAGIC" "take 2 (drop 4 bs) = u16_be SNAPSHOT_FORMAT_VERSION" by simp_all
  show "unat (u32_of_be (take 4 (drop 6 bs))) = length meta" "unat (u64_of_be (take 8 (drop 10 bs))) = length data"
    using assms(2,3) by (simp_all add: words unat_of_nat take_bit_nat_eq_self)
qed

lemma decode_frame:
  assumes "digest32 sha" "length meta < 2 ^ 32" "SNAPSHOT_HEADER_BYTES + length meta + length data < 2 ^ 64" "sha = cv_sha (me_cell env)"
  shows "decode_durable_snapshot env (snapshot_frame sha meta data) =
    (case me_parse_meta env meta of None \<Rightarrow> Err MetadataNotDecoded | Some m \<Rightarrow> Ok \<lparr>ss_meta = m, ss_data = data\<rparr>)"
proof -
  let ?bs = "snapshot_frame sha meta data"
  have sha: "length (sha x) = 32" for x using assms(1) by (simp add: digest32_def)
  have rest: "take 18 ?bs = snapshot_prefix meta data" "drop 50 ?bs = meta @ data"
    "take 32 (drop 18 ?bs) = sha (snapshot_prefix meta data @ meta @ data)" "length ?bs = 50 + length meta + length data"
    by (simp_all add: snapshot_frame_def sha)
  have parts: "take 4 ?bs = SNAPSHOT_MAGIC" "take 2 (drop 4 ?bs) = u16_be SNAPSHOT_FORMAT_VERSION"
    "unat (u32_of_be (take 4 (drop 6 ?bs))) = length meta" "unat (u64_of_be (take 8 (drop 10 ?bs))) = length data"
    using frame_head[OF rest(1)] assms(2,3) by (simp_all add: header_bytes)
  have "drop (50 + length meta) ?bs = data" using arg_cong[OF rest(2), of "drop (length meta)"] by (simp add: add.commute)
  then show ?thesis
    using assms(3) unfolding decode_durable_snapshot_def header_bytes assms(4)[symmetric]
    by (simp add: parts rest Let_def split: option.split)
qed

lemma snapshot_decode_sound:
  assumes "decode_durable_snapshot env bs = Ok s"
  shows "\<exists>meta. me_parse_meta env meta = Some (ss_meta s) \<and> length meta < 2 ^ 32 \<and>
    SNAPSHOT_HEADER_BYTES + length meta + length (ss_data s) < 2 ^ 64 \<and> bs = snapshot_frame (cv_sha (me_cell env)) meta (ss_data s)"
proof -
  define m where "m = unat (u32_of_be (take 4 (drop 6 bs)))"
  define k where "k = unat (u64_of_be (take 8 (drop 10 bs)))"
  let ?meta = "take m (drop 50 bs)" and ?data = "drop (50 + m) bs"
  have ok: "take 4 bs = SNAPSHOT_MAGIC" "u16_of_be (take 2 (drop 4 bs)) = SNAPSHOT_FORMAT_VERSION" "50 + m + k < 2 ^ 64" "length bs = 50 + m + k"
    "cv_sha (me_cell env) (take 18 bs @ drop 50 bs) = take 32 (drop 18 bs)" "me_parse_meta env ?meta = Some (ss_meta s)" "ss_data s = ?data"
    using assms unfolding decode_durable_snapshot_def header_bytes Let_def m_def[symmetric] k_def[symmetric]
    by (simp_all split: if_split_asm option.split_asm) (drule sym, simp)+
  have small: "m < 2 ^ 32" unfolding m_def using unat_bound[of "u32_of_be (take 4 (drop 6 bs))"] by simp
  have lens: "length ?meta = m" "length ?data = k" using ok(4) by simp_all
  have words: "u16_be SNAPSHOT_FORMAT_VERSION = take 2 (drop 4 bs)" "u32_be (word_of_nat m) = take 4 (drop 6 bs)" "u64_be (word_of_nat k) = take 8 (drop 10 bs)"
    unfolding m_def k_def ok(2)[symmetric] using ok(4) by simp_all
  have pre: "snapshot_prefix ?meta ?data = take 18 bs"
    unfolding snapshot_prefix_def lens words ok(1)[symmetric]
    using take_add[of 4 14 bs] take_add[of 2 12 "drop 4 bs"] take_add[of 4 8 "drop 6 bs"] by simp
  have split: "drop 50 bs = ?meta @ ?data" using append_take_drop_id[of m "drop 50 bs"] by (simp add: add.commute)
  have "snapshot_frame (cv_sha (me_cell env)) ?meta ?data = take 18 bs @ take 32 (drop 18 bs) @ drop 50 bs"
    unfolding snapshot_frame_def pre split[symmetric] ok(5) ..
  also have "\<dots> = bs" using append_take_drop_id[of 32 "drop 18 bs"] by simp
  finally have "bs = snapshot_frame (cv_sha (me_cell env)) ?meta ?data" by (rule sym)
  then show ?thesis unfolding ok(7) header_bytes using ok(3,6) small lens by (metis (no_types, lifting))
qed

section \<open>Restart\<close>

text \<open>Documented behaviour of the serde round trip: what is written is read back.\<close>

definition json_faithful :: "'m machine_env \<Rightarrow> bool" where
  "json_faithful env \<longleftrightarrow> (\<forall>m bs. me_json_meta env m = Some bs \<longrightarrow> me_parse_meta env bs = Some m) \<and>
     (\<forall>d bs. me_json_data env d = Some bs \<longrightarrow> me_parse_data env bs = Some d)"

lemma encode_decode:
  assumes "digest32 (cv_sha (me_cell env))" "json_faithful env" "encode_durable_snapshot env s = Ok frame"
  shows "decode_durable_snapshot env frame = Ok s"
proof -
  obtain meta where meta: "me_json_meta env (ss_meta s) = Some meta" "length meta < 2 ^ 32" "SNAPSHOT_HEADER_BYTES + length meta + length (ss_data s) < 2 ^ 64"
    and frame: "frame = snapshot_frame (cv_sha (me_cell env)) meta (ss_data s)"
    using assms(3) by (auto simp: encode_durable_snapshot_def not_le split: option.split_asm if_split_asm)
  have "me_parse_meta env meta = Some (ss_meta s)" using assms(2) meta(1) by (simp add: json_faithful_def)
  then show ?thesis unfolding frame by (simp add: decode_frame[OF assms(1) meta(2,3) refl])
qed

text \<open>The snapshot of a state: its data is that state and its position and membership are the state's.\<close>

definition snapshot_of :: "'m machine_env \<Rightarrow> 'm state_machine_data \<Rightarrow> 'm stored_snapshot \<Rightarrow> bool" where
  "snapshot_of env d s \<longleftrightarrow> me_json_data env d = Some (ss_data s) \<and> sn_last_log_id (ss_meta s) = sm_last_applied_log d \<and>
     sn_last_membership (ss_meta s) = sm_last_membership d"

lemma snapshot_of_decodes: "json_faithful env \<Longrightarrow> snapshot_of env d s \<Longrightarrow> decode_and_validate_snapshot env s = Ok d"
  by (auto simp: snapshot_of_def decode_and_validate_snapshot_def json_faithful_def validate_snapshot_state_def)

lemma open_frame:
  assumes "digest32 (cv_sha (me_cell env))" "json_faithful env" "encode_durable_snapshot env s = Ok frame" "snapshot_of env d s"
  shows "\<exists>store. open_store env m (Ok (Some frame)) = Ok store \<and> mc_data store = d"
  by (simp add: open_store_def load_snapshot_def encode_decode[OF assms(1-3)] snapshot_of_decodes[OF assms(2,4)])

lemma build_result:
  assumes "build_snapshot env disk store = (r, store')"
  shows "mc_data store' = mc_data store \<and>
    (\<forall>s. r = Ok s \<longrightarrow> snapshot_of env (mc_data store) s) \<and>
    (mc_file store' = mc_file store \<or>
     (\<exists>s frame. mc_file store' = Some (Some frame) \<and> snapshot_of env (mc_data store) s \<and> encode_durable_snapshot env s = Ok frame))"
proof (cases "me_json_data env (mc_data store)")
  case (Some data)
  define s where "s = \<lparr>ss_meta = \<lparr>sn_last_log_id = sm_last_applied_log (mc_data store), sn_last_membership = sm_last_membership (mc_data store),
    sn_snapshot_id = me_snapshot_id env (sm_last_applied_log (mc_data store)) (mc_snapshot_sequence store + 1)\<rparr>, ss_data = data\<rparr>"
  have of: "snapshot_of env (mc_data store) s" by (simp add: snapshot_of_def s_def Some)
  have run: "(case persist_snapshot env disk s (store\<lparr>mc_snapshot_sequence := mc_snapshot_sequence store + 1\<rparr>) of
      (Err e, store) \<Rightarrow> (Err e, store) | (Ok _, store) \<Rightarrow> (Ok s, store\<lparr>mc_current_snapshot := Some s\<rparr>)) = (r, store')"
    using assms unfolding build_snapshot_def Some option.case Let_def s_def .
  then show ?thesis
    using of by (auto simp: persist_snapshot_def split: option.split_asm result.split_asm prod.split_asm elim!: replace_file.elims)
qed (use assms in \<open>auto simp: build_snapshot_def\<close>)

section \<open>Properties\<close>

text \<open>C20. The snapshot file is exact. What encodes is read back as it was; whatever is read back is the frame of its own
  metadata and data, byte for byte; and a file cut short or extended is refused.\<close>

theorem snapshot_codec:
  assumes "digest32 (cv_sha (me_cell env))" "json_faithful env" and enc: "encode_durable_snapshot env s = Ok frame"
  shows "decode_durable_snapshot env frame = Ok s \<and>
    (decode_durable_snapshot env bs = Ok t \<longrightarrow> (\<exists>meta. me_parse_meta env meta = Some (ss_meta t) \<and> bs = snapshot_frame (cv_sha (me_cell env)) meta (ss_data t))) \<and>
    (k < length frame \<longrightarrow> decode_durable_snapshot env (take k frame) \<in> {Err FrameTruncated, Err LengthMismatch}) \<and>
    (xs \<noteq> [] \<longrightarrow> decode_durable_snapshot env (frame @ xs) = Err LengthMismatch)"
proof -
  obtain meta where meta: "length meta < 2 ^ 32" "SNAPSHOT_HEADER_BYTES + length meta + length (ss_data s) < 2 ^ 64"
    and frame: "frame = snapshot_frame (cv_sha (me_cell env)) meta (ss_data s)"
    using enc by (auto simp: encode_durable_snapshot_def not_le split: option.split_asm if_split_asm)
  have head: "take 4 bs = SNAPSHOT_MAGIC" "take 2 (drop 4 bs) = u16_be SNAPSHOT_FORMAT_VERSION"
    "unat (u32_of_be (take 4 (drop 6 bs))) = length meta" "unat (u64_of_be (take 8 (drop 10 bs))) = length (ss_data s)"
    if "take 18 bs = snapshot_prefix meta (ss_data s)" for bs
    using that meta frame_head[of bs meta "ss_data s"] by (simp_all add: header_bytes)
  have size: "length frame = 50 + length meta + length (ss_data s)"
    using assms(1) by (simp add: frame snapshot_frame_def digest32_def)
  have pre: "take 18 frame = snapshot_prefix meta (ss_data s)" by (simp add: frame snapshot_frame_def)
  have wrong: "decode_durable_snapshot env bs = Err LengthMismatch"
    if "take 18 bs = take 18 frame" "50 \<le> length bs" "length bs \<noteq> length frame" for bs
    using that meta(2) head[of bs] unfolding decode_durable_snapshot_def header_bytes
    by (simp add: pre size Let_def)
  have "decode_durable_snapshot env (take k frame) \<in> {Err FrameTruncated, Err LengthMismatch}" if "k < length frame"
  proof (cases "k < 50")
    case False
    then show ?thesis using that wrong[of "take k frame"] by (simp add: min_def)
  qed (use that in \<open>simp add: decode_durable_snapshot_def header_bytes\<close>)
  moreover have "decode_durable_snapshot env (frame @ xs) = Err LengthMismatch" if "xs \<noteq> []"
    using that wrong[of "frame @ xs"] by (simp add: size)
  ultimately show ?thesis using encode_decode[OF assms] snapshot_decode_sound[of env bs t] by blast
qed

text \<open>C19. A snapshot restores the machine, whenever the process stops. Building a snapshot does not change the state; however the
  write of the file ends, a restart finds either what a restart would have found before, or exactly the state the
  snapshot was taken from; and a replica that installs the built snapshot has exactly that state.\<close>

theorem snapshot_restores_state:
  assumes env: "digest32 (cv_sha (me_cell env))" "json_faithful env" and build: "build_snapshot env disk store = (r, store')"
    and old: "mc_file store = Some content" "open_store env m (Ok content) = Ok before"
  shows "mc_data store' = mc_data store \<and>
    (\<exists>content' after. mc_file store' = Some content' \<and> open_store env m (Ok content') = Ok after \<and>
       (mc_data after = mc_data before \<or> mc_data after = mc_data store)) \<and>
    (r = Ok s \<longrightarrow> install_snapshot env disk' (ss_meta s) (ss_data s) replica = (Ok u, replica') \<longrightarrow> mc_data replica' = mc_data store)"
proof -
  note result = build_result[OF build]
  have "mc_data replica' = mc_data store"
    if "r = Ok s" "install_snapshot env disk' (ss_meta s) (ss_data s) replica = (Ok u, replica')"
  proof -
    have "me_parse_data env (ss_data s) = Some (mc_data store)"
      using result that(1) env(2) by (simp add: snapshot_of_def json_faithful_def)
    then show ?thesis using that(2)
      by (auto simp: install_snapshot_def Let_def split: result.split_asm prod.split_asm)
  qed
  moreover have "\<exists>content' after. mc_file store' = Some content' \<and> open_store env m (Ok content') = Ok after \<and>
       (mc_data after = mc_data before \<or> mc_data after = mc_data store)"
    using result old open_frame[OF env] by metis
  ultimately show ?thesis using result by blast
qed
end
