(* ===== verification/Machine_Runs.thy ===== *)
theory Machine_Runs
  imports Machine_Snapshot State_Machine_Safety Cell_Staged_Runs
begin

text \<open>
  Concrete runs of the replicated state machine: a client request and its retry, two transactions of one
  transaction system, and a snapshot whose directory synchronisation fails.
\<close>

definition demo_meta :: "unit snapshot_meta" where
  "demo_meta = \<lparr>sn_last_log_id = None, sn_last_membership = \<lparr>mb_log_id = None, mb_membership = ()\<rparr>, sn_snapshot_id = ''1''\<rparr>"

definition demo_credential :: generation_credential where
  "demo_credential = \<lparr>gc_generation = 2, gc_transaction_system_id = ''b''\<rparr>"

definition demo_transaction :: "u8 \<Rightarrow> cell_transaction_command" where
  "demo_transaction n = (demo_command 0 0 [] 5)\<lparr>ct_identity := (1, ucast n), ct_credential := Some demo_credential, ct_cell_id := [n]\<rparr>"

definition demo_machine :: "unit machine_env" where
  "demo_machine =
     \<lparr>me_generation = \<lparr>ge_sha = demo_sha, ge_verify = (\<lambda>_ _ _. False), ge_json_recovery = (\<lambda>_. None), ge_json_routine = (\<lambda>_. None)\<rparr>,
      me_cell = demo_cell_env, me_parse_generation = (\<lambda>_. None), me_parse_publication = (\<lambda>_. None), me_parse_staged = (\<lambda>_. None),
      me_parse_transaction = (\<lambda>bs. Some (demo_transaction (hd bs))),
      me_parse_client = (\<lambda>bs. Some \<lparr>ccm_identity = (1, 1), ccm_credential = None, ccm_payload = bs\<rparr>),
      me_json_meta = (\<lambda>m. if m = demo_meta then Some [1] else None), me_parse_meta = (\<lambda>bs. if bs = [1] then Some demo_meta else None),
      me_json_data = (\<lambda>d. if d = machine_default () then Some [2] else None),
      me_parse_data = (\<lambda>bs. if bs = [2] then Some (machine_default ()) else None), me_snapshot_id = (\<lambda>_ _. ''1'')\<rparr>"

definition demo_log_entry :: "u64 \<Rightarrow> bytes \<Rightarrow> unit log_entry" where
  "demo_log_entry i p = \<lparr>en_log_id = \<lparr>li_term = 1, li_node_id = 1, li_index = i\<rparr>, en_payload = Normal p\<rparr>"

lemma demo_magics:
  "take 5 CLIENT_COMMAND_MAGIC = CLIENT_COMMAND_MAGIC" "length CLIENT_COMMAND_MAGIC = 5" "length TRANSACTION_COMMAND_MAGIC = 5"
  "length GENERATION_COMMAND_MAGIC = 5" "length PUBLICATION_COMMAND_MAGIC = 5" "length STAGED_COMMAND_MAGIC = 5"
  "CLIENT_COMMAND_MAGIC \<noteq> GENERATION_COMMAND_MAGIC" "CLIENT_COMMAND_MAGIC \<noteq> PUBLICATION_COMMAND_MAGIC" "CLIENT_COMMAND_MAGIC \<noteq> STAGED_COMMAND_MAGIC"
  "CLIENT_COMMAND_MAGIC \<noteq> TRANSACTION_COMMAND_MAGIC" "TRANSACTION_COMMAND_MAGIC \<noteq> GENERATION_COMMAND_MAGIC"
  "TRANSACTION_COMMAND_MAGIC \<noteq> PUBLICATION_COMMAND_MAGIC" "TRANSACTION_COMMAND_MAGIC \<noteq> STAGED_COMMAND_MAGIC"
  by (simp_all add: CLIENT_COMMAND_MAGIC_def TRANSACTION_COMMAND_MAGIC_def GENERATION_COMMAND_MAGIC_def PUBLICATION_COMMAND_MAGIC_def
      STAGED_COMMAND_MAGIC_def ascii_def)

lemma demo_client_decodes:
  "generation_decode demo_machine (CLIENT_COMMAND_MAGIC @ bs) = Ok None" "publication_decode demo_machine (CLIENT_COMMAND_MAGIC @ bs) = Ok None"
  "staged_decode demo_machine (CLIENT_COMMAND_MAGIC @ bs) = Ok None" "transaction_decode demo_machine (CLIENT_COMMAND_MAGIC @ bs) = Ok None"
  "client_decode demo_machine (CLIENT_COMMAND_MAGIC @ bs) = Ok (Some \<lparr>ccm_identity = (1, 1), ccm_credential = None, ccm_payload = bs\<rparr>)"
  by (simp_all add: generation_decode_def publication_decode_def staged_decode_def transaction_decode_def client_decode_def decode_command_def demo_magics)
     (simp add: demo_machine_def)

lemma demo_transaction_decodes:
  "generation_decode demo_machine (TRANSACTION_COMMAND_MAGIC @ [n]) = Ok None" "publication_decode demo_machine (TRANSACTION_COMMAND_MAGIC @ [n]) = Ok None"
  "staged_decode demo_machine (TRANSACTION_COMMAND_MAGIC @ [n]) = Ok None"
  "transaction_decode demo_machine (TRANSACTION_COMMAND_MAGIC @ [n]) = Ok (Some (demo_transaction n))"
  by (simp_all add: generation_decode_def publication_decode_def staged_decode_def transaction_decode_def decode_command_def demo_magics)
     (simp add: demo_machine_def)

text \<open>The first application of a request, and its repetition.\<close>

lemma demo_fresh:
  assumes "gs_phase (sm_generation_authority s) = Uninitialized" "bt_get (sm_durable_outcomes s) (1, 1) = None"
  shows "\<exists>r s'. apply_entry demo_machine (store_config_new True) (demo_log_entry i (CLIENT_COMMAND_MAGIC @ [7])) s = Some (Ok r, s') \<and>
    sm_applied_payloads s' = sm_applied_payloads s @ [[7]] \<and> bt_get (sm_durable_outcomes s') (1, 1) = Some r"
proof -
  have dedup: "so_deduplicate_requests (store_config_new True)" "so_generation_fence_faults (store_config_new True) = no_fence_faults"
    by (simp_all add: store_config_new_def)
  have open_phase: "\<not> generation_fenced no_fence_faults None (sm_generation_authority s)" using assms(1) by (simp add: generation_fenced_def)
  show ?thesis
    using assms(2) open_phase
    by (simp add: apply_entry_def demo_log_entry_def apply_payload_def demo_client_decodes respond_def apply_client_command_def apply_fenced_def
        recovered_outcome_def dedup record_outcome_def Let_def)
qed

lemma demo_repeat:
  assumes "bt_get (sm_durable_outcomes s) (1, 1) = Some r"
  shows "\<exists>r'. apply_entry demo_machine (store_config_new True) (demo_log_entry i (CLIENT_COMMAND_MAGIC @ [7])) s = Some (Ok r', advance (demo_log_entry i (CLIENT_COMMAND_MAGIC @ [7])) s)"
proof -
  have dedup: "so_deduplicate_requests (store_config_new True)" by (simp add: store_config_new_def)
  show ?thesis using assms
    by (simp add: apply_entry_def demo_log_entry_def apply_payload_def demo_client_decodes respond_def apply_client_command_def apply_fenced_def
        recovered_outcome_def dedup Let_def)
qed

text \<open>A transaction command for a cell without a domain is refused for its generation but creates the domain.\<close>

lemma demo_acts:
  assumes auth: "sm_generation_authority s = demo_authority" and new: "bt_get (sm_durable_outcomes s) (1, ucast n) = None"
    and cell: "[n] \<notin> cd_cell_id ` set (sm_cell_transactions s)"
  shows "\<exists>r s'. apply_entry demo_machine (store_config_new True) (demo_log_entry i (TRANSACTION_COMMAND_MAGIC @ [n])) s = Some (Ok r, s') \<and> acts s s' \<and>
    sm_generation_authority s' = demo_authority \<and> cd_cell_id ` set (sm_cell_transactions s') = insert [n] (cd_cell_id ` set (sm_cell_transactions s)) \<and>
    (\<forall>identity. identity \<noteq> (1, ucast n) \<longrightarrow> bt_get (sm_durable_outcomes s') identity = bt_get (sm_durable_outcomes s) identity)"
proof -
  let ?c = "demo_transaction n" and ?cells = "sm_cell_transactions s"
  let ?d = "domain_new [n] TENANT_ID 0"
  have dedup: "so_deduplicate_requests (store_config_new True)" "so_generation_fence_faults (store_config_new True) = no_fence_faults"
    by (simp_all add: store_config_new_def)
  have fields: "ct_identity ?c = (1, ucast n)" "ct_credential ?c = Some demo_credential" "ct_cell_id ?c = [n]" "ct_tenant_id ?c = TENANT_ID" "ct_generation ?c = 0"
    by (simp_all add: demo_transaction_def demo_command_def)
  have fence: "\<not> generation_fenced no_fence_faults (Some demo_credential) demo_authority"
    by (simp add: generation_fenced_def demo_credential_def demo_authority_def authorizes_def)
  have "takeWhile (\<lambda>d. \<not> (cd_cell_id d = [n] \<and> cd_tenant_id d = TENANT_ID)) ?cells = ?cells"
    using cell unfolding takeWhile_eq_all_conv by (metis imageI)
  then have loc: "locate_domain [n] TENANT_ID 0 ?cells = (length ?cells, ?cells @ [?d])" unfolding locate_domain_def by (simp only: Let_def less_irrefl if_False)
  have "admission ?c ?d = Some InvalidReadVersion" by (simp add: admission_def fields domain_new_def)
  then have run: "cell_apply demo_cell_env ?c i no_fence_faults ?cells = Some (reject ?c InvalidReadVersion ?d, ?cells @ [?d])"
    by (simp add: cell_apply_def at_domain_def fields loc apply_domain_refused)
  have env: "me_cell demo_machine = demo_cell_env" by (simp add: demo_machine_def)
  show ?thesis
    using new run fence
    by (simp add: apply_entry_def demo_log_entry_def apply_payload_def demo_transaction_decodes respond_def apply_transaction_command_def apply_fenced_def
        recovered_outcome_def dedup record_outcome_def Let_def fields auth env acts_def domain_new_def)
qed

section \<open>Witnesses\<close>

theorem requests_take_effect_once_witness:
  "\<exists>r s. apply_entries demo_machine (store_config_new True) [demo_log_entry 1 (CLIENT_COMMAND_MAGIC @ [7]), demo_log_entry 2 (CLIENT_COMMAND_MAGIC @ [7])]
     (machine_default ()) = Some (Ok [r, r], s) \<and> sm_applied_payloads s = [[7]]"
proof -
  let ?e = "\<lambda>i. demo_log_entry i (CLIENT_COMMAND_MAGIC @ [7])" and ?m = "machine_default ()"
  obtain r s where one: "apply_entry demo_machine (store_config_new True) (?e 1) ?m = Some (Ok r, s)" "sm_applied_payloads s = [[7]]"
    "bt_get (sm_durable_outcomes s) (1, 1) = Some r"
    using demo_fresh[of ?m 1] by (auto simp: machine_default_def generation_default_def)
  obtain r' where two: "apply_entry demo_machine (store_config_new True) (?e 2) s = Some (Ok r', advance (?e 2) s)"
    using demo_repeat[OF one(3), of 2] by blast
  have run: "apply_entries demo_machine (store_config_new True) [?e 1, ?e 2] ?m = Some (Ok [r, r'], advance (?e 2) s)" by (simp add: one two)
  have facts: "request_of demo_machine (CLIENT_COMMAND_MAGIC @ [7]) = Some (1, 1)" "so_deduplicate_requests (store_config_new True)"
    "en_payload (?e i) = Normal (CLIENT_COMMAND_MAGIC @ [7])" for i
    by (simp_all add: request_of_def demo_client_decodes store_config_new_def demo_log_entry_def)
  from requests_take_effect_once[of demo_machine "store_config_new True" "[]" "?e 1" "[]" "?e 2" "[]" "()" "[r, r']" "advance (?e 2) s"
      "CLIENT_COMMAND_MAGIC @ [7]" "(1, 1)" "CLIENT_COMMAND_MAGIC @ [7]"] run
  have "r' = r" by (simp add: facts del: apply_entries.simps) blast
  with run one(2) show ?thesis by (auto simp del: apply_entries.simps)
qed

theorem one_system_acts_per_generation_witness:
  "\<exists>s s1 s2 r r'. apply_entry demo_machine (store_config_new True) (demo_log_entry 1 (TRANSACTION_COMMAND_MAGIC @ [1])) s = Some (Ok r, s1) \<and> acts s s1 \<and>
     apply_entry demo_machine (store_config_new True) (demo_log_entry 2 (TRANSACTION_COMMAND_MAGIC @ [2])) s1 = Some (Ok r', s2) \<and> acts s1 s2 \<and>
     (\<exists>c. log_credential demo_machine (demo_log_entry 2 (TRANSACTION_COMMAND_MAGIC @ [2])) = Some c \<and>
        authorizes (sm_generation_authority s1) (gc_generation c) (gc_transaction_system_id c))"
proof -
  let ?e = "\<lambda>n. demo_log_entry (ucast n) (TRANSACTION_COMMAND_MAGIC @ [n])"
  define s where "s = (machine_default ())\<lparr>sm_generation_authority := demo_authority\<rparr>"
  obtain r s1 where one: "apply_entry demo_machine (store_config_new True) (demo_log_entry 1 (TRANSACTION_COMMAND_MAGIC @ [1])) s = Some (Ok r, s1)" "acts s s1"
    "sm_generation_authority s1 = demo_authority" "cd_cell_id ` set (sm_cell_transactions s1) = {[1]}" "bt_get (sm_durable_outcomes s1) (1, 2) = None"
    using demo_acts[of s 1 1] by (auto simp: s_def machine_default_def)
  obtain r' s2 where two: "apply_entry demo_machine (store_config_new True) (demo_log_entry 2 (TRANSACTION_COMMAND_MAGIC @ [2])) s1 = Some (Ok r', s2)" "acts s1 s2"
    using demo_acts[OF one(3), of 2 2] one(4,5) by auto
  from one_system_acts_per_generation[OF one(1,2) _ _ two, of "[]" "[]"] one two show ?thesis
    by (fastforce simp: s_def demo_authority_def)
qed

theorem snapshot_codec_witness:
  "\<exists>frame. encode_durable_snapshot demo_machine \<lparr>ss_meta = demo_meta, ss_data = [2]\<rparr> = Ok frame \<and>
     decode_durable_snapshot demo_machine frame = Ok \<lparr>ss_meta = demo_meta, ss_data = [2]\<rparr> \<and>
     decode_durable_snapshot demo_machine (frame @ [0]) = Err LengthMismatch"
proof -
  have env: "digest32 (cv_sha (me_cell demo_machine))" "json_faithful demo_machine"
    by (simp_all add: demo_machine_def demo_cell_env_def json_faithful_def)
  obtain frame where "encode_durable_snapshot demo_machine \<lparr>ss_meta = demo_meta, ss_data = [2]\<rparr> = Ok frame"
    by (simp add: encode_durable_snapshot_def demo_machine_def SNAPSHOT_HEADER_BYTES_def)
  with snapshot_codec[OF env this, of "[]" _ 0 "[0]"] show ?thesis by auto
qed

theorem snapshot_restores_state_witness:
  "\<exists>store' r content after. build_snapshot demo_machine PublishedUnsynced ((store_new ())\<lparr>mc_file := Some None\<rparr>) = (r, store') \<and>
     mc_file store' = Some content \<and> open_store demo_machine () (Ok content) = Ok after"
proof -
  have env: "digest32 (cv_sha (me_cell demo_machine))" "json_faithful demo_machine"
    by (simp_all add: demo_machine_def demo_cell_env_def json_faithful_def)
  let ?store = "(store_new ())\<lparr>mc_file := Some None\<rparr>"
  obtain r store' where build: "build_snapshot demo_machine PublishedUnsynced ?store = (r, store')" by (rule prod.exhaust)
  have old: "mc_file ?store = Some None" by simp
  obtain before where "open_store demo_machine () (Ok None) = Ok before" by (simp add: open_store_def load_snapshot_def)
  from snapshot_restores_state[OF env build old this] build show ?thesis by blast
qed
end
