(* ===== verification/Publication_Capability.thy ===== *)
theory Publication_Capability
  imports Cell_Staged_Safety Publication
begin

text \<open>
  The capability of the publication authority to pop a tagged log (\<open>okv-consensus/src/publication.rs\<close>): the
  signed statement of a published root and its object frontier, and its verification against pinned members.
  The JSON form of the statement is a parameter.
\<close>

record pop_capability_statement =
  pcs_format_version :: u16
  pcs_authority_cell_id :: u64
  pcs_generation :: u64
  pcs_transaction_system_id :: string
  pcs_destination_root :: string
  pcs_manifest :: object_reference
  pcs_object_frontier :: u64
  pcs_pop_epoch :: u64

record pop_capability_attestation =
  pca_signer_id :: u64
  pca_signature :: bytes

record pop_capability_certificate =
  pcc_statement :: pop_capability_statement
  pcc_attestations :: "pop_capability_attestation list"

definition PUBLICATION_POP_CAPABILITY_MAGIC :: bytes where
  "PUBLICATION_POP_CAPABILITY_MAGIC = ascii ''OKV-PUBLICATION-POP-CAPABILITY-V1'' @ [0]"

definition pop_capability_signing_bytes :: "(pop_capability_statement \<Rightarrow> bytes option) \<Rightarrow> pop_capability_statement \<Rightarrow> bytes option" where
  "pop_capability_signing_bytes json st = map_option (\<lambda>j. PUBLICATION_POP_CAPABILITY_MAGIC @ j) (json st)"

definition sign_publication_pop_capability ::
  "cell_env \<Rightarrow> (pop_capability_statement \<Rightarrow> bytes option) \<Rightarrow> u64 \<Rightarrow> bytes \<Rightarrow> pop_capability_statement \<Rightarrow> pop_capability_attestation option" where
  "sign_publication_pop_capability env json signer_id seed st =
     map_option (\<lambda>signature. \<lparr>pca_signer_id = signer_id, pca_signature = signature\<rparr>)
       (seed_sign env seed (pop_capability_signing_bytes json st))"

definition verify_publication_pop_capability ::
  "cell_env \<Rightarrow> (pop_capability_statement \<Rightarrow> bytes option) \<Rightarrow> pop_capability_certificate \<Rightarrow> (u64, bytes) btree \<Rightarrow> u16 \<Rightarrow> bool" where
  "verify_publication_pop_capability env json c members quorum =
     (let st = pcc_statement c in
      if pcs_format_version st \<noteq> 1 \<or> pcs_authority_cell_id st = 0 \<or> pcs_generation st = 0 \<or> pcs_transaction_system_id st = []
        \<or> pcs_destination_root st = [] \<or> or_key (pcs_manifest st) = [] \<or> or_sha256 (pcs_manifest st) = []
        \<or> pcs_object_frontier st = 0 \<or> pcs_pop_epoch st = 0 \<or> quorum = 0
      then False
      else case pop_capability_signing_bytes json st of
        None \<Rightarrow> False
      | Some bs \<Rightarrow>
          quorum_reached quorum (verify_signers env members pca_signer_id (\<lambda>_. True) (\<lambda>_. Some bs) pca_signature (pcc_attestations c) {}))"

text \<open>A pop capability carries a quorum: what verifies has a nonzero frontier and epoch, and valid signatures over exactly its
  statement by distinct pinned members, as many as the quorum.\<close>

theorem pop_capability_has_quorum:
  assumes "verify_publication_pop_capability env json c members quorum"
  shows "\<exists>bs. pop_capability_signing_bytes json (pcc_statement c) = Some bs \<and> 0 < unat quorum \<and> unat quorum \<le> length (pcc_attestations c) \<and>
    distinct (map pca_signer_id (pcc_attestations c)) \<and> pcs_object_frontier (pcc_statement c) \<noteq> 0 \<and> pcs_pop_epoch (pcc_statement c) \<noteq> 0 \<and>
    (\<forall>a \<in> set (pcc_attestations c). \<exists>key. bt_get members (pca_signer_id a) = Some key \<and> cv_verify env key bs (pca_signature a))"
proof -
  obtain bs where bs: "pop_capability_signing_bytes json (pcc_statement c) = Some bs"
    "quorum_reached quorum (verify_signers env members pca_signer_id (\<lambda>_. True) (\<lambda>_. Some bs) pca_signature (pcc_attestations c) {})"
    and ok: "quorum \<noteq> 0" "pcs_object_frontier (pcc_statement c) \<noteq> 0" "pcs_pop_epoch (pcc_statement c) \<noteq> 0"
    using assms by (auto simp: verify_publication_pop_capability_def Let_def split: if_split_asm option.split_asm)
  from quorum_signers[OF bs(2)] bs(1) ok show ?thesis by (auto simp: unat_gt_0)
qed
end
