(* ===== verification/Resolver.thy ===== *)
theory Resolver
  imports Cell_Feed
begin

text \<open>
  The resolver process (\<open>okv-consensus/src/partitioned_resolver.rs\<close>): it owns one partition of the key space, decides
  whether a transaction conflicts there and signs the decision. A durable resolver keeps its state in a file replaced
  before every answer, and holds one decision open until it is finalised. A memory-only resolver keeps nothing; it
  takes accepted writes as committed at once, and its replacement refuses reads below a recovery floor. The
  map from candidates to file outcomes stands for the file system, one write per candidate.
\<close>

section \<open>State and messages\<close>

record resolver_config =
  rc_resolver_id :: u16
  rc_cell_id :: bytes
  rc_tenant_id :: bytes
  rc_map_epoch :: u64
  rc_transaction_system_generation :: u64
  rc_minimum_read_sequence :: u64
  rc_memory_only :: bool
  rc_acknowledge_before_durable :: bool
  rc_allow_map_epoch_override :: bool

record resolver_prepare =
  rq_cell_id :: bytes
  rq_tenant_id :: bytes
  rq_generation :: u64
  rq_map_epoch :: u64
  rq_transaction_identity :: request_identity
  rq_candidate_sequence :: u64
  rq_read_version :: cell_read_version
  rq_resolver_read_sequence :: u64
  rq_transaction_sha256 :: bytes
  rq_read_conflicts :: "cell_key_range list"
  rq_write_conflicts :: "cell_key_range list"

record resolver_finalize =
  rf_candidate_sequence :: u64
  rf_transaction_sha256 :: bytes
  rf_global_status :: cell_transaction_status
  rf_commit_sequence :: "u64 option"

datatype resolver_request =
    ResolverPrepare resolver_prepare
  | ResolverPrepareBatch "resolver_prepare list"
  | ResolverFinalize resolver_finalize
  | ResolverStatus

record resolver_status =
  rt_resolver_id :: u16
  rt_prepared :: u64
  rt_finalized :: u64
  rt_committed_writes :: u64
  rt_transaction_system_generation :: u64
  rt_minimum_read_sequence :: u64
  rt_memory_only :: bool

datatype resolver_response =
    Prepared cell_resolver_decision_attestation
  | PreparedBatch "cell_resolver_decision_attestation list"
  | Finalized
  | StatusOf resolver_status

datatype resolver_error =
    AbsentFromMap | WrongBaseEpoch | ZeroGeneration | ResolverIo | StateNotDecoded | PrepareInvalid | OutsideOwnedRange | NotSigned
  | CandidateReused | NoGlobalDisposition | CandidateNotAdvanced | BatchEmpty | MemoryOnlyFinalize | FinalizeAbsent
  | FinalizeDigestDiffers | CommittedHadConflict | CommitSequenceOmitted | ConflictWithSequence | FinalizeStatusInvalid
  | CallFailed | WrongResponse | MissingPartition | DigestFailed | AuthorityFailed | AuthorityDiffers

record resolver_prepared =
  pr_statement :: cell_resolver_decision_statement
  pr_finalized :: bool

record resolver_state =
  rs_last_candidate :: u64
  rs_prepared :: "(u64, resolver_prepared) btree"
  rs_committed_writes :: "committed_write list"

definition resolver_state_default :: resolver_state where
  "resolver_state_default = \<lparr>rs_last_candidate = 0, rs_prepared = [], rs_committed_writes = []\<rparr>"

text \<open>The JSON of the state file is a parameter. A process is its state in memory and its state file.\<close>

record resolver_env =
  rv_cell :: cell_env
  rv_json_state :: "resolver_state \<Rightarrow> bytes option"
  rv_parse_state :: "bytes \<Rightarrow> resolver_state option"

record resolver_process =
  ro_state :: resolver_state
  ro_file :: "bytes option"

record resolver_node =
  rn_config :: resolver_config
  rn_partition :: cell_resolver_partition
  rn_process :: resolver_process

section \<open>The state file\<close>

text \<open>\<open>fs::read\<close> of the state path is the argument: an error, no file, or its content.\<close>

definition load_resolver_state :: "resolver_env \<Rightarrow> (bytes option, unit) result \<Rightarrow> (resolver_state, resolver_error) result" where
  "load_resolver_state env content =
     (case content of
        Err _ \<Rightarrow> Err ResolverIo
      | Ok None \<Rightarrow> Ok resolver_state_default
      | Ok (Some bs) \<Rightarrow> (case rv_parse_state env bs of None \<Rightarrow> Err StateNotDecoded | Some state \<Rightarrow> Ok state))"

definition persist_resolver_state ::
  "resolver_env \<Rightarrow> publish_outcome \<Rightarrow> resolver_process \<Rightarrow> (unit, resolver_error) result \<times> resolver_process" where
  "persist_resolver_state env disk p =
     (case rv_json_state env (ro_state p) of
        None \<Rightarrow> (Err ResolverIo, p)
      | Some bs \<Rightarrow>
          (case replace_file disk bs (ro_file p) of
             (Err _, content) \<Rightarrow> (Err ResolverIo, p\<lparr>ro_file := content\<rparr>)
           | (Ok _, content) \<Rightarrow> (Ok (), p\<lparr>ro_file := content\<rparr>)))"

definition resolver_start ::
  "resolver_env \<Rightarrow> resolver_config \<Rightarrow> (bytes option, unit) result \<Rightarrow> (resolver_node, resolver_error) result" where
  "resolver_start env config content =
     (case find (\<lambda>part. rp_resolver_id part = rc_resolver_id config) cell_resolver_partitions of
        None \<Rightarrow> Err AbsentFromMap
      | Some part \<Rightarrow>
          if rc_map_epoch config \<noteq> 1 then Err WrongBaseEpoch
          else if rc_transaction_system_generation config = 0 then Err ZeroGeneration
          else try_bind (if rc_memory_only config then Ok resolver_state_default else load_resolver_state env content) (\<lambda>state.
            Ok \<lparr>rn_config = config, rn_partition = part,
                rn_process = \<lparr>ro_state = state, ro_file = (case content of Ok f \<Rightarrow> f | Err _ \<Rightarrow> None)\<rparr>\<rparr>))"

section \<open>Requests\<close>

definition same_prepare :: "cell_resolver_decision_statement \<Rightarrow> resolver_prepare \<Rightarrow> bool" where
  "same_prepare st req \<longleftrightarrow>
     ds_cell_id st = rq_cell_id req \<and> ds_tenant_id st = rq_tenant_id req \<and> ds_generation st = rq_generation req
     \<and> ds_map_epoch st = rq_map_epoch req \<and> ds_transaction_identity st = rq_transaction_identity req
     \<and> ds_candidate_sequence st = rq_candidate_sequence req \<and> ds_read_version st = rq_read_version req
     \<and> ds_resolver_read_sequence st = rq_resolver_read_sequence req \<and> ds_transaction_sha256 st = rq_transaction_sha256 req
     \<and> ds_read_conflicts st = rq_read_conflicts req \<and> ds_write_conflicts st = rq_write_conflicts req"

definition canonical_prepare :: "resolver_prepare \<Rightarrow> resolver_prepare" where
  "canonical_prepare req = req\<lparr>rq_read_conflicts := sort_dedup (rq_read_conflicts req), rq_write_conflicts := sort_dedup (rq_write_conflicts req)\<rparr>"

definition prepare_valid :: "resolver_config \<Rightarrow> resolver_prepare \<Rightarrow> bool" where
  "prepare_valid config req \<longleftrightarrow>
     (rq_map_epoch req = rc_map_epoch config \<or> rc_allow_map_epoch_override config \<and> rq_map_epoch req = 2)
     \<and> rq_cell_id req = rc_cell_id config \<and> rq_tenant_id req = rc_tenant_id config
     \<and> rq_generation req = rc_transaction_system_generation config \<and> rq_candidate_sequence req \<noteq> 0
     \<and> \<not> rq_resolver_read_sequence req < rc_minimum_read_sequence config
     \<and> \<not> list_ex (\<lambda>range. \<not> range_valid range) (rq_read_conflicts req)
     \<and> \<not> list_ex (\<lambda>range. \<not> range_valid range) (rq_write_conflicts req)"

definition outside_owned :: "cell_resolver_partition \<Rightarrow> cell_key_range \<Rightarrow> bool" where
  "outside_owned part r \<longleftrightarrow>
     (let owned = CellKeyRange (rp_start part) (rp_end part) in
      \<not> range_overlaps r owned \<or> kr_start r < kr_start owned \<or> kr_end r > kr_end owned)"

definition resolver_decision :: "committed_write list \<Rightarrow> u64 \<Rightarrow> cell_key_range list \<Rightarrow> cell_resolver_decision" where
  "resolver_decision ws read_sequence reads =
     (if list_ex (\<lambda>read. list_ex (\<lambda>w. cw_sequence w > read_sequence \<and> range_overlaps read (cw_range w)) ws) reads
      then Conflict else Accept)"

definition prepare_statement :: "resolver_config \<Rightarrow> bytes \<Rightarrow> resolver_prepare \<Rightarrow> cell_resolver_decision \<Rightarrow> cell_resolver_decision_statement" where
  "prepare_statement config map_sha req decision =
     \<lparr>ds_format_version = 1, ds_cell_id = rq_cell_id req, ds_tenant_id = rq_tenant_id req, ds_generation = rq_generation req,
      ds_map_epoch = rq_map_epoch req, ds_map_sha256 = map_sha, ds_resolver_id = rc_resolver_id config,
      ds_resolver_incarnation = cell_resolver_incarnation (rc_resolver_id config),
      ds_transaction_identity = rq_transaction_identity req, ds_candidate_sequence = rq_candidate_sequence req,
      ds_read_version = rq_read_version req, ds_resolver_read_sequence = rq_resolver_read_sequence req,
      ds_transaction_sha256 = rq_transaction_sha256 req, ds_read_conflicts = rq_read_conflicts req,
      ds_write_conflicts = rq_write_conflicts req, ds_decision = decision\<rparr>"

definition writes_at :: "u64 \<Rightarrow> cell_key_range list \<Rightarrow> committed_write list" where
  "writes_at seq ranges = map (\<lambda>range. \<lparr>cw_sequence = seq, cw_range = range\<rparr>) ranges"

text \<open>What a new decision does to the state in memory, by durability mode.\<close>

definition record_decision :: "resolver_config \<Rightarrow> cell_resolver_decision_statement \<Rightarrow> resolver_state \<Rightarrow> resolver_state" where
  "record_decision config st s =
     (let s = s\<lparr>rs_last_candidate := ds_candidate_sequence st\<rparr>;
          s = (if rc_memory_only config \<and> ds_decision st = Accept
               then s\<lparr>rs_committed_writes := rs_committed_writes s @ writes_at (ds_candidate_sequence st) (ds_write_conflicts st)\<rparr> else s) in
      s\<lparr>rs_prepared := bt_insert (ds_candidate_sequence st) \<lparr>pr_statement = st, pr_finalized = rc_memory_only config\<rparr> (rs_prepared s)\<rparr>)"

text \<open>The outer option is the panic of the partition map digest.\<close>

definition apply_prepare ::
  "resolver_env \<Rightarrow> resolver_config \<Rightarrow> cell_resolver_partition \<Rightarrow> (u64 \<Rightarrow> publish_outcome) \<Rightarrow> resolver_prepare \<Rightarrow> resolver_process \<Rightarrow>
     ((cell_resolver_decision_attestation, resolver_error) result \<times> resolver_process) option" where
  "apply_prepare env config part disk request p =
     (let req = canonical_prepare request; s = ro_state p in
      if \<not> prepare_valid config req then Some (Err PrepareInvalid, p)
      else if list_ex (outside_owned part) (rq_read_conflicts req @ rq_write_conflicts req) then Some (Err OutsideOwnedRange, p)
      else case bt_get (rs_prepared s) (rq_candidate_sequence req) of
        Some existing \<Rightarrow>
          if same_prepare (pr_statement existing) req
          then Some (case sign_cell_resolver_decision (rv_cell env) (pr_statement existing) of
                       None \<Rightarrow> (Err NotSigned, p) | Some a \<Rightarrow> (Ok a, p))
          else Some (Err CandidateReused, p)
      | None \<Rightarrow>
          if \<not> rc_memory_only config \<and> list_ex (\<lambda>x. \<not> pr_finalized x) (bt_values (rs_prepared s)) then Some (Err NoGlobalDisposition, p)
          else if rq_candidate_sequence req \<le> rs_last_candidate s then Some (Err CandidateNotAdvanced, p)
          else case cell_resolver_map_sha256 (rv_cell env) of
            None \<Rightarrow> None
          | Some map_sha \<Rightarrow>
              let st = prepare_statement config map_sha req
                         (resolver_decision (rs_committed_writes s) (rq_resolver_read_sequence req) (rq_read_conflicts req)) in
              case sign_cell_resolver_decision (rv_cell env) st of
                None \<Rightarrow> Some (Err NotSigned, p)
              | Some a \<Rightarrow>
                  let p' = p\<lparr>ro_state := record_decision config st s\<rparr> in
                  if rc_memory_only config then Some (Ok a, p')
                  else if rc_acknowledge_before_durable config then Some (Ok a, p)
                  else case persist_resolver_state env (disk (rq_candidate_sequence req)) p' of
                    (Err e, p') \<Rightarrow> Some (Err e, p')
                  | (Ok _, p') \<Rightarrow> Some (Ok a, p'))"

fun apply_batch ::
  "resolver_env \<Rightarrow> resolver_config \<Rightarrow> cell_resolver_partition \<Rightarrow> (u64 \<Rightarrow> publish_outcome) \<Rightarrow> resolver_prepare list \<Rightarrow> resolver_process \<Rightarrow>
     ((cell_resolver_decision_attestation list, resolver_error) result \<times> resolver_process) option" where
  "apply_batch env config part disk [] p = Some (Ok [], p)"
| "apply_batch env config part disk (req # reqs) p =
     (case apply_prepare env config part disk req p of
        None \<Rightarrow> None
      | Some (Err e, p) \<Rightarrow> Some (Err e, p)
      | Some (Ok a, p) \<Rightarrow>
          (case apply_batch env config part disk reqs p of
             None \<Rightarrow> None
           | Some (Err e, p) \<Rightarrow> Some (Err e, p)
           | Some (Ok as, p) \<Rightarrow> Some (Ok (a # as), p)))"

text \<open>What the global outcome adds to the committed writes of the prepared decision.\<close>

definition finalize_writes :: "resolver_finalize \<Rightarrow> cell_resolver_decision_statement \<Rightarrow> (committed_write list, resolver_error) result" where
  "finalize_writes req st =
     (case rf_global_status req of
        Committed \<Rightarrow>
          if ds_decision st \<noteq> Accept then Err CommittedHadConflict
          else (case rf_commit_sequence req of
                  None \<Rightarrow> Err CommitSequenceOmitted
                | Some seq \<Rightarrow> Ok (writes_at seq (ds_write_conflicts st)))
      | TxConflict \<Rightarrow> if rf_commit_sequence req \<noteq> None then Err ConflictWithSequence else Ok []
      | _ \<Rightarrow> Err FinalizeStatusInvalid)"

definition apply_finalize ::
  "resolver_env \<Rightarrow> resolver_config \<Rightarrow> (u64 \<Rightarrow> publish_outcome) \<Rightarrow> resolver_finalize \<Rightarrow> resolver_process \<Rightarrow>
     (unit, resolver_error) result \<times> resolver_process" where
  "apply_finalize env config disk req p =
     (let s = ro_state p in
      if rc_memory_only config then (Err MemoryOnlyFinalize, p)
      else case bt_get (rs_prepared s) (rf_candidate_sequence req) of
        None \<Rightarrow> (Err FinalizeAbsent, p)
      | Some x \<Rightarrow>
          if ds_transaction_sha256 (pr_statement x) \<noteq> rf_transaction_sha256 req then (Err FinalizeDigestDiffers, p)
          else if pr_finalized x then (Ok (), p)
          else case finalize_writes req (pr_statement x) of
            Err e \<Rightarrow> (Err e, p)
          | Ok ws \<Rightarrow>
              persist_resolver_state env (disk (rf_candidate_sequence req))
                (p\<lparr>ro_state := s\<lparr>rs_committed_writes := rs_committed_writes s @ ws,
                                 rs_prepared := bt_insert (rf_candidate_sequence req) (x\<lparr>pr_finalized := True\<rparr>) (rs_prepared s)\<rparr>\<rparr>))"

definition resolver_status_of :: "resolver_config \<Rightarrow> resolver_state \<Rightarrow> resolver_status" where
  "resolver_status_of config s =
     \<lparr>rt_resolver_id = rc_resolver_id config, rt_prepared = word_of_nat (length (rs_prepared s)),
      rt_finalized = word_of_nat (length (filter pr_finalized (bt_values (rs_prepared s)))),
      rt_committed_writes = word_of_nat (length (rs_committed_writes s)),
      rt_transaction_system_generation = rc_transaction_system_generation config,
      rt_minimum_read_sequence = rc_minimum_read_sequence config, rt_memory_only = rc_memory_only config\<rparr>"

fun apply_resolver_request ::
  "resolver_env \<Rightarrow> resolver_config \<Rightarrow> cell_resolver_partition \<Rightarrow> (u64 \<Rightarrow> publish_outcome) \<Rightarrow> resolver_request \<Rightarrow> resolver_process \<Rightarrow>
     ((resolver_response, resolver_error) result \<times> resolver_process) option" where
  "apply_resolver_request env config part disk ResolverStatus p = Some (Ok (StatusOf (resolver_status_of config (ro_state p))), p)"
| "apply_resolver_request env config part disk (ResolverPrepare req) p =
     map_option (\<lambda>(r, p). (case r of Err e \<Rightarrow> Err e | Ok a \<Rightarrow> Ok (Prepared a), p)) (apply_prepare env config part disk req p)"
| "apply_resolver_request env config part disk (ResolverPrepareBatch reqs) p =
     (if reqs = [] then Some (Err BatchEmpty, p)
      else map_option (\<lambda>(r, p). (case r of Err e \<Rightarrow> Err e | Ok as \<Rightarrow> Ok (PreparedBatch as), p)) (apply_batch env config part disk reqs p))"
| "apply_resolver_request env config part disk (ResolverFinalize req) p =
     (case apply_finalize env config disk req p of
        (Err e, p) \<Rightarrow> Some (Err e, p)
      | (Ok _, p) \<Rightarrow> Some (Ok Finalized, p))"

section \<open>Building requests\<close>

definition clip_ranges :: "cell_key_range list \<Rightarrow> bytes \<Rightarrow> bytes \<Rightarrow> cell_key_range list" where
  "clip_ranges ranges start end_key =
     (let owned = CellKeyRange start end_key in
      sort_dedup (map (\<lambda>range. CellKeyRange (max (kr_start range) (kr_start owned)) (min (kr_end range) (kr_end owned)))
        (filter (\<lambda>range. range_overlaps range owned) ranges)))"

definition required_resolvers :: "cell_transaction_command \<Rightarrow> u16 list" where
  "required_resolvers c =
     map rp_resolver_id (filter (\<lambda>part.
       let owned = CellKeyRange (rp_start part) (rp_end part) in
       list_ex (\<lambda>range. range_overlaps range owned) (ct_read_conflicts c @ ct_write_conflicts c)) cell_resolver_partitions)"

definition build_resolver_prepare ::
  "resolver_env \<Rightarrow> u16 \<Rightarrow> cell_transaction_command \<Rightarrow> u64 \<Rightarrow> u64 \<Rightarrow> u64 \<Rightarrow> u64 \<Rightarrow> (resolver_prepare, resolver_error) result" where
  "build_resolver_prepare env resolver_id c candidate map_epoch system_generation read_sequence =
     (case find (\<lambda>part. rp_resolver_id part = resolver_id) cell_resolver_partitions of
        None \<Rightarrow> Err MissingPartition
      | Some part \<Rightarrow>
          (case cell_partitioned_transaction_sha256 (rv_cell env) c of
             None \<Rightarrow> Err DigestFailed
           | Some sha \<Rightarrow>
               Ok \<lparr>rq_cell_id = ct_cell_id c, rq_tenant_id = ct_tenant_id c, rq_generation = system_generation, rq_map_epoch = map_epoch,
                   rq_transaction_identity = ct_identity c, rq_candidate_sequence = candidate, rq_read_version = ct_read_version c,
                   rq_resolver_read_sequence = read_sequence, rq_transaction_sha256 = sha,
                   rq_read_conflicts = clip_ranges (ct_read_conflicts c) (rp_start part) (rp_end part),
                   rq_write_conflicts = clip_ranges (ct_write_conflicts c) (rp_start part) (rp_end part)\<rparr>))"

section \<open>The centralised oracle\<close>

record resolver_oracle =
  oc_latest_sequence :: u64
  oc_rows :: "(bytes, bytes) btree"
  oc_writes :: "committed_write list"
  oc_committed :: u64
  oc_conflicts :: u64

definition resolver_oracle_default :: resolver_oracle where
  "resolver_oracle_default = \<lparr>oc_latest_sequence = 0, oc_rows = [], oc_writes = [], oc_committed = 0, oc_conflicts = 0\<rparr>"

definition oracle_decision_at :: "resolver_oracle \<Rightarrow> cell_transaction_command \<Rightarrow> u64 \<Rightarrow> cell_transaction_status" where
  "oracle_decision_at oracle c read_sequence =
     (if list_ex (\<lambda>read. list_ex (\<lambda>w. cw_sequence w > read_sequence \<and> range_overlaps read (cw_range w)) (oc_writes oracle)) (ct_read_conflicts c)
      then TxConflict else Committed)"

definition oracle_decision :: "resolver_oracle \<Rightarrow> cell_transaction_command \<Rightarrow> cell_transaction_status" where
  "oracle_decision oracle c =
     (if list_ex (\<lambda>read. list_ex (\<lambda>w. cw_sequence w > crv_sequence (ct_read_version c) \<and> range_overlaps read (cw_range w))
           (oc_writes oracle)) (ct_read_conflicts c)
      then TxConflict else Committed)"

text \<open>The option is the panic of a committed response without a sequence.\<close>

definition resolver_oracle_apply :: "cell_transaction_command \<Rightarrow> cell_transaction_status \<Rightarrow> u64 option \<Rightarrow> resolver_oracle \<Rightarrow> resolver_oracle option" where
  "resolver_oracle_apply c status seq_opt oracle =
     (case status of
        Committed \<Rightarrow>
          (case seq_opt of
             None \<Rightarrow> None
           | Some seq \<Rightarrow>
               Some (oracle\<lparr>oc_rows := fold apply_cell_mutation (ct_mutations c) (oc_rows oracle),
                            oc_writes := oc_writes oracle @ writes_at seq (ct_write_conflicts c),
                            oc_latest_sequence := seq, oc_committed := oc_committed oracle + 1\<rparr>))
      | TxConflict \<Rightarrow> Some (oracle\<lparr>oc_conflicts := oc_conflicts oracle + 1\<rparr>)
      | _ \<Rightarrow> Some oracle)"
end
