(* ===== verification/Stateless_Resolvers.thy ===== *)
theory Stateless_Resolvers
  imports Resolver
begin

text \<open>
  A set of memory-only resolver processes, the batches resolved by them and committed through the authority, and their
  replacement after a recovery (\<open>StatelessRecoveryScenario\<close> of \<open>okv-consensus/src/partitioned_resolver.rs\<close>). The
  central theorem is what the scenario observes: a transaction that all its resolvers accept is one that a single
  resolver with the whole history accepts.

  A call fails before the resolver sees it, or after, or is answered. The authority is a parameter, a function of the
  command with its evidence. Counters of the report wrap.
\<close>

section \<open>Calls\<close>

type_synonym resolver_nodes = "(u16, resolver_node) btree"

datatype call_outcome = RequestLost | ResponseLost | Delivered

text \<open>A resolver that panics is gone, and the caller sees its connection fail.\<close>

definition resolver_call ::
  "resolver_env \<Rightarrow> call_outcome \<Rightarrow> u16 \<Rightarrow> resolver_request \<Rightarrow> resolver_nodes \<Rightarrow> (resolver_response, resolver_error) result \<times> resolver_nodes" where
  "resolver_call env net resolver_id req nodes =
     (case bt_get nodes resolver_id of
        None \<Rightarrow> (Err CallFailed, nodes)
      | Some n \<Rightarrow>
          if net = RequestLost then (Err CallFailed, nodes)
          else case apply_resolver_request env (rn_config n) (rn_partition n) (\<lambda>_. PublishedSynced) req (rn_process n) of
            None \<Rightarrow> (Err CallFailed, bt_remove resolver_id nodes)
          | Some (r, p) \<Rightarrow> (if net = ResponseLost then Err CallFailed else r, bt_insert resolver_id (n\<lparr>rn_process := p\<rparr>) nodes))"

definition prepare_one ::
  "resolver_env \<Rightarrow> call_outcome \<Rightarrow> u16 \<Rightarrow> cell_transaction_command \<Rightarrow> u64 \<Rightarrow> u64 \<Rightarrow> u64 \<Rightarrow> resolver_nodes \<Rightarrow>
     (cell_resolver_decision_attestation, resolver_error) result \<times> resolver_nodes" where
  "prepare_one env net resolver_id c candidate system_generation read_sequence nodes =
     (case build_resolver_prepare env resolver_id c candidate 1 system_generation read_sequence of
        Err e \<Rightarrow> (Err e, nodes)
      | Ok req \<Rightarrow>
          (case resolver_call env net resolver_id (ResolverPrepare req) nodes of
             (Err e, nodes) \<Rightarrow> (Err e, nodes)
           | (Ok (Prepared a), nodes) \<Rightarrow> (Ok a, nodes)
           | (Ok _, nodes) \<Rightarrow> (Err WrongResponse, nodes)))"

definition prepare_batch ::
  "resolver_env \<Rightarrow> call_outcome \<Rightarrow> u16 \<Rightarrow> resolver_prepare list \<Rightarrow> resolver_nodes \<Rightarrow>
     (cell_resolver_decision_attestation list, resolver_error) result \<times> resolver_nodes" where
  "prepare_batch env net resolver_id reqs nodes =
     (case resolver_call env net resolver_id (ResolverPrepareBatch reqs) nodes of
        (Err e, nodes) \<Rightarrow> (Err e, nodes)
      | (Ok (PreparedBatch as), nodes) \<Rightarrow> (Ok as, nodes)
      | (Ok _, nodes) \<Rightarrow> (Err WrongResponse, nodes))"

text \<open>One transaction at the named resolvers, one call after the other; the first error ends the loop.\<close>

fun resolve_each ::
  "resolver_env \<Rightarrow> (u16 \<Rightarrow> call_outcome) \<Rightarrow> cell_transaction_command \<Rightarrow> u64 \<Rightarrow> u64 \<Rightarrow> u64 \<Rightarrow> u16 list \<Rightarrow> resolver_nodes \<Rightarrow>
     (cell_resolver_decision_attestation list, resolver_error) result \<times> resolver_nodes" where
  "resolve_each env net c candidate system_generation read_sequence [] nodes = (Ok [], nodes)"
| "resolve_each env net c candidate system_generation read_sequence (resolver_id # ids) nodes =
     (case prepare_one env (net resolver_id) resolver_id c candidate system_generation read_sequence nodes of
        (Err e, nodes) \<Rightarrow> (Err e, nodes)
      | (Ok a, nodes) \<Rightarrow>
          (case resolve_each env net c candidate system_generation read_sequence ids nodes of
             (Err e, nodes) \<Rightarrow> (Err e, nodes)
           | (Ok as, nodes) \<Rightarrow> (Ok (a # as), nodes)))"

definition resolve_on ::
  "resolver_env \<Rightarrow> (u16 \<Rightarrow> call_outcome) \<Rightarrow> cell_transaction_command \<Rightarrow> u64 \<Rightarrow> u64 \<Rightarrow> u64 \<Rightarrow> u16 list \<Rightarrow> resolver_nodes \<Rightarrow>
     (cell_resolver_decision_attestation list, resolver_error) result \<times> resolver_nodes" where
  "resolve_on env net c candidate system_generation read_sequence ids nodes =
     (case resolve_each env net c candidate system_generation read_sequence ids nodes of
        (Err e, nodes) \<Rightarrow> (Err e, nodes)
      | (Ok as, nodes) \<Rightarrow> (Ok (sort_key (\<lambda>a. ds_resolver_id (da_statement a)) as), nodes))"

definition resolve_all ::
  "resolver_env \<Rightarrow> (u16 \<Rightarrow> call_outcome) \<Rightarrow> cell_transaction_command \<Rightarrow> u64 \<Rightarrow> u64 \<Rightarrow> u64 \<Rightarrow> resolver_nodes \<Rightarrow>
     (cell_resolver_decision_attestation list, resolver_error) result \<times> resolver_nodes" where
  "resolve_all env net c candidate system_generation read_sequence nodes =
     resolve_on env net c candidate system_generation read_sequence (required_resolvers c) nodes"

fun state_is_empty_at_floor ::
  "resolver_env \<Rightarrow> (u16 \<Rightarrow> call_outcome) \<Rightarrow> u64 \<Rightarrow> u64 \<Rightarrow> u16 list \<Rightarrow> resolver_nodes \<Rightarrow> (bool, resolver_error) result" where
  "state_is_empty_at_floor env net system_generation floor [] nodes = Ok True"
| "state_is_empty_at_floor env net system_generation floor (resolver_id # ids) nodes =
     (case resolver_call env (net resolver_id) resolver_id ResolverStatus nodes of
        (Err e, _) \<Rightarrow> Err e
      | (Ok (StatusOf status), nodes) \<Rightarrow>
          if rt_prepared status = 0 \<and> rt_committed_writes status = 0 \<and> rt_finalized status = 0 \<and> rt_memory_only status
             \<and> rt_transaction_system_generation status = system_generation \<and> rt_minimum_read_sequence status = floor
          then state_is_empty_at_floor env net system_generation floor ids nodes else Ok False
      | (Ok _, _) \<Rightarrow> Ok False)"

section \<open>Starting and stopping\<close>

definition stateless_config :: "u64 \<Rightarrow> u64 \<Rightarrow> u16 \<Rightarrow> resolver_config" where
  "stateless_config system_generation floor resolver_id =
     \<lparr>rc_resolver_id = resolver_id, rc_cell_id = CELL_ID, rc_tenant_id = TENANT_ID, rc_map_epoch = 1,
      rc_transaction_system_generation = system_generation, rc_minimum_read_sequence = floor, rc_memory_only = True,
      rc_acknowledge_before_durable = False, rc_allow_map_epoch_override = False\<rparr>"

definition start_resolvers :: "resolver_env \<Rightarrow> u64 \<Rightarrow> u64 \<Rightarrow> resolver_nodes \<Rightarrow> resolver_nodes" where
  "start_resolvers env system_generation floor nodes =
     fold (\<lambda>resolver_id nodes.
       case resolver_start env (stateless_config system_generation floor resolver_id) (Ok None) of
         Err _ \<Rightarrow> bt_remove resolver_id nodes
       | Ok n \<Rightarrow> bt_insert resolver_id n nodes) [1, 2, 3] nodes"

definition stop_resolver :: "u16 \<Rightarrow> resolver_nodes \<Rightarrow> resolver_nodes" where
  "stop_resolver resolver_id nodes = bt_remove resolver_id nodes"

definition stop_all_resolvers :: "resolver_nodes \<Rightarrow> resolver_nodes" where
  "stop_all_resolvers nodes = fold stop_resolver (map fst nodes) nodes"

section \<open>Batches\<close>

record pending_transaction =
  pg_command :: cell_transaction_command
  pg_candidate :: u64
  pg_resolver_read_sequence :: u64

record stateless_observations =
  so_attempted :: u64
  so_decisions :: u64
  so_batches :: u64
  so_safe_false_conflicts :: u64
  so_recovery_floor :: u64
  so_commit_subset :: bool
  so_central_conflicts_rejected :: bool
  so_complete_agreement :: bool
  so_successor_reads_at_floor :: bool

definition observations_default :: stateless_observations where
  "observations_default =
     \<lparr>so_attempted = 0, so_decisions = 0, so_batches = 0, so_safe_false_conflicts = 0, so_recovery_floor = 0,
      so_commit_subset = True, so_central_conflicts_rejected = True, so_complete_agreement = True, so_successor_reads_at_floor = True\<rparr>"

type_synonym decisions = "(u64, cell_resolver_decision_attestation list) btree"

fun batch_requests :: "resolver_env \<Rightarrow> u64 \<Rightarrow> u16 \<Rightarrow> pending_transaction list \<Rightarrow> (resolver_prepare list, resolver_error) result" where
  "batch_requests env system_generation resolver_id [] = Ok []"
| "batch_requests env system_generation resolver_id (t # ts) =
     (if resolver_id \<in> set (required_resolvers (pg_command t))
      then try_bind (build_resolver_prepare env resolver_id (pg_command t) (pg_candidate t) 1 system_generation (pg_resolver_read_sequence t))
             (\<lambda>req. try_bind (batch_requests env system_generation resolver_id ts) (\<lambda>reqs. Ok (req # reqs)))
      else batch_requests env system_generation resolver_id ts)"

definition collect_decisions :: "cell_resolver_decision_attestation list \<Rightarrow> decisions \<Rightarrow> decisions" where
  "collect_decisions as m = fold (\<lambda>a. bt_push (ds_candidate_sequence (da_statement a)) a) as m"

text \<open>The first loop: every resolver decides its part of the batch.\<close>

fun resolve_batch ::
  "resolver_env \<Rightarrow> (u16 \<Rightarrow> call_outcome) \<Rightarrow> u64 \<Rightarrow> pending_transaction list \<Rightarrow> u16 list \<Rightarrow> stateless_observations \<Rightarrow> resolver_nodes \<Rightarrow> decisions \<Rightarrow>
     (decisions, resolver_error) result \<times> stateless_observations \<times> resolver_nodes" where
  "resolve_batch env net system_generation batch [] obs nodes m = (Ok m, obs, nodes)"
| "resolve_batch env net system_generation batch (resolver_id # ids) obs nodes m =
     (case batch_requests env system_generation resolver_id batch of
        Err e \<Rightarrow> (Err e, obs, nodes)
      | Ok reqs \<Rightarrow>
          if reqs = [] then resolve_batch env net system_generation batch ids obs nodes m
          else case prepare_batch env (net resolver_id) resolver_id reqs nodes of
            (Err e, nodes) \<Rightarrow> (Err e, obs, nodes)
          | (Ok as, nodes) \<Rightarrow>
              resolve_batch env net system_generation batch ids (obs\<lparr>so_decisions := so_decisions obs + word_of_nat (length as)\<rparr>) nodes
                (collect_decisions as m))"

definition taken_decisions :: "decisions \<Rightarrow> u64 \<Rightarrow> cell_resolver_decision_attestation list" where
  "taken_decisions m candidate =
     sort_key (\<lambda>a. ds_resolver_id (da_statement a)) (case bt_get m candidate of None \<Rightarrow> [] | Some as \<Rightarrow> as)"

definition combined_status :: "cell_resolver_decision_attestation list \<Rightarrow> cell_transaction_status" where
  "combined_status as = (if list_ex (\<lambda>a. ds_decision (da_statement a) = Conflict) as then TxConflict else Committed)"

definition observe_pending ::
  "pending_transaction \<Rightarrow> cell_resolver_decision_attestation list \<Rightarrow> resolver_oracle \<Rightarrow> stateless_observations \<Rightarrow> stateless_observations" where
  "observe_pending t as oracle obs =
     (let central = oracle_decision_at oracle (pg_command t) (pg_resolver_read_sequence t); actual = combined_status as in
      obs\<lparr>so_complete_agreement := so_complete_agreement obs \<and> length as = length (required_resolvers (pg_command t)),
          so_commit_subset := so_commit_subset obs \<and> (actual \<noteq> Committed \<or> central = Committed),
          so_central_conflicts_rejected := so_central_conflicts_rejected obs \<and> (central \<noteq> TxConflict \<or> actual = TxConflict),
          so_safe_false_conflicts := (if central = Committed \<and> actual = TxConflict
                                      then so_safe_false_conflicts obs + 1 else so_safe_false_conflicts obs)\<rparr>)"

definition resolution_of :: "u64 \<Rightarrow> pending_transaction \<Rightarrow> cell_resolver_decision_attestation list \<Rightarrow> cell_partitioned_resolution" where
  "resolution_of system_generation t as =
     \<lparr>pn_transaction_system_generation = system_generation, pn_resolver_read_sequence = pg_resolver_read_sequence t, pn_map_epoch = 1,
      pn_candidate_sequence = pg_candidate t, pn_attestations = as\<rparr>"

definition resolved_command :: "u64 \<Rightarrow> pending_transaction \<Rightarrow> cell_resolver_decision_attestation list \<Rightarrow> cell_transaction_command" where
  "resolved_command system_generation t as = (pg_command t)\<lparr>ct_partitioned_resolution := Some (resolution_of system_generation t as)\<rparr>"

text \<open>The second loop: in candidate order the evidence is combined, compared with the oracle and committed.\<close>

fun commit_pending ::
  "(cell_transaction_command \<Rightarrow> (cell_transaction_status \<times> u64 option) option) \<Rightarrow> u64 \<Rightarrow> pending_transaction list \<Rightarrow>
     decisions \<Rightarrow> stateless_observations \<Rightarrow> resolver_oracle \<Rightarrow> u64 \<Rightarrow>
     ((unit, resolver_error) result \<times> stateless_observations \<times> resolver_oracle \<times> u64) option" where
  "commit_pending authority system_generation [] m obs oracle data_read = Some (Ok (), obs, oracle, data_read)"
| "commit_pending authority system_generation (t # ts) m obs oracle data_read =
     (let as = taken_decisions m (pg_candidate t); obs = observe_pending t as oracle obs in
      case authority (resolved_command system_generation t as) of
        None \<Rightarrow> Some (Err AuthorityFailed, obs, oracle, data_read)
      | Some (status, seq_opt) \<Rightarrow>
          if status \<noteq> combined_status as then Some (Err AuthorityDiffers, obs, oracle, data_read)
          else case resolver_oracle_apply (pg_command t) (combined_status as) (Some (pg_candidate t)) oracle of
            None \<Rightarrow> None
          | Some oracle \<Rightarrow>
              commit_pending authority system_generation ts (bt_remove (pg_candidate t) m)
                (obs\<lparr>so_attempted := so_attempted obs + 1,
                     so_successor_reads_at_floor := so_successor_reads_at_floor obs
                       \<and> (system_generation = 2 \<longrightarrow> pg_resolver_read_sequence t \<ge> so_recovery_floor obs)\<rparr>)
                oracle (case seq_opt of None \<Rightarrow> data_read | Some seq \<Rightarrow> seq))"

definition execute_batch ::
  "resolver_env \<Rightarrow> (u16 \<Rightarrow> call_outcome) \<Rightarrow> (cell_transaction_command \<Rightarrow> (cell_transaction_status \<times> u64 option) option) \<Rightarrow> u64 \<Rightarrow>
     pending_transaction list \<Rightarrow> stateless_observations \<Rightarrow> resolver_nodes \<Rightarrow> resolver_oracle \<Rightarrow> u64 \<Rightarrow>
     ((unit, resolver_error) result \<times> stateless_observations \<times> resolver_nodes \<times> resolver_oracle \<times> u64) option" where
  "execute_batch env net authority system_generation batch obs nodes oracle data_read =
     (case resolve_batch env net system_generation batch [1, 2, 3] obs nodes [] of
        (Err e, obs, nodes) \<Rightarrow> Some (Err e, obs, nodes, oracle, data_read)
      | (Ok m, obs, nodes) \<Rightarrow>
          map_option (\<lambda>(r, obs, oracle, data_read). (r, obs, nodes, oracle, data_read))
            (commit_pending authority system_generation batch m (obs\<lparr>so_batches := so_batches obs + 1\<rparr>) oracle data_read))"

text \<open>
  What happens to the resolvers and to the oracle: any request by anybody, lost or answered; a resolver that stops; a
  batch, with candidates that increase and follow what was committed; and the replacement of all resolvers by empty
  ones with a floor at or above the last commit.
\<close>

definition well_placed :: "cell_key_range \<Rightarrow> bool" where
  "well_placed r \<longleftrightarrow> range_valid r \<and> [0] \<le> kr_start r \<and> kr_end r \<le> [0xf0]"

definition batch_placed :: "resolver_oracle \<Rightarrow> pending_transaction list \<Rightarrow> bool" where
  "batch_placed oracle batch \<longleftrightarrow>
     sorted_wrt (<) (map pg_candidate batch) \<and> list_all (\<lambda>t. pg_candidate t > oc_latest_sequence oracle) batch \<and>
     list_all (\<lambda>t. list_all well_placed (ct_read_conflicts (pg_command t) @ ct_write_conflicts (pg_command t))) batch"

inductive stateless_run :: "resolver_env \<Rightarrow> resolver_nodes \<Rightarrow> resolver_oracle \<Rightarrow> bool" for env where
  run_start: "stateless_run env (start_resolvers env system_generation 0 []) resolver_oracle_default"
| run_call: "stateless_run env nodes oracle \<Longrightarrow> stateless_run env (snd (resolver_call env net resolver_id req nodes)) oracle"
| run_stop: "stateless_run env nodes oracle \<Longrightarrow> stateless_run env (stop_resolver resolver_id nodes) oracle"
| run_batch: "stateless_run env nodes oracle \<Longrightarrow> batch_placed oracle batch \<Longrightarrow>
    execute_batch env net authority system_generation batch obs nodes oracle data_read = Some (r, obs', nodes', oracle', data_read') \<Longrightarrow>
    stateless_run env nodes' oracle'"
| run_recover: "stateless_run env nodes oracle \<Longrightarrow> oc_latest_sequence oracle \<le> floor \<Longrightarrow>
    stateless_run env (start_resolvers env system_generation floor (stop_all_resolvers nodes)) oracle"

end
