(* ===== verification/Resolver_Safety.thy ===== *)
theory Resolver_Safety
  imports Stateless_Resolvers
begin

text \<open>
  Safety of the resolvers. A memory-only resolver keeps every accepted write and never accepts a read over a newer one
  with a smaller candidate; the parts a transaction is cut into cover every key of the partitioned space; together a
  transaction that all its resolvers accept is accepted by the oracle that has the whole history, also after all
  resolvers were replaced by empty ones at a floor.
\<close>

section \<open>One memory-only resolver\<close>

definition decision_ok :: "resolver_env \<Rightarrow> resolver_config \<Rightarrow> resolver_state \<Rightarrow> u64 \<Rightarrow> cell_resolver_decision_statement \<Rightarrow> bool" where
  "decision_ok env config s c st \<longleftrightarrow>
     ds_format_version st = 1 \<and> cell_resolver_map_sha256 (rv_cell env) = Some (ds_map_sha256 st) \<and>
     ds_resolver_incarnation st = cell_resolver_incarnation (rc_resolver_id config) \<and>
     ds_generation st = rc_transaction_system_generation config \<and> c \<noteq> 0 \<and>
     ds_candidate_sequence st = c \<and> c \<le> rs_last_candidate s \<and> ds_resolver_id st = rc_resolver_id config \<and>
     rc_minimum_read_sequence config \<le> ds_resolver_read_sequence st \<and>
     (ds_decision st = Accept \<longrightarrow> set (writes_at c (ds_write_conflicts st)) \<subseteq> set (rs_committed_writes s) \<and>
       (\<forall>r \<in> set (ds_read_conflicts st). \<forall>w \<in> set (rs_committed_writes s).
          ds_resolver_read_sequence st < cw_sequence w \<and> cw_sequence w < c \<longrightarrow> \<not> range_overlaps r (cw_range w)))"

definition resolver_ok :: "resolver_env \<Rightarrow> resolver_config \<Rightarrow> resolver_state \<Rightarrow> bool" where
  "resolver_ok env config s \<longleftrightarrow>
     (\<forall>w \<in> set (rs_committed_writes s). cw_sequence w \<le> rs_last_candidate s) \<and>
     (\<forall>c x. bt_get (rs_prepared s) c = Some x \<longrightarrow> decision_ok env config s c (pr_statement x))"

text \<open>Memory-only resolvers forget nothing.\<close>

definition extends_state :: "resolver_state \<Rightarrow> resolver_state \<Rightarrow> bool" where
  "extends_state s s' \<longleftrightarrow>
     (\<forall>c x. bt_get (rs_prepared s) c = Some x \<longrightarrow> bt_get (rs_prepared s') c = Some x) \<and>
     set (rs_committed_writes s) \<subseteq> set (rs_committed_writes s')"

definition answered :: "resolver_env \<Rightarrow> resolver_state \<Rightarrow> resolver_prepare \<Rightarrow> cell_resolver_decision_attestation \<Rightarrow> bool" where
  "answered env s req a \<longleftrightarrow>
     sign_cell_resolver_decision (rv_cell env) (da_statement a) = Some a \<and>
     (\<exists>x. bt_get (rs_prepared s) (rq_candidate_sequence req) = Some x \<and> pr_statement x = da_statement a) \<and>
     same_prepare (da_statement a) (canonical_prepare req)"

lemma extends_refl [simp]: "extends_state s s"
  by (simp add: extends_state_def)

lemma extends_trans: "extends_state s t \<Longrightarrow> extends_state t u \<Longrightarrow> extends_state s u"
  by (auto simp: extends_state_def)

lemma answered_extends: "answered env s req a \<Longrightarrow> extends_state s t \<Longrightarrow> answered env t req a"
  by (auto simp: answered_def extends_state_def)

lemma signed_statement: "sign_cell_resolver_decision env st = Some a \<Longrightarrow> da_statement a = st"
  by (auto simp: sign_cell_resolver_decision_def Let_def split: option.split_asm)

lemma default_ok: "resolver_ok env config resolver_state_default"
  by (simp add: resolver_ok_def resolver_state_default_def)

lemma resolver_accepts:
  "resolver_decision ws rs reads = Accept \<longleftrightarrow> (\<forall>r \<in> set reads. \<forall>w \<in> set ws. rs < cw_sequence w \<longrightarrow> \<not> range_overlaps r (cw_range w))"
  by (auto simp: resolver_decision_def list_ex_iff)

lemma record_decision_memory:
  assumes "rc_memory_only config"
  shows "rs_last_candidate (record_decision config st s) = ds_candidate_sequence st"
    and "rs_committed_writes (record_decision config st s) = rs_committed_writes s @
          (if ds_decision st = Accept then writes_at (ds_candidate_sequence st) (ds_write_conflicts st) else [])"
    and "rs_prepared (record_decision config st s) = bt_insert (ds_candidate_sequence st) \<lparr>pr_statement = st, pr_finalized = True\<rparr> (rs_prepared s)"
  using assms by (simp_all add: record_decision_def Let_def)

lemma writes_at_sequence: "w \<in> set (writes_at c ranges) \<Longrightarrow> cw_sequence w = c"
  by (auto simp: writes_at_def)

text \<open>An old decision stays right: the writes a new one adds have a greater candidate.\<close>

lemma old_decision_ok:
  assumes "decision_ok env config s c st" and "rs_last_candidate s < d" and "rs_last_candidate s' = d"
    and "set (rs_committed_writes s') = set (rs_committed_writes s) \<union> new" and "\<forall>w \<in> new. cw_sequence w = d"
  shows "decision_ok env config s' c st"
proof -
  have "\<not> d < c" using assms(1,2) by (auto simp: decision_ok_def)
  then show ?thesis using assms by (auto simp: decision_ok_def)
qed

lemma record_ok:
  assumes memory: "rc_memory_only config" and ok: "resolver_ok env config s" and new: "rs_last_candidate s < ds_candidate_sequence st"
    and st: "ds_resolver_id st = rc_resolver_id config" "rc_minimum_read_sequence config \<le> ds_resolver_read_sequence st"
      "ds_decision st = resolver_decision (rs_committed_writes s) (ds_resolver_read_sequence st) (ds_read_conflicts st)"
    and shape: "ds_format_version st = 1" "cell_resolver_map_sha256 (rv_cell env) = Some (ds_map_sha256 st)"
      "ds_resolver_incarnation st = cell_resolver_incarnation (rc_resolver_id config)"
      "ds_generation st = rc_transaction_system_generation config" "ds_candidate_sequence st \<noteq> 0"
  shows "resolver_ok env config (record_decision config st s) \<and> extends_state s (record_decision config st s)"
proof -
  define s' where "s' = record_decision config st s"
  define c where "c = ds_candidate_sequence st"
  define added where "added = (if ds_decision st = Accept then set (writes_at c (ds_write_conflicts st)) else {})"
  have s': "rs_last_candidate s' = c" "set (rs_committed_writes s') = set (rs_committed_writes s) \<union> added"
    "\<And>d. bt_get (rs_prepared s') d = (if d = c then Some \<lparr>pr_statement = st, pr_finalized = True\<rparr> else bt_get (rs_prepared s) d)"
    using record_decision_memory[OF memory, of st s] by (simp_all add: s'_def c_def added_def)
  have seq: "\<forall>w \<in> added. cw_sequence w = c" by (auto simp: added_def dest: writes_at_sequence split: if_split_asm)
  have "decision_ok env config s' c st"
    unfolding decision_ok_def s' st(1)
  proof (intro conjI impI ballI)
    assume "ds_decision st = Accept"
    then show "set (writes_at c (ds_write_conflicts st)) \<subseteq> set (rs_committed_writes s) \<union> added" by (simp add: added_def)
  next
    fix r w
    assume *: "ds_decision st = Accept" "r \<in> set (ds_read_conflicts st)" "w \<in> set (rs_committed_writes s) \<union> added"
      "ds_resolver_read_sequence st < cw_sequence w \<and> cw_sequence w < c"
    have "w \<in> set (rs_committed_writes s)" using *(3,4) seq by auto
    then show "\<not> range_overlaps r (cw_range w)" using *(1,2,4) unfolding st(3) resolver_accepts by blast
  qed (simp_all add: c_def st(2) shape)
  moreover have "decision_ok env config s' d (pr_statement x)" if "bt_get (rs_prepared s) d = Some x" for d x
    by (rule old_decision_ok[OF _ new[folded c_def] s'(1,2) seq]) (use ok that in \<open>simp add: resolver_ok_def\<close>)
  moreover have "cw_sequence w \<le> c" if "w \<in> set (rs_committed_writes s')" for w
  proof -
    have "w \<in> added \<or> cw_sequence w \<le> rs_last_candidate s" using that ok by (auto simp: s' resolver_ok_def)
    then show ?thesis using new seq by (auto simp: c_def)
  qed
  ultimately have "resolver_ok env config s'" by (simp add: resolver_ok_def s'(1,3))
  moreover have "bt_get (rs_prepared s) c = None"
    using ok new by (cases "bt_get (rs_prepared s) c") (fastforce simp: resolver_ok_def decision_ok_def c_def)+
  ultimately show ?thesis unfolding s'_def[symmetric] by (auto simp: extends_state_def s')
qed

text \<open>What a memory-only resolver does with a prepare: refuse it, repeat a recorded decision, or record a new one.\<close>

lemma prepare_cases:
  assumes memory: "rc_memory_only config" and run: "apply_prepare env config part disk req p = Some (r, p')"
    and q: "q = canonical_prepare req"
  obtains (same) "p' = p" "\<forall>a. r \<noteq> Ok a"
    | (again) x a where "p' = p" "r = Ok a" "bt_get (rs_prepared (ro_state p)) (rq_candidate_sequence q) = Some x"
        "same_prepare (pr_statement x) q" "da_statement a = pr_statement x" "sign_cell_resolver_decision (rv_cell env) (pr_statement x) = Some a"
    | (fresh) map_sha st a where "prepare_valid config q" "rs_last_candidate (ro_state p) < rq_candidate_sequence q"
        "st = prepare_statement config map_sha q (resolver_decision (rs_committed_writes (ro_state p)) (rq_resolver_read_sequence q) (rq_read_conflicts q))"
        "da_statement a = st" "r = Ok a" "p' = p\<lparr>ro_state := record_decision config st (ro_state p)\<rparr>"
        "cell_resolver_map_sha256 (rv_cell env) = Some map_sha" "sign_cell_resolver_decision (rv_cell env) st = Some a"
proof (cases "prepare_valid config q \<and> \<not> list_ex (outside_owned part) (rq_read_conflicts q @ rq_write_conflicts q)")
  case False
  then show thesis using run by (intro same) (auto simp: apply_prepare_def Let_def q[symmetric] split: if_split_asm)
next
  case True
  note run1 = run[unfolded apply_prepare_def Let_def q[symmetric]]
  show thesis
  proof (cases "bt_get (rs_prepared (ro_state p)) (rq_candidate_sequence q)")
    case (Some x)
    show thesis
    proof (cases "same_prepare (pr_statement x) q")
      case same_request: True
      show thesis
      proof (cases "sign_cell_resolver_decision (rv_cell env) (pr_statement x)")
        case None
        then show thesis using run1 True Some same_request by (intro same) auto
      next
        case (Some a)
        then show thesis
          using run1 True \<open>bt_get _ _ = Some x\<close> same_request signed_statement[OF Some] by (intro again[of a x]) simp_all
      qed
    qed (use run1 True Some in \<open>intro same, auto\<close>)
  next
    case None
    show thesis
    proof (cases "rq_candidate_sequence q \<le> rs_last_candidate (ro_state p)")
      case True
      then show thesis using run1 \<open>prepare_valid config q \<and> _\<close> None memory by (intro same) auto
    next
      case late: False
      obtain map_sha where map: "cell_resolver_map_sha256 (rv_cell env) = Some map_sha"
        using run1 True None late memory by (cases "cell_resolver_map_sha256 (rv_cell env)") simp_all
      define st where "st = prepare_statement config map_sha q
        (resolver_decision (rs_committed_writes (ro_state p)) (rq_resolver_read_sequence q) (rq_read_conflicts q))"
      note run2 = run1[unfolded map option.case st_def[symmetric]]
      show thesis
      proof (cases "sign_cell_resolver_decision (rv_cell env) st")
        case None
        then show thesis using run2 True \<open>bt_get _ _ = None\<close> late memory by (intro same) auto
      next
        case (Some a)
        then show thesis using run2 True None late memory signed_statement[OF Some] map by (intro fresh[OF _ _ st_def]) auto
      qed
    qed
  qed
qed

lemma prepare_memory:
  assumes memory: "rc_memory_only config" and ok: "resolver_ok env config (ro_state p)"
    and run: "apply_prepare env config part disk req p = Some (r, p')"
  shows "resolver_ok env config (ro_state p') \<and> extends_state (ro_state p) (ro_state p') \<and> (\<forall>a. r = Ok a \<longrightarrow> answered env (ro_state p') req a)"
proof -
  define q where "q = canonical_prepare req"
  have q: "rq_candidate_sequence q = rq_candidate_sequence req" by (simp add: q_def canonical_prepare_def)
  from memory run q_def show ?thesis
  proof (cases rule: prepare_cases)
    case same
    then show ?thesis using ok by simp
  next
    case (again x a)
    then show ?thesis using ok q by (auto simp: answered_def q_def[symmetric])
  next
    case (fresh map_sha st a)
    have st: "ds_candidate_sequence st = rq_candidate_sequence req" "ds_resolver_id st = rc_resolver_id config" "same_prepare st q"
      "rc_minimum_read_sequence config \<le> ds_resolver_read_sequence st"
      "ds_decision st = resolver_decision (rs_committed_writes (ro_state p)) (ds_resolver_read_sequence st) (ds_read_conflicts st)"
      using fresh(1) by (simp_all add: fresh(3) prepare_statement_def same_prepare_def prepare_valid_def q not_less)
    have shape: "ds_format_version st = 1" "cell_resolver_map_sha256 (rv_cell env) = Some (ds_map_sha256 st)"
      "ds_resolver_incarnation st = cell_resolver_incarnation (rc_resolver_id config)"
      "ds_generation st = rc_transaction_system_generation config" "ds_candidate_sequence st \<noteq> 0"
      using fresh(1,7) by (simp_all add: fresh(3) prepare_statement_def prepare_valid_def)
    have "resolver_ok env config (ro_state p') \<and> extends_state (ro_state p) (ro_state p')"
      using record_ok[OF memory ok _ st(2,4,5) shape] fresh(2,6) by (simp add: st(1) q)
    then show ?thesis using fresh(4,5,6,8) st(1,3) record_decision_memory(3)[OF memory, of st] by (simp add: answered_def q_def[symmetric])
  qed
qed

lemma batch_memory:
  assumes "rc_memory_only config" and "resolver_ok env config (ro_state p)" and "apply_batch env config part disk reqs p = Some (r, p')"
  shows "resolver_ok env config (ro_state p') \<and> extends_state (ro_state p) (ro_state p') \<and>
    (\<forall>as. r = Ok as \<longrightarrow> list_all2 (answered env (ro_state p')) reqs as)"
  using assms(2,3)
proof (induction reqs arbitrary: p r p')
  case (Cons req reqs)
  obtain r1 p1 where one: "apply_prepare env config part disk req p = Some (r1, p1)"
    using Cons.prems(2) by (auto split: option.split_asm)
  note first = prepare_memory[OF assms(1) Cons.prems(1) one]
  show ?case
  proof (cases r1)
    case (Err e)
    then show ?thesis using Cons.prems(2) first by (auto simp: one)
  next
    case (Ok a)
    obtain r2 where rest: "apply_batch env config part disk reqs p1 = Some (r2, p')" and r: "r = (case r2 of Ok as \<Rightarrow> Ok (a # as) | Err e \<Rightarrow> Err e)"
      using Cons.prems(2) by (auto simp: one Ok split: option.split_asm result.split_asm)
    have "resolver_ok env config (ro_state p') \<and> extends_state (ro_state p1) (ro_state p') \<and> (\<forall>as. r2 = Ok as \<longrightarrow> list_all2 (answered env (ro_state p')) reqs as)"
      by (rule Cons.IH[OF _ rest]) (use first in simp)
    then show ?thesis using first unfolding r by (auto simp: Ok intro: extends_trans answered_extends split: result.split_asm)
  qed
qed auto

lemma request_memory:
  assumes "rc_memory_only config" and "resolver_ok env config (ro_state p)" and "apply_resolver_request env config part disk req p = Some (r, p')"
  shows "resolver_ok env config (ro_state p') \<and> extends_state (ro_state p) (ro_state p') \<and>
    (\<forall>reqs as. req = ResolverPrepareBatch reqs \<and> r = Ok (PreparedBatch as) \<longrightarrow> list_all2 (answered env (ro_state p')) reqs as)"
proof (cases req)
  case (ResolverPrepare q)
  then show ?thesis using assms(3) prepare_memory[OF assms(1,2)] by fastforce
next
  case (ResolverPrepareBatch reqs)
  show ?thesis
  proof (cases "reqs = []")
    case False
    then obtain r' where "apply_batch env config part disk reqs p = Some (r', p')"
      and r: "r = (case r' of Ok as \<Rightarrow> Ok (PreparedBatch as) | Err e \<Rightarrow> Err e)"
      using assms(3) by (auto simp: ResolverPrepareBatch)
    then show ?thesis using batch_memory[OF assms(1,2)] by (cases r') (auto simp: ResolverPrepareBatch)
  qed (use assms(2,3) ResolverPrepareBatch in auto)
next
  case (ResolverFinalize q)
  then show ?thesis using assms by (simp add: apply_finalize_def)
qed (use assms in simp)

section \<open>Partitions\<close>

definition owns :: "cell_resolver_partition \<Rightarrow> bytes \<Rightarrow> bool" where
  "owns part key \<longleftrightarrow> cell_range_contains (CellKeyRange (rp_start part) (rp_end part)) key"

lemma partition_cover:
  assumes "well_placed r" and "cell_range_contains r key"
  obtains part where "part \<in> set cell_resolver_partitions" "owns part key"
proof -
  have key: "[0] \<le> key" "key < [0xf0]"
    using assms by (auto simp: well_placed_def cell_range_contains_def intro: order_trans order.strict_trans2)
  consider "key < [0x50]" | "[0x50] \<le> key" "key < [0xa0]" | "[0xa0] \<le> key" by fastforce
  then have "\<exists>part \<in> set cell_resolver_partitions. owns part key"
    by cases (use key in \<open>simp_all add: cell_resolver_partitions_def owns_def cell_range_contains_def\<close>)
  then show thesis using that by blast
qed

lemma partition_id:
  assumes "part \<in> set cell_resolver_partitions" and "part' \<in> set cell_resolver_partitions" and "rp_resolver_id part = rp_resolver_id part'"
  shows "part = part'"
  using assms by (auto simp: cell_resolver_partitions_def)

lemma find_partition:
  "find (\<lambda>part. rp_resolver_id part = i) cell_resolver_partitions = Some part \<longleftrightarrow> part \<in> set cell_resolver_partitions \<and> rp_resolver_id part = i"
  by (auto simp: cell_resolver_partitions_def)

lemma required_owned:
  assumes "part \<in> set cell_resolver_partitions" and "owns part key" and "r \<in> set (ct_read_conflicts c @ ct_write_conflicts c)"
    and "cell_range_contains r key"
  shows "rp_resolver_id part \<in> set (required_resolvers c)"
  using assms overlaps_common[of r key "CellKeyRange (rp_start part) (rp_end part)"]
  by (fastforce simp: required_resolvers_def list_ex_iff owns_def Let_def)

lemma clip_contains:
  assumes "owns part key" and "r \<in> set ranges" and "cell_range_contains r key"
  shows "\<exists>r' \<in> set (clip_ranges ranges (rp_start part) (rp_end part)). cell_range_contains r' key"
  using assms overlaps_common[OF assms(3), of "CellKeyRange (rp_start part) (rp_end part)"]
  by (auto simp: clip_ranges_def Let_def owns_def cell_range_contains_def intro!: bexI[of _ r])

lemma required_filter: "required_resolvers c = filter (\<lambda>i. i \<in> set (required_resolvers c)) [1, 2, 3]"
  by (simp add: required_resolvers_def cell_resolver_partitions_def)

section \<open>The invariant of the resolvers and the oracle\<close>

definition node_ok :: "resolver_env \<Rightarrow> u16 \<Rightarrow> resolver_node \<Rightarrow> bool" where
  "node_ok env i n \<longleftrightarrow> rc_resolver_id (rn_config n) = i \<and> rc_transaction_system_generation (rn_config n) \<noteq> 0 \<and>
     rc_memory_only (rn_config n) \<and> rn_partition n \<in> set cell_resolver_partitions \<and> rp_resolver_id (rn_partition n) = i \<and>
     resolver_ok env (rn_config n) (ro_state (rn_process n))"

text \<open>Above its floor a resolver has every committed write on the keys it owns.\<close>

definition covers :: "resolver_node \<Rightarrow> committed_write \<Rightarrow> bool" where
  "covers n w \<longleftrightarrow>
     (rc_minimum_read_sequence (rn_config n) < cw_sequence w \<longrightarrow>
      (\<forall>key. cell_range_contains (cw_range w) key \<and> owns (rn_partition n) key \<longrightarrow>
        (\<exists>w' \<in> set (rs_committed_writes (ro_state (rn_process n))). cw_sequence w' = cw_sequence w \<and> cell_range_contains (cw_range w') key)))"

definition resolvers_ok :: "resolver_env \<Rightarrow> resolver_nodes \<Rightarrow> resolver_oracle \<Rightarrow> bool" where
  "resolvers_ok env nodes oracle \<longleftrightarrow>
     (\<forall>i n. bt_get nodes i = Some n \<longrightarrow> node_ok env i n \<and> (\<forall>w \<in> set (oc_writes oracle). covers n w)) \<and>
     (\<forall>w \<in> set (oc_writes oracle). well_placed (cw_range w) \<and> cw_sequence w \<le> oc_latest_sequence oracle)"

lemma covers_extends: "covers n w \<Longrightarrow> extends_state (ro_state (rn_process n)) (ro_state p) \<Longrightarrow> covers (n\<lparr>rn_process := p\<rparr>) w"
  unfolding covers_def extends_state_def by simp blast

lemma call_other: "j \<noteq> i \<Longrightarrow> bt_get (snd (resolver_call env net i req nodes)) j = bt_get nodes j"
  by (auto simp: resolver_call_def split: option.split)

lemma call_ok:
  assumes ok: "resolvers_ok env nodes oracle"
  shows "resolvers_ok env (snd (resolver_call env net i req nodes)) oracle"
proof (cases "bt_get nodes i")
  case (Some n)
  show ?thesis
  proof (cases "apply_resolver_request env (rn_config n) (rn_partition n) (\<lambda>_. PublishedSynced) req (rn_process n)")
    case None
    then show ?thesis using ok by (simp add: resolver_call_def Some resolvers_ok_def)
  next
    case step: (Some rp)
    obtain r p where rp: "rp = (r, p)" by fastforce
    have n: "node_ok env i n" "\<forall>w \<in> set (oc_writes oracle). covers n w" using ok Some by (auto simp: resolvers_ok_def)
    have new: "resolver_ok env (rn_config n) (ro_state p)" "extends_state (ro_state (rn_process n)) (ro_state p)"
      using request_memory[OF _ _ step[unfolded rp]] n(1) by (auto simp: node_ok_def)
    have "node_ok env i (n\<lparr>rn_process := p\<rparr>)" using n(1) new(1) by (simp add: node_ok_def)
    then show ?thesis using ok n(2) new(2) by (auto simp: resolver_call_def Some step rp resolvers_ok_def intro: covers_extends)
  qed
qed (simp add: resolver_call_def ok)

lemma call_answers:
  assumes ok: "resolvers_ok env nodes oracle" and call: "resolver_call env net i (ResolverPrepareBatch reqs) nodes = (Ok (PreparedBatch as), nodes')"
  obtains n where "bt_get nodes' i = Some n" "list_all2 (answered env (ro_state (rn_process n))) reqs as"
proof -
  obtain n where n: "bt_get nodes i = Some n" using call by (auto simp: resolver_call_def split: option.split_asm)
  obtain p where step: "apply_resolver_request env (rn_config n) (rn_partition n) (\<lambda>_. PublishedSynced) (ResolverPrepareBatch reqs) (rn_process n)
      = Some (Ok (PreparedBatch as), p)" and nodes': "nodes' = bt_insert i (n\<lparr>rn_process := p\<rparr>) nodes"
    using call unfolding resolver_call_def n option.case by (auto split: if_split_asm option.split_asm)
  have "node_ok env i n" using ok n by (simp add: resolvers_ok_def)
  then have "list_all2 (answered env (ro_state p)) reqs as" using request_memory[OF _ _ step] by (simp add: node_ok_def)
  then show thesis by (intro that[of "n\<lparr>rn_process := p\<rparr>"]) (simp_all add: nodes')
qed

section \<open>The first loop\<close>

definition decisions_of :: "decisions \<Rightarrow> u64 \<Rightarrow> cell_resolver_decision_attestation list" where
  "decisions_of m c = (case bt_get m c of None \<Rightarrow> [] | Some as \<Rightarrow> as)"

definition decided :: "resolver_env \<Rightarrow> u64 \<Rightarrow> resolver_nodes \<Rightarrow> pending_transaction \<Rightarrow> u16 \<Rightarrow> cell_resolver_decision_attestation \<Rightarrow> bool" where
  "decided env g nodes t i a \<longleftrightarrow>
     (\<exists>n req. bt_get nodes i = Some n \<and>
        build_resolver_prepare env i (pg_command t) (pg_candidate t) 1 g (pg_resolver_read_sequence t) = Ok req \<and>
        answered env (ro_state (rn_process n)) req a)"

lemma decisions_of_collect:
  "decisions_of (collect_decisions as m) c = decisions_of m c @ filter (\<lambda>a. ds_candidate_sequence (da_statement a) = c) as"
  by (induction as arbitrary: m) (simp_all add: collect_decisions_def decisions_of_def bt_push_def split: option.split)

lemma batch_requests_built:
  "batch_requests env g i ts = Ok reqs \<Longrightarrow>
   list_all2 (\<lambda>t req. build_resolver_prepare env i (pg_command t) (pg_candidate t) 1 g (pg_resolver_read_sequence t) = Ok req)
     (filter (\<lambda>t. i \<in> set (required_resolvers (pg_command t))) ts) reqs"
  by (induction ts arbitrary: reqs) (auto simp: try_bind_Ok_iff split: if_split_asm)

lemma decided_candidate:
  assumes "decided env g nodes t i a"
  shows "ds_candidate_sequence (da_statement a) = pg_candidate t"
  using assms by (auto simp: decided_def answered_def same_prepare_def canonical_prepare_def build_resolver_prepare_def split: option.split_asm)

text \<open>Candidates are distinct, so each transaction gets back the decision made for it.\<close>

lemma decision_taken:
  assumes "list_all2 (\<lambda>t a. ds_candidate_sequence (da_statement a) = pg_candidate t \<and> P t a) ts as" and "distinct (map pg_candidate ts)"
  shows "(t \<in> set ts \<longrightarrow> (\<exists>a. P t a \<and> filter (\<lambda>a. ds_candidate_sequence (da_statement a) = pg_candidate t) as = [a])) \<and>
    (c \<notin> pg_candidate ` set ts \<longrightarrow> filter (\<lambda>a. ds_candidate_sequence (da_statement a) = c) as = [])"
  using assms
proof (induction arbitrary: c t rule: list_all2_induct)
  case (Cons u us a as)
  have "filter (\<lambda>a. ds_candidate_sequence (da_statement a) = pg_candidate u) as = []"
    using Cons.IH[where c = "pg_candidate u"] Cons.prems by simp
  then show ?case using Cons by auto
qed simp


lemma prepare_batch_ok:
  assumes ok: "resolvers_ok env nodes oracle" and run: "prepare_batch env net i reqs nodes = (r, nodes')"
  shows "resolvers_ok env nodes' oracle \<and> (\<forall>j. j \<noteq> i \<longrightarrow> bt_get nodes' j = bt_get nodes j) \<and>
    (\<forall>as. r = Ok as \<longrightarrow> (\<exists>n. bt_get nodes' i = Some n \<and> list_all2 (answered env (ro_state (rn_process n))) reqs as))"
proof -
  obtain r0 where call: "resolver_call env net i (ResolverPrepareBatch reqs) nodes = (r0, nodes')"
    and r: "\<And>as. r = Ok as \<Longrightarrow> r0 = Ok (PreparedBatch as)"
    using run by (auto simp: prepare_batch_def split: prod.split_asm result.split_asm resolver_response.split_asm)
  have "snd (resolver_call env net i (ResolverPrepareBatch reqs) nodes) = nodes'" by (simp add: call)
  then have "resolvers_ok env nodes' oracle" "\<forall>j. j \<noteq> i \<longrightarrow> bt_get nodes' j = bt_get nodes j"
    using call_ok[OF ok] call_other by metis+
  moreover have "\<exists>n. bt_get nodes' i = Some n \<and> list_all2 (answered env (ro_state (rn_process n))) reqs as" if "r = Ok as" for as
    by (rule call_answers[OF ok call[unfolded r[OF that]]]) blast
  ultimately show ?thesis by blast
qed

lemma batch_decided:
  assumes built: "batch_requests env g i batch = Ok reqs" and node: "bt_get nodes i = Some n" "list_all2 (answered env (ro_state (rn_process n))) reqs as"
    and distinct: "distinct (map pg_candidate batch)" and t: "t \<in> set batch"
  shows "list_all2 (decided env g nodes t) (filter (\<lambda>i. i \<in> set (required_resolvers (pg_command t))) [i])
    (filter (\<lambda>a. ds_candidate_sequence (da_statement a) = pg_candidate t) as)"
proof -
  define ts where "ts = filter (\<lambda>t. i \<in> set (required_resolvers (pg_command t))) batch"
  have "list_all2 (\<lambda>t req. build_resolver_prepare env i (pg_command t) (pg_candidate t) 1 g (pg_resolver_read_sequence t) = Ok req) ts reqs"
    unfolding ts_def by (rule batch_requests_built[OF built])
  then have "list_all2 (\<lambda>t a. decided env g nodes t i a) ts as"
    using node(2) by (rule list_all2_trans[rotated]) (auto simp: decided_def node(1))
  then have "list_all2 (\<lambda>t a. ds_candidate_sequence (da_statement a) = pg_candidate t \<and> decided env g nodes t i a) ts as"
    by (rule list_all2_mono) (auto dest: decided_candidate)
  moreover have "distinct (map pg_candidate ts)" unfolding ts_def by (rule distinct_map_filter[OF distinct])
  moreover have "pg_candidate t \<notin> pg_candidate ` set ts" if "t \<notin> set ts"
    using distinct t that by (auto simp: ts_def distinct_map inj_on_def)
  ultimately have "(t \<in> set ts \<longrightarrow> (\<exists>a. decided env g nodes t i a \<and> filter (\<lambda>a. ds_candidate_sequence (da_statement a) = pg_candidate t) as = [a])) \<and>
      (t \<notin> set ts \<longrightarrow> filter (\<lambda>a. ds_candidate_sequence (da_statement a) = pg_candidate t) as = [])"
    using decision_taken[of "\<lambda>t a. decided env g nodes t i a" ts as t "pg_candidate t"] by blast
  then show ?thesis using t by (auto simp: ts_def)
qed

lemma decisions_join:
  assumes "list_all2 P (filter Q [i]) (filter (\<lambda>a. ds_candidate_sequence (da_statement a) = c) as)"
    and "decisions_of m' c = decisions_of (collect_decisions as m) c @ as'" and "list_all2 P (filter Q ids) as'"
  shows "\<exists>as. decisions_of m' c = decisions_of m c @ as \<and> list_all2 P (filter Q (i # ids)) as"
  using list_all2_appendI[OF assms(1,3)] assms(2) unfolding decisions_of_collect
  by (intro exI[of _ "filter (\<lambda>a. ds_candidate_sequence (da_statement a) = c) as @ as'"]) (auto split: if_split_asm)

text \<open>The flags that the first loop leaves alone.\<close>

definition same_flags :: "stateless_observations \<Rightarrow> stateless_observations \<Rightarrow> bool" where
  "same_flags obs obs' \<longleftrightarrow>
     so_commit_subset obs' = so_commit_subset obs \<and> so_central_conflicts_rejected obs' = so_central_conflicts_rejected obs \<and>
     so_complete_agreement obs' = so_complete_agreement obs"

lemma resolve_batch_decides:
  assumes "resolvers_ok env nodes oracle" and "distinct (map pg_candidate batch)" and "distinct ids"
    and "resolve_batch env net g batch ids obs nodes m = (r, obs', nodes')"
  shows "resolvers_ok env nodes' oracle \<and> same_flags obs obs' \<and> (\<forall>j. j \<notin> set ids \<longrightarrow> bt_get nodes' j = bt_get nodes j) \<and>
    (\<forall>m'. r = Ok m' \<longrightarrow> (\<forall>t \<in> set batch. \<exists>as. decisions_of m' (pg_candidate t) = decisions_of m (pg_candidate t) @ as \<and>
       list_all2 (decided env g nodes' t) (filter (\<lambda>i. i \<in> set (required_resolvers (pg_command t))) ids) as))"
  using assms(1,3,4)
proof (induction ids arbitrary: obs nodes m)
  case (Cons i ids)
  show ?case
  proof (cases "batch_requests env g i batch")
    case (Err e)
    then show ?thesis using Cons.prems by (auto simp: same_flags_def)
  next
    case built: (Ok reqs)
    show ?thesis
    proof (cases "reqs = []")
      case True
      have none: "i \<notin> set (required_resolvers (pg_command t))" if "t \<in> set batch" for t
        using batch_requests_built[OF built] that by (auto simp: True filter_empty_conv)
      have rest: "distinct ids" "resolve_batch env net g batch ids obs nodes m = (r, obs', nodes')"
        using Cons.prems(2,3) by (simp_all add: built True)
      show ?thesis using Cons.IH[OF Cons.prems(1) rest] none by simp
    next
      case some: False
      obtain r1 nodes1 where one: "prepare_batch env (net i) i reqs nodes = (r1, nodes1)" by fastforce
      note first = prepare_batch_ok[OF Cons.prems(1) one]
      show ?thesis
      proof (cases r1)
        case (Err e)
        then show ?thesis using Cons.prems(3) first by (auto simp: built some one same_flags_def)
      next
        case (Ok as)
        define obs1 where "obs1 = obs\<lparr>so_decisions := so_decisions obs + word_of_nat (length as)\<rparr>"
        have rest: "resolve_batch env net g batch ids obs1 nodes1 (collect_decisions as m) = (r, obs', nodes')"
          using Cons.prems(3) by (simp add: built some one Ok obs1_def)
        have IH: "resolvers_ok env nodes' oracle" "same_flags obs1 obs'" "\<forall>j. j \<notin> set ids \<longrightarrow> bt_get nodes' j = bt_get nodes1 j"
          "\<And>m' t. r = Ok m' \<Longrightarrow> t \<in> set batch \<Longrightarrow> \<exists>as'. decisions_of m' (pg_candidate t) = decisions_of (collect_decisions as m) (pg_candidate t) @ as' \<and>
             list_all2 (decided env g nodes' t) (filter (\<lambda>i. i \<in> set (required_resolvers (pg_command t))) ids) as'"
          using Cons.IH[OF _ _ rest] first Cons.prems(2) by auto
        have i: "bt_get nodes' i = bt_get nodes1 i" using IH(3) Cons.prems(2) by simp
        obtain n where n: "bt_get nodes' i = Some n" "list_all2 (answered env (ro_state (rn_process n))) reqs as"
          using first Ok i by auto
        have "\<exists>as. decisions_of m' (pg_candidate t) = decisions_of m (pg_candidate t) @ as \<and>
            list_all2 (decided env g nodes' t) (filter (\<lambda>i. i \<in> set (required_resolvers (pg_command t))) (i # ids)) as"
          if "r = Ok m'" "t \<in> set batch" for m' t
          using decisions_join[OF batch_decided[OF built n assms(2) that(2)]] IH(4)[OF that] by blast
        then show ?thesis using IH(1-3) first by (auto simp: same_flags_def obs1_def)
      qed
    qed
  qed
qed (auto simp: same_flags_def)


section \<open>The second loop\<close>

lemma decided_statement:
  assumes ok: "resolvers_ok env nodes oracle" and "decided env g nodes t i a" and part: "part \<in> set cell_resolver_partitions" "rp_resolver_id part = i"
  obtains n where "bt_get nodes i = Some n" "rn_partition n = part"
    "decision_ok env (rn_config n) (ro_state (rn_process n)) (pg_candidate t) (da_statement a)"
    "ds_resolver_read_sequence (da_statement a) = pg_resolver_read_sequence t"
    "set (ds_read_conflicts (da_statement a)) = set (clip_ranges (ct_read_conflicts (pg_command t)) (rp_start part) (rp_end part))"
    "set (ds_write_conflicts (da_statement a)) = set (clip_ranges (ct_write_conflicts (pg_command t)) (rp_start part) (rp_end part))"
proof -
  obtain n req where n: "bt_get nodes i = Some n" "answered env (ro_state (rn_process n)) req a"
    and req: "build_resolver_prepare env i (pg_command t) (pg_candidate t) 1 g (pg_resolver_read_sequence t) = Ok req"
    using assms(2) by (auto simp: decided_def)
  have find: "find (\<lambda>part. rp_resolver_id part = i) cell_resolver_partitions = Some part" using part by (simp add: find_partition)
  have fields: "rq_candidate_sequence req = pg_candidate t" "rq_resolver_read_sequence req = pg_resolver_read_sequence t"
    "rq_read_conflicts req = clip_ranges (ct_read_conflicts (pg_command t)) (rp_start part) (rp_end part)"
    "rq_write_conflicts req = clip_ranges (ct_write_conflicts (pg_command t)) (rp_start part) (rp_end part)"
    using req by (auto simp: build_resolver_prepare_def find split: option.split_asm)
  have node: "node_ok env i n" using ok n(1) by (simp add: resolvers_ok_def)
  then have "decision_ok env (rn_config n) (ro_state (rn_process n)) (pg_candidate t) (da_statement a)"
    using n(2) unfolding answered_def node_ok_def resolver_ok_def fields(1) by metis
  moreover have "rn_partition n = part" using node part by (intro partition_id) (simp_all add: node_ok_def)
  ultimately show thesis
    using n by (intro that) (simp_all add: answered_def same_prepare_def canonical_prepare_def fields)
qed

lemma list_all2_partner: "list_all2 P xs ys \<Longrightarrow> x \<in> set xs \<Longrightarrow> \<exists>y \<in> set ys. P x y"
  by (induction rule: list_all2_induct) auto

lemma list_all2_owner: "list_all2 P xs ys \<Longrightarrow> y \<in> set ys \<Longrightarrow> \<exists>x \<in> set xs. P x y"
  by (induction rule: list_all2_induct) auto

lemma decided_owned:
  assumes all: "list_all2 (decided env g nodes t) (required_resolvers (pg_command t)) as" and accept: "combined_status as = Committed"
    and part: "part \<in> set cell_resolver_partitions" "owns part key"
    and r: "r \<in> set (ct_read_conflicts (pg_command t) @ ct_write_conflicts (pg_command t))" "cell_range_contains r key"
  obtains a where "decided env g nodes t (rp_resolver_id part) a" "ds_decision (da_statement a) = Accept"
proof -
  have "rp_resolver_id part \<in> set (required_resolvers (pg_command t))" by (rule required_owned[OF part r])
  then obtain a where a: "a \<in> set as" "decided env g nodes t (rp_resolver_id part) a"
    using list_all2_partner[OF all] by blast
  have "ds_decision (da_statement a) \<noteq> Conflict" using accept a(1) by (auto simp: combined_status_def list_ex_iff split: if_split_asm)
  then show thesis using that a(2) by (cases "ds_decision (da_statement a)") auto
qed

text \<open>A transaction accepted by all its resolvers is accepted by the oracle.\<close>

lemma accepted_centrally:
  assumes ok: "resolvers_ok env nodes oracle" and all: "list_all2 (decided env g nodes t) (required_resolvers (pg_command t)) as"
    and accept: "combined_status as = Committed" and later: "oc_latest_sequence oracle < pg_candidate t"
    and placed: "list_all well_placed (ct_read_conflicts (pg_command t) @ ct_write_conflicts (pg_command t))"
  shows "oracle_decision_at oracle (pg_command t) (pg_resolver_read_sequence t) = Committed"
proof -
  have "\<not> range_overlaps r (cw_range w)" if r: "r \<in> set (ct_read_conflicts (pg_command t))"
    and w: "w \<in> set (oc_writes oracle)" "pg_resolver_read_sequence t < cw_sequence w" for r w
  proof
    assume "range_overlaps r (cw_range w)"
    have ws: "well_placed (cw_range w)" "cw_sequence w \<le> oc_latest_sequence oracle" using ok w by (simp_all add: resolvers_ok_def)
    have "well_placed r" using placed r by (simp add: list_all_iff)
    then obtain key where key: "cell_range_contains r key" "cell_range_contains (cw_range w) key"
      using ws(1) \<open>range_overlaps r (cw_range w)\<close> by (auto simp: well_placed_def overlaps_iff_common)
    obtain part where part: "part \<in> set cell_resolver_partitions" "owns part key" by (rule partition_cover[OF ws(1) key(2)])
    obtain a where a: "decided env g nodes t (rp_resolver_id part) a" "ds_decision (da_statement a) = Accept"
      by (rule decided_owned[OF all accept part _ key(1)]) (simp add: r)
    obtain n where n: "bt_get nodes (rp_resolver_id part) = Some n" "rn_partition n = part"
      "decision_ok env (rn_config n) (ro_state (rn_process n)) (pg_candidate t) (da_statement a)"
      "ds_resolver_read_sequence (da_statement a) = pg_resolver_read_sequence t"
      "set (ds_read_conflicts (da_statement a)) = set (clip_ranges (ct_read_conflicts (pg_command t)) (rp_start part) (rp_end part))"
      by (rule decided_statement[OF ok a(1) part(1) refl])
    obtain r' where r': "r' \<in> set (ds_read_conflicts (da_statement a))" "cell_range_contains r' key"
      using clip_contains[OF part(2) r key(1)] n(5) by blast
    have "rc_minimum_read_sequence (rn_config n) < cw_sequence w" using n(3,4) w(2) by (auto simp: decision_ok_def)
    moreover have "covers n w" using ok n(1) w(1) by (simp add: resolvers_ok_def)
    ultimately obtain w' where w': "w' \<in> set (rs_committed_writes (ro_state (rn_process n)))" "cw_sequence w' = cw_sequence w" "cell_range_contains (cw_range w') key"
      unfolding covers_def n(2) using key(2) part(2) by blast
    have "\<not> range_overlaps r' (cw_range w')"
      using n(3,4) a(2) r'(1) w'(1,2) w(2) ws(2) later unfolding decision_ok_def by auto
    then show False using overlaps_common[OF r'(2) w'(3)] by simp
  qed
  then show ?thesis by (auto simp: oracle_decision_at_def list_ex_iff)
qed

text \<open>The writes of a committed transaction are known to every resolver that owns their keys.\<close>

lemma accepted_covered:
  assumes ok: "resolvers_ok env nodes oracle" and all: "list_all2 (decided env g nodes t) (required_resolvers (pg_command t)) as"
    and accept: "combined_status as = Committed" and w: "w \<in> set (writes_at (pg_candidate t) (ct_write_conflicts (pg_command t)))"
    and n: "bt_get nodes i = Some n"
  shows "covers n w"
  unfolding covers_def
proof (intro impI allI)
  fix key
  assume key: "cell_range_contains (cw_range w) key \<and> owns (rn_partition n) key"
  have r: "cw_range w \<in> set (ct_write_conflicts (pg_command t))" "cw_sequence w = pg_candidate t" using w by (auto simp: writes_at_def)
  have part: "rn_partition n \<in> set cell_resolver_partitions" "rp_resolver_id (rn_partition n) = i"
    using ok n by (auto simp: resolvers_ok_def node_ok_def)
  obtain a where a: "decided env g nodes t i a" "ds_decision (da_statement a) = Accept"
    by (rule decided_owned[OF all accept part(1), of key "cw_range w"]) (use key r part(2) in auto)
  obtain n' where n': "bt_get nodes i = Some n'"
    "decision_ok env (rn_config n') (ro_state (rn_process n')) (pg_candidate t) (da_statement a)"
    "set (ds_write_conflicts (da_statement a)) = set (clip_ranges (ct_write_conflicts (pg_command t)) (rp_start (rn_partition n)) (rp_end (rn_partition n)))"
    by (rule decided_statement[OF ok a(1) part])
  obtain r' where r': "r' \<in> set (ds_write_conflicts (da_statement a))" "cell_range_contains r' key"
    using clip_contains[of "rn_partition n" key "cw_range w"] key r(1) n'(3) by blast
  have "\<lparr>cw_sequence = pg_candidate t, cw_range = r'\<rparr> \<in> set (rs_committed_writes (ro_state (rn_process n)))"
    using n'(1,2) n a(2) r'(1) by (auto simp: decision_ok_def writes_at_def)
  then show "\<exists>w' \<in> set (rs_committed_writes (ro_state (rn_process n))). cw_sequence w' = cw_sequence w \<and> cell_range_contains (cw_range w') key"
    using r' r(2) by (intro bexI[of _ "\<lparr>cw_sequence = pg_candidate t, cw_range = r'\<rparr>"]) simp_all
qed

lemma apply_committed:
  assumes ok: "resolvers_ok env nodes oracle" and all: "list_all2 (decided env g nodes t) (required_resolvers (pg_command t)) as"
    and later: "oc_latest_sequence oracle < pg_candidate t"
    and placed: "list_all well_placed (ct_read_conflicts (pg_command t) @ ct_write_conflicts (pg_command t))"
    and run: "resolver_oracle_apply (pg_command t) (combined_status as) (Some (pg_candidate t)) oracle = Some oracle'"
  shows "resolvers_ok env nodes oracle' \<and> oc_latest_sequence oracle' \<le> pg_candidate t"
proof (cases "combined_status as = Committed")
  case True
  have o: "oc_writes oracle' = oc_writes oracle @ writes_at (pg_candidate t) (ct_write_conflicts (pg_command t))" "oc_latest_sequence oracle' = pg_candidate t"
    using run by (auto simp: resolver_oracle_apply_def True)
  have new: "well_placed (cw_range w) \<and> cw_sequence w = pg_candidate t" if "w \<in> set (writes_at (pg_candidate t) (ct_write_conflicts (pg_command t)))" for w
    using that placed by (auto simp: writes_at_def list_all_iff)
  show ?thesis unfolding resolvers_ok_def o set_append
  proof (intro conjI allI impI ballI)
    fix i n w
    assume "bt_get nodes i = Some n" "w \<in> set (oc_writes oracle) \<union> set (writes_at (pg_candidate t) (ct_write_conflicts (pg_command t)))"
    then show "covers n w" using accepted_covered[OF ok all True] ok by (auto simp: resolvers_ok_def)
  next
    fix w
    assume "w \<in> set (oc_writes oracle) \<union> set (writes_at (pg_candidate t) (ct_write_conflicts (pg_command t)))"
    then show "well_placed (cw_range w)" "cw_sequence w \<le> pg_candidate t"
      using ok new later by (auto simp: resolvers_ok_def)
  qed (use ok in \<open>auto simp: resolvers_ok_def\<close>)
next
  case False
  then have "combined_status as = TxConflict" by (simp add: combined_status_def split: if_split_asm)
  then show ?thesis using run ok later by (auto simp: resolver_oracle_apply_def resolvers_ok_def)
qed

section \<open>Whole runs\<close>

lemma observe_flags:
  assumes "length as = length (required_resolvers (pg_command t))"
    and "combined_status as = Committed \<Longrightarrow> oracle_decision_at oracle (pg_command t) (pg_resolver_read_sequence t) = Committed"
  shows "same_flags obs (observe_pending t as oracle obs)"
proof -
  have "combined_status as = TxConflict \<or> combined_status as = Committed" by (simp add: combined_status_def)
  then show ?thesis using assms by (auto simp: same_flags_def observe_pending_def Let_def)
qed

lemma taken_decided:
  assumes "list_all2 (decided env g nodes t) (required_resolvers (pg_command t)) (decisions_of m (pg_candidate t))"
  shows "combined_status (taken_decisions m (pg_candidate t)) = combined_status (decisions_of m (pg_candidate t))"
    and "length (taken_decisions m (pg_candidate t)) = length (required_resolvers (pg_command t))"
  using list_all2_lengthD[OF assms]
  by (simp_all add: taken_decisions_def decisions_of_def combined_status_def list_ex_iff split: option.split)

lemma commit_pending_step:
  assumes "commit_pending authority g (t # ts) m obs oracle data_read = Some (r, obs', oracle', data_read')"
  obtains "obs' = observe_pending t (taken_decisions m (pg_candidate t)) oracle obs" "oracle' = oracle"
    | oracle1 obs2 read2 where
      "resolver_oracle_apply (pg_command t) (combined_status (taken_decisions m (pg_candidate t))) (Some (pg_candidate t)) oracle = Some oracle1"
      "same_flags (observe_pending t (taken_decisions m (pg_candidate t)) oracle obs) obs2"
      "commit_pending authority g ts (bt_remove (pg_candidate t) m) obs2 oracle1 read2 = Some (r, obs', oracle', data_read')"
proof -
  define as where "as = taken_decisions m (pg_candidate t)"
  define obs1 where "obs1 = observe_pending t as oracle obs"
  note run = assms[unfolded commit_pending.simps Let_def, folded as_def, folded obs1_def]
  note fin = that[folded as_def, folded obs1_def]
  show thesis
  proof (cases "authority (resolved_command g t as)")
    case None
    then show thesis using run by (intro fin(1)) simp_all
  next
    case (Some x)
    obtain status seq_opt where x: "x = (status, seq_opt)" by fastforce
    show thesis
    proof (cases "status = combined_status as")
      case True
      then obtain oracle1 where one: "resolver_oracle_apply (pg_command t) (combined_status as) (Some (pg_candidate t)) oracle = Some oracle1"
        using run by (cases "resolver_oracle_apply (pg_command t) (combined_status as) (Some (pg_candidate t)) oracle") (simp_all add: Some x)
      show thesis
        by (rule fin(2)[OF one _ run[unfolded Some x option.case prod.case one True not_not simp_thms if_False]]) (simp add: same_flags_def)
    qed (use run Some x in \<open>intro fin(1), simp_all\<close>)
  qed
qed

lemma commit_pending_ok:
  assumes "resolvers_ok env nodes oracle" and "batch_placed oracle batch"
    and "\<forall>t \<in> set batch. list_all2 (decided env g nodes t) (required_resolvers (pg_command t)) (decisions_of m (pg_candidate t))"
    and "commit_pending authority g batch m obs oracle data_read = Some (r, obs', oracle', data_read')"
  shows "resolvers_ok env nodes oracle' \<and> same_flags obs obs'"
  using assms
proof (induction batch arbitrary: m obs "oracle" data_read)
  case (Cons t ts)
  define as where "as = taken_decisions m (pg_candidate t)"
  define as0 where "as0 = decisions_of m (pg_candidate t)"
  define obs1 where "obs1 = observe_pending t as oracle obs"
  have t: "list_all2 (decided env g nodes t) (required_resolvers (pg_command t)) as0" "oc_latest_sequence oracle < pg_candidate t"
    "list_all well_placed (ct_read_conflicts (pg_command t) @ ct_write_conflicts (pg_command t))"
    using Cons.prems(2,3) by (simp_all add: as0_def batch_placed_def)
  have as: "combined_status as = combined_status as0" "length as = length (required_resolvers (pg_command t))"
    using taken_decided t(1) by (simp_all add: as_def as0_def)
  have flags: "same_flags obs obs1" unfolding obs1_def
    by (rule observe_flags[OF as(2)]) (rule accepted_centrally[OF Cons.prems(1) t(1) _ t(2,3)], simp add: as(1))
  from Cons.prems(4) show ?case
  proof (cases rule: commit_pending_step)
    case 1
    then show ?thesis using Cons.prems(1) flags by (simp add: obs1_def as_def)
  next
    case (2 oracle1 obs2 read2)
    have new: "resolvers_ok env nodes oracle1" "oc_latest_sequence oracle1 \<le> pg_candidate t"
      using apply_committed[OF Cons.prems(1) t 2(1)[folded as_def, unfolded as(1)]] by simp_all
    have placed: "batch_placed oracle1 ts" using Cons.prems(2) new(2) by (auto simp: batch_placed_def list_all_iff)
    have "decisions_of (bt_remove (pg_candidate t) m) (pg_candidate u) = decisions_of m (pg_candidate u)" if "u \<in> set ts" for u
      using Cons.prems(2) that by (auto simp: decisions_of_def batch_placed_def)
    then have "\<forall>u \<in> set ts. list_all2 (decided env g nodes u) (required_resolvers (pg_command u)) (decisions_of (bt_remove (pg_candidate t) m) (pg_candidate u))"
      using Cons.prems(3) by simp
    from Cons.IH[OF new(1) placed this 2(3)] show ?thesis using flags 2(2) by (simp add: same_flags_def obs1_def as_def)
  qed
qed (simp add: same_flags_def)

lemma execute_batch_ok:
  assumes ok: "resolvers_ok env nodes oracle" and placed: "batch_placed oracle batch"
    and run: "execute_batch env net authority g batch obs nodes oracle data_read = Some (r, obs', nodes', oracle', data_read')"
  shows "resolvers_ok env nodes' oracle' \<and> same_flags obs obs'"
proof -
  obtain r1 obs1 nodes1 where first: "resolve_batch env net g batch [1, 2, 3] obs nodes [] = (r1, obs1, nodes1)" by (metis prod.exhaust)
  have "distinct (map pg_candidate batch)" using placed by (auto simp: batch_placed_def strict_sorted_iff)
  note one = resolve_batch_decides[OF ok this _ first]
  have ok1: "resolvers_ok env nodes1 oracle" "same_flags obs obs1" using one by simp_all
  show ?thesis
  proof (cases r1)
    case (Err e)
    then show ?thesis using run ok1 by (simp add: execute_batch_def first del: resolve_batch.simps)
  next
    case (Ok m)
    have "\<forall>t \<in> set batch. list_all2 (decided env g nodes1 t) (required_resolvers (pg_command t)) (decisions_of m (pg_candidate t))"
    proof
      fix t assume "t \<in> set batch"
      then obtain as where "decisions_of m (pg_candidate t) = as"
        "list_all2 (decided env g nodes1 t) (filter (\<lambda>i. i \<in> set (required_resolvers (pg_command t))) [1, 2, 3]) as"
        using one Ok by (fastforce simp: decisions_of_def simp del: filter.simps)
      then show "list_all2 (decided env g nodes1 t) (required_resolvers (pg_command t)) (decisions_of m (pg_candidate t))"
        unfolding required_filter[symmetric] by simp
    qed
    note second = commit_pending_ok[OF ok1(1) placed this]
    have "commit_pending authority g batch m (obs1\<lparr>so_batches := so_batches obs1 + 1\<rparr>) oracle data_read = Some (r, obs', oracle', data_read') \<and> nodes' = nodes1"
      using run by (auto simp: execute_batch_def first Ok simp del: resolve_batch.simps)
    then show ?thesis using second ok1(2) by (fastforce simp: same_flags_def)
  qed
qed

lemma started_nodes:
  assumes "bt_get (start_resolvers env g floor nodes) i = Some n" and "\<forall>i. bt_get nodes i = None"
  shows "resolver_start env (stateless_config g floor i) (Ok None) = Ok n"
proof -
  have "bt_get (fold (\<lambda>i nodes. case resolver_start env (stateless_config g floor i) (Ok None) of
      Err _ \<Rightarrow> bt_remove i nodes | Ok n \<Rightarrow> bt_insert i n nodes) ids nodes) i = Some n \<Longrightarrow>
      bt_get nodes i = Some n \<or> resolver_start env (stateless_config g floor i) (Ok None) = Ok n" for ids
    by (induction ids arbitrary: nodes) (fastforce split: result.split_asm if_split_asm)+
  from this[of "[1, 2, 3]"] show ?thesis using assms by (simp add: start_resolvers_def)
qed

lemma start_ok:
  assumes "\<forall>w \<in> set (oc_writes oracle). well_placed (cw_range w) \<and> cw_sequence w \<le> oc_latest_sequence oracle"
    and "oc_latest_sequence oracle \<le> floor" and "\<forall>i. bt_get nodes i = None"
  shows "resolvers_ok env (start_resolvers env g floor nodes) oracle"
proof -
  have covered: "covers n w" if "w \<in> set (oc_writes oracle)" "rc_minimum_read_sequence (rn_config n) = floor" for n w
    using assms(1,2) that by (fastforce simp: covers_def)
  have node: "node_ok env i n \<and> rc_minimum_read_sequence (rn_config n) = floor"
    if "resolver_start env (stateless_config g floor i) (Ok None) = Ok n" for i n
    using that by (auto simp: resolver_start_def stateless_config_def node_ok_def find_partition default_ok split: option.split_asm if_split_asm)
  show ?thesis using node[OF started_nodes[OF _ assms(3)]] covered assms(1) unfolding resolvers_ok_def by blast
qed

lemma stopped_empty: "bt_get (stop_all_resolvers nodes) i = None"
  unfolding stop_all_resolvers_def stop_resolver_def[abs_def] using bt.get_del_all[of "map fst nodes" nodes i]
  by (auto simp: bt_get_def map_of_eq_None_iff image_iff split: if_split_asm)

lemma stateless_run_ok:
  assumes "stateless_run env nodes oracle"
  shows "resolvers_ok env nodes oracle"
  using assms
proof induction
  case (run_start g)
  then show ?case by (intro start_ok) (simp_all add: resolver_oracle_default_def)
next
  case (run_stop nodes "oracle" i)
  then show ?case by (auto simp: resolvers_ok_def stop_resolver_def)
next
  case (run_recover nodes "oracle" floor g)
  then show ?case by (intro start_ok) (auto simp: resolvers_ok_def stopped_empty)
qed (simp_all add: call_ok execute_batch_ok[THEN conjunct1])

text \<open>The calls of the composed recovery gates are covered by the runs.\<close>

lemma prepare_one_run:
  assumes "stateless_run env nodes oracle"
  shows "stateless_run env (snd (prepare_one env net i c candidate g rs nodes)) oracle"
proof (cases "build_resolver_prepare env i c candidate 1 g rs")
  case (Ok req)
  have "snd (prepare_one env net i c candidate g rs nodes) = snd (resolver_call env net i (ResolverPrepare req) nodes)"
    by (auto simp: prepare_one_def Ok split: prod.split result.split resolver_response.split)
  then show ?thesis using stateless_run.run_call[OF assms] by simp
qed (simp add: prepare_one_def assms)

lemma resolve_each_run: "stateless_run env nodes oracle \<Longrightarrow> stateless_run env (snd (resolve_each env net c candidate g rs ids nodes)) oracle"
proof (induction ids arbitrary: nodes)
  case (Cons i ids)
  obtain r nodes1 where one: "prepare_one env (net i) i c candidate g rs nodes = (r, nodes1)" by fastforce
  have "stateless_run env nodes1 oracle" using prepare_one_run[OF Cons.prems, of "net i" i c candidate g rs] by (simp add: one)
  then show ?case using Cons.IH[of nodes1] by (auto simp: one split: result.split prod.split)
qed simp

lemma resolve_all_run: "stateless_run env nodes oracle \<Longrightarrow> stateless_run env (snd (resolve_all env net c candidate g rs nodes)) oracle"
  using resolve_each_run[of env nodes "oracle" net c candidate g rs "required_resolvers c"]
  by (auto simp: resolve_all_def resolve_on_def split: result.split prod.split)

text \<open>C7. Partitioned resolution is conservative. Whatever requests the resolvers received before, answered or lost, and however
  often all of them were replaced by empty ones at a floor, a batch leaves the observations of the recovery contract true: every
  transaction its resolvers accept is accepted by a single resolver with the whole history, every conflict of that one is a
  conflict here, and exactly the required resolvers answer.\<close>

theorem partitioned_resolution_is_conservative:
  assumes "stateless_run env nodes oracle" and "batch_placed oracle batch"
    and "execute_batch env net authority system_generation batch obs nodes oracle data_read = Some (r, obs', nodes', oracle', data_read')"
  shows "so_commit_subset obs' = so_commit_subset obs \<and> so_central_conflicts_rejected obs' = so_central_conflicts_rejected obs \<and>
    so_complete_agreement obs' = so_complete_agreement obs"
  using execute_batch_ok[OF stateless_run_ok[OF assms(1)] assms(2,3)] by (simp add: same_flags_def)
end
