(* ===== verification/Resolver_Evidence.thy ===== *)
theory Resolver_Evidence
  imports Resolver_Safety
begin

text \<open>
  What the resolvers promise the rest of the system. The decisions a batch collects are the evidence the transaction
  authority asks for (\<open>verify_partitioned_resolution\<close> of \<open>cell_transaction.rs\<close>), with the same combined decision. A durable
  resolver that answers has its whole state on disk, unless an earlier write of it failed.
\<close>

section \<open>Evidence for the authority\<close>

lemma check_decisions_complete:
  assumes "distinct (attested_ids as)" and "set (attested_ids as) \<inter> seen = {}"
    and "\<forall>a \<in> set as. \<exists>conflicts. bt_get required (ds_resolver_id (da_statement a)) = Some conflicts \<and>
      decision_matches env c r tx_sha map_sha conflicts a \<and> decision_signed env a = Some True"
  shows "check_decisions env c r tx_sha map_sha required as seen combined =
    Some (Ok (seen \<union> set (attested_ids as), if list_ex (\<lambda>a. ds_decision (da_statement a) = Conflict) as then Conflict else combined))"
  using assms
proof (induction as arbitrary: seen combined)
  case (Cons a as)
  obtain conflicts where "bt_get required (ds_resolver_id (da_statement a)) = Some conflicts"
    "decision_matches env c r tx_sha map_sha conflicts a" "decision_signed env a = Some True" using Cons.prems(3) by auto
  moreover have "ds_resolver_id (da_statement a) \<notin> seen" using Cons.prems(2) by simp
  ultimately show ?case using Cons by (simp add: insert_commute)
qed simp

lemma remdups_adj_idem: "remdups_adj (remdups_adj xs) = remdups_adj xs"
proof (induction xs rule: remdups_adj.induct)
  case (3 x y xs)
  obtain zs where "remdups_adj (y # xs) = y # zs" using remdups_adj_Cons_alt[of y xs] by metis
  then show ?case using 3 by simp
qed simp_all

lemma sort_dedup_idem [simp]: "sort_dedup (sort_dedup xs) = sort_dedup xs"
  by (simp add: sort_dedup_def sorted_sort_id sorted_remdups_adj remdups_adj_idem)

lemma clip_sorted [simp]: "sort_dedup (clip_ranges ranges s e) = clip_ranges ranges s e"
  by (simp add: clip_ranges_def Let_def)

lemma clip_clipped: "clip_ranges ranges (rp_start part) (rp_end part) = clipped_conflicts ranges part"
  by (simp add: clip_ranges_def clipped_conflicts_def)

lemma required_touched: "required_resolvers c = touched_resolvers c"
  by (simp add: required_resolvers_def touched_resolvers_def Let_def)

lemma required_conflicts_get:
  assumes "i \<in> set (required_resolvers c)"
  obtains part where "part \<in> set cell_resolver_partitions" "rp_resolver_id part = i"
    "bt_get (required_conflicts c) i = Some (clipped_conflicts (ct_read_conflicts c) part, clipped_conflicts (ct_write_conflicts c) part)"
proof -
  have "i \<in> fst ` set (required_conflicts c)" using assms unfolding required_touched by (simp flip: required_keys)
  then obtain cs where cs: "(i, cs) \<in> set (required_conflicts c)" by auto
  have "distinct (map fst (required_conflicts c))" by (simp add: required_keys touched_distinct)
  then have "bt_get (required_conflicts c) i = Some cs" using cs by (simp add: bt_get_def)
  then show thesis using cs that by (auto simp: required_conflicts_eq)
qed

lemma signed_verifies:
  assumes "\<forall>seed pk bs. cv_public_key env seed = Some pk \<longrightarrow> cv_verify env pk bs (cv_sign env seed bs)"
    and "sign_cell_resolver_decision env (da_statement a) = Some a"
  shows "decision_signed env a = Some True"
  using assms(2)
  by (cases a) (auto simp: sign_cell_resolver_decision_def decision_signed_def cell_resolver_public_key_def Let_def assms(1) split: option.split_asm)

text \<open>The read sequence as the authority reads it: zero stands for the read version.\<close>

definition read_sequence_agrees :: "pending_transaction \<Rightarrow> bool" where
  "read_sequence_agrees t \<longleftrightarrow> pg_resolver_read_sequence t \<noteq> 0 \<or> crv_sequence (ct_read_version (pg_command t)) = 0"

lemma decided_matches:
  assumes ok: "resolvers_ok env nodes oracle" and a: "decided env g nodes t i a" and part: "part \<in> set cell_resolver_partitions" "rp_resolver_id part = i"
  obtains tx_sha map_sha where "cell_partitioned_transaction_sha256 (rv_cell env) (pg_command t) = Some tx_sha"
    "cell_resolver_map_sha256 (rv_cell env) = Some map_sha" "ds_resolver_id (da_statement a) = i" "pg_candidate t \<noteq> 0"
    "sign_cell_resolver_decision (rv_cell env) (da_statement a) = Some a"
    "\<And>as. decision_matches (rv_cell env) (resolved_command g t as) (resolution_of g t as) tx_sha map_sha
       (clipped_conflicts (ct_read_conflicts (pg_command t)) part, clipped_conflicts (ct_write_conflicts (pg_command t)) part) a
       \<longleftrightarrow> read_sequence_agrees t"
proof -
  obtain n req where n: "bt_get nodes i = Some n" "answered env (ro_state (rn_process n)) req a"
    and req: "build_resolver_prepare env i (pg_command t) (pg_candidate t) 1 g (pg_resolver_read_sequence t) = Ok req"
    using a by (auto simp: decided_def)
  have find: "find (\<lambda>part. rp_resolver_id part = i) cell_resolver_partitions = Some part" using part by (simp add: find_partition)
  obtain tx_sha where sha: "cell_partitioned_transaction_sha256 (rv_cell env) (pg_command t) = Some tx_sha"
    using req by (auto simp: build_resolver_prepare_def find split: option.split_asm)
  have same: "same_prepare (da_statement a) (canonical_prepare req)" using n(2) by (simp add: answered_def)
  have node: "node_ok env i n" using ok n(1) by (simp add: resolvers_ok_def)
  have candidate: "rq_candidate_sequence req = pg_candidate t" using req by (auto simp: build_resolver_prepare_def find sha)
  have dec: "decision_ok env (rn_config n) (ro_state (rn_process n)) (pg_candidate t) (da_statement a)"
    using n(2) node unfolding answered_def node_ok_def resolver_ok_def candidate by metis
  have "decision_matches (rv_cell env) (resolved_command g t as) (resolution_of g t as) tx_sha (ds_map_sha256 (da_statement a))
       (clipped_conflicts (ct_read_conflicts (pg_command t)) part, clipped_conflicts (ct_write_conflicts (pg_command t)) part) a
       \<longleftrightarrow> read_sequence_agrees t" for as
    using same dec node req
    by (auto simp: decision_matches_def Let_def resolution_of_def resolved_command_def resolution_generation_def resolution_read_sequence_def
        same_prepare_def canonical_prepare_def build_resolver_prepare_def find sha decision_ok_def node_ok_def read_sequence_agrees_def clip_clipped[symmetric])
  then show thesis using that[OF sha] dec node n(2) by (auto simp: decision_ok_def node_ok_def answered_def)
qed


lemma collected_evidence:
  assumes "stateless_run env nodes oracle" and "distinct (map pg_candidate batch)"
    and "resolve_batch env net g batch [1, 2, 3] obs nodes [] = (Ok m, obs', nodes')" and "t \<in> set batch"
  shows "resolvers_ok env nodes' oracle \<and> list_all2 (decided env g nodes' t) (required_resolvers (pg_command t)) (taken_decisions m (pg_candidate t)) \<and>
    attested_ids (taken_decisions m (pg_candidate t)) = required_resolvers (pg_command t)"
proof -
  note decides = resolve_batch_decides[OF stateless_run_ok[OF assms(1)] assms(2) _ assms(3)]
  have ok: "resolvers_ok env nodes' oracle" using decides by simp
  obtain as where "decisions_of m (pg_candidate t) = as"
    "list_all2 (decided env g nodes' t) (filter (\<lambda>i. i \<in> set (required_resolvers (pg_command t))) [1, 2, 3]) as"
    using decides assms(4) by (fastforce simp: decisions_of_def simp del: filter.simps)
  then have all: "list_all2 (decided env g nodes' t) (required_resolvers (pg_command t)) (decisions_of m (pg_candidate t))"
    unfolding required_filter[symmetric] by simp
  have id: "ds_resolver_id (da_statement a) = i" if "decided env g nodes' t i a" "i \<in> set (required_resolvers (pg_command t))" for i a
    using that(2) by (rule required_conflicts_get) (rule decided_matches[OF ok that(1)])
  have ids: "attested_ids (decisions_of m (pg_candidate t)) = required_resolvers (pg_command t)"
    using all id by (auto simp: list_all2_conv_all_nth intro!: nth_equalityI)
  moreover have "sorted (required_resolvers c)" for c by (simp add: required_resolvers_def cell_resolver_partitions_def word_le_nat_alt)
  ultimately have "taken_decisions m (pg_candidate t) = decisions_of m (pg_candidate t)"
    unfolding taken_decisions_def decisions_of_def[symmetric] by (intro sort_key_id_if_sorted) simp
  then show ?thesis using ok all ids by simp
qed

text \<open>One attestation of the evidence, as the authority looks at it.\<close>

lemma evidence_item:
  assumes ok: "resolvers_ok env nodes oracle" and a: "decided env g nodes t i a" "i \<in> set (required_resolvers (pg_command t))"
    and sha: "cell_partitioned_transaction_sha256 (rv_cell env) (pg_command t) = Some tx_sha" "cell_resolver_map_sha256 (rv_cell env) = Some map_sha"
  obtains conflicts where "bt_get (required_conflicts (pg_command t)) (ds_resolver_id (da_statement a)) = Some conflicts"
    "\<And>as. decision_matches (rv_cell env) (resolved_command g t as) (resolution_of g t as) tx_sha map_sha conflicts a \<longleftrightarrow> read_sequence_agrees t"
    "sign_cell_resolver_decision (rv_cell env) (da_statement a) = Some a"
proof -
  obtain part where part: "part \<in> set cell_resolver_partitions" "rp_resolver_id part = i"
    and get: "bt_get (required_conflicts (pg_command t)) i = Some (clipped_conflicts (ct_read_conflicts (pg_command t)) part, clipped_conflicts (ct_write_conflicts (pg_command t)) part)"
    by (rule required_conflicts_get[OF a(2)])
  show thesis by (rule decided_matches[OF ok a(1) part]) (rule that, use get sha in auto)
qed

lemma evidence_items:
  assumes ok: "resolvers_ok env nodes oracle" and all: "list_all2 (decided env g nodes t) (required_resolvers (pg_command t)) as"
    and required: "required_resolvers (pg_command t) \<noteq> []"
    and sign: "\<forall>seed pk bs. cv_public_key (rv_cell env) seed = Some pk \<longrightarrow> cv_verify (rv_cell env) pk bs (cv_sign (rv_cell env) seed bs)"
  obtains tx_sha map_sha where "cell_partitioned_transaction_sha256 (rv_cell env) (pg_command t) = Some tx_sha"
    "cell_resolver_map_sha256 (rv_cell env) = Some map_sha" "pg_candidate t \<noteq> 0"
    "\<forall>a \<in> set as. \<exists>conflicts. bt_get (required_conflicts (pg_command t)) (ds_resolver_id (da_statement a)) = Some conflicts \<and>
      (decision_matches (rv_cell env) (resolved_command g t as) (resolution_of g t as) tx_sha map_sha conflicts a \<longleftrightarrow> read_sequence_agrees t) \<and>
      decision_signed (rv_cell env) a = Some True"
proof -
  obtain i0 where i0: "i0 \<in> set (required_resolvers (pg_command t))" using required by (cases "required_resolvers (pg_command t)") auto
  obtain a0 where a0: "decided env g nodes t i0 a0" using list_all2_partner[OF all i0] by blast
  obtain part where part: "part \<in> set cell_resolver_partitions" "rp_resolver_id part = i0" by (rule required_conflicts_get[OF i0])
  obtain tx_sha map_sha where sha: "cell_partitioned_transaction_sha256 (rv_cell env) (pg_command t) = Some tx_sha"
    "cell_resolver_map_sha256 (rv_cell env) = Some map_sha" and candidate: "pg_candidate t \<noteq> 0"
    by (rule decided_matches[OF ok a0 part])
  have "\<exists>conflicts. bt_get (required_conflicts (pg_command t)) (ds_resolver_id (da_statement a)) = Some conflicts \<and>
      (decision_matches (rv_cell env) (resolved_command g t as) (resolution_of g t as) tx_sha map_sha conflicts a \<longleftrightarrow> read_sequence_agrees t) \<and>
      decision_signed (rv_cell env) a = Some True" if a: "a \<in> set as" for a
  proof -
    obtain i where i: "decided env g nodes t i a" "i \<in> set (required_resolvers (pg_command t))" using list_all2_owner[OF all a] by blast
    show ?thesis by (rule evidence_item[OF ok i sha]) (use signed_verifies[OF sign] in blast)
  qed
  then show thesis using that[OF sha candidate] by blast
qed

text \<open>C23. The decisions a batch collects are evidence the authority accepts. For a transaction that touches a partition the
  authority verifies all of them and combines them to the same outcome, except that a resolver read sequence of zero is taken for
  the read version of the transaction: when that is not zero the evidence is refused.\<close>

theorem resolver_evidence_is_accepted:
  assumes "stateless_run env nodes oracle" and "distinct (map pg_candidate batch)"
    and "resolve_batch env net system_generation batch [1, 2, 3] obs nodes [] = (Ok m, obs', nodes')"
    and t: "t \<in> set batch" and required: "required_resolvers (pg_command t) \<noteq> []"
    and sign: "\<forall>seed pk bs. cv_public_key (rv_cell env) seed = Some pk \<longrightarrow> cv_verify (rv_cell env) pk bs (cv_sign (rv_cell env) seed bs)"
  shows "verify_partitioned_resolution (rv_cell env) (resolved_command system_generation t (taken_decisions m (pg_candidate t)))
      (resolution_of system_generation t (taken_decisions m (pg_candidate t))) =
    Some (if pg_resolver_read_sequence t \<noteq> 0 \<or> crv_sequence (ct_read_version (pg_command t)) = 0
          then Ok (if combined_status (taken_decisions m (pg_candidate t)) = Committed then Accept else Conflict) else Err ())"
proof -
  define as where "as = taken_decisions m (pg_candidate t)"
  define r where "r = resolution_of system_generation t as"
  define c where "c = resolved_command system_generation t as"
  have ok: "resolvers_ok env nodes' oracle" and all: "list_all2 (decided env system_generation nodes' t) (required_resolvers (pg_command t)) as"
    and ids: "attested_ids as = touched_resolvers (pg_command t)"
    using collected_evidence[OF assms(1-4)] by (simp_all add: as_def required_touched)
  obtain tx_sha map_sha where sha: "cell_partitioned_transaction_sha256 (rv_cell env) (pg_command t) = Some tx_sha"
    "cell_resolver_map_sha256 (rv_cell env) = Some map_sha" and candidate: "pg_candidate t \<noteq> 0"
    and items: "\<forall>a \<in> set as. \<exists>conflicts. bt_get (required_conflicts (pg_command t)) (ds_resolver_id (da_statement a)) = Some conflicts \<and>
      (decision_matches (rv_cell env) c r tx_sha map_sha conflicts a \<longleftrightarrow> read_sequence_agrees t) \<and> decision_signed (rv_cell env) a = Some True"
    unfolding c_def r_def by (rule evidence_items[OF ok all required sign])
  have c: "required_conflicts c = required_conflicts (pg_command t)" "cell_partitioned_transaction_sha256 (rv_cell env) c = Some tx_sha"
    using sha(1) by (simp_all add: c_def resolved_command_def required_conflicts_def cell_partitioned_transaction_sha256_def)
  have r: "pn_map_epoch r = 1" "pn_candidate_sequence r = pg_candidate t" "pn_attestations r = as" by (simp_all add: r_def resolution_of_def)
  have size: "length (required_conflicts (pg_command t)) = length as" "as \<noteq> []"
    using arg_cong[OF required_keys[of "pg_command t"], of length] arg_cong[OF ids, of length] required by (auto simp: required_touched)
  have card: "card (set (attested_ids as)) = length as" using touched_distinct[of "pg_command t"] unfolding ids[symmetric] by (metis distinct_card length_map)
  have check: "check_decisions (rv_cell env) c r tx_sha map_sha (required_conflicts (pg_command t)) as {} Accept =
      Some (if read_sequence_agrees t then Ok (set (attested_ids as), if combined_status as = Committed then Accept else Conflict) else Err ())"
  proof (cases "read_sequence_agrees t")
    case True
    then show ?thesis using check_decisions_complete[of as "{}"] items touched_distinct[of "pg_command t", folded ids] by (auto simp: combined_status_def)
  next
    case False
    then show ?thesis using items size(2) by (cases as) auto
  qed
  have "required_conflicts (pg_command t) \<noteq> []" using size by auto
  then show ?thesis
    unfolding as_def[symmetric] c_def[symmetric] r_def[symmetric] verify_partitioned_resolution_def Let_def c r sha(2) option.case check
      read_sequence_agrees_def[symmetric]
    using card size(1) candidate by auto
qed

section \<open>Durable resolvers\<close>

definition durable_config :: "resolver_config \<Rightarrow> bool" where
  "durable_config config \<longleftrightarrow> \<not> rc_memory_only config \<and> \<not> rc_acknowledge_before_durable config"

definition state_on_disk :: "resolver_env \<Rightarrow> resolver_process \<Rightarrow> bool" where
  "state_on_disk env p \<longleftrightarrow> load_resolver_state env (Ok (ro_file p)) = Ok (ro_state p)"

definition state_json_faithful :: "resolver_env \<Rightarrow> bool" where
  "state_json_faithful env \<longleftrightarrow> (\<forall>s bs. rv_json_state env s = Some bs \<longrightarrow> rv_parse_state env bs = Some s)"

lemma persist_result:
  assumes "persist_resolver_state env d p = (r, p')"
  shows "ro_state p' = ro_state p \<and> (\<forall>u. r = Ok u \<longrightarrow> state_json_faithful env \<longrightarrow> state_on_disk env p') \<and>
    (d = NotPublished \<longrightarrow> ro_file p' = ro_file p)"
  using assms by (cases d) (auto simp: persist_resolver_state_def state_on_disk_def state_json_faithful_def load_resolver_state_def split: option.split_asm)

text \<open>A prepare of a durable resolver: refused, a recorded decision repeated, or a new one recorded and then written.\<close>

lemma prepare_durable_cases:
  assumes durable: "durable_config config" and run: "apply_prepare env config part disk req p = Some (r, p')"
    and q: "q = canonical_prepare req"
  obtains (same) e where "p' = p" "r = Err e" "e \<noteq> ResolverIo"
    | (again) x a where "p' = p" "r = Ok a" "bt_get (rs_prepared (ro_state p)) (rq_candidate_sequence q) = Some x" "da_statement a = pr_statement x"
    | (fresh) st a r' where "prepare_valid config q" "\<not> list_ex (outside_owned part) (rq_read_conflicts q @ rq_write_conflicts q)"
        "same_prepare st q" "da_statement a = st" "sign_cell_resolver_decision (rv_cell env) st = Some a"
        "persist_resolver_state env (disk (rq_candidate_sequence q)) (p\<lparr>ro_state := record_decision config st (ro_state p)\<rparr>) = (r', p')"
        "r = (case r' of Ok _ \<Rightarrow> Ok a | Err e \<Rightarrow> Err e)"
proof -
  note run1 = run[unfolded apply_prepare_def Let_def q[symmetric]]
  define bad where "bad \<longleftrightarrow> \<not> prepare_valid config q \<or> list_ex (outside_owned part) (rq_read_conflicts q @ rq_write_conflicts q)"
  show thesis
  proof (cases bad)
    case True
    then show thesis using run1 by (auto simp: bad_def intro: same split: if_split_asm)
  next
    case good: False
    then have good': "prepare_valid config q" "\<not> list_ex (outside_owned part) (rq_read_conflicts q @ rq_write_conflicts q)" by (simp_all add: bad_def)
    note run2 = run1[simplified good' not_True_eq_False if_False]
    show thesis
    proof (cases "bt_get (rs_prepared (ro_state p)) (rq_candidate_sequence q)")
      case (Some x)
      then show thesis using run2 by (auto dest: signed_statement intro: same again split: if_split_asm option.split_asm)
    next
      case None
      note run3 = run2[unfolded None option.case]
      show thesis
      proof (cases "list_ex (\<lambda>x. \<not> pr_finalized x) (bt_values (rs_prepared (ro_state p))) \<or> rq_candidate_sequence q \<le> rs_last_candidate (ro_state p)")
        case True
        then show thesis using run3 durable by (auto simp: durable_config_def intro: same split: if_split_asm)
      next
        case late: False
        obtain map_sha where map: "cell_resolver_map_sha256 (rv_cell env) = Some map_sha"
          using run3 late by (cases "cell_resolver_map_sha256 (rv_cell env)") simp_all
        define st where "st = prepare_statement config map_sha q
          (resolver_decision (rs_committed_writes (ro_state p)) (rq_resolver_read_sequence q) (rq_read_conflicts q))"
        have st: "same_prepare st q" by (simp add: st_def prepare_statement_def same_prepare_def)
        show thesis
        proof (cases "sign_cell_resolver_decision (rv_cell env) st")
          case None
          then show thesis using run3 late by (auto simp: map st_def[symmetric] intro: same)
        next
          case (Some a)
          obtain r' p1 where "persist_resolver_state env (disk (rq_candidate_sequence q)) (p\<lparr>ro_state := record_decision config st (ro_state p)\<rparr>) = (r', p1)"
            by fastforce
          then show thesis using run3 late durable Some signed_statement[OF Some] good' st
            by (cases r') (auto simp: map st_def[symmetric] durable_config_def intro: fresh)
        qed
      qed
    qed
  qed
qed

lemma recorded_statement:
  "bt_get (rs_prepared (record_decision config st s)) (ds_candidate_sequence st) = Some \<lparr>pr_statement = st, pr_finalized = rc_memory_only config\<rparr>"
  by (simp add: record_decision_def Let_def)

lemma prepare_durable:
  assumes "durable_config config" and "state_json_faithful env" and "state_on_disk env p"
    and "apply_prepare env config part disk req p = Some (Ok a, p')"
  shows "state_on_disk env p' \<and> (\<exists>x. bt_get (rs_prepared (ro_state p')) (rq_candidate_sequence req) = Some x \<and> pr_statement x = da_statement a)"
proof -
  define q where "q = canonical_prepare req"
  have q: "rq_candidate_sequence q = rq_candidate_sequence req" by (simp add: q_def canonical_prepare_def)
  from assms(1,4) q_def show ?thesis
  proof (cases rule: prepare_durable_cases)
    case (again x a')
    then show ?thesis using assms(3) q by auto
  next
    case (fresh st a' r')
    obtain u where "r' = Ok u" and a: "a = a'" using fresh(7) by (cases r') auto
    then have "state_on_disk env p'" "ro_state p' = record_decision config st (ro_state p)"
      using persist_result[OF fresh(6)] assms(2) by simp_all
    moreover have "ds_candidate_sequence st = rq_candidate_sequence req" using fresh(3) q by (simp add: same_prepare_def)
    ultimately show ?thesis using recorded_statement[of config st "ro_state p"] fresh(4) a by auto
  qed simp
qed

lemma batch_durable:
  assumes "durable_config config" and "state_json_faithful env" and "state_on_disk env p"
    and "apply_batch env config part disk reqs p = Some (Ok as, p')"
  shows "state_on_disk env p'"
  using assms(3,4)
proof (induction reqs arbitrary: p as)
  case (Cons req reqs)
  then obtain a p1 as' where "apply_prepare env config part disk req p = Some (Ok a, p1)" "apply_batch env config part disk reqs p1 = Some (Ok as', p')"
    by (auto split: option.split_asm result.split_asm prod.split_asm)
  then show ?case using prepare_durable[OF assms(1,2) Cons.prems(1)] Cons.IH by blast
qed simp

lemma finalize_durable:
  assumes "state_json_faithful env" and "state_on_disk env p" and "apply_finalize env config disk req p = (Ok u, p')"
  shows "state_on_disk env p'"
  using assms persist_result
  by (fastforce simp: apply_finalize_def Let_def split: if_split_asm option.split_asm result.split_asm)

text \<open>C24. A durable resolver answers only what it has on disk. From a state that a restart would read back, every request that
  is answered leaves such a state, and a decision it answers with is in it.\<close>

theorem answered_decisions_are_on_disk:
  assumes "durable_config config" and "state_json_faithful env" and "load_resolver_state env (Ok (ro_file p)) = Ok (ro_state p)"
    and "apply_resolver_request env config part disk req p = Some (Ok response, p')"
  shows "load_resolver_state env (Ok (ro_file p')) = Ok (ro_state p') \<and>
    (\<forall>q a. req = ResolverPrepare q \<and> response = Prepared a \<longrightarrow>
       (\<exists>x. bt_get (rs_prepared (ro_state p')) (rq_candidate_sequence q) = Some x \<and> pr_statement x = da_statement a))"
proof -
  have disk: "state_on_disk env p" using assms(3) by (simp add: state_on_disk_def)
  show ?thesis
  proof (cases req)
    case (ResolverPrepare q)
    then obtain r where r: "apply_prepare env config part disk q p = Some (r, p')" "(case r of Err e \<Rightarrow> Err e | Ok a \<Rightarrow> Ok (Prepared a)) = Ok response"
      using assms(4) by auto
    then obtain a where "apply_prepare env config part disk q p = Some (Ok a, p')" "response = Prepared a" by (cases r) auto
    then show ?thesis using prepare_durable[OF assms(1,2) disk] ResolverPrepare by (simp add: state_on_disk_def)
  next
    case (ResolverPrepareBatch reqs)
    then obtain r where r: "apply_batch env config part disk reqs p = Some (r, p')" "(case r of Err e \<Rightarrow> Err e | Ok as \<Rightarrow> Ok (PreparedBatch as)) = Ok response"
      using assms(4) by (auto split: if_split_asm)
    then obtain as where "apply_batch env config part disk reqs p = Some (Ok as, p')" by (cases r) auto
    then show ?thesis using batch_durable[OF assms(1,2) disk] ResolverPrepareBatch by (simp add: state_on_disk_def)
  next
    case (ResolverFinalize q)
    then show ?thesis using assms(4) finalize_durable[OF assms(2) disk] by (auto simp: state_on_disk_def split: prod.split_asm result.split_asm)
  qed (use assms(3,4) in simp)
qed

text \<open>C40. A decision that could not be written is acknowledged on retry. When the file is not replaced, the first prepare reports
  the error but keeps the decision in memory; the same prepare is then answered with a signed decision although nothing was written,
  and a restart reads back a state without it.\<close>

theorem unsaved_decision_is_acknowledged:
  assumes durable: "durable_config config" and "load_resolver_state env (Ok (ro_file p)) = Ok (ro_state p)"
    and failed: "disk (rq_candidate_sequence req) = NotPublished"
    and run: "apply_prepare env config part disk req p = Some (Err ResolverIo, p')"
  shows "(\<exists>a. apply_prepare env config part disk' req p' = Some (Ok a, p')) \<and> load_resolver_state env (Ok (ro_file p')) = Ok (ro_state p)"
proof -
  define q where "q = canonical_prepare req"
  have q: "rq_candidate_sequence q = rq_candidate_sequence req" by (simp add: q_def canonical_prepare_def)
  from durable run q_def show ?thesis
  proof (cases rule: prepare_durable_cases)
    case (fresh st a r')
    have p': "ro_state p' = record_decision config st (ro_state p)" "ro_file p' = ro_file p"
      using persist_result[OF fresh(6)] failed q by simp_all
    have "ds_candidate_sequence st = rq_candidate_sequence q" using fresh(3) by (simp add: same_prepare_def)
    then have "bt_get (rs_prepared (ro_state p')) (rq_candidate_sequence q) = Some \<lparr>pr_statement = st, pr_finalized = rc_memory_only config\<rparr>"
      using recorded_statement[of config st "ro_state p"] p'(1) by simp
    then have "apply_prepare env config part disk' req p' = Some (Ok a, p')"
      using fresh(1,2,3,5) unfolding apply_prepare_def Let_def q_def[symmetric] by simp
    then show ?thesis using p' assms(2) by simp
  qed simp_all
qed

end
