(* ===== verification/Resolver_Runs.thy ===== *)
theory Resolver_Runs
  imports Resolver_Evidence
begin

text \<open>Concrete runs of the resolvers, at which their properties apply.\<close>

definition demo_renv :: resolver_env where
  "demo_renv = \<lparr>rv_cell = demo_cell_env, rv_json_state = (\<lambda>_. None), rv_parse_state = (\<lambda>_. None)\<rparr>"

text \<open>A write of the key 5, and a transaction that reads it at sequence 0 and writes the key 96 of the second partition.\<close>

definition demo_batch :: "pending_transaction list" where
  "demo_batch = [\<lparr>pg_command = demo_command 1 0 [] 5, pg_candidate = 1, pg_resolver_read_sequence = 0\<rparr>,
     \<lparr>pg_command = demo_command 1 0 [range_point [5]] 96, pg_candidate = 2, pg_resolver_read_sequence = 0\<rparr>]"

definition demo_nodes :: resolver_nodes where
  "demo_nodes = start_resolvers demo_renv 1 0 []"

text \<open>An authority that follows the evidence.\<close>

definition demo_commit_authority :: "cell_transaction_command \<Rightarrow> (cell_transaction_status \<times> u64 option) option" where
  "demo_commit_authority c = map_option (\<lambda>r. (combined_status (pn_attestations r), None)) (ct_partitioned_resolution c)"

lemma demo_run_start: "stateless_run demo_renv demo_nodes resolver_oracle_default"
  unfolding demo_nodes_def by (rule stateless_run.run_start)

lemma demo_batch_placed: "batch_placed resolver_oracle_default demo_batch"
  by code_simp

lemma demo_executed:
  "(case execute_batch demo_renv (\<lambda>_. Delivered) demo_commit_authority 1 demo_batch observations_default demo_nodes resolver_oracle_default 0 of
      Some (Ok _, _, _, oracle', _) \<Rightarrow> oc_committed oracle' = 1 \<and> oc_conflicts oracle' = 1
    | _ \<Rightarrow> False)"
  by code_simp

theorem partitioned_resolution_is_conservative_witness:
  "\<exists>obs' nodes' oracle' data_read'.
     execute_batch demo_renv (\<lambda>_. Delivered) demo_commit_authority 1 demo_batch observations_default demo_nodes resolver_oracle_default 0 =
       Some (Ok (), obs', nodes', oracle', data_read') \<and>
     oc_committed oracle' = 1 \<and> oc_conflicts oracle' = 1 \<and>
     so_commit_subset obs' \<and> so_central_conflicts_rejected obs' \<and> so_complete_agreement obs'"
proof -
  obtain obs' nodes' oracle' data_read' where
    run: "execute_batch demo_renv (\<lambda>_. Delivered) demo_commit_authority 1 demo_batch observations_default demo_nodes resolver_oracle_default 0 =
      Some (Ok (), obs', nodes', oracle', data_read')" and "oc_committed oracle' = 1" "oc_conflicts oracle' = 1"
    using demo_executed by (auto split: option.split_asm prod.split_asm result.split_asm)
  moreover have "so_commit_subset observations_default" "so_central_conflicts_rejected observations_default" "so_complete_agreement observations_default"
    by (simp_all add: observations_default_def)
  ultimately show ?thesis using partitioned_resolution_is_conservative[OF demo_run_start demo_batch_placed run] by blast
qed

lemma demo_decided:
  "(case resolve_batch demo_renv (\<lambda>_. Delivered) 1 demo_batch [1, 2, 3] observations_default demo_nodes [] of
      (Ok m, _, _) \<Rightarrow> combined_status (taken_decisions m 2) = TxConflict
    | _ \<Rightarrow> False)"
  by code_simp

lemma demo_signatures:
  "\<forall>seed pk bs. cv_public_key (rv_cell demo_renv) seed = Some pk \<longrightarrow> cv_verify (rv_cell demo_renv) pk bs (cv_sign (rv_cell demo_renv) seed bs)"
  by (simp add: demo_renv_def demo_cell_env_def)

theorem resolver_evidence_is_accepted_witness:
  "\<exists>m obs' nodes'. resolve_batch demo_renv (\<lambda>_. Delivered) 1 demo_batch [1, 2, 3] observations_default demo_nodes [] = (Ok m, obs', nodes') \<and>
     verify_partitioned_resolution (rv_cell demo_renv) (resolved_command 1 (demo_batch ! 1) (taken_decisions m 2))
       (resolution_of 1 (demo_batch ! 1) (taken_decisions m 2)) = Some (Ok Conflict)"
proof -
  obtain m obs' nodes' where
    run: "resolve_batch demo_renv (\<lambda>_. Delivered) 1 demo_batch [1, 2, 3] observations_default demo_nodes [] = (Ok m, obs', nodes')"
    and status: "combined_status (taken_decisions m 2) = TxConflict"
    using demo_decided by (auto simp del: resolve_batch.simps split: prod.split_asm result.split_asm)
  have t: "distinct (map pg_candidate demo_batch)" "demo_batch ! 1 \<in> set demo_batch" "pg_candidate (demo_batch ! 1) = 2"
    "crv_sequence (ct_read_version (pg_command (demo_batch ! 1))) = 0"
    by (simp_all add: demo_batch_def demo_command_def)
  have "required_resolvers (pg_command (demo_batch ! 1)) \<noteq> []" by code_simp
  from resolver_evidence_is_accepted[OF demo_run_start t(1) run t(2) this demo_signatures, unfolded t(3,4) status]
  have "verify_partitioned_resolution (rv_cell demo_renv) (resolved_command 1 (demo_batch ! 1) (taken_decisions m 2))
       (resolution_of 1 (demo_batch ! 1) (taken_decisions m 2)) = Some (Ok Conflict)" by simp
  with run show ?thesis by blast
qed

section \<open>A durable resolver\<close>

definition demo_durable :: resolver_config where
  "demo_durable = (stateless_config 1 0 1)\<lparr>rc_memory_only := False\<rparr>"

definition demo_prepare_request :: resolver_prepare where
  "demo_prepare_request = \<lparr>rq_cell_id = CELL_ID, rq_tenant_id = TENANT_ID, rq_generation = 1, rq_map_epoch = 1, rq_transaction_identity = (1, 1),
     rq_candidate_sequence = 1, rq_read_version = \<lparr>crv_generation = 1, crv_sequence = 0\<rparr>, rq_resolver_read_sequence = 0,
     rq_transaction_sha256 = replicate 32 0, rq_read_conflicts = [], rq_write_conflicts = [range_point [5]]\<rparr>"

abbreviation demo_part :: cell_resolver_partition where
  "demo_part \<equiv> hd cell_resolver_partitions"

abbreviation demo_process :: resolver_process where
  "demo_process \<equiv> \<lparr>ro_state = resolver_state_default, ro_file = None\<rparr>"

definition demo_saved :: resolver_state where
  "demo_saved = record_decision demo_durable (prepare_statement demo_durable (replicate 32 0) demo_prepare_request Accept) resolver_state_default"

text \<open>Only the state after the request can be written, as one byte.\<close>

definition demo_denv :: resolver_env where
  "demo_denv = demo_renv\<lparr>rv_json_state := (\<lambda>s. if s = demo_saved then Some [1] else None), rv_parse_state := (\<lambda>bs. Some demo_saved)\<rparr>"

lemma demo_prepared:
  "(case apply_resolver_request demo_denv demo_durable demo_part (\<lambda>_. PublishedSynced) (ResolverPrepare demo_prepare_request) demo_process of
      Some (Ok (Prepared a), p') \<Rightarrow> ro_file p' = Some [1] | _ \<Rightarrow> False)"
  by code_simp

theorem answered_decisions_are_on_disk_witness:
  "\<exists>a p' s. apply_resolver_request demo_denv demo_durable demo_part (\<lambda>_. PublishedSynced) (ResolverPrepare demo_prepare_request) demo_process = Some (Ok (Prepared a), p') \<and>
     load_resolver_state demo_denv (Ok (ro_file p')) = Ok s \<and> (\<exists>x. bt_get (rs_prepared s) 1 = Some x \<and> pr_statement x = da_statement a)"
proof -
  obtain a p' where
    run: "apply_resolver_request demo_denv demo_durable demo_part (\<lambda>_. PublishedSynced) (ResolverPrepare demo_prepare_request) demo_process = Some (Ok (Prepared a), p')"
    using demo_prepared by (auto simp del: apply_resolver_request.simps split: option.split_asm prod.split_asm result.split_asm resolver_response.split_asm)
  have "durable_config demo_durable" "state_json_faithful demo_denv" "rq_candidate_sequence demo_prepare_request = 1"
    "load_resolver_state demo_denv (Ok (ro_file demo_process)) = Ok (ro_state demo_process)"
    by (simp_all add: durable_config_def demo_durable_def stateless_config_def state_json_faithful_def demo_denv_def demo_prepare_request_def load_resolver_state_def)
  from answered_decisions_are_on_disk[OF this(1,2,4) run] this(3) run show ?thesis by (simp del: apply_resolver_request.simps)
qed

lemma demo_unsaved:
  "(case apply_prepare demo_denv demo_durable demo_part (\<lambda>_. NotPublished) demo_prepare_request demo_process of
      Some (Err e, p') \<Rightarrow> e = ResolverIo | _ \<Rightarrow> False)"
  by code_simp

theorem unsaved_decision_is_acknowledged_witness:
  "\<exists>a p'. apply_prepare demo_denv demo_durable demo_part (\<lambda>_. NotPublished) demo_prepare_request demo_process = Some (Err ResolverIo, p') \<and>
     apply_prepare demo_denv demo_durable demo_part (\<lambda>_. NotPublished) demo_prepare_request p' = Some (Ok a, p') \<and>
     load_resolver_state demo_denv (Ok (ro_file p')) = Ok resolver_state_default"
proof -
  obtain p' where run: "apply_prepare demo_denv demo_durable demo_part (\<lambda>_. NotPublished) demo_prepare_request demo_process = Some (Err ResolverIo, p')"
    using demo_unsaved by (auto split: option.split_asm prod.split_asm result.split_asm)
  have "durable_config demo_durable" "load_resolver_state demo_denv (Ok (ro_file demo_process)) = Ok (ro_state demo_process)"
    by (simp_all add: durable_config_def demo_durable_def stateless_config_def load_resolver_state_def)
  from unsaved_decision_is_acknowledged[OF this _ run] run show ?thesis by auto
qed
end
