(* ===== verification/Spec2Isabelle.thy ===== *)
theory Spec2Isabelle
  imports Okv_Prelude Mvcc_Model Mvcc_Oracle Publication Publication_Safety Publication_Properties Journal_Recovery Journal_Log
    Wal Wal_Frames Wal_Recovery Wal_Durability
    Commit_Envelope Commit_Model Commit_Safety
    Reconfiguration Reconfiguration_Safety
    Generation Generation_Safety
    Cell_Types Cell_Transaction Cell_Safety Cell_Feed
    Cell_Certificates Cell_Staged Cell_Staged_Safety Cell_Staged_Order Cell_Staged_Runs
    State_Machine State_Machine_Safety Machine_Snapshot Machine_Runs Publication_Capability Resolver_Runs
begin

text \<open>
  objectKV is an ordered transactional key-value store on object storage. A cell is a group of processes
  around one replicated log. Three authorities live behind the log: the generation authority decides which
  transaction system owns the cell, the transaction authority resolves and commits transactions, and the
  publication authority decides which objects are published, leased, collected and deleted. Each process
  keeps the log in a node journal; commits are also written to replicated tagged logs. This development models
  these parts from the Rust sources under \<open>src/crates\<close> and proves what they promise each other.

  \<^bold>\<open>How the code is modelled.\<close> A struct is a record, an enum a datatype, \<open>uN\<close> a word of N bits, a byte vector an
  \<open>8 word list\<close>, a \<open>BTreeMap\<close> a strictly sorted association list (\<open>Okv_Prelude\<close>), a \<open>Result\<close> the datatype
  \<open>result\<close> with \<open>try_bind\<close> for the question mark, and a panic the value None. State is passed explicitly.
  SHA-256, Ed25519 and the JSON serialisation are not part of the repository: they are function arguments or
  fields of \<open>generation_env\<close>, \<open>cell_env\<close>, \<open>machine_env\<close> and \<open>resolver_env\<close>. What a property needs of them is a named hypothesis
  (\<open>digest32\<close>: digests have 32 bytes; \<open>json_faithful\<close>: what is written is read back), and its witness
  instantiates them with concrete functions. The fault switches of the negative controls are kept in the
  definitions; the properties are about the settings without faults.

  \<^bold>\<open>Parts.\<close>
  \<^item> \<open>Okv_Prelude\<close>, \<open>Framing\<close>: results, saturating arithmetic, the ordered map with its contract
    \<open>ordered_map\<close>, big-endian integers, the interfaces \<open>prefix_free\<close> and \<open>prefix_codec\<close> of the wire formats,
    \<open>invariant_system\<close> of the deterministic state machines, and \<open>framed_log\<close> of a log of checksummed frames.
  \<^item> \<open>Mvcc_Model\<close>, \<open>Mvcc_Oracle\<close>: the specification model of \<open>okv-model/src/lib.rs\<close> (versions, batches, canonical
    form, multi-version reads, transaction views) and the full-snapshot oracle of \<open>history.rs\<close>. Commits are
    applied once, snapshots are stable, a view reads what it commits, and the model agrees with the oracle.
  \<^item> \<open>Publication\<close>, \<open>Publication_Safety\<close>, \<open>Publication_Properties\<close>: the authority of \<open>okv-publication/src/lib.rs\<close>.
    Accepted commands refine a step relation; roots change by compare and swap; deletion marks are
    current; collection respects readers; the floors and the frontier are ordered and never retreat.
  \<^item> \<open>Publication_Capability\<close>: the pop capability of \<open>okv-consensus/src/publication.rs\<close> and its quorum.
  \<^item> \<open>Node_Journal\<close>, \<open>Journal_Recovery\<close>, \<open>Journal_Log\<close>: \<open>okv-wal/src/node_journal.rs\<close>, with the file as its bytes
    and a write that may stop after any byte. After a crash the journal reopens to a prefix of what was
    appended that holds all that was synchronised; indices are consecutive.
  \<^item> \<open>Wal\<close>, \<open>Wal_Frames\<close>, \<open>Wal_Recovery\<close>, \<open>Wal_Durability\<close>: the replicated log of \<open>okv-wal/src/lib.rs\<close>. Acknowledged
    appends are recovered, recovery finds the longest quorum prefix and is sound.
  \<^item> \<open>Commit_Envelope\<close>, \<open>Commit_Model\<close>, \<open>Commit_Safety\<close>: the envelope codec and the commit contract of
    \<open>okv-sim/src/commit.rs\<close>. The codec is exact in both directions; outcomes are durable and unique.
  \<^item> \<open>Reconfiguration\<close>, \<open>Reconfiguration_Safety\<close>: \<open>okv-model/src/routine_reconfiguration.rs\<close>. Membership changes
    exactly as prepared.
  \<^item> \<open>Generation\<close>, \<open>Generation_Safety\<close>: the authority of \<open>okv-consensus/src/generation.rs\<close>. A generation has one
    transaction system, and a takeover needs a fence signed by a quorum of the old members.
  \<^item> \<open>Cell_Types\<close>, \<open>Cell_Transaction\<close>, \<open>Cell_Safety\<close>, \<open>Cell_Feed\<close>: the data and the direct path of
    \<open>okv-consensus/src/cell_transaction.rs\<close> (\<open>CellTransactionState::apply\<close>, resolver evidence, the envelope feed).
    Transactions are serializable in log order, envelopes form a hash chain, the feed is exact.
  \<^item> \<open>Cell_Certificates\<close>, \<open>Cell_Staged\<close>, \<open>Cell_Staged_Safety\<close>, \<open>Cell_Staged_Order\<close>, \<open>Cell_Staged_Runs\<close>: the certificates of
    the tagged logs and the staged path of the same file (\<open>apply_staged\<close>): policies, capacity, staging,
    evidence, publication and the three takeovers. \<open>staged_effect\<close> classifies what an action may do; from it
    follow durability before visibility, exact prefix recovery, and serializability in commit-sequence order.
  \<^item> \<open>State_Machine\<close>, \<open>State_Machine_Safety\<close>, \<open>Machine_Snapshot\<close>, \<open>Machine_Runs\<close>: \<open>okv-consensus/src/state_machine.rs\<close>,
    which puts the three authorities behind one log. Requests take effect once, one transaction system acts
    per generation, and snapshots survive a crash at any point of their write.
  \<^item> \<open>Resolver\<close>, \<open>Stateless_Resolvers\<close>, \<open>Resolver_Safety\<close>, \<open>Resolver_Evidence\<close>, \<open>Resolver_Runs\<close>: the resolver processes of
    \<open>okv-consensus/src/partitioned_resolver.rs\<close> in both modes, a set of memory-only ones behind a network that loses
    requests and replies, batches over them, and their replacement at a recovery floor (\<open>stateless_run\<close>). What
    all resolvers of a transaction accept, one resolver with the whole history accepts; the authority accepts
    their evidence; a durable resolver that answers has its state on disk, unless an earlier write failed.

  \<^bold>\<open>Interfaces.\<close> \<open>ordered_map\<close> is interpreted by the association lists (\<open>bt\<close>), \<open>framed_log\<close> by the journal and by the
  replicated log (\<open>journal\<close>, \<open>wal\<close>), \<open>prefix_codec\<close> by the readers of the envelope, \<open>invariant_system\<close> by the
  specification model, the publication authority, routine reconfiguration and the generation authority
  (\<open>mvcc\<close>, \<open>authority\<close>, \<open>routine\<close>, \<open>generation\<close>). The properties above rest on these interpretations.

  \<^bold>\<open>Bounds and termination.\<close> No definition has fuel. The two byte loops that do not recurse structurally
  (\<open>replay_loop\<close>, \<open>scan_loop\<close>) terminate by the length of the unread bytes; everything else is structural, so every
  operation returns. Integers keep their width; sequences and epochs saturate where the code saturates, and a
  property that needs the absence of saturation says so (\<open>unsaturated\<close>, generations below the last one).
  Lengths that do not fit their field are panics or errors as in the code. A 64-bit target is assumed.

  \<^bold>\<open>Limits of the staged order.\<close> Serializability of the staged path excludes three actions (\<open>plain_action\<close>): the
  two policy transitions, which raise the latest sequence without a staged transaction, and the single
  takeover publication, which can publish a visible transaction again; these are findings of the manifest.
  It is about domains driven by staged commands only.

  \<^bold>\<open>Not modelled.\<close>
  \<^item> The replication of the log: it is the openraft package; the adapters \<open>rpc.rs\<close>, \<open>process_node.rs\<close>,
    \<open>sim_network.rs\<close> and the storage traits of \<open>okv-consensus/src/lib.rs\<close> carry its types. The model starts from the
    sequence of committed log entries.
  \<^item> Sockets, retries by wall-clock time and process control: the clients, the proxies, and the
    programs \<open>*_contract.rs\<close>, \<open>*_curve.rs\<close>, \<open>cell_process_prototype.rs\<close>, \<open>multi_proxy_ordering.rs\<close>,
    \<open>online_resolver_split.rs\<close> and \<open>commit_proxy_recovery.rs\<close> of \<open>okv-consensus\<close>; of \<open>partitioned_resolver.rs\<close> the
    generation of transactions, the negative modes and the reports.
  \<^item> \<open>okv-object\<close>, \<open>okv-slate\<close>, \<open>okv-htap\<close>, \<open>okv-postgres\<close>: asynchronous adapters to object stores, SlateDB, Arrow and
    DataFusion, and PostgreSQL, whose behaviour is not in the repository.
  \<^item> The scenario programs \<open>publication_gc.rs\<close>, \<open>htap.rs\<close> and the runner of \<open>history.rs\<close> in \<open>okv-model\<close>, the simulator
    \<open>okv-sim/src/lib.rs\<close> and \<open>persisted_wal.rs\<close>, and \<open>okv-eval\<close>: seeded test programs and reports.
  \<^item> Error texts, which are reduced to one constructor per message, and the layout of the JSON documents.
\<close>
end
